(* ===== verification/Prelude.thy ===== *)
theory Prelude
  imports Main "HOL-Library.Word" "HOL-Library.AList"
begin

text \<open>
  Shared vocabulary of the development.

  \<^item> machine integers: \<open>byte\<close>, \<open>u16\<close>, \<open>u32\<close>, \<open>u64\<close> are the
    \<open>uint8_t\<close> to \<open>uint64_t\<close> of the sources;
  \<^item> a \<open>std::string\<close> is a \<open>string\<close> (a list of 8-bit characters); a non-null
    interned account id (see theory Ids) is named by its string, a nullable pointer is an
    \<open>option\<close>;
  \<^item> an SDK enumeration and \<open>EOS_Bool\<close> are integers (\<open>enum\<close>), because the code
    casts them to and from wire bytes without checking them;
  \<^item> \<open>std::unordered_map\<close> is an association list with distinct keys whose order stands
    for the (unspecified) iteration order: \<open>operator[]\<close> assignment is
    \<open>AList.update\<close>, \<open>erase\<close> is \<open>AList.delete\<close>, \<open>find\<close> is
    \<open>map_of\<close>;
  \<^item> \<open>std::map\<close> is an association list kept sorted by
    \<open>smap_put\<close>;
  \<^item> time is the \<open>steady_clock\<close> reading in nanoseconds, an \<open>int\<close>.
\<close>

section \<open>Types\<close>

type_synonym byte = "8 word"
type_synonym u16 = "16 word"
type_synonym u32 = "32 word"
type_synonym u64 = "64 word"
type_synonym bytes = "byte list"
type_synonym puid = string
type_synonym epic = string
type_synonym enum = int
type_synonym time_ns = int
type_synonym ('k, 'v) amap = "('k \<times> 'v) list"

text \<open>The result codes the modelled entry points return (\<open>EOS_EResult\<close>).\<close>

datatype eresult =
    EOS_Success
  | EOS_InvalidParameters
  | EOS_InvalidUser
  | EOS_IncompatibleVersion
  | EOS_LimitExceeded
  | EOS_NotFound
  | EOS_NoConnection
  | EOS_NoChange
  | EOS_AlreadyConfigured
  | EOS_NotConfigured
  | EOS_UnexpectedError
  | EOS_Lobby_NotOwner
  | EOS_InvalidAuth
  | EOS_Canceled
  | EOS_NotImplemented
  | EOS_AccessDenied
  | EOS_PlayerDataStorage_FilenameInvalid
  | EOS_PlayerDataStorage_FilenameLengthInvalid
  | EOS_PlayerDataStorage_FileSizeTooLarge
  | EOS_PlayerDataStorage_UserErrorFromDataCallback

definition EOS_TRUE :: int where "EOS_TRUE = 1"
definition EOS_FALSE :: int where "EOS_FALSE = 0"

definition ms :: "int \<Rightarrow> time_ns" where
  "ms n = n * 1000000"

definition secs :: "int \<Rightarrow> time_ns" where
  "secs n = n * 1000000000"

named_theorems wire_simps \<open>unfolding the wire writers\<close>
named_theorems reader_simps \<open>running the readers on encoded input\<close>
named_theorems inv_intros \<open>invariant preservation facts\<close>

section \<open>Characters and bytes\<close>

definition byte_of_char :: "char \<Rightarrow> byte" where
  "byte_of_char c = word_of_nat (of_char c)"

definition char_of_byte :: "byte \<Rightarrow> char" where
  "char_of_byte b = char_of (unat b)"

lemma char_of_byte_of_char [simp]: "char_of_byte (byte_of_char c) = c"
proof -
  have "of_char c < (256::nat)" by simp
  then have "unat (word_of_nat (of_char c) :: byte) = of_char c"
    by (simp add: unat_of_nat take_bit_eq_mod)
  then show ?thesis by (simp add: char_of_byte_def byte_of_char_def)
qed

definition str_bytes :: "string \<Rightarrow> bytes" where
  "str_bytes = map byte_of_char"

definition bytes_str :: "bytes \<Rightarrow> string" where
  "bytes_str = map char_of_byte"

lemma bytes_str_str_bytes [simp]: "bytes_str (str_bytes s) = s"
  by (simp add: bytes_str_def str_bytes_def comp_def)

lemma length_str_bytes [simp]: "length (str_bytes s) = length s"
  by (simp add: str_bytes_def)

lemma length_bytes_str [simp]: "length (bytes_str bs) = length bs"
  by (simp add: bytes_str_def)

section \<open>Splitting strings\<close>

text \<open>The segments between the occurrences of a separator; a string without one is one segment.\<close>

fun split_on :: "char \<Rightarrow> string \<Rightarrow> string list" where
  "split_on c [] = [[]]"
| "split_on c (x # xs) =
     (if x = c then [] # split_on c xs
      else (case split_on c xs of [] \<Rightarrow> [[x]] | y # ys \<Rightarrow> (x # y) # ys))"

lemma split_on_nonempty [simp]: "split_on c s \<noteq> []"
  by (induction s) (auto split: list.splits)

lemma split_on_plain: "c \<notin> set s \<Longrightarrow> split_on c s = [s]"
  by (induction s) auto

lemma split_on_append: "c \<notin> set s \<Longrightarrow> split_on c (s @ c # t) = s # split_on c t"
  by (induction s) auto

section \<open>Association lists as unordered maps\<close>

abbreviation keys :: "('k, 'v) amap \<Rightarrow> 'k list" where
  "keys m \<equiv> map fst m"

lemma map_of_update [simp]: "map_of (AList.update k v m) = (map_of m)(k \<mapsto> v)"
  by (rule update_conv')

lemma map_of_adelete [simp]: "map_of (AList.delete k m) = (map_of m)(k := None)"
  by (rule delete_conv')

lemma distinct_keys_update [intro, simp]:
  "distinct (keys m) \<Longrightarrow> distinct (keys (AList.update k v m))"
  by (rule distinct_update)

lemma keys_delete: "keys (AList.delete k m) = filter (\<lambda>x. x \<noteq> k) (keys m)"
  by (induction m) auto

lemma distinct_keys_delete [intro, simp]:
  "distinct (keys m) \<Longrightarrow> distinct (keys (AList.delete k m))"
  by (simp add: keys_delete)

lemma distinct_keys_filter [intro, simp]:
  "distinct (keys m) \<Longrightarrow> distinct (keys (filter P m))"
  by (induction m) auto

lemma set_keys_update: "set (keys (AList.update k v m)) = insert k (set (keys m))"
  by (induction m) auto

lemma length_delete_less:
  "map_of m k = Some v \<Longrightarrow> length (AList.delete k m) < length m"
proof (induction m)
  case Nil
  then show ?case by simp
next
  case (Cons p m)
  show ?case
  proof (cases "fst p = k")
    case True
    have "length (AList.delete k m) \<le> length m" by (rule length_delete_le)
    with True show ?thesis by (cases p) (auto simp: delete_simps)
  next
    case False
    with Cons show ?thesis by (cases p) (auto simp: delete_simps)
  qed
qed

lemma map_of_filter_keys:
  "map_of (filter (\<lambda>(k, v). P k) m) = (\<lambda>k. if P k then map_of m k else None)"
  by (induction m) (auto simp: fun_eq_iff)

lemma set_update_subset: "set (AList.update k v m) \<subseteq> insert (k, v) (set m)"
  by (induction m) auto

text \<open>A map all of whose entries satisfy a predicate of key and value.\<close>

definition map_ok :: "('k \<Rightarrow> 'v \<Rightarrow> bool) \<Rightarrow> ('k, 'v) amap \<Rightarrow> bool" where
  "map_ok P m \<longleftrightarrow> distinct (keys m) \<and> (\<forall>(k, v) \<in> set m. P k v)"

lemma map_ok_Nil [simp]: "map_ok P []"
  by (simp add: map_ok_def)

lemma map_ok_Cons: "map_ok P ((k, v) # m) \<longleftrightarrow> k \<notin> set (keys m) \<and> P k v \<and> map_ok P m"
  by (auto simp: map_ok_def)

lemma map_ok_update [intro]: "map_ok P m \<Longrightarrow> P k v \<Longrightarrow> map_ok P (AList.update k v m)"
  using set_update_subset [of k v m] by (auto simp: map_ok_def)

lemma map_ok_filter [intro]: "map_ok P m \<Longrightarrow> map_ok P (filter Q m)"
  by (auto simp: map_ok_def)

lemma map_ok_delete [intro]: "map_ok P m \<Longrightarrow> map_ok P (AList.delete k m)"
  by (simp add: AList.delete_eq map_ok_filter)

lemma map_ok_get: "map_ok P m \<Longrightarrow> map_of m k = Some v \<Longrightarrow> P k v"
  by (auto simp: map_ok_def dest!: map_of_SomeD)

lemma map_ok_mem: "map_ok P m \<Longrightarrow> (k, v) \<in> set m \<longleftrightarrow> map_of m k = Some v"
  by (auto simp: map_ok_def dest: map_of_SomeD)

lemma map_ok_mono: "map_ok P m \<Longrightarrow> (\<And>k v. P k v \<Longrightarrow> Q k v) \<Longrightarrow> map_ok Q m"
  by (auto simp: map_ok_def)

section \<open>Ordered maps\<close>

text \<open>\<open>std::map::operator[] = v\<close>: replace the value of an existing key, otherwise insert
  in key order.\<close>

fun smap_put :: "'k::linorder \<Rightarrow> 'v \<Rightarrow> ('k, 'v) amap \<Rightarrow> ('k, 'v) amap" where
  "smap_put k v [] = [(k, v)]"
| "smap_put k v ((j, w) # m) =
     (if k < j then (k, v) # (j, w) # m
      else if k = j then (k, v) # m
      else (j, w) # smap_put k v m)"

definition smap_ok :: "('k::linorder, 'v) amap \<Rightarrow> bool" where
  "smap_ok m \<longleftrightarrow> sorted_wrt (<) (keys m)"

lemma smap_ok_Nil [simp]: "smap_ok []"
  by (simp add: smap_ok_def)

lemma smap_ok_Cons: "smap_ok ((k, v) # m) \<longleftrightarrow> (\<forall>j \<in> set (keys m). k < j) \<and> smap_ok m"
  by (simp add: smap_ok_def)

lemma smap_ok_tl: "smap_ok (p # m) \<Longrightarrow> smap_ok m"
  by (simp add: smap_ok_def)

lemma smap_ok_distinct: "smap_ok m \<Longrightarrow> distinct (keys m)"
  by (auto simp: smap_ok_def strict_sorted_iff)

lemma set_keys_smap_put: "set (keys (smap_put k v m)) = insert k (set (keys m))"
  by (induction k v m rule: smap_put.induct) auto

lemma set_smap_put_subset: "set (smap_put k v m) \<subseteq> insert (k, v) (set m)"
  by (induction k v m rule: smap_put.induct) auto

lemma smap_ok_put [intro]: "smap_ok m \<Longrightarrow> smap_ok (smap_put k v m)"
proof (induction k v m rule: smap_put.induct)
  case (1 k v)
  then show ?case by (simp add: smap_ok_Cons)
next
  case (2 k v j w m)
  then show ?case
    by (auto simp: smap_ok_Cons set_keys_smap_put simp del: set_map)
qed

lemma map_of_smap_put_any: "map_of (smap_put k v m) = (map_of m)(k \<mapsto> v)"
  by (induction k v m rule: smap_put.induct) (auto simp: fun_eq_iff)

lemma map_of_smap_put: "smap_ok m \<Longrightarrow> map_of (smap_put k v m) = (map_of m)(k \<mapsto> v)"
proof (induction k v m rule: smap_put.induct)
  case (1 k v)
  then show ?case by simp
next
  case (2 k v j w m)
  then show ?case by (auto simp: smap_ok_Cons fun_eq_iff)
qed

lemma smap_ok_delete [intro]: "smap_ok m \<Longrightarrow> smap_ok (AList.delete k m)"
  by (simp add: smap_ok_def keys_delete sorted_wrt_filter)

lemma smap_put_fresh_last:
  "smap_ok m \<Longrightarrow> (\<And>j. j \<in> set (keys m) \<Longrightarrow> j < k) \<Longrightarrow> smap_put k v m = m @ [(k, v)]"
proof (induction k v m rule: smap_put.induct)
  case (1 k v)
  then show ?case by simp
next
  case (2 k v j w m)
  from "2.prems"(2) [of j] have "j < k" by simp
  then have lt: "\<not> k < j" "k \<noteq> j" by simp_all
  have "smap_ok m" using "2.prems"(1) by (simp add: smap_ok_Cons)
  moreover have "i < k" if "i \<in> set (keys m)" for i
    using that "2.prems"(2) by simp
  ultimately have "smap_put k v m = m @ [(k, v)]"
    using "2.IH" lt by blast
  with lt show ?case by simp
qed

section \<open>Lists\<close>

lemma sum_list_filter_split:
  "sum_list (map f (filter P xs)) + sum_list (map f (filter (\<lambda>x. \<not> P x) xs)) = (sum_list (map f xs) :: nat)"
  by (induction xs) auto

lemma takeWhile_all_take: "set (takeWhile P (take n xs)) \<subseteq> {x. P x}"
  by (auto dest: set_takeWhileD)

lemma set_drop_distinct: "distinct xs \<Longrightarrow> set (drop n xs) = set xs - set (take n xs)"
proof -
  assume "distinct xs"
  then have "set (take n xs) \<inter> set (drop n xs) = {}" by (simp add: set_take_disj_set_drop_if_distinct)
  moreover have "set xs = set (take n xs) \<union> set (drop n xs)" by (metis append_take_drop_id set_append)
  ultimately show ?thesis by blast
qed

text \<open>Erasing the first element that satisfies a predicate, the shape of every
  "find it, erase it, break" loop of the sources.\<close>

fun erase_first :: "('a \<Rightarrow> bool) \<Rightarrow> 'a list \<Rightarrow> 'a list" where
  "erase_first P [] = []"
| "erase_first P (x # xs) = (if P x then xs else x # erase_first P xs)"

lemma erase_first_split:
  "\<not> (\<exists>x \<in> set xs. P x) \<Longrightarrow> erase_first P xs = xs"
  by (induction xs) auto

lemma set_erase_first_subset: "set (erase_first P xs) \<subseteq> set xs"
  by (induction xs) auto

lemma length_erase_first:
  "length (erase_first P xs) = (if \<exists>x \<in> set xs. P x then length xs - 1 else length xs)"
proof (induction xs)
  case Nil
  then show ?case by simp
next
  case (Cons x xs)
  then show ?case by (cases xs) auto
qed

lemma map_erase_first_distinct:
  "distinct (map f xs) \<Longrightarrow> map f (erase_first (\<lambda>x. f x = k) xs) = filter (\<lambda>y. y \<noteq> k) (map f xs)"
proof (induction xs)
  case Nil
  then show ?case by simp
next
  case (Cons x xs)
  show ?case
  proof (cases "f x = k")
    case True
    with Cons.prems have "k \<notin> set (map f xs)" by auto
    then have "filter (\<lambda>y. y \<noteq> k) (map f xs) = map f xs" by (intro filter_True) auto
    with True show ?thesis by simp
  next
    case False
    with Cons show ?thesis by simp
  qed
qed

end
