(* ===== verification/Serialize.thy ===== *)
theory Serialize
  imports Prelude
begin

text \<open>
  The LAN payload encoding of \<open>src/net/Serialize.h\<close>: little-endian integers and
  length-prefixed strings (\<open>ByteWriter\<close>), and bounds-checked reads that fail closed
  (\<open>ByteReader\<close>).

  A \<open>ByteWriter\<close> is the byte list it has appended so far, so a sequence of writer calls is
  the concatenation of what each call appends (\<open>enc_u8\<close>, \<open>enc_str\<close>, ...).  A
  \<open>ByteReader\<close> keeps its buffer, position and \<open>Ok_\<close> flag (record \<open>reader\<close>), so
  that "never reads past the buffer" is a statement about positions (\<open>rd_safe\<close>).
  Two interfaces are locales: \<open>wire_codec\<close> (a writer and the reader that inverts it) and
  \<open>safe_reader\<close> (a read that stays inside the buffer); both are interpreted on every
  primitive here and on every composite payload in the theories of the components.
\<close>

section \<open>Little-endian integers\<close>

fun le_bytes :: "nat \<Rightarrow> nat \<Rightarrow> bytes" where
  "le_bytes 0 x = []"
| "le_bytes (Suc n) x = word_of_nat (x mod 256) # le_bytes n (x div 256)"

fun of_le :: "bytes \<Rightarrow> nat" where
  "of_le [] = 0"
| "of_le (b # bs) = unat b + 256 * of_le bs"

lemma length_le_bytes [simp]: "length (le_bytes n x) = n"
  by (induction n x rule: le_bytes.induct) auto

lemma unat_byte_mod: "unat (word_of_nat (x mod 256) :: byte) = x mod 256"
  by (simp add: unat_of_nat take_bit_eq_mod)

lemma of_le_le_bytes: "x < 256 ^ n \<Longrightarrow> of_le (le_bytes n x) = x"
proof (induction n x rule: le_bytes.induct)
  case (1 x)
  then show ?case by simp
next
  case (2 n x)
  from "2.prems" have "x div 256 < 256 ^ n"
    by (simp add: less_mult_imp_div_less mult.commute)
  with "2.IH" show ?case by (simp add: unat_byte_mod)
qed

lemma of_le_bound: "of_le bs < 256 ^ length bs"
proof (induction bs)
  case Nil
  then show ?case by simp
next
  case (Cons b bs)
  have "unat b < 256" using unsigned_less [of b] by simp
  with Cons show ?case by simp
qed

section \<open>ByteWriter\<close>

definition enc_u8 :: "byte \<Rightarrow> bytes" where
  "enc_u8 v = [v]"

definition enc_u16 :: "u16 \<Rightarrow> bytes" where
  "enc_u16 v = le_bytes 2 (unat v)"

definition enc_u32 :: "u32 \<Rightarrow> bytes" where
  "enc_u32 v = le_bytes 4 (unat v)"

definition enc_u64 :: "u64 \<Rightarrow> bytes" where
  "enc_u64 v = le_bytes 8 (unat v)"

text \<open>\<open>I64\<close> and \<open>Dbl\<close> copy the 8-byte memory image; the value is carried as its
  64-bit pattern.\<close>

definition enc_i64 :: "u64 \<Rightarrow> bytes" where
  "enc_i64 v = le_bytes 8 (unat v)"

definition enc_dbl :: "u64 \<Rightarrow> bytes" where
  "enc_dbl v = le_bytes 8 (unat v)"

definition enc_bool :: "bool \<Rightarrow> bytes" where
  "enc_bool b = enc_u8 (if b then 1 else 0)"

definition enc_str :: "string \<Rightarrow> bytes" where
  "enc_str s = enc_u32 (word_of_nat (length s)) @ str_bytes s"

definition enc_bytes :: "bytes \<Rightarrow> bytes" where
  "enc_bytes d = enc_u32 (word_of_nat (length d)) @ d"

text \<open>\<open>ByteWriter::Size\<close> casts the buffer length to 16 bits.\<close>

definition W_Size :: "bytes \<Rightarrow> u16" where
  "W_Size buf = word_of_nat (length buf)"

lemma length_enc [simp]:
  "length (enc_u8 b) = 1" "length (enc_u16 h) = 2" "length (enc_u32 w) = 4"
  "length (enc_u64 v) = 8" "length (enc_i64 v) = 8" "length (enc_dbl v) = 8"
  "length (enc_bool t) = 1" "length (enc_str s) = 4 + length s"
  "length (enc_bytes d) = 4 + length d"
  by (simp_all add: enc_u8_def enc_u16_def enc_u32_def enc_u64_def enc_i64_def enc_dbl_def
      enc_bool_def enc_str_def enc_bytes_def)

lemma unat_W_Size: "unat (W_Size buf) = length buf mod 65536"
  by (simp add: W_Size_def unat_of_nat take_bit_eq_mod)

section \<open>ByteReader\<close>

record reader =
  rdData :: bytes
  rdPos :: nat
  rdOk :: bool

definition reader_init :: "bytes \<Rightarrow> reader" where
  "reader_init d = \<lparr>rdData = d, rdPos = 0, rdOk = True\<rparr>"

definition Remaining :: "reader \<Rightarrow> nat" where
  "Remaining r = length (rdData r) - rdPos r"

definition rd_fail :: "reader \<Rightarrow> reader" where
  "rd_fail r = r\<lparr>rdOk := False\<rparr>"

definition rd_adv :: "reader \<Rightarrow> nat \<Rightarrow> reader" where
  "rd_adv r n = r\<lparr>rdPos := rdPos r + n\<rparr>"

text \<open>\<open>ByteReader::Read\<close>: an out-parameter that keeps its zero initialisation when the
  read fails.\<close>

definition rd_uint :: "nat \<Rightarrow> reader \<Rightarrow> nat \<times> reader" where
  "rd_uint n r =
     (if \<not> rdOk r \<or> Remaining r < n then (0, rd_fail r)
      else (of_le (take n (drop (rdPos r) (rdData r))), rd_adv r n))"

definition rd_u8 :: "reader \<Rightarrow> byte \<times> reader" where
  "rd_u8 r = apfst word_of_nat (rd_uint 1 r)"

definition rd_u16 :: "reader \<Rightarrow> u16 \<times> reader" where
  "rd_u16 r = apfst word_of_nat (rd_uint 2 r)"

definition rd_u32 :: "reader \<Rightarrow> u32 \<times> reader" where
  "rd_u32 r = apfst word_of_nat (rd_uint 4 r)"

definition rd_u64 :: "reader \<Rightarrow> u64 \<times> reader" where
  "rd_u64 r = apfst word_of_nat (rd_uint 8 r)"

definition rd_i64 :: "reader \<Rightarrow> u64 \<times> reader" where
  "rd_i64 r = apfst word_of_nat (rd_uint 8 r)"

definition rd_dbl :: "reader \<Rightarrow> u64 \<times> reader" where
  "rd_dbl r = apfst word_of_nat (rd_uint 8 r)"

definition rd_bool :: "reader \<Rightarrow> bool \<times> reader" where
  "rd_bool r = apfst (\<lambda>b. b \<noteq> 0) (rd_u8 r)"

definition rd_bytes :: "reader \<Rightarrow> bytes \<times> reader" where
  "rd_bytes r =
     (let (w, r1) = rd_u32 r; n = unat w in
      if \<not> rdOk r1 \<or> n > Remaining r1 then ([], rd_fail r1)
      else (take n (drop (rdPos r1) (rdData r1)), rd_adv r1 n))"

definition rd_str :: "reader \<Rightarrow> string \<times> reader" where
  "rd_str r =
     (let (w, r1) = rd_u32 r; n = unat w in
      if \<not> rdOk r1 \<or> n > Remaining r1 then ([], rd_fail r1)
      else (bytes_str (take n (drop (rdPos r1) (rdData r1))), rd_adv r1 n))"

text \<open>The counted loops of the payload readers:
  \<open>for (i = 0; i < Count && R.Ok(); ++i) Out.push_back(read(R))\<close>.\<close>

fun rd_many :: "(reader \<Rightarrow> 'a \<times> reader) \<Rightarrow> nat \<Rightarrow> reader \<Rightarrow> 'a list \<times> reader" where
  "rd_many f 0 r = ([], r)"
| "rd_many f (Suc n) r =
     (if \<not> rdOk r then ([], r)
      else (case f r of (x, r1) \<Rightarrow> (case rd_many f n r1 of (xs, r2) \<Rightarrow> (x # xs, r2))))"

section \<open>Position safety\<close>

definition rd_inv :: "reader \<Rightarrow> bool" where
  "rd_inv r \<longleftrightarrow> rdPos r \<le> length (rdData r)"

definition rd_safe :: "reader \<Rightarrow> reader \<Rightarrow> bool" where
  "rd_safe r r' \<longleftrightarrow> rdData r' = rdData r \<and> rdPos r \<le> rdPos r' \<and>
     (rdPos r \<le> length (rdData r) \<longrightarrow> rdPos r' \<le> length (rdData r)) \<and>
     (rdOk r' \<longrightarrow> rdOk r)"

lemma rd_safe_refl [simp]: "rd_safe r r"
  by (simp add: rd_safe_def)

lemma rd_safe_trans [trans]: "rd_safe r r1 \<Longrightarrow> rd_safe r1 r2 \<Longrightarrow> rd_safe r r2"
  by (auto simp: rd_safe_def)

lemma rd_safe_fail [simp]: "rd_safe r (rd_fail r)"
  by (simp add: rd_safe_def rd_fail_def)

lemma rd_safe_inv: "rd_safe r r' \<Longrightarrow> rd_inv r \<Longrightarrow> rd_inv r'"
  by (auto simp: rd_safe_def rd_inv_def)

lemma rd_safe_adv: "n \<le> Remaining r \<Longrightarrow> rd_safe r (rd_adv r n)"
  by (auto simp: rd_safe_def rd_adv_def Remaining_def)

lemma rd_safe_then_adv: "rd_safe r r1 \<Longrightarrow> n \<le> Remaining r1 \<Longrightarrow> rd_safe r (rd_adv r1 n)"
  using rd_safe_trans rd_safe_adv by blast

lemma rd_safe_then_fail: "rd_safe r r1 \<Longrightarrow> rd_safe r (rd_fail r1)"
  using rd_safe_trans rd_safe_fail by blast

lemma rd_inv_init [simp]: "rd_inv (reader_init d)"
  by (simp add: rd_inv_def reader_init_def)

text \<open>A read operation of the code: it never moves backwards or past the end, leaves the
  buffer alone, and never clears a failure.\<close>

locale safe_reader =
  fixes rd :: "reader \<Rightarrow> 'a \<times> reader"
  assumes safe: "rd_safe r (snd (rd r))"
begin

lemma safe_case: "rd r = (x, r') \<Longrightarrow> rd_safe r r'"
  using safe [of r] by simp

lemma keeps_inv: "rd_inv r \<Longrightarrow> rd_inv (snd (rd r))"
  using safe rd_safe_inv by blast

lemma sticky: "\<not> rdOk r \<Longrightarrow> \<not> rdOk (snd (rd r))"
  using safe [of r] by (auto simp: rd_safe_def)

lemma many_safe: "rd_safe r (snd (rd_many rd n r))"
proof (induction n arbitrary: r)
  case 0
  then show ?case by simp
next
  case (Suc n)
  obtain x r1 where r1: "rd r = (x, r1)" by (cases "rd r")
  with safe [of r] Suc.IH [of r1] show ?case
    by (auto simp: case_prod_beta intro: rd_safe_trans)
qed

end

lemma rd_uint_safe: "rd_safe r (snd (rd_uint n r))"
  by (simp add: rd_uint_def rd_safe_adv)

interpretation u8_safe: safe_reader rd_u8
  by unfold_locales (simp add: rd_u8_def rd_uint_safe)

interpretation u16_safe: safe_reader rd_u16
  by unfold_locales (simp add: rd_u16_def rd_uint_safe)

interpretation u32_safe: safe_reader rd_u32
  by unfold_locales (simp add: rd_u32_def rd_uint_safe)

interpretation u64_safe: safe_reader rd_u64
  by unfold_locales (simp add: rd_u64_def rd_uint_safe)

interpretation i64_safe: safe_reader rd_i64
  by unfold_locales (simp add: rd_i64_def rd_uint_safe)

interpretation dbl_safe: safe_reader rd_dbl
  by unfold_locales (simp add: rd_dbl_def rd_uint_safe)

interpretation bool_safe: safe_reader rd_bool
  by unfold_locales (simp add: rd_bool_def u8_safe.safe)

interpretation str_safe: safe_reader rd_str
  by unfold_locales
    (auto simp: rd_str_def Let_def case_prod_beta
      intro: rd_safe_then_fail rd_safe_then_adv u32_safe.safe)

interpretation bytes_safe: safe_reader rd_bytes
  by unfold_locales
    (auto simp: rd_bytes_def Let_def case_prod_beta
      intro: rd_safe_then_fail rd_safe_then_adv u32_safe.safe)

section \<open>Writers and the readers that invert them\<close>

text \<open>\<open>rd_at r bs\<close>: the reader has not failed and exactly \<open>bs\<close> is left to read.\<close>

definition rd_at :: "reader \<Rightarrow> bytes \<Rightarrow> bool" where
  "rd_at r bs \<longleftrightarrow> rdOk r \<and> rdPos r \<le> length (rdData r) \<and> drop (rdPos r) (rdData r) = bs"

lemma rd_at_init [simp]: "rd_at (reader_init d) bs \<longleftrightarrow> d = bs"
  by (simp add: rd_at_def reader_init_def)

lemma rd_at_Remaining: "rd_at r bs \<Longrightarrow> Remaining r = length bs"
  by (auto simp: rd_at_def Remaining_def)

lemma rd_at_ok [simp]: "rd_at r bs \<Longrightarrow> rdOk r"
  by (simp add: rd_at_def)

lemma rd_at_adv: "rd_at r (a @ bs) \<Longrightarrow> n = length a \<Longrightarrow> rd_at (rd_adv r n) bs"
proof -
  assume a: "rd_at r (a @ bs)" and n: "n = length a"
  have d: "drop (rdPos r) (rdData r) = a @ bs" using a by (simp add: rd_at_def)
  then have "length (rdData r) - rdPos r = length a + length bs"
    by (metis length_append length_drop)
  moreover have "drop (rdPos r + n) (rdData r) = bs"
    using d n by (metis add.commute append_eq_conv_conj drop_drop)
  ultimately show ?thesis using a n by (auto simp: rd_at_def rd_adv_def)
qed

lemma rd_adv_adv [simp]: "rd_adv (rd_adv r m) n = rd_adv r (m + n)"
  by (simp add: rd_adv_def add.assoc)

lemma rd_adv_0 [simp]: "rd_adv r 0 = r"
  by (simp add: rd_adv_def)

lemma rdOk_adv [simp]: "rdOk (rd_adv r n) = rdOk r"
  by (simp add: rd_adv_def)

locale wire_codec =
  fixes enc :: "'a \<Rightarrow> bytes"
    and dec :: "reader \<Rightarrow> 'a \<times> reader"
    and wf :: "'a \<Rightarrow> bool"
  assumes dec_enc: "wf x \<Longrightarrow> rd_at r (enc x @ bs) \<Longrightarrow> dec r = (x, rd_adv r (length (enc x)))"
begin

lemma dec_step:
  assumes "wf x" and "rd_at r (enc x @ bs)"
  shows "\<exists>r'. dec r = (x, r') \<and> rd_at r' bs"
  using dec_enc [OF assms] rd_at_adv [OF assms(2) refl] by blast

lemma dec_rest:
  assumes "wf x" and "rd_at r (enc x @ bs)"
  shows "rd_at (snd (dec r)) bs"
  using dec_enc [OF assms] rd_at_adv [OF assms(2) refl] by simp

lemma roundtrip: "wf x \<Longrightarrow> fst (dec (reader_init (enc x))) = x"
  using dec_enc [of x "reader_init (enc x)" "[]"] by simp

lemma many:
  assumes "\<forall>x \<in> set xs. wf x" and "rd_at r (concat (map enc xs) @ bs)"
  shows "rd_many dec (length xs) r = (xs, rd_adv r (length (concat (map enc xs))))"
  using assms
proof (induction xs arbitrary: r)
  case Nil
  then show ?case by simp
next
  case (Cons x xs)
  from Cons.prems have at: "rd_at r (enc x @ concat (map enc xs) @ bs)" and wf: "wf x" by simp_all
  from dec_enc [OF wf at] have d: "dec r = (x, rd_adv r (length (enc x)))" .
  from rd_at_adv [OF at refl]
  have "rd_at (rd_adv r (length (enc x))) (concat (map enc xs) @ bs)" .
  with Cons have "rd_many dec (length xs) (rd_adv r (length (enc x))) =
      (xs, rd_adv (rd_adv r (length (enc x))) (length (concat (map enc xs))))" by simp
  with d at show ?case by simp
qed

lemma prefix_free:
  assumes "wf x" "wf y" "enc x @ a = enc y @ b"
  shows "x = y \<and> a = b"
proof -
  have "dec (reader_init (enc x @ a)) = (x, rd_adv (reader_init (enc x @ a)) (length (enc x)))"
    using dec_enc [OF assms(1), of "reader_init (enc x @ a)" a] by simp
  moreover have "dec (reader_init (enc x @ a)) = (y, rd_adv (reader_init (enc x @ a)) (length (enc y)))"
    using dec_enc [OF assms(2), of "reader_init (enc x @ a)" b] assms(3) by simp
  ultimately have "x = y" by simp
  with assms(3) show ?thesis by simp
qed

end

lemma rd_uint_at:
  assumes "rd_at r (le_bytes n x @ bs)" and "x < 256 ^ n"
  shows "rd_uint n r = (x, rd_adv r n)"
proof -
  from assms(1) have "drop (rdPos r) (rdData r) = le_bytes n x @ bs" by (simp add: rd_at_def)
  moreover have "\<not> Remaining r < n" using rd_at_Remaining [OF assms(1)] by simp
  ultimately show ?thesis using assms by (simp add: rd_uint_def of_le_le_bytes)
qed

lemma unat_lt_numerals:
  "unat (b :: byte) < 256 ^ 1" "unat (h :: u16) < 256 ^ 2" "unat (w :: u32) < 256 ^ 4"
  "unat (v :: u64) < 256 ^ 8"
  using unsigned_less [of b] unsigned_less [of h] unsigned_less [of w] unsigned_less [of v] by simp_all

interpretation u8: wire_codec enc_u8 rd_u8 "\<lambda>_. True"
proof unfold_locales
  fix x r bs
  assume "rd_at r (enc_u8 x @ bs)"
  moreover have "enc_u8 x = le_bytes 1 (unat x)"
    using unat_lt_numerals(1) [of x] by (simp add: enc_u8_def)
  ultimately have "rd_uint 1 r = (unat x, rd_adv r 1)"
    by (metis rd_uint_at unat_lt_numerals(1))
  then show "rd_u8 r = (x, rd_adv r (length (enc_u8 x)))" by (simp add: rd_u8_def)
qed

interpretation u16: wire_codec enc_u16 rd_u16 "\<lambda>_. True"
  by unfold_locales (simp add: rd_u16_def enc_u16_def rd_uint_at [OF _ unat_lt_numerals(2)])

interpretation u32: wire_codec enc_u32 rd_u32 "\<lambda>_. True"
  by unfold_locales (simp add: rd_u32_def enc_u32_def rd_uint_at [OF _ unat_lt_numerals(3)])

interpretation u64: wire_codec enc_u64 rd_u64 "\<lambda>_. True"
  by unfold_locales (simp add: rd_u64_def enc_u64_def rd_uint_at [OF _ unat_lt_numerals(4)])

interpretation i64: wire_codec enc_i64 rd_i64 "\<lambda>_. True"
  by unfold_locales (simp add: rd_i64_def enc_i64_def rd_uint_at [OF _ unat_lt_numerals(4)])

interpretation dbl: wire_codec enc_dbl rd_dbl "\<lambda>_. True"
  by unfold_locales (simp add: rd_dbl_def enc_dbl_def rd_uint_at [OF _ unat_lt_numerals(4)])

interpretation bool: wire_codec enc_bool rd_bool "\<lambda>_. True"
  by unfold_locales (auto simp: rd_bool_def enc_bool_def u8.dec_enc)

definition short :: "'a list \<Rightarrow> bool" where
  "short xs \<longleftrightarrow> length xs < 2 ^ 32"

lemma unat_len_short: "short xs \<Longrightarrow> unat (word_of_nat (length xs) :: u32) = length xs"
  by (simp add: short_def unat_of_nat take_bit_eq_mod)

interpretation bytes: wire_codec enc_bytes rd_bytes short
proof unfold_locales
  fix x :: bytes and r bs
  assume s: "short x" and "rd_at r (enc_bytes x @ bs)"
  then have at: "rd_at r (enc_u32 (word_of_nat (length x)) @ x @ bs)" by (simp add: enc_bytes_def)
  have at2: "rd_at (rd_adv r 4) (x @ bs)" using rd_at_adv [OF at] by simp
  moreover have "drop (rdPos r + 4) (rdData r) = x @ bs"
    using at2 by (simp add: rd_at_def rd_adv_def)
  ultimately show "rd_bytes r = (x, rd_adv r (length (enc_bytes x)))"
    using u32.dec_enc [OF TrueI at] rd_at_Remaining [OF at2] s
    by (simp add: rd_bytes_def unat_len_short rd_adv_def add.assoc)
qed

interpretation str: wire_codec enc_str rd_str short
proof unfold_locales
  fix x :: string and r bs
  assume s: "short x" and "rd_at r (enc_str x @ bs)"
  then have at: "rd_at r (enc_u32 (word_of_nat (length x)) @ str_bytes x @ bs)"
    by (simp add: enc_str_def)
  have at2: "rd_at (rd_adv r 4) (str_bytes x @ bs)" using rd_at_adv [OF at] by simp
  moreover have "drop (rdPos r + 4) (rdData r) = str_bytes x @ bs"
    using at2 by (simp add: rd_at_def rd_adv_def)
  ultimately show "rd_str r = (x, rd_adv r (length (enc_str x)))"
    using u32.dec_enc [OF TrueI at] rd_at_Remaining [OF at2] s
    by (simp add: rd_str_def unat_len_short rd_adv_def add.assoc)
qed

text \<open>The decode facts of every primitive, for running a composite reader over the output
  of its writer.\<close>

lemmas prim_dec =
  u8.dec_enc u16.dec_enc u32.dec_enc u64.dec_enc i64.dec_enc dbl.dec_enc bool.dec_enc
  str.dec_enc bytes.dec_enc

lemmas prim_safe =
  u8_safe.safe u16_safe.safe u32_safe.safe u64_safe.safe i64_safe.safe dbl_safe.safe
  bool_safe.safe str_safe.safe bytes_safe.safe

section \<open>What a failed or hostile input can cost\<close>

lemma rd_str_short_of_remaining: "rd_str r = (s, r') \<Longrightarrow> rd_inv r \<Longrightarrow> length s \<le> Remaining r"
proof -
  assume r: "rd_str r = (s, r')" and i: "rd_inv r"
  obtain w r1 where u: "rd_u32 r = (w, r1)" by (cases "rd_u32 r")
  then have "rd_safe r r1" using u32_safe.safe_case by blast
  then have "Remaining r1 \<le> Remaining r" by (auto simp: rd_safe_def Remaining_def)
  with r u show ?thesis by (auto simp: rd_str_def Let_def split: if_splits)
qed

lemma rd_u32_consumes: "rdOk (snd (rd_u32 r)) \<Longrightarrow> rdPos r + 4 \<le> rdPos (snd (rd_u32 r))"
  by (auto simp: rd_u32_def rd_uint_def rd_fail_def rd_adv_def split: if_splits)

lemma rd_str_consumes: "rdOk (snd (rd_str r)) \<Longrightarrow> rdPos r + 4 \<le> rdPos (snd (rd_str r))"
proof -
  assume ok: "rdOk (snd (rd_str r))"
  obtain w r1 where u: "rd_u32 r = (w, r1)" by (cases "rd_u32 r")
  with ok have "rdOk r1"
    by (auto simp: rd_str_def Let_def rd_fail_def split: if_splits)
  with u rd_u32_consumes [of r] have "rdPos r + 4 \<le> rdPos r1" by simp
  with ok u show ?thesis
    by (auto simp: rd_str_def Let_def rd_fail_def rd_adv_def split: if_splits)
qed

text \<open>A counted loop whose reads consume at least one byte each appends at most one element
  more than there are bytes left, however large the announced count is.\<close>

lemma rd_many_length:
  assumes safe: "\<And>r. rd_safe r (snd (f r))"
    and consumes: "\<And>r. rdOk (snd (f r)) \<Longrightarrow> Suc (rdPos r) \<le> rdPos (snd (f r))"
  shows "rd_inv r \<Longrightarrow> length (fst (rd_many f n r)) \<le> Suc (Remaining r)"
proof (induction n arbitrary: r)
  case 0
  then show ?case by simp
next
  case (Suc n)
  obtain x r1 where f: "f r = (x, r1)" by (cases "f r")
  show ?case
  proof (cases "rdOk r1")
    case True
    with f consumes [of r] have p: "Suc (rdPos r) \<le> rdPos r1" by simp
    from safe [of r] f have s: "rd_safe r r1" by simp
    then have i: "rd_inv r1" using Suc.prems rd_safe_inv by blast
    have "Suc (Remaining r1) \<le> Remaining r"
      using p s i Suc.prems by (auto simp: rd_safe_def Remaining_def rd_inv_def)
    with Suc.IH [OF i] f show ?thesis by (simp add: case_prod_beta)
  next
    case False
    then have "fst (rd_many f n r1) = []" by (cases n) auto
    with f show ?thesis by (simp add: case_prod_beta)
  qed
qed

section \<open>Composite codecs\<close>

text \<open>A reader by what it has consumed and what is left: with it, running the reader of a composite
  payload on its encoding is rewriting.\<close>

definition rdx :: "bytes \<Rightarrow> bytes \<Rightarrow> reader" where
  "rdx pre bs = \<lparr>rdData = pre @ bs, rdPos = length pre, rdOk = True\<rparr>"

lemma rd_at_rdx: "rd_at (rdx pre bs) bs"
  by (simp add: rd_at_def rdx_def)

lemma rd_at_ex_rdx: "rd_at r bs \<Longrightarrow> \<exists>pre. r = rdx pre bs"
proof -
  assume at: "rd_at r bs"
  then have "rdData r = take (rdPos r) (rdData r) @ bs" "length (take (rdPos r) (rdData r)) = rdPos r" "rdOk r"
    by (auto simp: rd_at_def)
  then have "r = rdx (take (rdPos r) (rdData r)) bs" by (simp add: rdx_def)
  then show ?thesis by blast
qed

lemma rd_adv_rdx: "rd_adv (rdx pre (a @ bs)) (length a) = rdx (pre @ a) bs"
  by (simp add: rd_adv_def rdx_def)

lemma rdOk_rdx [simp]: "rdOk (rdx pre bs)"
  by (simp add: rdx_def)

lemma reader_init_rdx: "reader_init d = rdx [] d"
  by (simp add: reader_init_def rdx_def)

context wire_codec
begin

lemma run: "wf x \<Longrightarrow> dec (rdx pre (enc x @ bs)) = (x, rdx (pre @ enc x) bs)"
  using dec_enc [OF _ rd_at_rdx] by (simp add: rd_adv_rdx)

lemma run_many:
  "\<forall>x \<in> set xs. wf x \<Longrightarrow>
     rd_many dec (length xs) (rdx pre (concat (map enc xs) @ bs)) = (xs, rdx (pre @ concat (map enc xs)) bs)"
  using many [OF _ rd_at_rdx] by (simp add: rd_adv_rdx)

end

lemma wire_codecI:
  assumes "\<And>x pre bs. ok x \<Longrightarrow> dec (rdx pre (enc x @ bs)) = (x, rdx (pre @ enc x) bs)"
  shows "wire_codec enc dec ok"
proof
  fix x r bs
  assume "ok x" "rd_at r (enc x @ bs)"
  moreover from this obtain pre where "r = rdx pre (enc x @ bs)" using rd_at_ex_rdx by blast
  ultimately show "dec r = (x, rd_adv r (length (enc x)))" using assms by (simp add: rd_adv_rdx)
qed

lemmas prim_run = u8.run [OF TrueI] u16.run [OF TrueI] u32.run [OF TrueI] u64.run [OF TrueI]
  i64.run [OF TrueI] dbl.run [OF TrueI] bool.run [OF TrueI] str.run bytes.run

text \<open>A counted list: its length, then its elements; read back by the counted loop.\<close>

definition enc_list :: "('a \<Rightarrow> bytes) \<Rightarrow> 'a list \<Rightarrow> bytes" where
  "enc_list enc xs = enc_u32 (word_of_nat (length xs)) @ concat (map enc xs)"

definition read_list :: "(reader \<Rightarrow> 'a \<times> reader) \<Rightarrow> reader \<Rightarrow> 'a list \<times> reader" where
  "read_list dec r = (case rd_u32 r of (n, r1) \<Rightarrow> rd_many dec (unat n) r1)"

definition list_wf :: "('a \<Rightarrow> bool) \<Rightarrow> 'a list \<Rightarrow> bool" where
  "list_wf ok xs \<longleftrightarrow> short xs \<and> (\<forall>x \<in> set xs. ok x)"

lemma list_codec:
  assumes "wire_codec enc dec ok"
  shows "wire_codec (enc_list enc) (read_list dec) (list_wf ok)"
proof (rule wire_codecI)
  fix xs pre bs
  assume "list_wf ok xs"
  then show "read_list dec (rdx pre (enc_list enc xs @ bs)) = (xs, rdx (pre @ enc_list enc xs) bs)"
    using wire_codec.run_many [OF assms, of xs]
    by (simp add: read_list_def enc_list_def prim_run unat_len_short list_wf_def)
qed

lemma read_list_safe: "safe_reader dec \<Longrightarrow> safe_reader (read_list dec)"
proof
  fix r
  assume s: "safe_reader dec"
  obtain n r1 where r1: "rd_u32 r = (n, r1)" by (cases "rd_u32 r")
  then show "rd_safe r (snd (read_list dec r))"
    using rd_safe_trans [OF u32_safe.safe_case [OF r1] safe_reader.many_safe [OF s]]
    by (simp add: read_list_def)
qed

section \<open>What a reader can produce\<close>

text \<open>Whatever the bytes, the value a reader returns belongs to the set \<open>ok\<close>: the type of the decoded
  data.  With \<open>wire_codec\<close> on the same set, a decoded value can be encoded again without loss.\<close>

definition rd_good :: "reader \<Rightarrow> bool" where
  "rd_good r \<longleftrightarrow> rd_inv r \<and> short (rdData r)"

lemma rd_good_init [simp]: "rd_good (reader_init d) \<longleftrightarrow> short d"
  by (simp add: rd_good_def) (simp add: reader_init_def)

lemma rd_safe_good: "rd_safe r r' \<Longrightarrow> rd_good r \<Longrightarrow> rd_good r'"
  using rd_safe_inv by (auto simp: rd_good_def rd_safe_def)

locale typed_reader = safe_reader rd for rd :: "reader \<Rightarrow> 'a \<times> reader" +
  fixes ok :: "'a \<Rightarrow> bool"
  assumes typed: "rd_good r \<Longrightarrow> ok (fst (rd r))"
begin

lemma good: "rd_good r \<Longrightarrow> rd_good (snd (rd r))"
  using safe rd_safe_good by blast

lemma many_typed: "rd_good r \<Longrightarrow> (\<forall>x \<in> set (fst (rd_many rd n r)). ok x) \<and> length (fst (rd_many rd n r)) \<le> n"
proof (induction n arbitrary: r)
  case (Suc n)
  with Suc.IH [OF good [OF Suc.prems]] typed [OF Suc.prems] show ?case by (simp add: case_prod_unfold)
qed simp

end

interpretation u8_typed: typed_reader rd_u8 "\<lambda>_. True" by unfold_locales simp
interpretation u32_typed: typed_reader rd_u32 "\<lambda>_. True" by unfold_locales simp
interpretation u64_typed: typed_reader rd_u64 "\<lambda>_. True" by unfold_locales simp
interpretation i64_typed: typed_reader rd_i64 "\<lambda>_. True" by unfold_locales simp
interpretation dbl_typed: typed_reader rd_dbl "\<lambda>_. True" by unfold_locales simp
interpretation bool_typed: typed_reader rd_bool "\<lambda>_. True" by unfold_locales simp

interpretation str_typed: typed_reader rd_str short
proof
  fix r
  assume g: "rd_good r"
  have "length (fst (rd_str r)) \<le> Remaining r"
    using rd_str_short_of_remaining [of r "fst (rd_str r)" "snd (rd_str r)"] g by (simp add: rd_good_def)
  also have "\<dots> \<le> length (rdData r)" by (simp add: Remaining_def)
  finally show "short (fst (rd_str r))" using g by (simp add: rd_good_def short_def)
qed

lemma list_typed: "typed_reader dec ok \<Longrightarrow> typed_reader (read_list dec) (list_wf ok)"
proof (intro typed_reader.intro typed_reader_axioms.intro)
  assume t: "typed_reader dec ok"
  show "safe_reader (read_list dec)" by (rule read_list_safe [OF typed_reader.axioms(1) [OF t]])
  fix r
  assume "rd_good r"
  then have "rd_good (snd (rd_u32 r))" by (rule u32_typed.good)
  note m = typed_reader.many_typed [OF t this, of "unat (fst (rd_u32 r))"]
  have "unat (fst (rd_u32 r)) < 2 ^ 32" using unsigned_less [of "fst (rd_u32 r)"] by simp
  with m show "list_wf ok (fst (read_list dec r))"
    unfolding list_wf_def read_list_def case_prod_unfold short_def by (meson le_less_trans)
qed

interpretation u32s_typed: typed_reader "read_list rd_u32" "list_wf (\<lambda>_. True)"
  by (rule list_typed [OF u32_typed.typed_reader_axioms])

interpretation strs_typed: typed_reader "read_list rd_str" "list_wf short"
  by (rule list_typed [OF str_typed.typed_reader_axioms])

lemmas typed_simps = str_typed.typed str_typed.good u8_typed.good u32_typed.good u64_typed.good i64_typed.good
  dbl_typed.good bool_typed.good u32s_typed.typed u32s_typed.good strs_typed.typed strs_typed.good

end
