(* ===== verification/Wire.thy ===== *)
theory Wire
  imports Serialize
begin

text \<open>
  The wire protocol of \<open>src/net/Wire.h\<close>: the message types, the packed 16-byte header
  that starts every datagram, and the version constants.
\<close>

definition kMagic :: u32 where "kMagic = 0x45534F45"
definition kProtocolVersion :: u16 where "kProtocolVersion = 1"
definition kDiscoveryPort :: u16 where "kDiscoveryPort = 47100"
definition kMaxDatagram :: nat where "kMaxDatagram = 16384"
definition kHeaderSize :: nat where "kHeaderSize = 16"

lemmas wire_consts = kMagic_def kProtocolVersion_def kDiscoveryPort_def kMaxDatagram_def kHeaderSize_def

datatype MessageType =
    Hello | Goodbye
  | P2PData | P2PConnectRequest | P2PConnectAccept | P2PConnectClose | P2PAck | P2PConnectIgnored
  | LobbyAnnounce | LobbyUpdate | LobbyJoinRequest | LobbyJoinResponse | LobbyLeave | LobbyInvite
  | SessionAnnounce | SessionWithdraw | SessionInvite
  | CustomInvite

fun mt_code :: "MessageType \<Rightarrow> u16" where
  "mt_code Hello = 1"
| "mt_code Goodbye = 2"
| "mt_code P2PData = 10"
| "mt_code P2PConnectRequest = 11"
| "mt_code P2PConnectAccept = 12"
| "mt_code P2PConnectClose = 13"
| "mt_code P2PAck = 14"
| "mt_code P2PConnectIgnored = 15"
| "mt_code LobbyAnnounce = 20"
| "mt_code LobbyUpdate = 21"
| "mt_code LobbyJoinRequest = 22"
| "mt_code LobbyJoinResponse = 23"
| "mt_code LobbyLeave = 24"
| "mt_code LobbyInvite = 25"
| "mt_code SessionAnnounce = 30"
| "mt_code SessionWithdraw = 31"
| "mt_code SessionInvite = 32"
| "mt_code CustomInvite = 40"

definition all_message_types :: "MessageType list" where
  "all_message_types =
     [Hello, Goodbye, P2PData, P2PConnectRequest, P2PConnectAccept, P2PConnectClose, P2PAck,
      P2PConnectIgnored, LobbyAnnounce, LobbyUpdate, LobbyJoinRequest, LobbyJoinResponse,
      LobbyLeave, LobbyInvite, SessionAnnounce, SessionWithdraw, SessionInvite, CustomInvite]"

text \<open>The cast back from the header's \<open>Type\<close> field: a value outside the enumeration
  matches no \<open>case\<close> of any switch, hence \<open>None\<close>.\<close>

definition mt_of_code :: "u16 \<Rightarrow> MessageType option" where
  "mt_of_code c = find (\<lambda>t. mt_code t = c) all_message_types"

lemma mt_of_code_code [simp]: "mt_of_code (mt_code t) = Some t"
  by (cases t) (simp_all add: mt_of_code_def all_message_types_def)

record WireHeader =
  whMagic :: u32
  whVersion :: u16
  whType :: u16
  whSenderTag :: u32
  whUnicastPort :: u16
  whPayloadLen :: u16

text \<open>The packed struct's memory image, which \<open>Frame\<close> and \<open>ReceiveLoop\<close> copy.\<close>

definition header_bytes :: "WireHeader \<Rightarrow> bytes" where
  "header_bytes h =
     enc_u32 (whMagic h) @ enc_u16 (whVersion h) @ enc_u16 (whType h) @
     enc_u32 (whSenderTag h) @ enc_u16 (whUnicastPort h) @ enc_u16 (whPayloadLen h)"

definition header_of_bytes :: "bytes \<Rightarrow> WireHeader" where
  "header_of_bytes b =
     \<lparr>whMagic = word_of_nat (of_le (take 4 b)),
      whVersion = word_of_nat (of_le (take 2 (drop 4 b))),
      whType = word_of_nat (of_le (take 2 (drop 6 b))),
      whSenderTag = word_of_nat (of_le (take 4 (drop 8 b))),
      whUnicastPort = word_of_nat (of_le (take 2 (drop 12 b))),
      whPayloadLen = word_of_nat (of_le (take 2 (drop 14 b)))\<rparr>"

lemma length_header_bytes [simp]: "length (header_bytes h) = kHeaderSize"
  by (simp add: header_bytes_def kHeaderSize_def)

lemma of_le_enc [simp]:
  "of_le (enc_u16 h) = unat h" "of_le (enc_u32 w) = unat w"
  by (simp_all add: enc_u16_def enc_u32_def of_le_le_bytes [OF unat_lt_numerals(2)]
      of_le_le_bytes [OF unat_lt_numerals(3)])

lemma header_of_bytes_header_bytes: "header_of_bytes (header_bytes h @ rest) = h"
  by (simp add: header_of_bytes_def header_bytes_def)

end
