(* ===== verification/Lan.thy ===== *)
theory Lan
  imports Wire
begin

text \<open>
  The LAN transport of \<open>src/net/Lan.h\<close> and \<open>src/net/Lan.cpp\<close>: endpoints and
  their text form, the directed-broadcast list, framing, the send paths and the per-datagram
  body of the receive loop.  The operating system is outside the model: the outcome of the
  socket calls of \<open>Start\<close> is an argument (\<open>os_start\<close>), so are the interface list
  and the datagram \<open>recvfrom\<close> returned; the effect of a send is the datagram it hands to
  \<open>sendto\<close>.
\<close>

section \<open>Endpoints\<close>

record Endpoint =
  epIp :: u32
  epPort :: u16

definition no_endpoint :: Endpoint where
  "no_endpoint = \<lparr>epIp = 0, epPort = 0\<rparr>"

definition ep_Valid :: "Endpoint \<Rightarrow> bool" where
  "ep_Valid e \<longleftrightarrow> epIp e \<noteq> 0 \<and> epPort e \<noteq> 0"

text \<open>\<open>printf("%u")\<close>.\<close>

definition digit_char :: "nat \<Rightarrow> char" where
  "digit_char d = char_of (48 + d)"

fun dec_str :: "nat \<Rightarrow> string" where
  "dec_str n = (if n < 10 then [digit_char n] else dec_str (n div 10) @ [digit_char (n mod 10)])"

declare dec_str.simps [simp del]

definition octet :: "u32 \<Rightarrow> nat \<Rightarrow> nat" where
  "octet ip k = (unat ip div 2 ^ k) mod 256"

definition ep_ToString :: "Endpoint \<Rightarrow> string" where
  "ep_ToString e =
     dec_str (octet (epIp e) 24) @ ''.'' @ dec_str (octet (epIp e) 16) @ ''.'' @
     dec_str (octet (epIp e) 8) @ ''.'' @ dec_str (octet (epIp e) 0) @ '':'' @
     dec_str (unat (epPort e))"

text \<open>\<open>sscanf\<close>'s \<open>%u\<close>: skip white space, an optional sign, at least one digit;
  the value is reduced to 32 bits.\<close>

definition is_digit :: "char \<Rightarrow> bool" where
  "is_digit c \<longleftrightarrow> 48 \<le> (of_char c :: nat) \<and> (of_char c :: nat) \<le> 57"

definition is_space :: "char \<Rightarrow> bool" where
  "is_space c \<longleftrightarrow> (of_char c :: nat) = 32 \<or> (9 \<le> (of_char c :: nat) \<and> (of_char c :: nat) \<le> 13)"

definition digits_value :: "string \<Rightarrow> nat" where
  "digits_value ds = foldl (\<lambda>a c. 10 * a + (of_char c - 48)) 0 ds"

definition scan_u :: "string \<Rightarrow> (nat \<times> string) option" where
  "scan_u s =
     (let s1 = dropWhile is_space s;
          neg = (s1 \<noteq> [] \<and> hd s1 = CHR ''-'');
          s2 = (if s1 \<noteq> [] \<and> (hd s1 = CHR ''-'' \<or> hd s1 = CHR ''+'') then tl s1 else s1);
          ds = takeWhile is_digit s2
      in if ds = [] then None
         else let v = digits_value ds mod 2 ^ 32
              in Some (if neg then (2 ^ 32 - v) mod 2 ^ 32 else v, dropWhile is_digit s2))"

definition scan_lit :: "char \<Rightarrow> string \<Rightarrow> string option" where
  "scan_lit c s = (case s of [] \<Rightarrow> None | x # xs \<Rightarrow> if x = c then Some xs else None)"

text \<open>\<open>Endpoint::FromString\<close>: all five conversions or the default endpoint.\<close>

definition ep_FromString :: "string \<Rightarrow> Endpoint" where
  "ep_FromString t =
     (case (Option.bind (scan_u t) (\<lambda>(a, t1). Option.bind (scan_lit CHR ''.'' t1) (\<lambda>t1'.
            Option.bind (scan_u t1') (\<lambda>(b, t2). Option.bind (scan_lit CHR ''.'' t2) (\<lambda>t2'.
            Option.bind (scan_u t2') (\<lambda>(c, t3). Option.bind (scan_lit CHR ''.'' t3) (\<lambda>t3'.
            Option.bind (scan_u t3') (\<lambda>(d, t4). Option.bind (scan_lit CHR '':'' t4) (\<lambda>t4'.
            Option.bind (scan_u t4') (\<lambda>(p, t5). Some (a, b, c, d, p))))))))))) of
        None \<Rightarrow> no_endpoint
      | Some (a, b, c, d, p) \<Rightarrow>
          \<lparr>epIp = or (or (push_bit 24 (word_of_nat a)) (push_bit 16 (word_of_nat b)))
                    (or (push_bit 8 (word_of_nat c)) (word_of_nat d)),
           epPort = word_of_nat p\<rparr>)"

section \<open>Directed broadcasts\<close>

text \<open>\<open>EnumerateDirectedBroadcasts\<close> on the (address, mask) pairs the adapters report, in host
  byte order.\<close>

definition INADDR_BROADCAST :: u32 where "INADDR_BROADCAST = 0xFFFFFFFF"

definition directed_broadcasts :: "(u32 \<times> u32) list \<Rightarrow> u32 list" where
  "directed_broadcasts adapters =
     filter (\<lambda>a. a \<noteq> INADDR_BROADCAST)
       (remdups_adj (sort (map (\<lambda>(addr, mask). or (and addr mask) (not mask))
          (filter (\<lambda>(addr, mask). addr \<noteq> 0 \<and> mask \<noteq> 0) adapters))))"

lemma sorted_distinct_remdups_adj:
  "sorted xs \<Longrightarrow> distinct (remdups_adj (xs :: 'a::linorder list))"
proof (induction xs rule: remdups_adj.induct)
  case (3 x y xs)
  show ?case
  proof (cases "x = y")
    case True
    with 3 show ?thesis by simp
  next
    case False
    with "3.prems" have "\<forall>z \<in> set (y # xs). x < z" by auto
    then have "x \<notin> set (remdups_adj (y # xs))" by auto
    with 3 False show ?thesis by simp
  qed
qed simp_all

lemma directed_broadcasts_distinct: "distinct (directed_broadcasts as)"
  by (simp add: directed_broadcasts_def sorted_distinct_remdups_adj)

lemma directed_broadcasts_set:
  "set (directed_broadcasts as) =
     {b. b \<noteq> INADDR_BROADCAST \<and>
         (\<exists>addr mask. (addr, mask) \<in> set as \<and> addr \<noteq> 0 \<and> mask \<noteq> 0 \<and> b = or (and addr mask) (not mask))}"
  by (auto simp: directed_broadcasts_def)

section \<open>The node\<close>

record node =
  ndRunning :: bool
  ndSenderTag :: u32
  ndUnicastPort :: u16
  ndDiscoveryPort :: u16
  ndTargets :: "u32 list"
  ndLastRefresh :: "time_ns option"

definition node_init :: node where
  "node_init =
     \<lparr>ndRunning = False, ndSenderTag = 0, ndUnicastPort = 0, ndDiscoveryPort = kDiscoveryPort,
      ndTargets = [], ndLastRefresh = None\<rparr>"

text \<open>What the socket calls of \<open>Node::Start\<close> returned.\<close>

record os_start =
  osWinsock :: bool
  osDiscSocket :: bool
  osDiscBind :: bool
  osUniSocket :: bool
  osUniBind :: bool
  osBoundPort :: u16

definition Node_Start :: "os_start \<Rightarrow> u32 \<Rightarrow> u16 \<Rightarrow> node \<Rightarrow> bool \<times> node" where
  "Node_Start os tag dport nd =
     (if ndRunning nd then (True, nd)
      else if \<not> osWinsock os then (False, nd)
      else let nd1 = nd\<lparr>ndSenderTag := tag,
                        ndDiscoveryPort := (if dport \<noteq> 0 then dport else kDiscoveryPort)\<rparr>
           in if \<not> osDiscSocket os then (False, nd1)
              else if \<not> osDiscBind os then (False, nd1)
              else if \<not> osUniSocket os then (False, nd1)
              else if \<not> osUniBind os then (False, nd1)
              else (True, nd1\<lparr>ndUnicastPort := osBoundPort os, ndRunning := True\<rparr>))"

definition Node_Stop :: "node \<Rightarrow> node" where
  "Node_Stop nd = nd\<lparr>ndRunning := False\<rparr>"

definition Frame :: "node \<Rightarrow> MessageType \<Rightarrow> bytes \<Rightarrow> u16 \<Rightarrow> bytes" where
  "Frame nd ty payload len =
     header_bytes \<lparr>whMagic = kMagic, whVersion = kProtocolVersion, whType = mt_code ty,
       whSenderTag = ndSenderTag nd, whUnicastPort = ndUnicastPort nd, whPayloadLen = len\<rparr>
     @ take (unat len) payload"

text \<open>A datagram handed to the operating system: destination address, port, bytes.\<close>

type_synonym dgram = "u32 \<times> u16 \<times> bytes"

definition SendTo :: "node \<Rightarrow> Endpoint \<Rightarrow> MessageType \<Rightarrow> bytes \<Rightarrow> u16 \<Rightarrow> dgram list" where
  "SendTo nd to ty payload len =
     (if unat len > kMaxDatagram - kHeaderSize then []
      else if \<not> ndRunning nd \<or> \<not> ep_Valid to then []
      else [(epIp to, epPort to, Frame nd ty payload len)])"

definition RefreshBroadcastTargets :: "time_ns \<Rightarrow> (u32 \<times> u32) list \<Rightarrow> node \<Rightarrow> node" where
  "RefreshBroadcastTargets now adapters nd =
     (if (ndTargets nd \<noteq> [] \<or> ndLastRefresh nd \<noteq> None) \<and>
         (case ndLastRefresh nd of None \<Rightarrow> False | Some t \<Rightarrow> now - t < secs 60)
      then nd
      else nd\<lparr>ndLastRefresh := Some now, ndTargets := directed_broadcasts adapters\<rparr>)"

definition Broadcast ::
  "time_ns \<Rightarrow> (u32 \<times> u32) list \<Rightarrow> node \<Rightarrow> MessageType \<Rightarrow> bytes \<Rightarrow> u16 \<Rightarrow> dgram list \<times> node" where
  "Broadcast now adapters nd ty payload len =
     (if unat len > kMaxDatagram - kHeaderSize then ([], nd)
      else if \<not> ndRunning nd then ([], nd)
      else let nd1 = RefreshBroadcastTargets now adapters nd;
               buf = Frame nd1 ty payload len
           in (map (\<lambda>ip. (ip, ndDiscoveryPort nd1, buf)) (INADDR_BROADCAST # ndTargets nd1), nd1))"

text \<open>The body of \<open>ReceiveLoop\<close> for one datagram: what the handler is called with, if it is
  called.  \<open>recvfrom\<close> fills a buffer of \<open>kMaxDatagram\<close> bytes.\<close>

definition receive_datagram :: "node \<Rightarrow> u32 \<Rightarrow> bytes \<Rightarrow> (Endpoint \<times> WireHeader \<times> bytes) option" where
  "receive_datagram nd src_ip dgram =
     (let buf = take kMaxDatagram dgram; got = length buf in
      if got < kHeaderSize then None
      else let h = header_of_bytes buf in
        if whMagic h \<noteq> kMagic \<or> whVersion h \<noteq> kProtocolVersion then None
        else if whSenderTag h = ndSenderTag nd then None
        else if kHeaderSize + unat (whPayloadLen h) > got then None
        else Some (\<lparr>epIp = src_ip, epPort = whUnicastPort h\<rparr>, h,
                   take (unat (whPayloadLen h)) (drop kHeaderSize buf)))"

section \<open>Endpoint text round trip\<close>

lemma of_char_digit: "d < 10 \<Longrightarrow> of_char (digit_char d) = (48 + d :: nat)"
  by (simp add: digit_char_def)

lemma is_digit_digit_char: "d < 10 \<Longrightarrow> is_digit (digit_char d)"
  by (simp add: is_digit_def of_char_digit)

lemma dec_str_digits: "\<forall>c \<in> set (dec_str n). is_digit c"
proof (induction n rule: dec_str.induct)
  case (1 n)
  then show ?case
    by (subst dec_str.simps) (auto simp: is_digit_digit_char)
qed

lemma dec_str_nonempty: "dec_str n \<noteq> []"
  by (subst dec_str.simps) simp

lemma digits_value_append_digit:
  "d < 10 \<Longrightarrow> digits_value (s @ [digit_char d]) = 10 * digits_value s + d"
  by (simp add: digits_value_def of_char_digit)

lemma digits_value_dec_str: "digits_value (dec_str n) = n"
proof (induction n rule: dec_str.induct)
  case (1 n)
  show ?case
  proof (cases "n < 10")
    case True
    then show ?thesis
      by (subst dec_str.simps) (simp add: digits_value_def of_char_digit)
  next
    case False
    with "1.IH" show ?thesis
      by (subst dec_str.simps) (simp add: digits_value_append_digit)
  qed
qed

lemma is_digit_not_space: "is_digit c \<Longrightarrow> \<not> is_space c \<and> c \<noteq> CHR ''-'' \<and> c \<noteq> CHR ''+''"
  by (auto simp: is_digit_def is_space_def)

lemma takeWhile_digits_prefix:
  "\<forall>c \<in> set ds. is_digit c \<Longrightarrow> (rest = [] \<or> \<not> is_digit (hd rest)) \<Longrightarrow>
     takeWhile is_digit (ds @ rest) = ds \<and> dropWhile is_digit (ds @ rest) = rest"
  by (induction ds) (cases rest; auto)+

lemma scan_u_dec_str:
  assumes "n < 2 ^ 32" and "rest = [] \<or> \<not> is_digit (hd rest)"
  shows "scan_u (dec_str n @ rest) = Some (n, rest)"
proof -
  obtain c cs where c: "dec_str n = c # cs" using dec_str_nonempty by (cases "dec_str n") auto
  have d: "is_digit c" using dec_str_digits [of n] c by simp
  have tw: "takeWhile is_digit (dec_str n @ rest) = dec_str n"
       "dropWhile is_digit (dec_str n @ rest) = rest"
    using takeWhile_digits_prefix [OF dec_str_digits assms(2)] by blast+
  have dw: "dropWhile is_space (dec_str n @ rest) = dec_str n @ rest"
    using d is_digit_not_space c by simp
  have hd: "hd (dec_str n @ rest) \<noteq> CHR ''-''" "hd (dec_str n @ rest) \<noteq> CHR ''+''"
    using d is_digit_not_space c by auto
  show ?thesis
    using assms(1) hd
    by (simp add: scan_u_def dw tw dec_str_nonempty digits_value_dec_str)
qed

lemma octet_less: "octet ip k < 256"
  by (simp add: octet_def)

lemma octets_join:
  "or (or (push_bit 24 (word_of_nat (octet ip 24))) (push_bit 16 (word_of_nat (octet ip 16))))
      (or (push_bit 8 (word_of_nat (octet ip 8))) (word_of_nat (octet ip 0))) = (ip :: u32)"
proof -
  have o: "(word_of_nat (octet ip k) :: u32) = take_bit 8 (drop_bit k ip)" for k
    using unsigned_less [of ip, where 'a = nat]
    by (intro unsigned_word_eqI [where 'a = nat])
      (simp add: octet_def unat_of_nat unsigned_take_bit_eq unsigned_drop_bit_eq,
       simp add: take_bit_eq_mod drop_bit_eq_div)
  have split: "n < 8 \<or> 8 \<le> n \<and> n < 16 \<or> 16 \<le> n \<and> n < 24 \<or> 24 \<le> n" for n :: nat by arith
  show ?thesis
  proof (rule bit_word_eqI)
    fix n
    assume "n < LENGTH(32)"
    with split [of n]
    show "bit (or (or (push_bit 24 (word_of_nat (octet ip 24))) (push_bit 16 (word_of_nat (octet ip 16))))
      (or (push_bit 8 (word_of_nat (octet ip 8))) (word_of_nat (octet ip 0))) :: u32) n = bit ip n"
      by (elim disjE) (auto simp: o bit_simps)
  qed
qed

theorem ep_FromString_ToString: "ep_FromString (ep_ToString e) = e"
proof -
  have oct: "octet (epIp e) k < 2 ^ 32" for k
    using octet_less [of "epIp e" k] by simp
  have port: "unat (epPort e) < 2 ^ 32" using unsigned_less [of "epPort e", where 'a = nat] by simp
  note scan = scan_u_dec_str [OF oct] scan_u_dec_str [OF port, of "[]", simplified]
  show ?thesis
    by (simp add: ep_FromString_def ep_ToString_def scan scan_lit_def is_digit_def octets_join)
qed

section \<open>Framing\<close>

lemma length_Frame: "unat len \<le> length payload \<Longrightarrow> length (Frame nd ty payload len) = kHeaderSize + unat len"
  by (simp add: Frame_def)

text \<open>A frame another node built is delivered with its payload, its type and the sender's
  advertised port; the node's own frames are not.\<close>

lemma receive_Frame:
  assumes "unat len \<le> length payload" "unat len \<le> kMaxDatagram - kHeaderSize"
  shows "receive_datagram nd ip (Frame sd ty payload len) =
    (if ndSenderTag sd = ndSenderTag nd then None
     else Some (\<lparr>epIp = ip, epPort = ndUnicastPort sd\<rparr>,
       \<lparr>whMagic = kMagic, whVersion = kProtocolVersion, whType = mt_code ty,
        whSenderTag = ndSenderTag sd, whUnicastPort = ndUnicastPort sd, whPayloadLen = len\<rparr>,
       take (unat len) payload))"
proof -
  have len: "length (Frame sd ty payload len) = kHeaderSize + unat len"
    using assms(1) by (rule length_Frame)
  then have buf: "take kMaxDatagram (Frame sd ty payload len) = Frame sd ty payload len"
    using assms(2) by (simp add: wire_consts)
  have drop: "drop kHeaderSize (Frame sd ty payload len) = take (unat len) payload"
    by (simp add: Frame_def)
  show ?thesis
    by (simp add: receive_datagram_def buf len drop Let_def)
      (simp add: Frame_def header_of_bytes_header_bytes)
qed

text \<open>Whatever arrives, the handler only sees a payload of the announced length, from inside the
  received bytes.\<close>

lemma receive_datagram_sound:
  assumes "receive_datagram nd ip d = Some (src, h, p)"
  shows "length p = unat (whPayloadLen h) \<and> whMagic h = kMagic \<and> whVersion h = kProtocolVersion \<and>
    whSenderTag h \<noteq> ndSenderTag nd \<and> src = \<lparr>epIp = ip, epPort = whUnicastPort h\<rparr> \<and>
    (\<exists>a b. d = a @ p @ b \<and> length a = kHeaderSize)"
proof -
  let ?b = "take kMaxDatagram d"
  from assms have h: "h = header_of_bytes ?b" "src = \<lparr>epIp = ip, epPort = whUnicastPort h\<rparr>"
    "p = take (unat (whPayloadLen h)) (drop kHeaderSize ?b)"
    "kHeaderSize + unat (whPayloadLen h) \<le> length ?b"
    "whMagic h = kMagic" "whVersion h = kProtocolVersion" "whSenderTag h \<noteq> ndSenderTag nd"
    by (auto simp: receive_datagram_def Let_def split: if_splits)
  have "d = take kHeaderSize ?b @ p @ (drop (unat (whPayloadLen h)) (drop kHeaderSize ?b) @ drop kMaxDatagram d)"
    unfolding h(3) by (metis append.assoc append_take_drop_id)
  moreover have "length (take kHeaderSize ?b) = kHeaderSize" using h(4) by simp
  ultimately show ?thesis using h by fastforce
qed

end
