(* ===== verification/Common.thy ===== *)
theory Common
  imports Prelude
begin

text \<open>
  The shared helpers of \<open>src/interfaces/Common.h\<close>: the ApiVersion gate, the two id
  counters and \<open>NotifyRegistry\<close>; and the "size query" protocol that every string-returning
  entry point follows (\<open>sized_copy\<close>), with the interface a caller relies on as the locale
  \<open>size_query\<close>.

  Callbacks and client data are opaque numbers; a null function pointer is \<open>None\<close>.
  The registry operations are polymorphic in the record scheme because \<open>P2PInterface\<close>
  keeps the same entries extended with a socket filter.
\<close>

section \<open>Version gate\<close>

definition VersionInRange :: "int \<Rightarrow> int \<Rightarrow> bool" where
  "VersionInRange v latest \<longleftrightarrow> v \<ge> 1 \<and> v \<le> latest"

definition HasField :: "int \<Rightarrow> int \<Rightarrow> bool" where
  "HasField v introduced \<longleftrightarrow> v \<ge> introduced"

section \<open>Notification registries\<close>

definition EOS_INVALID_NOTIFICATIONID :: nat where
  "EOS_INVALID_NOTIFICATIONID = 0"

text \<open>\<open>NextNotificationId\<close> and \<open>NextUiEventId\<close>: fetch-and-add on a process-wide counter
  that starts at 1.\<close>

definition NextId :: "nat \<Rightarrow> nat \<times> nat" where
  "NextId c = (c, Suc c)"

record nentry =
  neId :: nat
  neFn :: nat
  neCd :: nat

definition reg_add :: "'e \<Rightarrow> 'e list \<Rightarrow> 'e list" where
  "reg_add e es = es @ [e]"

definition reg_remove :: "nat \<Rightarrow> ('x nentry_scheme) list \<Rightarrow> ('x nentry_scheme) list" where
  "reg_remove i es = erase_first (\<lambda>e. neId e = i) es"

definition Notify_Add :: "nat option \<Rightarrow> nat \<Rightarrow> nat \<Rightarrow> nentry list \<Rightarrow> nat \<times> nat \<times> nentry list" where
  "Notify_Add fn cd c es =
     (case fn of
        None \<Rightarrow> (EOS_INVALID_NOTIFICATIONID, c, es)
      | Some f \<Rightarrow> (case NextId c of (i, c') \<Rightarrow>
          (i, c', reg_add \<lparr>neId = i, neFn = f, neCd = cd\<rparr> es)))"

definition Notify_Remove :: "nat \<Rightarrow> nentry list \<Rightarrow> nentry list" where
  "Notify_Remove = reg_remove"

text \<open>The ids handed out so far are distinct, non-zero and below the counter.\<close>

definition reg_inv :: "nat \<Rightarrow> ('x nentry_scheme) list \<Rightarrow> bool" where
  "reg_inv c es \<longleftrightarrow> 0 < c \<and> distinct (map neId es) \<and> (\<forall>e \<in> set es. 0 < neId e \<and> neId e < c)"

lemma reg_inv_add [inv_intros]:
  "reg_inv c es \<Longrightarrow> neId e = c \<Longrightarrow> reg_inv (Suc c) (reg_add e es)"
  by (auto simp: reg_inv_def reg_add_def)

lemma reg_inv_mono: "reg_inv c es \<Longrightarrow> c \<le> c' \<Longrightarrow> reg_inv c' es"
  by (auto simp: reg_inv_def)

lemma distinct_map_erase_first: "distinct (map f es) \<Longrightarrow> distinct (map f (erase_first P es))"
proof (induction es)
  case Nil
  then show ?case by simp
next
  case (Cons e es)
  then show ?case using set_erase_first_subset [of P es] by auto
qed

lemma reg_inv_remove [inv_intros]: "reg_inv c es \<Longrightarrow> reg_inv c (reg_remove i es)"
  using set_erase_first_subset [of "\<lambda>e. neId e = i" es]
  by (auto simp: reg_inv_def reg_remove_def distinct_map_erase_first)

text \<open>The contract of a registry of handlers, as its client sees it: the entries listed, adding
  one under a fresh id, removing one by id.\<close>

locale handler_registry =
  fixes add :: "'e \<Rightarrow> 'r \<Rightarrow> 'r"
    and remove :: "nat \<Rightarrow> 'r \<Rightarrow> 'r"
    and entries :: "'r \<Rightarrow> 'e list"
    and id_of :: "'e \<Rightarrow> nat"
    and inv :: "nat \<Rightarrow> 'r \<Rightarrow> bool"
  assumes add_entries: "entries (add e r) = entries r @ [e]"
    and add_inv: "inv c r \<Longrightarrow> id_of e = c \<Longrightarrow> inv (Suc c) (add e r)"
    and remove_entries: "inv c r \<Longrightarrow> entries (remove i r) = filter (\<lambda>e. id_of e \<noteq> i) (entries r)"
    and remove_inv: "inv c r \<Longrightarrow> inv c (remove i r)"
    and bounded: "inv c r \<Longrightarrow> e \<in> set (entries r) \<Longrightarrow> 0 < id_of e \<and> id_of e < c"
begin

lemma add_then_remove:
  assumes "inv c r" and "id_of e = c"
  shows "entries (remove c (add e r)) = entries r"
proof -
  have "inv (Suc c) (add e r)" using assms by (rule add_inv)
  then have "entries (remove c (add e r)) = filter (\<lambda>e. id_of e \<noteq> c) (entries r @ [e])"
    by (simp add: remove_entries add_entries)
  moreover have "filter (\<lambda>e. id_of e \<noteq> c) (entries r) = entries r"
    using bounded [OF assms(1)] by (intro filter_True) auto
  ultimately show ?thesis using assms(2) by simp
qed

lemma removed_is_gone: "inv c r \<Longrightarrow> e \<in> set (entries (remove i r)) \<Longrightarrow> id_of e \<noteq> i"
  by (auto simp: remove_entries)

lemma remove_keeps_others: "inv c r \<Longrightarrow> id_of e \<noteq> i \<Longrightarrow> e \<in> set (entries r) \<Longrightarrow> e \<in> set (entries (remove i r))"
  by (auto simp: remove_entries)

lemma remove_invalid_is_noop: "inv c r \<Longrightarrow> entries (remove 0 r) = entries r"
  using bounded by (fastforce simp: remove_entries intro!: filter_True)

end

lemma erase_first_filter_distinct:
  "distinct (map f es) \<Longrightarrow> erase_first (\<lambda>e. f e = i) es = filter (\<lambda>e. f e \<noteq> i) es"
proof (induction es)
  case Nil
  then show ?case by simp
next
  case (Cons e es)
  have "filter (\<lambda>x. f x \<noteq> f e) es = es"
    using Cons.prems by (intro filter_True) (auto simp: image_iff)
  with Cons show ?case by (cases "f e = i") auto
qed

interpretation notify_registry: handler_registry reg_add reg_remove "\<lambda>r. r" neId reg_inv
  by unfold_locales
    (auto simp: reg_add_def reg_inv_def reg_remove_def erase_first_filter_distinct distinct_map_filter)

section \<open>The size-query protocol\<close>

text \<open>
  Every entry point that returns a string takes a buffer (possibly null) and an in/out length
  (possibly null).  \<open>sized_copy s has_buffer len\<close> is the common tail: \<open>len\<close> is the
  capacity passed in, the result is the code, the length written back and the text copied (without
  its terminator).
\<close>

definition sized_copy :: "string \<Rightarrow> bool \<Rightarrow> int \<Rightarrow> eresult \<times> int \<times> string option" where
  "sized_copy s has_buffer len =
     (let required = int (length s) + 1 in
      if \<not> has_buffer \<or> len < required then (EOS_LimitExceeded, required, None)
      else (EOS_Success, required, Some s))"

text \<open>What a caller of such an entry point relies on, for the text the entry point stands for.\<close>

locale size_query =
  fixes copy :: "bool \<Rightarrow> int \<Rightarrow> eresult \<times> int \<times> string option"
    and contents :: string
  assumes too_small: "\<not> has_buffer \<or> len \<le> int (length contents) \<Longrightarrow>
      copy has_buffer len = (EOS_LimitExceeded, int (length contents) + 1, None)"
    and fits: "len > int (length contents) \<Longrightarrow>
      copy True len = (EOS_Success, int (length contents) + 1, Some contents)"
begin

text \<open>Ask with a null buffer, allocate what it says, ask again: the text arrives, and nothing
  longer than the buffer is ever written.\<close>

lemma query_then_copy:
  "copy True (fst (snd (copy False len))) = (EOS_Success, int (length contents) + 1, Some contents)"
  by (simp add: too_small fits)

lemma never_overruns: "copy b len = (r, n, Some t) \<Longrightarrow> b \<Longrightarrow> int (length t) < len"
  using too_small [of b len] fits [of len] by (cases "len > int (length contents)") auto

lemma exact_code: "fst (copy True len) = EOS_Success \<longleftrightarrow> len > int (length contents)"
  using too_small [of True len] fits [of len] by (cases "len > int (length contents)") auto

end

lemma sized_copy_too_small:
  "\<not> b \<or> len \<le> int (length s) \<Longrightarrow> sized_copy s b len = (EOS_LimitExceeded, int (length s) + 1, None)"
  by (auto simp: sized_copy_def)

lemma sized_copy_fits:
  "len > int (length s) \<Longrightarrow> sized_copy s True len = (EOS_Success, int (length s) + 1, Some s)"
  by (simp add: sized_copy_def)

interpretation sized: size_query "sized_copy s" s for s
  by unfold_locales (simp_all add: sized_copy_too_small sized_copy_fits)

end
