(* ===== verification/Ids.thy ===== *)
theory Ids
  imports Common
begin

unbundle bit_operations_syntax

text \<open>
  Opaque account ids, \<open>src/core/Ids.h\<close> and \<open>src/core/Ids.cpp\<close>.

  The intern table is modelled with its heap: a handle is an address, each \<open>new Details\<close>
  takes the next free address, and the object at an address holds the id string.  The result of the
  theory is the fact the rest of the development uses: after any sequence of interns two handles are
  equal exactly when their strings are, a handle never changes or dies, and the empty string is the
  null handle.  This is why the other theories name a handle by its string (type \<open>puid\<close>,
  \<open>intern\<close>).
\<close>

section \<open>The intern table\<close>

type_synonym handle = nat

record intern_table =
  itMap :: "(string, handle) amap"
  itHeap :: "(handle, string) amap"
  itNext :: handle

definition intern_empty :: intern_table where
  "intern_empty = \<lparr>itMap = [], itHeap = [], itNext = 1\<rparr>"

definition Intern :: "string \<Rightarrow> intern_table \<Rightarrow> handle option \<times> intern_table" where
  "Intern v t =
     (if v = [] then (None, t)
      else case map_of (itMap t) v of
             Some p \<Rightarrow> (Some p, t)
           | None \<Rightarrow> (Some (itNext t),
               t\<lparr>itMap := AList.update v (itNext t) (itMap t),
                 itHeap := AList.update (itNext t) v (itHeap t),
                 itNext := Suc (itNext t)\<rparr>))"

text \<open>\<open>EpicString\<close> / \<open>ProductString\<close>: the string behind a handle, empty for null.\<close>

definition IdString :: "intern_table \<Rightarrow> handle option \<Rightarrow> string" where
  "IdString t h =
     (case h of None \<Rightarrow> [] | Some p \<Rightarrow> (case map_of (itHeap t) p of Some s \<Rightarrow> s | None \<Rightarrow> []))"

text \<open>The three tables (\<open>g_Epic\<close>, \<open>g_Product\<close>, \<open>g_Continuance\<close>) are separate.\<close>

record id_tables =
  tEpic :: intern_table
  tProduct :: intern_table
  tContinuance :: intern_table

definition id_tables_init :: id_tables where
  "id_tables_init = \<lparr>tEpic = intern_empty, tProduct = intern_empty, tContinuance = intern_empty\<rparr>"

definition InternEpic :: "string \<Rightarrow> id_tables \<Rightarrow> handle option \<times> id_tables" where
  "InternEpic v g = (case Intern v (tEpic g) of (h, t) \<Rightarrow> (h, g\<lparr>tEpic := t\<rparr>))"

definition InternProduct :: "string \<Rightarrow> id_tables \<Rightarrow> handle option \<times> id_tables" where
  "InternProduct v g = (case Intern v (tProduct g) of (h, t) \<Rightarrow> (h, g\<lparr>tProduct := t\<rparr>))"

definition InternContinuance :: "string \<Rightarrow> id_tables \<Rightarrow> handle option \<times> id_tables" where
  "InternContinuance v g = (case Intern v (tContinuance g) of (h, t) \<Rightarrow> (h, g\<lparr>tContinuance := t\<rparr>))"

definition EOS_EpicAccountId_FromString :: "string option \<Rightarrow> id_tables \<Rightarrow> handle option \<times> id_tables" where
  "EOS_EpicAccountId_FromString s g = (case s of None \<Rightarrow> (None, g) | Some v \<Rightarrow> InternEpic v g)"

definition EOS_ProductUserId_FromString :: "string option \<Rightarrow> id_tables \<Rightarrow> handle option \<times> id_tables" where
  "EOS_ProductUserId_FromString s g = (case s of None \<Rightarrow> (None, g) | Some v \<Rightarrow> InternProduct v g)"

definition EOS_EpicAccountId_IsValid :: "handle option \<Rightarrow> id_tables \<Rightarrow> bool" where
  "EOS_EpicAccountId_IsValid h g \<longleftrightarrow> h \<noteq> None \<and> IdString (tEpic g) h \<noteq> []"

definition EOS_ProductUserId_IsValid :: "handle option \<Rightarrow> id_tables \<Rightarrow> bool" where
  "EOS_ProductUserId_IsValid h g \<longleftrightarrow> h \<noteq> None \<and> IdString (tProduct g) h \<noteq> []"

section \<open>Stringification\<close>

text \<open>\<open>CopyIdString\<close>: a null length is checked first, then the id, then the capacity.  The
  in/out length is \<open>None\<close> when its pointer is null; a length that is left untouched comes back
  unchanged.\<close>

definition CopyIdString ::
  "string \<Rightarrow> bool \<Rightarrow> bool \<Rightarrow> int option \<Rightarrow> eresult \<times> int option \<times> string option" where
  "CopyIdString value bValid has_buffer len =
     (case len of
        None \<Rightarrow> (EOS_InvalidParameters, None, None)
      | Some n \<Rightarrow>
          if \<not> bValid then (EOS_InvalidUser, Some n, None)
          else let required = int (length value) + 1 in
               if \<not> has_buffer \<or> n < required then (EOS_LimitExceeded, Some required, None)
               else (EOS_Success, Some required, Some value))"

definition EOS_EpicAccountId_ToString ::
  "handle option \<Rightarrow> id_tables \<Rightarrow> bool \<Rightarrow> int option \<Rightarrow> eresult \<times> int option \<times> string option" where
  "EOS_EpicAccountId_ToString h g b len = CopyIdString (IdString (tEpic g) h) (h \<noteq> None) b len"

definition EOS_ProductUserId_ToString ::
  "handle option \<Rightarrow> id_tables \<Rightarrow> bool \<Rightarrow> int option \<Rightarrow> eresult \<times> int option \<times> string option" where
  "EOS_ProductUserId_ToString h g b len = CopyIdString (IdString (tProduct g) h) (h \<noteq> None) b len"

definition EOS_ContinuanceToken_ToString ::
  "handle option \<Rightarrow> id_tables \<Rightarrow> bool \<Rightarrow> int option \<Rightarrow> eresult \<times> int option \<times> string option" where
  "EOS_ContinuanceToken_ToString h g b len =
     (if h = None then (EOS_InvalidParameters, len, None)
      else CopyIdString (IdString (tContinuance g) h) True b len)"

text \<open>\<open>EOS_ByteArray_ToString\<close>: the arithmetic is \<open>uint32_t\<close>; the buffer stores are listed as
  (index, character) pairs, in order.\<close>

definition kHex :: "char list" where
  "kHex = ''0123456789ABCDEF''"

definition hex_required :: "u32 \<Rightarrow> u32" where
  "hex_required len = len * 2 + 1"

definition hex_digit :: "byte \<Rightarrow> char" where
  "hex_digit n = kHex ! unat (n AND 15)"

definition hex_writes :: "bytes \<Rightarrow> u32 \<Rightarrow> (u32 \<times> char) list" where
  "hex_writes a len =
     concat (map (\<lambda>i. [(word_of_nat i * 2, hex_digit (drop_bit 4 (a ! i))),
                       (word_of_nat i * 2 + 1, hex_digit (a ! i))]) [0..<unat len])
     @ [(len * 2, CHR 0x00)]"

definition EOS_ByteArray_ToString ::
  "bytes option \<Rightarrow> u32 \<Rightarrow> bool \<Rightarrow> u32 option \<Rightarrow> eresult \<times> u32 option \<times> (u32 \<times> char) list" where
  "EOS_ByteArray_ToString arr len has_buffer inout =
     (case (arr, inout) of
        (Some a, Some cap) \<Rightarrow>
          (if \<not> has_buffer \<or> cap < hex_required len then (EOS_LimitExceeded, Some (hex_required len), [])
           else (EOS_Success, Some (hex_required len), hex_writes a len))
      | _ \<Rightarrow> (EOS_InvalidParameters, inout, []))"

section \<open>Canonical handles\<close>

definition it_inv :: "intern_table \<Rightarrow> bool" where
  "it_inv t \<longleftrightarrow>
     0 < itNext t \<and>
     (\<forall>v p. map_of (itMap t) v = Some p \<longleftrightarrow> map_of (itHeap t) p = Some v) \<and>
     (\<forall>v p. map_of (itMap t) v = Some p \<longrightarrow> v \<noteq> [] \<and> 0 < p \<and> p < itNext t)"

lemma it_inv_empty: "it_inv intern_empty"
  by (simp add: it_inv_def intern_empty_def)

lemma it_inv_Intern [inv_intros]:
  assumes "it_inv t" shows "it_inv (snd (Intern v t))"
proof (cases "v = [] \<or> map_of (itMap t) v \<noteq> None")
  case True
  with assms show ?thesis by (auto simp: Intern_def split: option.splits)
next
  case False
  then have v: "v \<noteq> []" "map_of (itMap t) v = None" by auto
  have fresh: "map_of (itHeap t) (itNext t) = None"
  proof (rule ccontr)
    assume "map_of (itHeap t) (itNext t) \<noteq> None"
    then obtain w where "map_of (itHeap t) (itNext t) = Some w" by auto
    with assms have "itNext t < itNext t" unfolding it_inv_def by blast
    then show False by simp
  qed
  have m: "map_of (itMap t) u = Some q \<Longrightarrow> q \<noteq> itNext t" for u q
    using assms by (auto simp: it_inv_def)
  have h: "map_of (itHeap t) q \<noteq> Some v" for q
    using assms v(2) unfolding it_inv_def by (metis option.discI)
  show ?thesis
    using assms v fresh m h
    by (auto simp: Intern_def it_inv_def less_Suc_eq)
qed

lemma Intern_null_iff: "fst (Intern v t) = None \<longleftrightarrow> v = []"
  by (auto simp: Intern_def split: option.splits)

lemma IdString_Intern: "it_inv t \<Longrightarrow> IdString (snd (Intern v t)) (fst (Intern v t)) = v"
  by (auto simp: Intern_def IdString_def it_inv_def split: option.splits)

text \<open>A handle that exists keeps its string, whatever is interned later.\<close>

lemma IdString_stable:
  assumes "it_inv t" and "h = None \<or> (\<exists>p. h = Some p \<and> map_of (itHeap t) p \<noteq> None)"
  shows "IdString (snd (Intern v t)) h = IdString t h"
proof -
  have "map_of (itHeap t) (itNext t) = None"
    using assms(1) by (cases "map_of (itHeap t) (itNext t)") (auto simp: it_inv_def)
  with assms(2) show ?thesis
    by (auto simp: Intern_def IdString_def split: option.splits)
qed

text \<open>The interface the rest of the emulator relies on: a table whose handles are canonical.\<close>

locale canonical_handles =
  fixes intern :: "string \<Rightarrow> 't \<Rightarrow> 'h option \<times> 't"
    and str :: "'t \<Rightarrow> 'h option \<Rightarrow> string"
    and inv :: "'t \<Rightarrow> bool"
    and known :: "'t \<Rightarrow> 'h option \<Rightarrow> bool"
  assumes keeps: "inv t \<Longrightarrow> inv (snd (intern v t))"
    and str_intern: "inv t \<Longrightarrow> str (snd (intern v t)) (fst (intern v t)) = v"
    and known_intern: "inv t \<Longrightarrow> known (snd (intern v t)) (fst (intern v t))"
    and known_stable: "inv t \<Longrightarrow> known t h \<Longrightarrow> known (snd (intern v t)) h \<and> str (snd (intern v t)) h = str t h"
    and same_string: "inv t \<Longrightarrow> known t h \<Longrightarrow> known t k \<Longrightarrow> str t h = str t k \<Longrightarrow> h = k"
begin

lemma same_handle_iff:
  assumes "inv t" "known t h"
  shows "fst (intern v t) = h \<longleftrightarrow> str t h = v"
proof
  assume "fst (intern v t) = h"
  then show "str t h = v" using str_intern [OF assms(1), of v] known_stable [OF assms] by simp
next
  assume "str t h = v"
  then have "str (snd (intern v t)) h = str (snd (intern v t)) (fst (intern v t))"
    using known_stable [OF assms] str_intern [OF assms(1)] by simp
  then show "fst (intern v t) = h"
    using same_string [OF keeps [OF assms(1)]] known_stable [OF assms] known_intern [OF assms(1)] by metis
qed

fun intern_all :: "string list \<Rightarrow> 't \<Rightarrow> 'h option list \<times> 't" where
  "intern_all [] t = ([], t)"
| "intern_all (v # vs) t =
     (case intern v t of (h, t1) \<Rightarrow> (case intern_all vs t1 of (hs, t2) \<Rightarrow> (h # hs, t2)))"

lemma intern_all_props:
  assumes "inv t"
  shows "inv (snd (intern_all vs t)) \<and>
    (\<forall>h. known t h \<longrightarrow> known (snd (intern_all vs t)) h \<and> str (snd (intern_all vs t)) h = str t h) \<and>
    length (fst (intern_all vs t)) = length vs \<and>
    (\<forall>i < length vs. known (snd (intern_all vs t)) (fst (intern_all vs t) ! i) \<and>
       str (snd (intern_all vs t)) (fst (intern_all vs t) ! i) = vs ! i)"
  using assms
proof (induction vs arbitrary: t)
  case Nil
  then show ?case by simp
next
  case (Cons v vs)
  obtain h t1 where i: "intern v t = (h, t1)" by (cases "intern v t")
  have inv1: "inv t1" using keeps [OF Cons.prems, of v] i by simp
  have h1: "known t1 h" "str t1 h = v"
    using known_intern [OF Cons.prems, of v] str_intern [OF Cons.prems, of v] i by simp_all
  have st: "known t k \<Longrightarrow> known t1 k \<and> str t1 k = str t k" for k
    using known_stable [OF Cons.prems, of k v] i by simp
  obtain hs t2 where r: "intern_all vs t1 = (hs, t2)" by (cases "intern_all vs t1")
  note IH = Cons.IH [OF inv1, unfolded r, simplified]
  show ?case
    using IH h1 st by (auto simp: i r nth_Cons split: nat.split)
qed

text \<open>Two interns give the same handle exactly when they were given the same string.\<close>

lemma intern_all_canonical:
  assumes "inv t" "i < length vs" "j < length vs"
  shows "fst (intern_all vs t) ! i = fst (intern_all vs t) ! j \<longleftrightarrow> vs ! i = vs ! j"
  using intern_all_props [OF assms(1), of vs] assms(2,3)
    same_string [of "snd (intern_all vs t)" "fst (intern_all vs t) ! i" "fst (intern_all vs t) ! j"]
  by metis

end

definition it_known :: "intern_table \<Rightarrow> handle option \<Rightarrow> bool" where
  "it_known t h \<longleftrightarrow> (case h of None \<Rightarrow> True | Some p \<Rightarrow> map_of (itHeap t) p \<noteq> None)"

interpretation ids: canonical_handles Intern IdString it_inv it_known
proof unfold_locales
  fix t :: intern_table and v h k
  assume inv: "it_inv t"
  show "it_inv (snd (Intern v t))" by (rule it_inv_Intern [OF inv])
  show "IdString (snd (Intern v t)) (fst (Intern v t)) = v" by (rule IdString_Intern [OF inv])
  show "it_known (snd (Intern v t)) (fst (Intern v t))"
    using inv by (auto simp: it_known_def Intern_def it_inv_def split: option.splits)
  show "it_known (snd (Intern v t)) h \<and> IdString (snd (Intern v t)) h = IdString t h"
    if "it_known t h"
    using that IdString_stable [OF inv, of h v]
    by (auto simp: it_known_def Intern_def split: option.splits)
  show "h = k" if kn: "it_known t h" "it_known t k" "IdString t h = IdString t k"
  proof (cases "h = None \<or> k = None")
    case True
    with that inv show ?thesis
      by (auto simp: it_known_def IdString_def it_inv_def split: option.splits)
  next
    case False
    then obtain p q s where "h = Some p" "k = Some q" "map_of (itHeap t) p = Some s" "map_of (itHeap t) q = Some s"
      using kn by (fastforce simp: it_known_def IdString_def split: option.splits)
    moreover from this inv have "map_of (itMap t) s = Some p" "map_of (itMap t) s = Some q"
      unfolding it_inv_def by blast+
    ultimately show ?thesis by simp
  qed
qed

text \<open>Interning a whole sequence of strings into one table.\<close>

fun Intern_all :: "string list \<Rightarrow> intern_table \<Rightarrow> handle option list \<times> intern_table" where
  "Intern_all [] t = ([], t)"
| "Intern_all (v # vs) t =
     (case Intern v t of (h, t1) \<Rightarrow> (case Intern_all vs t1 of (hs, t2) \<Rightarrow> (h # hs, t2)))"

lemma Intern_all_eq: "Intern_all vs t = ids.intern_all vs t"
  by (induction vs arbitrary: t) (auto split: prod.splits)

text \<open>A handle named by its string: what the other theories call an interned id.\<close>

definition intern :: "string \<Rightarrow> string option" where
  "intern v = (if v = [] then None else Some v)"

lemma Intern_abs: "it_inv t \<Longrightarrow> map_option (\<lambda>p. IdString t' (Some p)) (fst (Intern v t)) = intern v"
  if "t' = snd (Intern v t)"
  using that IdString_Intern [of t v] Intern_null_iff [of v t]
  by (cases "fst (Intern v t)") (auto simp: intern_def)

section \<open>Stringification is a size query\<close>

definition to_string_call :: "handle option \<Rightarrow> id_tables \<Rightarrow> bool \<Rightarrow> int \<Rightarrow> eresult \<times> int \<times> string option" where
  "to_string_call h g b n =
     (case EOS_ProductUserId_ToString h g b (Some n) of (r, l, s) \<Rightarrow> (r, the l, s))"

lemma CopyIdString_valid:
  "CopyIdString v True b (Some n) = (case sized_copy v b n of (r, l, s) \<Rightarrow> (r, Some l, s))"
  by (simp add: CopyIdString_def sized_copy_def Let_def)

lemma to_string_call_sized:
  "h \<noteq> None \<Longrightarrow> to_string_call h g b n = sized_copy (IdString (tProduct g) h) b n"
  by (simp add: to_string_call_def EOS_ProductUserId_ToString_def CopyIdString_valid split: prod.splits)

interpretation puid_string: size_query "to_string_call (Some p) g" "IdString (tProduct g) (Some p)" for p g
  by unfold_locales (simp_all add: to_string_call_sized sized_copy_too_small sized_copy_fits)

section \<open>Byte arrays\<close>

lemma unat_hex_required: "unat len < 2 ^ 31 \<Longrightarrow> unat (hex_required len) = 2 * unat len + 1"
  by (simp add: hex_required_def unat_word_ariths)

lemma hex_writes_index:
  assumes "unat len < 2 ^ 31" and "(i, c) \<in> set (hex_writes a len)"
  shows "unat i \<le> 2 * unat len"
proof -
  have b: "unat (word_of_nat k * 2 :: u32) = 2 * k \<and> unat (word_of_nat k * 2 + 1 :: u32) = 2 * k + 1"
    if "k < unat len" for k
    using that assms(1) by (simp add: unat_word_ariths unat_of_nat take_bit_eq_mod)
  have l: "unat (len * 2) = 2 * unat len" using assms(1) by (simp add: unat_word_ariths)
  from assms(2) consider (loop) k where "k < unat len" "i = word_of_nat k * 2 \<or> i = word_of_nat k * 2 + 1"
    | (last) "i = len * 2"
    by (auto simp: hex_writes_def)
  then show ?thesis
  proof cases
    case loop
    with b [of k] show ?thesis by auto
  next
    case last
    with l show ?thesis by simp
  qed
qed

end
