(* ===== verification/Dispatch.thy ===== *)
theory Dispatch
  imports Common
begin

text \<open>
  The deferred-callback dispatcher of \<open>src/core/Dispatch.h\<close>.  A closure is an abstract task;
  running it may change the rest of the program (type \<open>'s\<close>) and post further tasks, which is
  all a consumer callback can do to the dispatcher.  The clock readings of \<open>PostAfter\<close> and
  \<open>Drain\<close> are arguments.
\<close>

record 'a dispatcher =
  dPending :: "'a list"
  dDelayed :: "(time_ns \<times> 'a) list"

definition dispatcher_init :: "'a dispatcher" where
  "dispatcher_init = \<lparr>dPending = [], dDelayed = []\<rparr>"

definition Post :: "'a \<Rightarrow> 'a dispatcher \<Rightarrow> 'a dispatcher" where
  "Post w d = d\<lparr>dPending := dPending d @ [w]\<rparr>"

definition PostAfter :: "time_ns \<Rightarrow> int \<Rightarrow> 'a \<Rightarrow> 'a dispatcher \<Rightarrow> 'a dispatcher" where
  "PostAfter now delay_ms w d = d\<lparr>dDelayed := dDelayed d @ [(now + ms delay_ms, w)]\<rparr>"

text \<open>The locked prologue of \<open>Drain\<close>: swap out the pending list, then append the due delayed
  tasks in their list order and keep the rest.\<close>

fun split_due :: "time_ns \<Rightarrow> (time_ns \<times> 'a) list \<Rightarrow> 'a list \<times> (time_ns \<times> 'a) list" where
  "split_due now [] = ([], [])"
| "split_due now ((due, w) # ds) =
     (case split_due now ds of (r, k) \<Rightarrow>
        if due \<le> now then (w # r, k) else (r, (due, w) # k))"

definition take_ready :: "time_ns \<Rightarrow> 'a dispatcher \<Rightarrow> 'a list \<times> 'a dispatcher" where
  "take_ready now d =
     (case split_due now (dDelayed d) of (r, k) \<Rightarrow>
        (dPending d @ r, \<lparr>dPending = [], dDelayed = k\<rparr>))"

text \<open>A task's effect: the program state, then what it posted and posted with a delay.\<close>

record ('a, 's) task_effect =
  teState :: 's
  tePosts :: "'a list"
  teDelayed :: "(time_ns \<times> 'a) list"

fun run_ready ::
  "('a \<Rightarrow> 's \<Rightarrow> ('a, 's) task_effect) \<Rightarrow> 'a list \<Rightarrow> 's \<Rightarrow> 'a dispatcher \<Rightarrow> 's \<times> 'a dispatcher" where
  "run_ready run [] s d = (s, d)"
| "run_ready run (w # ws) s d =
     (let e = run w s in
      run_ready run ws (teState e)
        \<lparr>dPending = dPending d @ tePosts e, dDelayed = dDelayed d @ teDelayed e\<rparr>)"

definition Drain ::
  "time_ns \<Rightarrow> ('a \<Rightarrow> 's \<Rightarrow> ('a, 's) task_effect) \<Rightarrow> 's \<Rightarrow> 'a dispatcher \<Rightarrow> 's \<times> 'a dispatcher" where
  "Drain now run s d = (case take_ready now d of (ready, d') \<Rightarrow> run_ready run ready s d')"

section \<open>What one drain does\<close>

lemma split_due_eq:
  "split_due now ds = (map snd (filter (\<lambda>p. fst p \<le> now) ds), filter (\<lambda>p. \<not> fst p \<le> now) ds)"
  by (induction ds) auto

text \<open>The state and posts of running a list of tasks, without a dispatcher: the specification of a
  drain.\<close>

fun exec_tasks ::
  "('a \<Rightarrow> 's \<Rightarrow> ('a, 's) task_effect) \<Rightarrow> 'a list \<Rightarrow> 's \<Rightarrow> 's \<times> 'a list \<times> (time_ns \<times> 'a) list" where
  "exec_tasks run [] s = (s, [], [])"
| "exec_tasks run (w # ws) s =
     (let e = run w s in
      case exec_tasks run ws (teState e) of (s', ps, ds) \<Rightarrow> (s', tePosts e @ ps, teDelayed e @ ds))"

lemma run_ready_eq:
  "run_ready run ws s d =
     (case exec_tasks run ws s of (s', ps, ds) \<Rightarrow>
        (s', \<lparr>dPending = dPending d @ ps, dDelayed = dDelayed d @ ds\<rparr>))"
  by (induction ws arbitrary: s d) (auto simp: Let_def split: prod.splits)

lemma Drain_exact:
  "Drain now run s d =
     (case exec_tasks run (dPending d @ map snd (filter (\<lambda>p. fst p \<le> now) (dDelayed d))) s of
        (s', ps, ds) \<Rightarrow>
          (s', \<lparr>dPending = ps, dDelayed = filter (\<lambda>p. \<not> fst p \<le> now) (dDelayed d) @ ds\<rparr>))"
  by (simp add: Drain_def take_ready_def split_due_eq run_ready_eq split: prod.splits)

end
