(* ===== verification/Sdk.thy ===== *)
theory Sdk
  imports Prelude
begin

text \<open>
  The constants of the SDK headers (\<open>eos_*.h\<close>), which are not part of the repository: a
  parameter \<open>K\<close> of every definition that uses them.  Only enumerations whose numeric value the
  code puts on the wire or reads back from it appear; an enumeration the code only switches on is a
  datatype with an "other" constructor.  \<open>sdk_ok\<close> collects the documented facts the code relies
  on: enumerators of one enumeration are distinct and fit the byte the wire format gives them, a
  socket name buffer has room for at least one character and its terminator.  \<open>sdk_1_19\<close> holds
  the documented values of release 1.19, used by the witnesses.
\<close>

record sdk =
  EOS_AT_BOOLEAN :: enum
  EOS_AT_INT64 :: enum
  EOS_AT_DOUBLE :: enum
  EOS_AT_STRING :: enum
  EOS_PR_UnreliableUnordered :: enum
  EOS_PR_ReliableUnordered :: enum
  EOS_PR_ReliableOrdered :: enum
  EOS_LMS_JOINED :: enum
  EOS_LMS_LEFT :: enum
  EOS_LMS_KICKED :: enum
  EOS_LMS_PROMOTED :: enum
  EOS_LMS_CLOSED :: enum
  EOS_LAT_PUBLIC :: enum
  EOS_LPL_PUBLICADVERTISED :: enum
  EOS_OPT_Epic :: u32
  EOS_OSPF_PublicAdvertised :: enum
  EOS_OSS_NoSession :: enum
  EOS_OSS_Pending :: enum
  EOS_OSS_InProgress :: enum
  EOS_OSS_Ended :: enum
  EOS_SAAT_Advertise :: enum
  EOS_PS_Offline :: enum
  EOS_PS_Online :: enum
  EOS_P2P_MAX_PACKET_SIZE :: nat
  EOS_P2P_SOCKETID_SOCKETNAME_SIZE :: nat
  EOS_P2P_MAX_QUEUE_SIZE_UNLIMITED :: nat
  EOS_P2P_SENDPACKET_API_LATEST :: int
  EOS_P2P_GETNEXTRECEIVEDPACKETSIZE_API_LATEST :: int
  EOS_P2P_RECEIVEPACKET_API_LATEST :: int
  EOS_LOBBY_CREATELOBBY_API_LATEST :: int
  EOS_LOBBY_MAX_SEARCH_RESULTS :: nat
  EOS_LOBBY_SEARCH_BUCKET_ID :: string
  EOS_LOBBY_SEARCH_MINCURRENTMEMBERS :: string
  EOS_LOBBY_SEARCH_MINSLOTSAVAILABLE :: string
  EOS_SESSIONS_CREATESESSIONMODIFICATION_API_LATEST :: int
  EOS_SESSIONS_SEARCH_BUCKET_ID :: string
  EOS_SESSIONS_SEARCH_MINSLOTSAVAILABLE :: string
  EOS_SESSIONS_SEARCH_EMPTY_SERVERS_ONLY :: string
  EOS_SESSIONS_SEARCH_NONEMPTY_SERVERS_ONLY :: string

definition byte_codes :: "enum list \<Rightarrow> bool" where
  "byte_codes es \<longleftrightarrow> distinct es \<and> (\<forall>e \<in> set es. 0 \<le> e \<and> e < 256)"

definition sdk_ok :: "sdk \<Rightarrow> bool" where
  "sdk_ok K \<longleftrightarrow>
     byte_codes [EOS_AT_BOOLEAN K, EOS_AT_INT64 K, EOS_AT_DOUBLE K, EOS_AT_STRING K] \<and>
     byte_codes [EOS_PR_UnreliableUnordered K, EOS_PR_ReliableUnordered K, EOS_PR_ReliableOrdered K] \<and>
     byte_codes [EOS_LMS_JOINED K, EOS_LMS_LEFT K, EOS_LMS_KICKED K, EOS_LMS_PROMOTED K, EOS_LMS_CLOSED K] \<and>
     byte_codes [EOS_OSS_NoSession K, EOS_OSS_Pending K, EOS_OSS_InProgress K, EOS_OSS_Ended K] \<and>
     byte_codes [EOS_PS_Offline K, EOS_PS_Online K] \<and>
     1 < EOS_P2P_SOCKETID_SOCKETNAME_SIZE K"

definition sdk_1_19 :: sdk where
  "sdk_1_19 =
     \<lparr>EOS_AT_BOOLEAN = 0, EOS_AT_INT64 = 1, EOS_AT_DOUBLE = 2, EOS_AT_STRING = 3,
      EOS_PR_UnreliableUnordered = 0, EOS_PR_ReliableUnordered = 1, EOS_PR_ReliableOrdered = 2,
      EOS_LMS_JOINED = 0, EOS_LMS_LEFT = 1, EOS_LMS_KICKED = 3, EOS_LMS_PROMOTED = 4, EOS_LMS_CLOSED = 5,
      EOS_LAT_PUBLIC = 0, EOS_LPL_PUBLICADVERTISED = 0, EOS_OPT_Epic = 100,
      EOS_OSPF_PublicAdvertised = 0,
      EOS_OSS_NoSession = 0, EOS_OSS_Pending = 2, EOS_OSS_InProgress = 4, EOS_OSS_Ended = 6,
      EOS_SAAT_Advertise = 1, EOS_PS_Offline = 0, EOS_PS_Online = 1,
      EOS_P2P_MAX_PACKET_SIZE = 1170, EOS_P2P_SOCKETID_SOCKETNAME_SIZE = 33,
      EOS_P2P_MAX_QUEUE_SIZE_UNLIMITED = 0,
      EOS_P2P_SENDPACKET_API_LATEST = 3, EOS_P2P_GETNEXTRECEIVEDPACKETSIZE_API_LATEST = 2,
      EOS_P2P_RECEIVEPACKET_API_LATEST = 2,
      EOS_LOBBY_CREATELOBBY_API_LATEST = 10, EOS_LOBBY_MAX_SEARCH_RESULTS = 200,
      EOS_LOBBY_SEARCH_BUCKET_ID = ''bucket'',
      EOS_LOBBY_SEARCH_MINCURRENTMEMBERS = ''mincurrentmembers'',
      EOS_LOBBY_SEARCH_MINSLOTSAVAILABLE = ''minslotsavailable'',
      EOS_SESSIONS_CREATESESSIONMODIFICATION_API_LATEST = 5,
      EOS_SESSIONS_SEARCH_BUCKET_ID = ''bucket'',
      EOS_SESSIONS_SEARCH_MINSLOTSAVAILABLE = ''minslotsavailable'',
      EOS_SESSIONS_SEARCH_EMPTY_SERVERS_ONLY = ''emptyonly'',
      EOS_SESSIONS_SEARCH_NONEMPTY_SERVERS_ONLY = ''nonemptyonly''\<rparr>"

lemma sdk_1_19_ok [simp]: "sdk_ok sdk_1_19"
  by (simp add: sdk_ok_def sdk_1_19_def byte_codes_def)

text \<open>The casts between an enumeration and its wire byte.\<close>

definition enum_byte :: "enum \<Rightarrow> byte" where
  "enum_byte e = word_of_int e"

definition byte_enum :: "byte \<Rightarrow> enum" where
  "byte_enum b = uint b"

lemma byte_enum_enum_byte [simp]: "0 \<le> e \<Longrightarrow> e < 256 \<Longrightarrow> byte_enum (enum_byte e) = e"
  by (simp add: byte_enum_def enum_byte_def uint_word_of_int)

lemma enum_byte_inj: "0 \<le> a \<Longrightarrow> a < 256 \<Longrightarrow> 0 \<le> b \<Longrightarrow> b < 256 \<Longrightarrow> enum_byte a = enum_byte b \<longleftrightarrow> a = b"
  by (metis byte_enum_enum_byte)

lemma byte_codes_at: "byte_codes es \<Longrightarrow> e \<in> set es \<Longrightarrow> 0 \<le> e \<and> e < 256"
  by (simp add: byte_codes_def)

end
