(* ===== verification/Attributes.thy ===== *)
theory Attributes
  imports Sdk Serialize "HOL-Library.Log_Nat" Complex_Main
begin

text \<open>
  The attribute values of lobbies and sessions, \<open>src/interfaces/Attributes.h\<close> and
  \<open>src/interfaces/Attributes.cpp\<close>: the tagged value, its wire form, equality and the search
  comparison.

  A \<open>double\<close> is its 64-bit pattern; \<open>dbl_val\<close> decodes the IEEE 754 binary64 value
  and the comparison operators are those of the standard (NaN compares unequal to everything).  The
  conversion of an \<open>int64_t\<close> rounds to 53 significant bits, ties to even (\<open>round53\<close>).
\<close>

section \<open>Doubles\<close>

datatype dval = DNaN | DInf bool | DFin rat

definition signed_rat :: "bool \<Rightarrow> rat \<Rightarrow> rat" where
  "signed_rat neg x = (if neg then - x else x)"

definition dbl_val :: "u64 \<Rightarrow> dval" where
  "dbl_val v =
     (let n = unat v; neg = (n div 2 ^ 63 = 1); e = (n div 2 ^ 52) mod 2 ^ 11; m = n mod 2 ^ 52 in
      if e = 2047 then (if m = 0 then DInf neg else DNaN)
      else if e = 0 then DFin (signed_rat neg (of_nat m / 2 ^ 1074))
      else if 1075 \<le> e then DFin (signed_rat neg (of_nat ((2 ^ 52 + m) * 2 ^ (e - 1075))))
      else DFin (signed_rat neg (of_nat (2 ^ 52 + m) / 2 ^ (1075 - e))))"

fun deq :: "dval \<Rightarrow> dval \<Rightarrow> bool" where
  "deq DNaN y = False"
| "deq x DNaN = False"
| "deq (DInf a) (DInf b) = (a = b)"
| "deq (DFin x) (DFin y) = (x = y)"
| "deq _ _ = False"

text \<open>\<open>DInf True\<close> is minus infinity.\<close>

fun dlt :: "dval \<Rightarrow> dval \<Rightarrow> bool" where
  "dlt DNaN y = False"
| "dlt x DNaN = False"
| "dlt (DInf a) (DInf b) = (a \<and> \<not> b)"
| "dlt (DInf a) (DFin y) = a"
| "dlt (DFin x) (DInf b) = (\<not> b)"
| "dlt (DFin x) (DFin y) = (x < y)"

definition dle :: "dval \<Rightarrow> dval \<Rightarrow> bool" where
  "dle x y \<longleftrightarrow> dlt x y \<or> deq x y"

definition round53_nat :: "nat \<Rightarrow> nat" where
  "round53_nat n =
     (if n < 2 ^ 53 then n
      else let e = floorlog 2 n - 53; q = n div 2 ^ e; r = n mod 2 ^ e; h = 2 ^ (e - 1)
           in (if r > h \<or> (r = h \<and> odd q) then q + 1 else q) * 2 ^ e)"

definition round53 :: "int \<Rightarrow> int" where
  "round53 i = (if i < 0 then - int (round53_nat (nat (- i))) else int (round53_nat (nat i)))"

definition dbl_of_int64 :: "u64 \<Rightarrow> dval" where
  "dbl_of_int64 v = DFin (of_int (round53 (sint v)))"

section \<open>Attribute values\<close>

record AttrValue =
  avType :: enum
  avInt :: u64
  avDbl :: u64
  avBool :: int
  avStr :: string

definition AttrValue_default :: "sdk \<Rightarrow> AttrValue" where
  "AttrValue_default K = \<lparr>avType = EOS_AT_BOOLEAN K, avInt = 0, avDbl = 0, avBool = EOS_FALSE, avStr = []\<rparr>"

text \<open>\<open>ReadAttr\<close>: builds a value from the API's union; a null string is empty.\<close>

definition ReadAttr :: "sdk \<Rightarrow> enum \<Rightarrow> u64 \<Rightarrow> u64 \<Rightarrow> int \<Rightarrow> string option \<Rightarrow> AttrValue" where
  "ReadAttr K t i d b s =
     (let v = (AttrValue_default K)\<lparr>avType := t\<rparr> in
      if t = EOS_AT_BOOLEAN K then v\<lparr>avBool := b\<rparr>
      else if t = EOS_AT_INT64 K then v\<lparr>avInt := i\<rparr>
      else if t = EOS_AT_DOUBLE K then v\<lparr>avDbl := d\<rparr>
      else if t = EOS_AT_STRING K then v\<lparr>avStr := (case s of None \<Rightarrow> [] | Some x \<Rightarrow> x)\<rparr>
      else v)"

definition WriteAttrWire :: "sdk \<Rightarrow> string \<Rightarrow> AttrValue \<Rightarrow> bytes" where
  "WriteAttrWire K key v =
     enc_str key @ enc_u8 (enum_byte (avType v)) @
     (if avType v = EOS_AT_BOOLEAN K then enc_u8 (if avBool v \<noteq> 0 then 1 else 0)
      else if avType v = EOS_AT_INT64 K then enc_i64 (avInt v)
      else if avType v = EOS_AT_DOUBLE K then enc_dbl (avDbl v)
      else if avType v = EOS_AT_STRING K then enc_str (avStr v)
      else [])"

definition ReadAttrWire :: "sdk \<Rightarrow> reader \<Rightarrow> (string \<times> AttrValue) \<times> reader" where
  "ReadAttrWire K r =
     (let (key, r1) = rd_str r;
          (tb, r2) = rd_u8 r1;
          t = byte_enum tb;
          v = (AttrValue_default K)\<lparr>avType := t\<rparr>
      in if t = EOS_AT_BOOLEAN K then
           (let (b, r3) = rd_u8 r2 in ((key, v\<lparr>avBool := (if b \<noteq> 0 then EOS_TRUE else EOS_FALSE)\<rparr>), r3))
         else if t = EOS_AT_INT64 K then (let (i, r3) = rd_i64 r2 in ((key, v\<lparr>avInt := i\<rparr>), r3))
         else if t = EOS_AT_DOUBLE K then (let (d, r3) = rd_dbl r2 in ((key, v\<lparr>avDbl := d\<rparr>), r3))
         else if t = EOS_AT_STRING K then (let (s, r3) = rd_str r2 in ((key, v\<lparr>avStr := s\<rparr>), r3))
         else ((key, v), r2))"

definition AttrEqual :: "sdk \<Rightarrow> AttrValue \<Rightarrow> AttrValue \<Rightarrow> bool" where
  "AttrEqual K a b \<longleftrightarrow>
     (if avType a \<noteq> avType b then False
      else if avType a = EOS_AT_BOOLEAN K then avBool a = avBool b
      else if avType a = EOS_AT_INT64 K then avInt a = avInt b
      else if avType a = EOS_AT_DOUBLE K then deq (dbl_val (avDbl a)) (dbl_val (avDbl b))
      else if avType a = EOS_AT_STRING K then avStr a = avStr b
      else False)"

section \<open>Search comparison\<close>

datatype ComparisonOp =
    EOS_CO_EQUAL | EOS_CO_NOTEQUAL | EOS_CO_GREATERTHAN | EOS_CO_GREATERTHANOREQUAL
  | EOS_CO_LESSTHAN | EOS_CO_LESSTHANOREQUAL | EOS_CO_DISTANCE | EOS_CO_ANYOF | EOS_CO_NOTANYOF
  | EOS_CO_ONEOF | EOS_CO_NOTONEOF | EOS_CO_CONTAINS | EOS_CO_OTHER

definition Numeric :: "sdk \<Rightarrow> AttrValue \<Rightarrow> dval" where
  "Numeric K v =
     (if avType v = EOS_AT_BOOLEAN K then (if avBool v \<noteq> 0 then DFin 1 else DFin 0)
      else if avType v = EOS_AT_INT64 K then dbl_of_int64 (avInt v)
      else if avType v = EOS_AT_DOUBLE K then dbl_val (avDbl v)
      else DFin 0)"

text \<open>\<open>std::string::find(q) != npos\<close>.\<close>

fun str_contains :: "string \<Rightarrow> string \<Rightarrow> bool" where
  "str_contains [] q = (q = [])"
| "str_contains (c # s) q = (take (length q) (c # s) = q \<or> str_contains s q)"

definition CompareAttr :: "sdk \<Rightarrow> AttrValue \<Rightarrow> ComparisonOp \<Rightarrow> AttrValue \<Rightarrow> bool" where
  "CompareAttr K stored cop query \<longleftrightarrow>
     (let both_string = (avType stored = EOS_AT_STRING K \<and> avType query = EOS_AT_STRING K);
          eq = (if both_string then avStr stored = avStr query
                else deq (Numeric K stored) (Numeric K query));
          ne = (if both_string then avStr stored \<noteq> avStr query
                else \<not> deq (Numeric K stored) (Numeric K query))
      in case cop of
           EOS_CO_EQUAL \<Rightarrow> eq | EOS_CO_ANYOF \<Rightarrow> eq | EOS_CO_ONEOF \<Rightarrow> eq
         | EOS_CO_NOTEQUAL \<Rightarrow> ne | EOS_CO_NOTANYOF \<Rightarrow> ne | EOS_CO_NOTONEOF \<Rightarrow> ne
         | EOS_CO_GREATERTHAN \<Rightarrow> \<not> both_string \<and> dlt (Numeric K query) (Numeric K stored)
         | EOS_CO_GREATERTHANOREQUAL \<Rightarrow> \<not> both_string \<and> dle (Numeric K query) (Numeric K stored)
         | EOS_CO_LESSTHAN \<Rightarrow> \<not> both_string \<and> dlt (Numeric K stored) (Numeric K query)
         | EOS_CO_LESSTHANOREQUAL \<Rightarrow> \<not> both_string \<and> dle (Numeric K stored) (Numeric K query)
         | EOS_CO_DISTANCE \<Rightarrow> True
         | EOS_CO_CONTAINS \<Rightarrow> both_string \<and> str_contains (avStr stored) (avStr query)
         | EOS_CO_OTHER \<Rightarrow> False)"

section \<open>Wire round trip\<close>

text \<open>The values the wire can carry: a type of one byte (the four types of the API are), a boolean
  normalised to 0/1, a string shorter than 2^32, the fields the type does not use at their defaults.\<close>

definition attr_ok :: "sdk \<Rightarrow> AttrValue \<Rightarrow> bool" where
  "attr_ok K v \<longleftrightarrow>
     0 \<le> avType v \<and> avType v < 256 \<and>
     avBool v \<in> {EOS_TRUE, EOS_FALSE} \<and> short (avStr v) \<and>
     v = ReadAttr K (avType v) (avInt v) (avDbl v) (avBool v) (Some (avStr v))"

definition wire_attr :: "sdk \<Rightarrow> string \<times> AttrValue \<Rightarrow> bytes" where
  "wire_attr K kv = WriteAttrWire K (fst kv) (snd kv)"

definition wire_attr_ok :: "sdk \<Rightarrow> string \<times> AttrValue \<Rightarrow> bool" where
  "wire_attr_ok K kv \<longleftrightarrow> short (fst kv) \<and> attr_ok K (snd kv)"

lemma ReadAttr_ok:
  "0 \<le> t \<Longrightarrow> t < 256 \<Longrightarrow> b \<in> {EOS_TRUE, EOS_FALSE} \<Longrightarrow> short x \<Longrightarrow> attr_ok K (ReadAttr K t i d b (Some x))"
  by (auto simp: attr_ok_def ReadAttr_def AttrValue_default_def Let_def short_def)

lemma sdk_ok_types: "sdk_ok K \<Longrightarrow> t \<in> {EOS_AT_BOOLEAN K, EOS_AT_INT64 K, EOS_AT_DOUBLE K, EOS_AT_STRING K} \<Longrightarrow> 0 \<le> t \<and> t < 256"
  by (auto simp: sdk_ok_def byte_codes_def)

lemma ReadAttrWire_WriteAttrWire:
  assumes ok: "attr_ok K v" and key: "short key"
    and at: "rd_at r (WriteAttrWire K key v @ bs)"
  shows "ReadAttrWire K r = ((key, v), rd_adv r (length (WriteAttrWire K key v)))"
proof -
  let ?body = "if avType v = EOS_AT_BOOLEAN K then enc_u8 (if avBool v \<noteq> 0 then 1 else 0)
      else if avType v = EOS_AT_INT64 K then enc_i64 (avInt v)
      else if avType v = EOS_AT_DOUBLE K then enc_dbl (avDbl v)
      else if avType v = EOS_AT_STRING K then enc_str (avStr v) else []"
  have at1: "rd_at r (enc_str key @ enc_u8 (enum_byte (avType v)) @ ?body @ bs)"
    using at by (simp only: WriteAttrWire_def append.assoc)
  note d1 = str.dec_enc [OF key at1]
  have at2: "rd_at (rd_adv r (length (enc_str key))) (enc_u8 (enum_byte (avType v)) @ ?body @ bs)"
    by (rule rd_at_adv [OF at1 refl])
  note d2 = u8.dec_enc [OF TrueI at2]
  have at3: "rd_at (rd_adv r (length (enc_str key) + 1)) (?body @ bs)"
    using rd_at_adv [OF at2 refl] by simp
  have t: "byte_enum (enum_byte (avType v)) = avType v"
    using ok by (simp add: attr_ok_def)
  have v: "v = ReadAttr K (avType v) (avInt v) (avDbl v) (avBool v) (Some (avStr v))"
    and s: "short (avStr v)" and b: "avBool v = 1 \<or> avBool v = 0"
    using ok by (auto simp: attr_ok_def EOS_TRUE_def EOS_FALSE_def)
  consider "avType v = EOS_AT_BOOLEAN K" | "avType v \<noteq> EOS_AT_BOOLEAN K" "avType v = EOS_AT_INT64 K"
    | "avType v \<noteq> EOS_AT_BOOLEAN K" "avType v \<noteq> EOS_AT_INT64 K" "avType v = EOS_AT_DOUBLE K"
    | "avType v \<noteq> EOS_AT_BOOLEAN K" "avType v \<noteq> EOS_AT_INT64 K" "avType v \<noteq> EOS_AT_DOUBLE K" "avType v = EOS_AT_STRING K"
    | "avType v \<noteq> EOS_AT_BOOLEAN K" "avType v \<noteq> EOS_AT_INT64 K" "avType v \<noteq> EOS_AT_DOUBLE K" "avType v \<noteq> EOS_AT_STRING K"
    by blast
  then show ?thesis
  proof cases
    case 1
    then have "rd_u8 (rd_adv r (length (enc_str key) + 1)) =
        ((if avBool v \<noteq> 0 then 1 else 0), rd_adv r (length (enc_str key) + 2))"
      using u8.dec_enc [OF TrueI, of "rd_adv r (length (enc_str key) + 1)" _ bs] at3 by simp
    moreover have "v = (AttrValue_default K)\<lparr>avType := EOS_AT_BOOLEAN K, avBool := avBool v\<rparr>"
      using v 1 by (simp add: ReadAttr_def)
    ultimately show ?thesis
      using 1 d1 d2 t b
      by (auto simp: ReadAttrWire_def WriteAttrWire_def EOS_TRUE_def EOS_FALSE_def)
  next
    case 2
    then have "rd_i64 (rd_adv r (length (enc_str key) + 1)) = (avInt v, rd_adv r (length (enc_str key) + 9))"
      using i64.dec_enc [OF TrueI, of "rd_adv r (length (enc_str key) + 1)" _ bs] at3 2 by simp
    moreover have "v = (AttrValue_default K)\<lparr>avType := EOS_AT_INT64 K, avInt := avInt v\<rparr>"
      using v 2 by (auto simp: ReadAttr_def)
    ultimately show ?thesis
      using 2 d1 d2 t by (simp add: ReadAttrWire_def WriteAttrWire_def)
  next
    case 3
    then have "rd_dbl (rd_adv r (length (enc_str key) + 1)) = (avDbl v, rd_adv r (length (enc_str key) + 9))"
      using dbl.dec_enc [OF TrueI, of "rd_adv r (length (enc_str key) + 1)" _ bs] at3 3 by simp
    moreover have "v = (AttrValue_default K)\<lparr>avType := EOS_AT_DOUBLE K, avDbl := avDbl v\<rparr>"
      using v 3 by (auto simp: ReadAttr_def)
    ultimately show ?thesis
      using 3 d1 d2 t by (simp add: ReadAttrWire_def WriteAttrWire_def)
  next
    case 4
    then have "rd_str (rd_adv r (length (enc_str key) + 1)) =
        (avStr v, rd_adv r (length (enc_str key) + 5 + length (avStr v)))"
      using str.dec_enc [OF s, of "rd_adv r (length (enc_str key) + 1)" bs] at3 4
      by (simp add: add.assoc)
    moreover have "v = (AttrValue_default K)\<lparr>avType := EOS_AT_STRING K, avStr := avStr v\<rparr>"
      using v 4 by (auto simp: ReadAttr_def)
    ultimately show ?thesis
      using 4 d1 d2 t by (simp add: ReadAttrWire_def WriteAttrWire_def add.assoc)
  next
    case 5
    then have "v = (AttrValue_default K)\<lparr>avType := avType v\<rparr>" using v by (simp add: ReadAttr_def)
    then show ?thesis using 5 d1 d2 t by (simp add: ReadAttrWire_def WriteAttrWire_def)
  qed
qed

lemma ReadAttrWire_safe: "rd_safe r (snd (ReadAttrWire K r))"
  by (auto simp: ReadAttrWire_def Let_def case_prod_beta
      intro: rd_safe_trans [OF rd_safe_trans] prim_safe)

text \<open>Whatever arrives, the value read is one of those.\<close>

lemma byte_enum_range [simp]: "0 \<le> byte_enum b" "byte_enum b < 256"
  using uint_bounded [of b] by (simp_all add: byte_enum_def)

interpretation attr_typed: typed_reader "ReadAttrWire K" "\<lambda>kv. short (fst kv) \<and> attr_ok K (snd kv)" for K
proof
  fix r
  show "rd_safe r (snd (ReadAttrWire K r))" by (rule ReadAttrWire_safe)
  assume "rd_good r"
  then have s: "short (fst (rd_str r))" "short (fst (rd_str (snd (rd_u8 (snd (rd_str r))))))" "short ([] :: string)"
    by (simp_all add: typed_simps) (simp add: short_def)
  obtain key r1 where k: "rd_str r = (key, r1)" by (cases "rd_str r")
  obtain tb r2 where tb: "rd_u8 r1 = (tb, r2)" by (cases "rd_u8 r1")
  define t where "t = byte_enum tb"
  then have t: "0 \<le> t" "t < 256" by simp_all
  show "short (fst (fst (ReadAttrWire K r))) \<and> attr_ok K (snd (fst (ReadAttrWire K r)))"
    using s t by (auto simp: ReadAttrWire_def Let_def case_prod_unfold attr_ok_def ReadAttr_def AttrValue_default_def
        k tb t_def [symmetric])
qed

section \<open>Comparison laws\<close>

lemma deq_sym: "deq x y = deq y x"
  by (cases x; cases y) auto

lemma CompareAttr_notequal:
  "CompareAttr K s EOS_CO_NOTEQUAL q = (\<not> CompareAttr K s EOS_CO_EQUAL q)"
  by (simp add: CompareAttr_def Let_def)

lemma round53_exact: "\<bar>i\<bar> < 2 ^ 53 \<Longrightarrow> round53 i = i"
  by (auto simp: round53_def round53_nat_def)

text \<open>Beyond 53 bits the conversion to \<open>double\<close> makes distinct integers compare equal.\<close>

lemma round53_tie: "round53 9007199254740992 = round53 9007199254740993"
  by (simp add: round53_def round53_nat_def Let_def compute_floorlog)

lemma CompareAttr_confuses_large_integers:
  "CompareAttr sdk_1_19 (ReadAttr sdk_1_19 1 (2 ^ 53) 0 0 None) EOS_CO_EQUAL (ReadAttr sdk_1_19 1 (2 ^ 53 + 1) 0 0 None) \<and>
   \<not> AttrEqual sdk_1_19 (ReadAttr sdk_1_19 1 (2 ^ 53) 0 0 None) (ReadAttr sdk_1_19 1 (2 ^ 53 + 1) 0 0 None)"
  by (simp add: CompareAttr_def AttrEqual_def ReadAttr_def sdk_1_19_def AttrValue_default_def Numeric_def dbl_of_int64_def round53_tie)

end
