(* ===== verification/P2PStream.thy ===== *)
theory P2PStream
  imports Complex_Main Lan Peers Sdk Common "HOL-Library.Log_Nat"
begin

unbundle bit_operations_syntax

text \<open>
  The reliability layer of \<open>src/interfaces/P2P.cpp\<close>, one stream at a time: sequence
  numbers and their 32-bit wire form, the send stream (unacknowledged packets, round-trip estimate,
  retransmission time-out and backoff), the receive stream (deduplication, in-order release into the
  inbox, cumulative and selective acknowledgement) and the two payload formats.

  The stream counters are \<open>uint64_t\<close> in the code and natural numbers here; they start at 1 and
  are incremented once per packet, so they do not reach \<open>2 ^ 64\<close>.  \<open>Extend32\<close>, where the
  32-bit wrap matters, is on words, exactly as written.  \<open>Tries\<close> is likewise a natural number.
  The round-trip estimates are \<open>double\<close>s: rationals, each operation rounded to 53 bits by
  \<open>dround\<close> (the exponent range is not limited).
\<close>

section \<open>Sockets\<close>

definition NUL :: char where "NUL = CHR 0x00"

text \<open>\<open>SocketName\<close>: the text of a fixed \<open>char[33]\<close>, empty for a null pointer.\<close>

definition SocketName :: "sdk \<Rightarrow> string option \<Rightarrow> string" where
  "SocketName K sid =
     (case sid of None \<Rightarrow> []
      | Some name \<Rightarrow> takeWhile (\<lambda>c. c \<noteq> NUL) (take (EOS_P2P_SOCKETID_SOCKETNAME_SIZE K - 1) name))"

definition FillSocketId :: "sdk \<Rightarrow> string \<Rightarrow> string" where
  "FillSocketId K name =
     (let size = EOS_P2P_SOCKETID_SOCKETNAME_SIZE K;
          n = (if length name < size - 1 then length name else size - 1)
      in take n name @ replicate (size - n) NUL)"

definition SocketMatches :: "string \<Rightarrow> string \<Rightarrow> bool" where
  "SocketMatches filt socket \<longleftrightarrow> filt = [] \<or> filt = socket"

lemma SocketName_no_NUL: "NUL \<notin> set (SocketName K sid)"
  by (auto simp: SocketName_def dest: set_takeWhileD split: option.splits)

lemma SocketName_short: "length (SocketName K sid) \<le> EOS_P2P_SOCKETID_SOCKETNAME_SIZE K - 1"
proof (cases sid)
  case None
  then show ?thesis by (simp add: SocketName_def)
next
  case (Some n)
  have "length (takeWhile (\<lambda>c. c \<noteq> NUL) (take (EOS_P2P_SOCKETID_SOCKETNAME_SIZE K - 1) n))
      \<le> length (take (EOS_P2P_SOCKETID_SOCKETNAME_SIZE K - 1) n)" by (rule length_takeWhile_le)
  with Some show ?thesis by (simp add: SocketName_def)
qed

lemma takeWhile_no_NUL: "NUL \<notin> set s \<Longrightarrow> takeWhile (\<lambda>c. c \<noteq> NUL) (s @ replicate n NUL) = s"
  by (induction s) (cases n; auto)+

lemma SocketName_FillSocketId:
  assumes "NUL \<notin> set s" "length s < EOS_P2P_SOCKETID_SOCKETNAME_SIZE K"
  shows "SocketName K (Some (FillSocketId K s)) = s"
proof -
  let ?z = "EOS_P2P_SOCKETID_SOCKETNAME_SIZE K"
  have "FillSocketId K s = s @ replicate (?z - length s) NUL"
  proof (cases "length s < ?z - 1")
    case True
    then show ?thesis by (simp add: FillSocketId_def Let_def)
  next
    case False
    with assms(2) have "length s = ?z - 1" by simp
    then show ?thesis by (simp add: FillSocketId_def Let_def)
  qed
  moreover have "take (?z - 1) (s @ replicate (?z - length s) NUL) = s @ replicate (?z - 1 - length s) NUL"
    using assms(2) by simp
  ultimately show ?thesis using assms(1) by (simp add: SocketName_def takeWhile_no_NUL)
qed

lemma length_FillSocketId: "0 < EOS_P2P_SOCKETID_SOCKETNAME_SIZE K \<Longrightarrow>
    length (FillSocketId K s) = EOS_P2P_SOCKETID_SOCKETNAME_SIZE K"
  by (auto simp: FillSocketId_def Let_def)

section \<open>Keys\<close>

definition ConnKey :: "puid \<Rightarrow> string \<Rightarrow> string" where
  "ConnKey peer socket = peer @ [NUL] @ socket"

definition StreamKey :: "puid \<Rightarrow> string \<Rightarrow> byte \<Rightarrow> bool \<Rightarrow> string" where
  "StreamKey peer socket channel ordered =
     ConnKey peer socket @ [NUL] @ [char_of_byte channel] @ [if ordered then CHR ''O'' else CHR ''U'']"

text \<open>The erase loop of \<open>ClearStreams\<close>, run on both stream maps.\<close>

definition key_under :: "puid \<Rightarrow> string \<Rightarrow> string \<Rightarrow> bool" where
  "key_under peer socket k \<longleftrightarrow>
     (let pre = ConnKey peer socket @ [NUL] in length k \<ge> length pre \<and> take (length pre) k = pre)"

definition clear_map :: "puid \<Rightarrow> string \<Rightarrow> (string, 'v) amap \<Rightarrow> (string, 'v) amap" where
  "clear_map peer socket m = filter (\<lambda>(k, v). \<not> key_under peer socket k) m"

lemma split_at_NUL:
  "NUL \<notin> set a \<Longrightarrow> NUL \<notin> set b \<Longrightarrow> a @ NUL # x = b @ NUL # y \<Longrightarrow> a = b \<and> x = y"
proof (induction a arbitrary: b)
  case Nil
  then show ?case by (cases b) auto
next
  case (Cons c a)
  then show ?case by (cases b) auto
qed

lemma ConnKey_inj:
  "NUL \<notin> set p \<Longrightarrow> NUL \<notin> set q \<Longrightarrow> ConnKey p s = ConnKey q t \<longleftrightarrow> p = q \<and> s = t"
  using split_at_NUL [of p q s t] by (auto simp: ConnKey_def)

lemma char_of_byte_inj [simp]: "char_of_byte a = char_of_byte b \<longleftrightarrow> a = b"
proof
  assume "char_of_byte a = char_of_byte b"
  then have "unat a mod 256 = unat b mod 256"
    by (metis char_of_byte_def of_char_of)
  with unsigned_less [of a, where 'a = nat] unsigned_less [of b, where 'a = nat]
  show "a = b" by (simp add: unsigned_word_eqI)
qed simp

lemma StreamKey_inj:
  assumes "NUL \<notin> set p" "NUL \<notin> set q"
  shows "StreamKey p s c o1 = StreamKey q t d o2 \<longleftrightarrow> p = q \<and> s = t \<and> c = d \<and> o1 = o2"
  using assms by (auto simp: StreamKey_def ConnKey_inj split: if_splits)

lemma key_under_StreamKey:
  assumes "NUL \<notin> set p" "NUL \<notin> set q" "NUL \<notin> set s" "NUL \<notin> set t"
  shows "key_under p s (StreamKey q t c o1) \<longleftrightarrow> p = q \<and> s = t"
proof
  assume "key_under p s (StreamKey q t c o1)"
  then obtain r where r: "StreamKey q t c o1 = (ConnKey p s @ [NUL]) @ r"
    unfolding key_under_def Let_def by (metis append_take_drop_id)
  then have "q @ NUL # (t @ NUL # [char_of_byte c, if o1 then CHR ''O'' else CHR ''U'']) = p @ NUL # (s @ NUL # r)"
    by (simp add: StreamKey_def ConnKey_def)
  with split_at_NUL [OF assms(2,1)] split_at_NUL [OF assms(4,3)] show "p = q \<and> s = t" by blast
next
  assume "p = q \<and> s = t"
  then show "key_under p s (StreamKey q t c o1)"
    by (simp add: key_under_def StreamKey_def Let_def)
qed

lemma map_of_clear_map:
  "map_of (clear_map p s m) k = (if key_under p s k then None else map_of m k)"
  by (simp add: clear_map_def map_of_filter_keys)

lemma distinct_clear_map [simp]: "distinct (keys m) \<Longrightarrow> distinct (keys (clear_map p s m))"
  by (simp add: clear_map_def)

section \<open>Sequence numbers on the wire\<close>

text \<open>\<open>0xFFFFFFFFull\<close>, \<open>0x80000000ull\<close> and \<open>0x100000000ull\<close> as in the source; all
  arithmetic wraps at 64 bits.\<close>

definition Extend32 :: "u64 \<Rightarrow> u32 \<Rightarrow> u64" where
  "Extend32 ref low =
     (let candidate = (ref AND NOT 0xFFFFFFFF) OR ucast low in
      if candidate + 0x80000000 < ref then candidate + 0x100000000
      else if ref + 0x80000000 \<le> candidate \<and> 0x100000000 \<le> candidate then candidate - 0x100000000
      else candidate)"

definition seq_low :: "nat \<Rightarrow> u32" where
  "seq_low q = word_of_nat q"

definition ext_seq :: "nat \<Rightarrow> u32 \<Rightarrow> nat" where
  "ext_seq ref low = unat (Extend32 (word_of_nat ref) low)"

lemma bit_low_mask: "bit (0xFFFFFFFF :: u64) n \<longleftrightarrow> n < 32"
proof -
  have m: "(0xFFFFFFFF :: u64) = mask 32" by (simp add: mask_eq_exp_minus_1)
  show ?thesis unfolding m by (auto simp only: bit_mask_iff) (simp add: possible_bit_word)
qed

lemma bit_high_mask: "bit (NOT 0xFFFFFFFF :: u64) n \<longleftrightarrow> 32 \<le> n \<and> n < 64"
  unfolding bit_not_iff bit_low_mask by (auto simp: possible_bit_word)

lemma unat_high_part: "unat (ref AND NOT 0xFFFFFFFF :: u64) = unat ref div 2 ^ 32 * 2 ^ 32"
proof -
  have "ref AND NOT 0xFFFFFFFF = push_bit 32 (drop_bit 32 ref)"
  proof (rule bit_word_eqI)
    fix n
    assume n: "n < LENGTH(64)"
    then show "bit (ref AND NOT 0xFFFFFFFF) n = bit (push_bit 32 (drop_bit 32 ref)) n"
      unfolding bit_and_iff bit_high_mask
      by (auto simp: bit_push_bit_iff bit_drop_bit_eq possible_bit_word)
  qed
  moreover have "unat ref div 2 ^ 32 * 2 ^ 32 < 2 ^ 64"
    using unsigned_less [of ref, where 'a = nat] div_times_less_eq_dividend [of "unat ref" "2 ^ 32"]
    by simp
  moreover have "unat (push_bit 32 (drop_bit 32 ref)) = (unat ref div 2 ^ 32 * 2 ^ 32) mod 2 ^ 64"
    by (subst unsigned_push_bit_eq, subst unsigned_drop_bit_eq)
      (use unsigned_less [of ref, where 'a = nat] in
        \<open>simp add: push_bit_eq_mult drop_bit_eq_div take_bit_eq_mod\<close>)
  ultimately show ?thesis by (simp only:) simp
qed

lemma unat_candidate:
  "unat ((ref AND NOT 0xFFFFFFFF) OR ucast low :: u64) = unat ref div 2 ^ 32 * 2 ^ 32 + unat (low :: u32)"
proof -
  have disj: "(ref AND NOT 0xFFFFFFFF) AND (ucast low :: u64) = 0"
  proof (rule bit_word_eqI)
    fix n
    assume n: "n < LENGTH(64)"
    then show "bit ((ref AND NOT 0xFFFFFFFF) AND ucast low) n = bit (0 :: u64) n"
      unfolding bit_and_iff bit_high_mask
      by (auto simp: bit_unsigned_iff dest: bit_imp_le_length)
  qed
  have low: "unat (ucast low :: u64) = unat low"
    using unsigned_less [of low, where 'a = nat]
    by (simp add: unsigned_ucast_eq take_bit_nat_eq_self)
  have "unat ref < 2 ^ 32 * 2 ^ 32" using unsigned_less [of ref, where 'a = nat] by simp
  then have "unat ref div 2 ^ 32 < 2 ^ 32" by (rule less_mult_imp_div_less)
  moreover have "unat low < 2 ^ 32" using unsigned_less [of low, where 'a = nat] by simp
  ultimately have "unat ref div 2 ^ 32 * 2 ^ 32 + unat low < 2 ^ 64" by simp
  moreover have "(ref AND NOT 0xFFFFFFFF) OR ucast low = (ref AND NOT 0xFFFFFFFF) + (ucast low :: u64)"
    using disj by (simp add: disjunctive_add_eq_or)
  ultimately show ?thesis
    using unat_high_part [of ref] low by (simp add: unat_word_ariths)
qed

lemma Extend32_nat:
  assumes "unat ref < 2 ^ 63"
  shows "unat (Extend32 ref low) =
    (let c = unat ref div 2 ^ 32 * 2 ^ 32 + unat low in
     if c + 2 ^ 31 < unat ref then c + 2 ^ 32
     else if unat ref + 2 ^ 31 \<le> c \<and> 2 ^ 32 \<le> c then c - 2 ^ 32 else c)"
proof -
  define cw where "cw = ((ref AND NOT 0xFFFFFFFF) OR ucast low :: u64)"
  let ?c = "unat ref div 2 ^ 32 * 2 ^ 32 + unat low"
  have low: "unat low < 2 ^ 32" using unsigned_less [of low, where 'a = nat] by simp
  have c: "unat cw = ?c" unfolding cw_def by (rule unat_candidate)
  have le: "unat ref div 2 ^ 32 * 2 ^ 32 \<le> unat ref" by (rule div_times_less_eq_dividend)
  have bound: "?c < 2 ^ 63 + 2 ^ 32" using low le assms by linarith
  have plus: "unat (cw + 0x80000000) = ?c + 2 ^ 31" "unat (cw + 0x100000000) = ?c + 2 ^ 32"
    using bound by (simp_all add: unat_word_ariths c)
  have refp: "unat (ref + 0x80000000) = unat ref + 2 ^ 31"
    using assms by (simp add: unat_word_ariths)
  have minus: "unat (cw - 0x100000000) = ?c - 2 ^ 32" if "2 ^ 32 \<le> ?c"
    using that c by (subst unat_sub) (simp_all add: word_le_nat_alt)
  have ge: "0x100000000 \<le> cw \<longleftrightarrow> 2 ^ 32 \<le> ?c" by (simp add: word_le_nat_alt c)
  show ?thesis
    unfolding Extend32_def Let_def cw_def [symmetric] word_less_nat_alt plus
    using plus minus ge refp c by (simp add: word_le_nat_alt)
qed

lemma ext_seq_near:
  assumes "ref \<le> q + 2 ^ 31" "q < ref + 2 ^ 31" "ref < 2 ^ 63"
  shows "ext_seq ref (seq_low q) = q"
proof -
  have r: "unat (word_of_nat ref :: u64) = ref"
    using assms(3) by (simp add: unat_of_nat take_bit_nat_eq_self)
  have l: "unat (seq_low q) = q mod 2 ^ 32" by (simp add: seq_low_def unat_of_nat take_bit_eq_mod)
  define R Q where "R = ref div 2 ^ 32" and "Q = q div 2 ^ 32"
  define m n where "m = ref mod 2 ^ 32" and "n = q mod 2 ^ 32"
  have eqs: "ref = R * 2 ^ 32 + m" "q = Q * 2 ^ 32 + n" by (simp_all add: R_def Q_def m_def n_def)
  have lt: "m < 2 ^ 32" "n < 2 ^ 32" by (simp_all add: m_def n_def)
  have cases: "Q = R \<or> Q = R + 1 \<or> R = Q + 1"
    using assms(1,2) eqs lt by (auto simp: eqs) 
  have ext: "ext_seq ref (seq_low q) =
    (let c = R * 2 ^ 32 + n in
     if c + 2 ^ 31 < ref then c + 2 ^ 32
     else if ref + 2 ^ 31 \<le> c \<and> 2 ^ 32 \<le> c then c - 2 ^ 32 else c)"
    using Extend32_nat [of "word_of_nat ref" "seq_low q"] assms(3)
    by (simp only: ext_seq_def r l R_def n_def)
  from cases show ?thesis
    by (elim disjE) (use assms(1,2) eqs lt ext in \<open>auto simp: Let_def split: if_splits\<close>)
qed

end
