(* ===== verification/P2PSend.thy ===== *)
theory P2PSend
  imports P2PStream
begin

text \<open>
  The sending half of \<open>src/interfaces/P2P.cpp\<close>: the payload formats of \<open>P2PData\<close> and
  \<open>P2PAck\<close>, the unacknowledged packets of one \<open>SendStream\<close>, the round-trip estimate and
  the retransmission schedule.

  The lemmas show that the two payloads are read back exactly, that the retransmission time-out and
  the backed-off wait stay within \<open>kMinRto\<close> and \<open>kMaxRto\<close>, that an acknowledgement
  removes exactly the packets it names, and that the pump neither adds nor loses one.
\<close>

section \<open>Payloads\<close>

definition enc_head :: "puid \<Rightarrow> string \<Rightarrow> bytes" where
  "enc_head sender socket = enc_str sender @ enc_str socket"

definition read_head :: "reader \<Rightarrow> (string \<times> string) \<times> reader" where
  "read_head r = (case rd_str r of (sender, r1) \<Rightarrow> (case rd_str r1 of (socket, r2) \<Rightarrow> ((sender, socket), r2)))"

definition enc_data_body :: "byte \<times> byte \<times> u32 \<times> bytes \<Rightarrow> bytes" where
  "enc_data_body x = (case x of (channel, mode, q, d) \<Rightarrow> enc_u8 channel @ enc_u8 mode @ enc_u32 q @ enc_bytes d)"

definition read_data_body :: "reader \<Rightarrow> (byte \<times> byte \<times> u32 \<times> bytes) \<times> reader" where
  "read_data_body r =
     (case rd_u8 r of (channel, r1) \<Rightarrow> (case rd_u8 r1 of (mode, r2) \<Rightarrow>
      (case rd_u32 r2 of (q, r3) \<Rightarrow> (case rd_bytes r3 of (d, r4) \<Rightarrow> ((channel, mode, q, d), r4)))))"

definition enc_ack_body :: "byte \<times> byte \<times> u32 \<times> u32 \<Rightarrow> bytes" where
  "enc_ack_body x = (case x of (channel, ordered, a, sack) \<Rightarrow> enc_u8 channel @ enc_u8 ordered @ enc_u32 a @ enc_u32 sack)"

definition read_ack_body :: "reader \<Rightarrow> (byte \<times> byte \<times> u32 \<times> u32) \<times> reader" where
  "read_ack_body r =
     (case rd_u8 r of (channel, r1) \<Rightarrow> (case rd_u8 r1 of (ordered, r2) \<Rightarrow>
      (case rd_u32 r2 of (a, r3) \<Rightarrow> (case rd_u32 r3 of (sack, r4) \<Rightarrow> ((channel, ordered, a, sack), r4)))))"

definition data_payload :: "puid \<Rightarrow> string \<Rightarrow> byte \<Rightarrow> byte \<Rightarrow> u32 \<Rightarrow> bytes \<Rightarrow> bytes" where
  "data_payload sender socket channel mode q d = enc_head sender socket @ enc_data_body (channel, mode, q, d)"

definition ack_payload :: "puid \<Rightarrow> string \<Rightarrow> byte \<Rightarrow> bool \<Rightarrow> u32 \<Rightarrow> u32 \<Rightarrow> bytes" where
  "ack_payload sender socket channel ordered a sack =
     enc_head sender socket @ enc_ack_body (channel, if ordered then 1 else 0, a, sack)"

interpretation p2p_head: wire_codec "\<lambda>(s, k). enc_head s k" read_head "\<lambda>(s, k). short s \<and> short k"
proof unfold_locales
  fix x :: "string \<times> string" and r bs
  assume wf: "case x of (s, k) \<Rightarrow> short s \<and> short k"
    and at: "rd_at r ((case x of (s, k) \<Rightarrow> enc_head s k) @ bs)"
  obtain s k where x: "x = (s, k)" by (cases x)
  from at x have at1: "rd_at r (enc_str s @ (enc_str k @ bs))" by (simp add: enc_head_def)
  from wf x have sh: "short s" "short k" by simp_all
  show "read_head r = (x, rd_adv r (length (case x of (s, k) \<Rightarrow> enc_head s k)))"
    using str.dec_enc [OF sh(1) at1] str.dec_enc [OF sh(2) rd_at_adv [OF at1 refl]]
    by (simp add: read_head_def x enc_head_def)
qed

interpretation data_body: wire_codec enc_data_body read_data_body "\<lambda>(c, m, q, d). short d"
proof unfold_locales
  fix x :: "byte \<times> byte \<times> u32 \<times> bytes" and r bs
  assume wf: "case x of (c, m, q, d) \<Rightarrow> short d" and at: "rd_at r (enc_data_body x @ bs)"
  obtain c m q d where x: "x = (c, m, q, d)" by (cases x)
  from at x have at1: "rd_at r (enc_u8 c @ (enc_u8 m @ (enc_u32 q @ (enc_bytes d @ bs))))"
    by (simp add: enc_data_body_def)
  note at2 = rd_at_adv [OF at1 refl]
  note at3 = rd_at_adv [OF at2 refl]
  note at4 = rd_at_adv [OF at3 refl]
  from wf x have sh: "short d" by simp
  show "read_data_body r = (x, rd_adv r (length (enc_data_body x)))"
    using u8.dec_enc [OF TrueI at1] u8.dec_enc [OF TrueI at2] u32.dec_enc [OF TrueI at3]
      bytes.dec_enc [OF sh at4]
    by (simp add: read_data_body_def x enc_data_body_def)
qed

interpretation ack_body: wire_codec enc_ack_body read_ack_body "\<lambda>_. True"
proof unfold_locales
  fix x :: "byte \<times> byte \<times> u32 \<times> u32" and r bs
  assume at: "rd_at r (enc_ack_body x @ bs)"
  obtain c m q d where x: "x = (c, m, q, d)" by (cases x)
  from at x have at1: "rd_at r (enc_u8 c @ (enc_u8 m @ (enc_u32 q @ (enc_u32 d @ bs))))"
    by (simp add: enc_ack_body_def)
  note at2 = rd_at_adv [OF at1 refl]
  note at3 = rd_at_adv [OF at2 refl]
  note at4 = rd_at_adv [OF at3 refl]
  show "read_ack_body r = (x, rd_adv r (length (enc_ack_body x)))"
    using u8.dec_enc [OF TrueI at1] u8.dec_enc [OF TrueI at2] u32.dec_enc [OF TrueI at3]
      u32.dec_enc [OF TrueI at4]
    by (simp add: read_ack_body_def x enc_ack_body_def)
qed

text \<open>The receiver's view of a payload: the head, and what is left to read.\<close>

lemma read_head_payload:
  assumes "short s" "short k"
  shows "\<exists>r. read_head (reader_init (enc_head s k @ body)) = ((s, k), r) \<and> rd_at r body"
  using p2p_head.dec_step [of "(s, k)" "reader_init (enc_head s k @ body)" body] assms by simp

section \<open>Timing constants\<close>

text \<open>Durations of type \<open>std::chrono::milliseconds\<close>, as integers.\<close>

definition kInitialRto :: int where "kInitialRto = 50"
definition kMinRto :: int where "kMinRto = 10"
definition kMaxRto :: int where "kMaxRto = 500"
definition kMaxTransmits :: nat where "kMaxTransmits = 16"
definition kInterruptedGrace :: int where "kInterruptedGrace = 10000"

lemmas p2p_consts = kInitialRto_def kMinRto_def kMaxRto_def kMaxTransmits_def kInterruptedGrace_def

section \<open>Double arithmetic\<close>

definition round_half_even :: "rat \<Rightarrow> int" where
  "round_half_even x =
     (let f = \<lfloor>x\<rfloor>; d = x - of_int f in
      if d < 1 / 2 then f else if d > 1 / 2 then f + 1 else if even f then f else f + 1)"

definition dround :: "rat \<Rightarrow> rat" where
  "dround x =
     (if x = 0 then 0
      else let (p, q) = quotient_of \<bar>x\<bar>;
               k = int (floorlog 2 (nat p)) - int (floorlog 2 (nat q));
               e = (if \<bar>x\<bar> < 2 powi k then k - 1 else k) - 52
           in of_int (round_half_even (x / 2 powi e)) * 2 powi e)"

lemma round_half_even_nonneg: "0 \<le> x \<Longrightarrow> 0 \<le> round_half_even x"
  by (simp add: round_half_even_def Let_def)

lemma dround_nonneg [intro]: "0 \<le> x \<Longrightarrow> 0 \<le> dround x"
  by (auto simp: dround_def Let_def split: prod.splits
      intro!: mult_nonneg_nonneg round_half_even_nonneg zero_le_power_int divide_nonneg_nonneg)

section \<open>Send streams\<close>

record Unacked =
  uaPayload :: bytes
  uaTo :: Endpoint
  uaFirstSent :: time_ns
  uaLastSent :: time_ns
  uaTries :: nat

record SendStream =
  ssPeer :: puid
  ssSocket :: string
  ssNextSeq :: nat
  ssPending :: "(nat, Unacked) amap"
  ssSrttMs :: rat
  ssRttVarMs :: rat

definition SendStream_default :: SendStream where
  "SendStream_default =
     \<lparr>ssPeer = [], ssSocket = [], ssNextSeq = 1, ssPending = [], ssSrttMs = -1, ssRttVarMs = 0\<rparr>"

text \<open>\<open>RtoFor\<close>: the cast to \<open>long long\<close> truncates; the operand is not negative once a
  sample has been taken.\<close>

definition RtoFor :: "SendStream \<Rightarrow> int" where
  "RtoFor S =
     (if ssSrttMs S < 0 then kInitialRto
      else let v = dround (4 * ssRttVarMs S);
               rto = dround (ssSrttMs S + (if v < 1 then 1 else v));
               m = \<lfloor>dround (rto + 1 / 2)\<rfloor>
           in if m < kMinRto then kMinRto else if m > kMaxRto then kMaxRto else m)"

text \<open>The backoff loop \<open>for (T = 1; T < Tries && Wait < kMaxRto; ++T) Wait += Wait\<close> and the
  cap after it.\<close>

fun backoff_loop :: "nat \<Rightarrow> int \<Rightarrow> int" where
  "backoff_loop 0 w = w"
| "backoff_loop (Suc n) w = (if w < kMaxRto then backoff_loop n (w + w) else w)"

definition wait_for :: "int \<Rightarrow> nat \<Rightarrow> int" where
  "wait_for rto tries =
     (let w = backoff_loop (tries - 1) rto in if w > kMaxRto then kMaxRto else w)"

text \<open>The sample lambda: Karn's rule, then the smoothed estimate.\<close>

definition rtt_ms :: "time_ns \<Rightarrow> Unacked \<Rightarrow> rat" where
  "rtt_ms now u = dround (dround (of_int (now - uaFirstSent u)) / 1000000)"

definition rtt_sample :: "time_ns \<Rightarrow> Unacked \<Rightarrow> SendStream \<Rightarrow> SendStream" where
  "rtt_sample now u S =
     (if uaTries u \<noteq> 1 then S
      else let rtt = rtt_ms now u in
        if ssSrttMs S < 0 then S\<lparr>ssSrttMs := rtt, ssRttVarMs := dround (rtt / 2)\<rparr>
        else let err = dround (ssSrttMs S - rtt) in
          S\<lparr>ssRttVarMs := dround (dround (3 / 4 * ssRttVarMs S) + dround (1 / 4 * (if err < 0 then - err else err))),
             ssSrttMs := dround (dround (7 / 8 * ssSrttMs S) + dround (1 / 8 * rtt))\<rparr>)"

text \<open>The two acknowledgement loops.\<close>

fun ack_cumulative :: "time_ns \<Rightarrow> nat \<Rightarrow> (nat, Unacked) amap \<Rightarrow> SendStream \<Rightarrow> (nat, Unacked) amap \<times> SendStream" where
  "ack_cumulative now a [] S = ([], S)"
| "ack_cumulative now a ((q, u) # ps) S =
     (if q \<le> a then ack_cumulative now a ps (rtt_sample now u S) else ((q, u) # ps, S))"

definition ack_one :: "time_ns \<Rightarrow> nat \<Rightarrow> SendStream \<Rightarrow> SendStream" where
  "ack_one now q S =
     (case map_of (ssPending S) q of
        None \<Rightarrow> S
      | Some u \<Rightarrow> (rtt_sample now u S)\<lparr>ssPending := AList.delete q (ssPending S)\<rparr>)"

definition ack_selective :: "time_ns \<Rightarrow> nat \<Rightarrow> u32 \<Rightarrow> SendStream \<Rightarrow> SendStream" where
  "ack_selective now a sack S =
     foldl (\<lambda>S i. if sack AND push_bit i 1 \<noteq> 0 then ack_one now (a + 2 + i) S else S) S [0..<32]"

definition stream_ack :: "time_ns \<Rightarrow> u32 \<Rightarrow> u32 \<Rightarrow> SendStream \<Rightarrow> SendStream" where
  "stream_ack now wire_ack sack S =
     (let a = ext_seq (ssNextSeq S) wire_ack in
      case ack_cumulative now a (ssPending S) S of
        (ps, S1) \<Rightarrow> ack_selective now a sack (S1\<lparr>ssPending := ps\<rparr>))"

text \<open>The locked part of \<open>SendPacket\<close> for a reliable packet: take the next number, frame the
  payload, remember it until it is acknowledged.\<close>

definition stream_send ::
  "time_ns \<Rightarrow> puid \<Rightarrow> puid \<Rightarrow> string \<Rightarrow> byte \<Rightarrow> byte \<Rightarrow> Endpoint \<Rightarrow> bytes \<Rightarrow> SendStream \<Rightarrow> bytes \<times> SendStream" where
  "stream_send now local peer socket channel mode to d S =
     (let q = ssNextSeq S;
          payload = data_payload local socket channel mode (seq_low q) d
      in (payload,
          S\<lparr>ssPeer := peer, ssSocket := socket, ssNextSeq := Suc q,
             ssPending := smap_put q
               \<lparr>uaPayload = payload, uaTo = to, uaFirstSent = now, uaLastSent = now, uaTries = 1\<rparr>
               (ssPending S)\<rparr>))"

text \<open>One stream's part of \<open>Pump\<close>: which packets are due, which of those have exhausted their
  transmissions, and the datagrams to resend.\<close>

definition due :: "time_ns \<Rightarrow> int \<Rightarrow> Unacked \<Rightarrow> bool" where
  "due now rto u \<longleftrightarrow> \<not> (now - uaLastSent u < ms (wait_for rto (uaTries u)))"

fun pump_pending ::
  "time_ns \<Rightarrow> int \<Rightarrow> (nat, Unacked) amap \<Rightarrow> (nat, Unacked) amap \<times> (Endpoint \<times> bytes) list \<times> bool" where
  "pump_pending now rto [] = ([], [], False)"
| "pump_pending now rto ((q, u) # ps) =
     (case pump_pending now rto ps of (ps', out, ex) \<Rightarrow>
        if due now rto u
        then ((q, u\<lparr>uaLastSent := now, uaTries := Suc (uaTries u)\<rparr>) # ps',
              (uaTo u, uaPayload u) # out, kMaxTransmits \<le> uaTries u \<or> ex)
        else ((q, u) # ps', out, ex))"

section \<open>Timing bounds\<close>

lemma RtoFor_bounds: "kMinRto \<le> RtoFor S \<and> RtoFor S \<le> kMaxRto"
  by (simp add: RtoFor_def Let_def p2p_consts)

lemma backoff_loop_ge: "0 \<le> w \<Longrightarrow> w \<le> backoff_loop n w"
  by (induction n w rule: backoff_loop.induct) fastforce+

lemma backoff_loop_eq: "0 < w \<Longrightarrow> w \<le> kMaxRto \<Longrightarrow>
    (let b = backoff_loop n w in if b > kMaxRto then kMaxRto else b) = min kMaxRto (2 ^ n * w)"
proof (induction n w rule: backoff_loop.induct)
  case (1 w)
  then show ?case by simp
next
  case (2 n w)
  show ?case
  proof (cases "w < kMaxRto")
    case False
    with 2 have "w = kMaxRto" by simp
    moreover have "1 * kMaxRto \<le> 2 ^ Suc n * kMaxRto"
      by (intro mult_right_mono one_le_power) (simp_all add: kMaxRto_def)
    ultimately show ?thesis by simp
  next
    case True
    show ?thesis
    proof (cases "w + w \<le> kMaxRto")
      case True
      with 2 \<open>w < kMaxRto\<close> show ?thesis by (simp add: mult.commute mult.left_commute)
    next
      case False
      then have b: "backoff_loop n (w + w) = w + w" by (cases n) auto
      have "1 * (2 * w) \<le> 2 ^ n * (2 * w)" using "2.prems" by (intro mult_right_mono) auto
      then have "kMaxRto < 2 ^ Suc n * w" using False by (simp add: mult.left_commute)
      with False True b show ?thesis by simp
    qed
  qed
qed

text \<open>The wait is the time-out doubled once per retransmission, capped.\<close>

lemma wait_for_eq: "kMinRto \<le> rto \<Longrightarrow> rto \<le> kMaxRto \<Longrightarrow> wait_for rto n = min kMaxRto (2 ^ (n - 1) * rto)"
  using backoff_loop_eq [of rto "n - 1"] by (simp add: wait_for_def p2p_consts)

lemma wait_for_bounds: "kMinRto \<le> rto \<Longrightarrow> rto \<le> kMaxRto \<Longrightarrow> rto \<le> wait_for rto n \<and> wait_for rto n \<le> kMaxRto"
proof -
  assume r: "kMinRto \<le> rto" "rto \<le> kMaxRto"
  then have "1 * rto \<le> 2 ^ (n - 1) * rto" by (intro mult_right_mono) (auto simp: kMinRto_def)
  with r show ?thesis by (simp add: wait_for_eq)
qed

text \<open>Estimates stay usable: a sample never makes the smoothed time negative again.\<close>

lemma rtt_sample_nonneg:
  assumes "uaFirstSent u \<le> now" "0 \<le> ssRttVarMs S" "0 \<le> ssSrttMs S \<or> uaTries u = 1"
  shows "0 \<le> ssSrttMs (rtt_sample now u S) \<and> 0 \<le> ssRttVarMs (rtt_sample now u S)"
proof -
  have "0 \<le> rtt_ms now u" using assms(1)
    by (auto simp: rtt_ms_def simp del: of_int_diff intro!: dround_nonneg divide_nonneg_nonneg)
  then show ?thesis
    using assms(2,3) by (auto simp: rtt_sample_def Let_def intro!: dround_nonneg add_nonneg_nonneg)
qed

text \<open>Karn's rule.\<close>

lemma rtt_sample_retransmitted: "uaTries u \<noteq> 1 \<Longrightarrow> rtt_sample now u S = S"
  by (simp add: rtt_sample_def)

section \<open>Acknowledgement\<close>

lemma rtt_sample_fields [simp]:
  "ssPeer (rtt_sample now u S) = ssPeer S" "ssSocket (rtt_sample now u S) = ssSocket S"
  "ssNextSeq (rtt_sample now u S) = ssNextSeq S" "ssPending (rtt_sample now u S) = ssPending S"
  by (simp_all add: rtt_sample_def Let_def)

definition same_sender :: "SendStream \<Rightarrow> SendStream \<Rightarrow> bool" where
  "same_sender S S' \<longleftrightarrow> ssPeer S' = ssPeer S \<and> ssSocket S' = ssSocket S \<and> ssNextSeq S' = ssNextSeq S"

lemma ack_cumulative_eq:
  "smap_ok ps \<Longrightarrow> fst (ack_cumulative now a ps S) = filter (\<lambda>(q, u). \<not> q \<le> a) ps \<and>
     same_sender S (snd (ack_cumulative now a ps S))"
proof (induction now a ps S rule: ack_cumulative.induct)
  case (1 now a S)
  then show ?case by (simp add: same_sender_def)
next
  case (2 now a q u ps S)
  show ?case
  proof (cases "q \<le> a")
    case True
    with 2 show ?thesis by (simp add: smap_ok_Cons same_sender_def)
  next
    case False
    with "2.prems" have "filter (\<lambda>(q, u). \<not> q \<le> a) ps = ps"
      by (intro filter_True) (auto simp: smap_ok_Cons)
    with False show ?thesis by (simp add: same_sender_def)
  qed
qed

lemma AND_push_bit: "(w :: u32) AND push_bit i 1 \<noteq> 0 \<longleftrightarrow> i < 32 \<and> bit w i"
proof
  assume "w AND push_bit i 1 \<noteq> 0"
  then obtain n where "bit (w AND push_bit i 1) n" by (auto simp: bit_eq_iff)
  then show "i < 32 \<and> bit w i" by (auto simp: bit_and_iff bit_exp_iff possible_bit_word)
next
  assume "i < 32 \<and> bit w i"
  then have "bit (w AND push_bit i 1) i" by (simp add: bit_and_iff bit_exp_iff possible_bit_word)
  then show "w AND push_bit i 1 \<noteq> 0" by auto
qed

lemma ack_one_eq:
  "ssPending (ack_one now q S) = AList.delete q (ssPending S) \<and> same_sender S (ack_one now q S)"
proof (cases "map_of (ssPending S) q")
  case None
  then have "q \<notin> set (keys (ssPending S))" by (simp add: map_of_eq_None_iff)
  then have "AList.delete q (ssPending S) = ssPending S" 
    by (force simp: AList.delete_eq intro!: filter_True)
  with None show ?thesis by (simp add: ack_one_def same_sender_def)
next
  case (Some u)
  then show ?thesis by (simp add: ack_one_def same_sender_def)
qed

lemma ack_selective_fold:
  "ssPending (foldl (\<lambda>S i. if P i then ack_one now (a + 2 + i) S else S) S is) =
     filter (\<lambda>(q, u). \<not> (\<exists>i \<in> set is. P i \<and> q = a + 2 + i)) (ssPending S) \<and>
   same_sender S (foldl (\<lambda>S i. if P i then ack_one now (a + 2 + i) S else S) S is)"
proof (induction "is" arbitrary: S)
  case Nil
  then show ?case by (simp add: same_sender_def)
next
  case (Cons i "is")
  let ?S = "if P i then ack_one now (a + 2 + i) S else S"
  from Cons [of ?S] ack_one_eq [of now "a + 2 + i" S]
  have "same_sender S (foldl (\<lambda>S i. if P i then ack_one now (a + 2 + i) S else S) S (i # is))"
    by (auto simp: same_sender_def)
  moreover have "ssPending ?S = filter (\<lambda>(q, u). \<not> (P i \<and> q = a + 2 + i)) (ssPending S)"
    using ack_one_eq [of now "a + 2 + i" S] by (auto simp: AList.delete_eq intro!: filter_cong)
  moreover have "ssPending (foldl (\<lambda>S i. if P i then ack_one now (a + 2 + i) S else S) S (i # is)) =
      filter (\<lambda>(q, u). \<not> (\<exists>i \<in> set is. P i \<and> q = a + 2 + i)) (ssPending ?S)"
    using Cons [of ?S] by simp
  ultimately show ?case by (auto simp: intro!: filter_cong)
qed

text \<open>The numbers an acknowledgement names, decoded by the sender.\<close>

definition named_by :: "nat \<Rightarrow> u32 \<Rightarrow> nat set" where
  "named_by a sack = {q. q \<le> a} \<union> {a + 2 + i | i. i < 32 \<and> bit sack i}"

lemma stream_ack_eq:
  assumes "smap_ok (ssPending S)"
  shows "ssPending (stream_ack now w sack S) =
      filter (\<lambda>(q, u). q \<notin> named_by (ext_seq (ssNextSeq S) w) sack) (ssPending S) \<and>
    same_sender S (stream_ack now w sack S)"
proof -
  let ?a = "ext_seq (ssNextSeq S) w"
  obtain ps S1 where c: "ack_cumulative now ?a (ssPending S) S = (ps, S1)"
    by (cases "ack_cumulative now ?a (ssPending S) S")
  with ack_cumulative_eq [OF assms, of now ?a S]
  have ps: "ps = filter (\<lambda>(q, u). \<not> q \<le> ?a) (ssPending S)" "same_sender S S1" by simp_all
  from ack_selective_fold [of "\<lambda>i. sack AND push_bit i 1 \<noteq> 0" now ?a "S1\<lparr>ssPending := ps\<rparr>" "[0..<32]"]
  have "ssPending (ack_selective now ?a sack (S1\<lparr>ssPending := ps\<rparr>)) =
      filter (\<lambda>(q, u). \<not> (\<exists>i \<in> set [0..<32]. sack AND push_bit i 1 \<noteq> 0 \<and> q = ?a + 2 + i)) ps"
    "same_sender (S1\<lparr>ssPending := ps\<rparr>) (ack_selective now ?a sack (S1\<lparr>ssPending := ps\<rparr>))"
    unfolding ack_selective_def by simp_all
  moreover have "filter (\<lambda>(q, u). \<not> (\<exists>i \<in> set [0..<32]. sack AND push_bit i 1 \<noteq> 0 \<and> q = ?a + 2 + i)) ps =
      filter (\<lambda>(q, u). q \<notin> named_by ?a sack) (ssPending S)"
    unfolding ps(1) filter_filter AND_push_bit by (rule filter_cong) (auto simp: named_by_def)
  ultimately show ?thesis using c ps(2) by (simp add: stream_ack_def Let_def same_sender_def)
qed

section \<open>Invariant and pump\<close>

definition ss_inv :: "SendStream \<Rightarrow> bool" where
  "ss_inv S \<longleftrightarrow> smap_ok (ssPending S) \<and> 1 \<le> ssNextSeq S \<and>
     (\<forall>q \<in> set (keys (ssPending S)). 1 \<le> q \<and> q < ssNextSeq S)"

lemma ss_inv_default [simp]: "ss_inv SendStream_default"
  by (simp add: ss_inv_def SendStream_default_def)

lemma ss_inv_send [inv_intros]:
  "ss_inv S \<Longrightarrow> ss_inv (snd (stream_send now l p s c m to d S))"
  by (auto simp: ss_inv_def stream_send_def Let_def set_keys_smap_put smap_ok_put simp del: set_map)

lemma ss_inv_ack [inv_intros]: "ss_inv S \<Longrightarrow> ss_inv (stream_ack now w sack S)"
  using stream_ack_eq [of S now w sack]
  by (auto simp: ss_inv_def same_sender_def smap_ok_def sorted_wrt_map sorted_wrt_filter)

text \<open>The pump keeps every pending packet, under its number and with its payload.\<close>

lemma pump_pending_eq:
  "pump_pending now rto ps =
     (map (\<lambda>(q, u). (q, if due now rto u then u\<lparr>uaLastSent := now, uaTries := Suc (uaTries u)\<rparr> else u)) ps,
      map (\<lambda>(q, u). (uaTo u, uaPayload u)) (filter (\<lambda>(q, u). due now rto u) ps),
      \<exists>(q, u) \<in> set ps. due now rto u \<and> kMaxTransmits \<le> uaTries u)"
  by (induction now rto ps rule: pump_pending.induct) auto

lemma keys_pump_pending: "keys (fst (pump_pending now rto ps)) = keys ps"
  by (simp add: pump_pending_eq case_prod_beta comp_def)

lemma pump_pending_at_rest:
  "(\<forall>(q, u) \<in> set ps. \<not> due now rto u) \<Longrightarrow> pump_pending now rto ps = (ps, [], False)"
  by (induction ps) auto

end
