(* ===== verification/P2PRecv.thy ===== *)
theory P2PRecv
  imports P2PStream
begin

text \<open>
  The receiving half of \<open>src/interfaces/P2P.cpp\<close>: the byte-bounded inbox the application
  polls, and one \<open>RecvStream\<close> with its deduplication, its in-order release and the
  acknowledgement it owes.

  The abstract view of a receive stream is the set of sequence numbers it has accepted
  (\<open>seen\<close>), which the code represents by a watermark and the \<open>Received\<close> set above it;
  \<open>stream_receive\<close> refines set insertion, and the acknowledgement is a statement about that
  set.
\<close>

section \<open>Inbox\<close>

record IncomingPacket =
  ipPeer :: puid
  ipSocket :: string
  ipChannel :: byte
  ipData :: bytes

record inbox =
  ibPackets :: "IncomingPacket list"
  ibMax :: nat
  ibBytes :: nat

definition InboxHasRoom :: "inbox \<Rightarrow> nat \<Rightarrow> bool" where
  "InboxHasRoom ib n \<longleftrightarrow> ibMax ib = 0 \<or> ibBytes ib + n \<le> ibMax ib"

text \<open>True when the packet was dropped.\<close>

definition EnqueueInbox :: "puid \<Rightarrow> string \<Rightarrow> byte \<Rightarrow> bytes \<Rightarrow> inbox \<Rightarrow> bool \<times> inbox" where
  "EnqueueInbox peer socket channel data ib =
     (if \<not> InboxHasRoom ib (length data) then (True, ib)
      else (False, ib\<lparr>ibBytes := ibBytes ib + length data,
        ibPackets := ibPackets ib @ [\<lparr>ipPeer = peer, ipSocket = socket, ipChannel = channel, ipData = data\<rparr>]\<rparr>))"

definition inbox_inv :: "inbox \<Rightarrow> bool" where
  "inbox_inv ib \<longleftrightarrow> ibBytes ib = (\<Sum>p\<leftarrow>ibPackets ib. length (ipData p))"

text \<open>What delivering never does: exceed the limit by adding.\<close>

definition capped :: "inbox \<Rightarrow> inbox \<Rightarrow> bool" where
  "capped ib ib' \<longleftrightarrow> ibMax ib' = ibMax ib \<and>
     (\<exists>new. ibPackets ib' = ibPackets ib @ new \<and> (new \<noteq> [] \<and> ibMax ib \<noteq> 0 \<longrightarrow> ibBytes ib' \<le> ibMax ib))"

lemma capped_refl [simp]: "capped ib ib"
  by (simp add: capped_def)

lemma inbox_inv_Enqueue [inv_intros]: "inbox_inv ib \<Longrightarrow> inbox_inv (snd (EnqueueInbox p s c d ib))"
  by (simp add: EnqueueInbox_def inbox_inv_def)

lemma Enqueue_capped: "capped ib (snd (EnqueueInbox p s c d ib))"
  by (auto simp: EnqueueInbox_def capped_def InboxHasRoom_def)

lemma capped_trans: "capped a b \<Longrightarrow> capped b c \<Longrightarrow> inbox_inv a \<Longrightarrow> inbox_inv b \<Longrightarrow> inbox_inv c \<Longrightarrow> capped a c"
  by (fastforce simp: capped_def inbox_inv_def)

section \<open>Receive streams\<close>

record RecvStream =
  rsPeer :: puid
  rsSocket :: string
  rsChannel :: byte
  rsOrdered :: bool
  rsNextExpected :: nat
  rsNextToDeliver :: nat
  rsBuffer :: "(nat, bytes) amap"
  rsReceived :: "nat list"

definition RecvStream_default :: RecvStream where
  "RecvStream_default =
     \<lparr>rsPeer = [], rsSocket = [], rsChannel = 0, rsOrdered = False, rsNextExpected = 1,
      rsNextToDeliver = 1, rsBuffer = [], rsReceived = []\<rparr>"

text \<open>The packet a stream enqueues for a datum.\<close>

definition rs_packet :: "RecvStream \<Rightarrow> bytes \<Rightarrow> IncomingPacket" where
  "rs_packet S d = \<lparr>ipPeer = rsPeer S, ipSocket = rsSocket S, ipChannel = rsChannel S, ipData = d\<rparr>"

text \<open>\<open>DrainRecvStream\<close>: the ordered branch is the \<open>while (true)\<close> loop, the unordered one
  walks the buffer.\<close>

function drain_ordered :: "RecvStream \<Rightarrow> inbox \<Rightarrow> bool \<times> RecvStream \<times> inbox" where
  "drain_ordered S ib =
     (case map_of (rsBuffer S) (rsNextToDeliver S) of
        None \<Rightarrow> (False, S, ib)
      | Some d \<Rightarrow>
          if \<not> InboxHasRoom ib (length d) then (True, S, ib)
          else drain_ordered
                 (S\<lparr>rsBuffer := AList.delete (rsNextToDeliver S) (rsBuffer S),
                    rsNextToDeliver := Suc (rsNextToDeliver S)\<rparr>)
                 (snd (EnqueueInbox (rsPeer S) (rsSocket S) (rsChannel S) d ib)))"
  by pat_completeness auto

termination drain_ordered
  by (relation "measure (\<lambda>(S, ib). length (rsBuffer S))") (auto simp: length_delete_less)

declare drain_ordered.simps [simp del]

fun drain_unordered :: "RecvStream \<Rightarrow> (nat, bytes) amap \<Rightarrow> inbox \<Rightarrow> bool \<times> (nat, bytes) amap \<times> inbox" where
  "drain_unordered S [] ib = (False, [], ib)"
| "drain_unordered S ((q, d) # m) ib =
     (if \<not> InboxHasRoom ib (length d) then (True, (q, d) # m, ib)
      else drain_unordered S m (snd (EnqueueInbox (rsPeer S) (rsSocket S) (rsChannel S) d ib)))"

definition DrainRecvStream :: "RecvStream \<Rightarrow> inbox \<Rightarrow> bool \<times> RecvStream \<times> inbox" where
  "DrainRecvStream S ib =
     (if rsOrdered S then drain_ordered S ib
      else (case drain_unordered S (rsBuffer S) ib of (b, m, ib') \<Rightarrow> (b, S\<lparr>rsBuffer := m\<rparr>, ib')))"

text \<open>\<open>while (Received.count(NextExpected)) ++NextExpected\<close>.\<close>

function advance :: "nat list \<Rightarrow> nat \<Rightarrow> nat" where
  "advance R n = (if n \<in> set R then advance R (Suc n) else n)"
  by pat_completeness auto

termination advance
proof (relation "measure (\<lambda>(R, n). card {q \<in> set R. n \<le> q})")
  fix R :: "nat list" and n
  assume n: "n \<in> set R"
  have "n \<in> {q \<in> set R. n \<le> q}" "n \<notin> {q \<in> set R. Suc n \<le> q}"
    "{q \<in> set R. Suc n \<le> q} \<subseteq> {q \<in> set R. n \<le> q}" using n by auto
  then have "{q \<in> set R. Suc n \<le> q} \<subset> {q \<in> set R. n \<le> q}" by blast
  then have "card {q \<in> set R. Suc n \<le> q} < card {q \<in> set R. n \<le> q}"
    by (intro psubset_card_mono) auto
  then show "((R, Suc n), R, n) \<in> measure (\<lambda>(R, n). card {q \<in> set R. n \<le> q})" by simp
qed simp

declare advance.simps [simp del]

definition is_duplicate :: "RecvStream \<Rightarrow> nat \<Rightarrow> bool" where
  "is_duplicate S q \<longleftrightarrow> q < rsNextExpected S \<or> q \<in> set (rsReceived S)"

definition stream_receive :: "RecvStream \<Rightarrow> nat \<Rightarrow> bytes \<Rightarrow> RecvStream" where
  "stream_receive S q d =
     (if is_duplicate S q then S
      else let R = insort_insert q (rsReceived S);
               n = advance R (rsNextExpected S)
           in S\<lparr>rsBuffer := smap_put q d (rsBuffer S), rsNextExpected := n,
                rsReceived := dropWhile (\<lambda>r. r < n) R\<rparr>)"

text \<open>The acknowledgement: the highest contiguous number and 32 selective bits past the hole.\<close>

definition sack_bits :: "RecvStream \<Rightarrow> u32" where
  "sack_bits S =
     foldl (\<lambda>w i. if rsNextExpected S + 1 + i \<in> set (rsReceived S) then w OR push_bit i 1 else w) 0 [0..<32]"

definition ack_seq :: "RecvStream \<Rightarrow> nat" where
  "ack_seq S = rsNextExpected S - 1"

text \<open>A data datagram's effect on its stream and the inbox.\<close>

definition stream_deliver :: "RecvStream \<Rightarrow> inbox \<Rightarrow> u32 \<Rightarrow> bytes \<Rightarrow> bool \<times> RecvStream \<times> inbox" where
  "stream_deliver S ib wire d =
     DrainRecvStream (stream_receive S (ext_seq (rsNextExpected S) wire) d) ib"

section \<open>Accepted sequence numbers\<close>

definition seen :: "RecvStream \<Rightarrow> nat set" where
  "seen S = {q. 1 \<le> q \<and> q < rsNextExpected S} \<union> set (rsReceived S)"

definition rs_inv :: "RecvStream \<Rightarrow> bool" where
  "rs_inv S \<longleftrightarrow>
     sorted (rsReceived S) \<and> distinct (rsReceived S) \<and> (\<forall>q \<in> set (rsReceived S). rsNextExpected S < q) \<and>
     smap_ok (rsBuffer S) \<and> 1 \<le> rsNextExpected S \<and>
     (rsOrdered S \<longrightarrow> 1 \<le> rsNextToDeliver S \<and> rsNextToDeliver S \<le> rsNextExpected S \<and>
        set (keys (rsBuffer S)) = {q. rsNextToDeliver S \<le> q \<and> q < rsNextExpected S} \<union> set (rsReceived S)) \<and>
     set (keys (rsBuffer S)) \<subseteq> seen S"

lemma rs_inv_default [simp]: "rs_inv (RecvStream_default\<lparr>rsPeer := p, rsSocket := s, rsChannel := c, rsOrdered := b\<rparr>)"
  by (auto simp: rs_inv_def RecvStream_default_def)

lemma seen_default [simp]: "seen (RecvStream_default\<lparr>rsPeer := p, rsSocket := s, rsChannel := c, rsOrdered := b\<rparr>) = {}"
  by (auto simp: seen_def RecvStream_default_def)

lemma advance_props:
  "n \<le> advance R n \<and> (\<forall>q. n \<le> q \<and> q < advance R n \<longrightarrow> q \<in> set R) \<and> advance R n \<notin> set R"
proof (induction R n rule: advance.induct)
  case (1 R n)
  show ?case
  proof (cases "n \<in> set R")
    case True
    then have a: "advance R n = advance R (Suc n)" by (subst advance.simps) simp
    with 1 [OF True] True show ?thesis
      by (metis Suc_leD Suc_le_eq le_neq_implies_less)
  next
    case False
    then have "advance R n = n" by (subst advance.simps) simp
    with False show ?thesis by auto
  qed
qed

lemma set_dropWhile_sorted:
  "sorted (xs :: nat list) \<Longrightarrow> set (dropWhile (\<lambda>r. r < n) xs) = {q \<in> set xs. n \<le> q}"
  by (induction xs) auto

lemma is_duplicate_seen: "rs_inv S \<Longrightarrow> 1 \<le> q \<Longrightarrow> is_duplicate S q \<longleftrightarrow> q \<in> seen S"
  by (auto simp: is_duplicate_def seen_def)

lemma seq_0_duplicate: "rs_inv S \<Longrightarrow> is_duplicate S 0"
  by (simp add: is_duplicate_def rs_inv_def)

lemma stream_receive_fields [simp]:
  "rsPeer (stream_receive S q d) = rsPeer S" "rsSocket (stream_receive S q d) = rsSocket S"
  "rsChannel (stream_receive S q d) = rsChannel S" "rsOrdered (stream_receive S q d) = rsOrdered S"
  "rsNextToDeliver (stream_receive S q d) = rsNextToDeliver S"
  by (simp_all add: stream_receive_def Let_def)

lemma stream_receive_new:
  assumes inv: "rs_inv S" and new: "\<not> is_duplicate S q"
  defines "n \<equiv> advance (insort_insert q (rsReceived S)) (rsNextExpected S)"
  shows "rsNextExpected (stream_receive S q d) = n"
    and "set (rsReceived (stream_receive S q d)) = {r \<in> insert q (set (rsReceived S)). n \<le> r}"
    and "rsNextExpected S \<le> n"
    and "\<And>r. rsNextExpected S \<le> r \<Longrightarrow> r < n \<Longrightarrow> r = q \<or> r \<in> set (rsReceived S)"
    and "n \<noteq> q" "n \<notin> set (rsReceived S)"
proof -
  let ?R = "insort_insert q (rsReceived S)"
  have srt: "sorted ?R" using inv by (simp add: rs_inv_def sorted_insort_insert)
  have set: "set ?R = insert q (set (rsReceived S))" by (rule set_insort_insert)
  note adv = advance_props [of "rsNextExpected S" ?R]
  show "rsNextExpected (stream_receive S q d) = n"
    using new by (simp add: stream_receive_def Let_def n_def)
  show "set (rsReceived (stream_receive S q d)) = {r \<in> insert q (set (rsReceived S)). n \<le> r}"
    using new srt set by (simp add: stream_receive_def Let_def n_def set_dropWhile_sorted)
  show "rsNextExpected S \<le> n" "n \<noteq> q" "n \<notin> set (rsReceived S)"
    using adv set by (auto simp: n_def)
  show "\<And>r. rsNextExpected S \<le> r \<Longrightarrow> r < n \<Longrightarrow> r = q \<or> r \<in> set (rsReceived S)"
    using adv set by (auto simp: n_def)
qed

text \<open>Refinement: receiving inserts into the accepted set, and only a new number is buffered.\<close>

lemma seen_stream_receive:
  assumes inv: "rs_inv S" and q: "1 \<le> q"
  shows "seen (stream_receive S q d) = insert q (seen S)"
proof (cases "is_duplicate S q")
  case True
  with is_duplicate_seen [OF inv q] show ?thesis
    by (auto simp: stream_receive_def)
next
  case False
  note new = stream_receive_new [OF inv False]
  define n where "n = advance (insort_insert q (rsReceived S)) (rsNextExpected S)"
  note new = new [folded n_def]
  have low: "1 \<le> rsNextExpected S" using inv by (simp add: rs_inv_def)
  show ?thesis
  proof (rule set_eqI)
    fix r
    show "r \<in> seen (stream_receive S q d) \<longleftrightarrow> r \<in> insert q (seen S)"
    proof (cases "r < n")
      case True
      with new(4) [of r] have "r < rsNextExpected S \<or> r = q \<or> r \<in> set (rsReceived S)" by linarith
      with True low q inv show ?thesis
        by (auto simp: seen_def new(1,2) rs_inv_def)
    next
      case False
      with new(3) show ?thesis by (auto simp: seen_def new(1,2))
    qed
  qed
qed

lemma buffer_stream_receive:
  "rs_inv S \<Longrightarrow> map_of (rsBuffer (stream_receive S q d)) =
     (if is_duplicate S q then map_of (rsBuffer S) else (map_of (rsBuffer S))(q \<mapsto> d))"
  by (simp add: stream_receive_def Let_def map_of_smap_put rs_inv_def)

lemma keys_stream_receive:
  "set (keys (rsBuffer (stream_receive S q d))) =
     (if is_duplicate S q then set (keys (rsBuffer S)) else insert q (set (keys (rsBuffer S))))"
  by (simp add: stream_receive_def Let_def set_keys_smap_put del: set_map)

lemma rs_inv_stream_receive [inv_intros]:
  assumes inv: "rs_inv S"
  shows "rs_inv (stream_receive S q d)"
proof (cases "is_duplicate S q")
  case True
  with inv show ?thesis by (simp add: stream_receive_def)
next
  case False
  note new = stream_receive_new [OF inv False]
  define n where "n = advance (insort_insert q (rsReceived S)) (rsNextExpected S)"
  note new = new [folded n_def]
  let ?S = "stream_receive S q d"
  have q: "rsNextExpected S \<le> q" "q \<notin> set (rsReceived S)" "1 \<le> q"
    using False inv by (auto simp: is_duplicate_def rs_inv_def)
  have srt: "sorted (rsReceived ?S)" "distinct (rsReceived ?S)"
    using inv by (auto simp: stream_receive_def Let_def rs_inv_def sorted_insort_insert
        distinct_insort_insert sorted_dropWhile)
  have above: "\<forall>r \<in> set (rsReceived ?S). rsNextExpected ?S < r"
    using new by auto (metis nat_less_le)
  have buf: "set (keys (rsBuffer ?S)) = insert q (set (keys (rsBuffer S)))"
    using False keys_stream_receive by metis
  have ok: "smap_ok (rsBuffer ?S)"
    using inv False by (auto simp: stream_receive_def Let_def rs_inv_def)
  have sub: "set (keys (rsBuffer ?S)) \<subseteq> seen ?S"
    unfolding buf seen_stream_receive [OF inv q(3)] using inv by (auto simp: rs_inv_def)
  have ord: "1 \<le> rsNextToDeliver ?S \<and> rsNextToDeliver ?S \<le> rsNextExpected ?S \<and>
      set (keys (rsBuffer ?S)) = {r. rsNextToDeliver ?S \<le> r \<and> r < rsNextExpected ?S} \<union> set (rsReceived ?S)"
    if "rsOrdered S"
  proof -
    have o: "1 \<le> rsNextToDeliver S" "rsNextToDeliver S \<le> rsNextExpected S"
      "set (keys (rsBuffer S)) = {q. rsNextToDeliver S \<le> q \<and> q < rsNextExpected S} \<union> set (rsReceived S)"
      using inv that by (auto simp: rs_inv_def)
    have "r \<in> set (keys (rsBuffer ?S)) \<longleftrightarrow>
        r \<in> {r. rsNextToDeliver ?S \<le> r \<and> r < rsNextExpected ?S} \<union> set (rsReceived ?S)" for r
    proof (cases "r < n")
      case True
      with new(4) [of r] have "r < rsNextExpected S \<or> r = q \<or> r \<in> set (rsReceived S)" by linarith
      with True o q inv show ?thesis
        by (auto simp: buf o(3) new(1,2) rs_inv_def simp del: set_map)
    next
      case False
      with new(3) show ?thesis by (auto simp: buf o(3) new(1,2) simp del: set_map)
    qed
    then have "set (keys (rsBuffer ?S)) = {r. rsNextToDeliver ?S \<le> r \<and> r < rsNextExpected ?S} \<union> set (rsReceived ?S)"
      by blast
    with o new(1,3) show ?thesis by simp
  qed
  have "1 \<le> rsNextExpected ?S" using inv new(1,3) by (simp add: rs_inv_def)
  with srt above ok sub ord show ?thesis by (simp add: rs_inv_def del: set_map)
qed

section \<open>What an acknowledgement says\<close>

definition acked_by :: "nat \<Rightarrow> u32 \<Rightarrow> nat set" where
  "acked_by a sack = {q. 1 \<le> q \<and> q \<le> a} \<union> {a + 2 + i | i. i < 32 \<and> bit sack i}"

lemma bit_or_fold:
  "bit (foldl (\<lambda>w i. if P i then w OR push_bit i 1 else w) (w :: u32) is) k \<longleftrightarrow>
     bit w k \<or> (k < 32 \<and> k \<in> set is \<and> P k)"
proof (induction "is" arbitrary: w)
  case Nil
  then show ?case by simp
next
  case (Cons i "is")
  have "bit (w OR push_bit i 1) k \<longleftrightarrow> bit w k \<or> (k < 32 \<and> k = i)"
    by (auto simp: bit_or_iff bit_exp_iff possible_bit_word)
  with Cons show ?case by auto
qed

lemma bit_sack: "bit (sack_bits S) i \<longleftrightarrow> i < 32 \<and> rsNextExpected S + 1 + i \<in> set (rsReceived S)"
  by (auto simp: sack_bits_def bit_or_fold)

text \<open>An acknowledgement names exactly the accepted numbers up to 32 past the hole.\<close>

lemma acked_by_seen:
  assumes "rs_inv S"
  shows "acked_by (ack_seq S) (sack_bits S) = {q \<in> seen S. q \<le> rsNextExpected S + 32}"
proof -
  have low: "1 \<le> rsNextExpected S" and above: "\<forall>q \<in> set (rsReceived S). rsNextExpected S < q"
    using assms by (auto simp: rs_inv_def)
  have a: "ack_seq S + 2 = rsNextExpected S + 1" using low by (simp add: ack_seq_def)
  have c: "q \<le> ack_seq S \<longleftrightarrow> q < rsNextExpected S" for q using low by (auto simp: ack_seq_def)
  have "(\<exists>i. q = ack_seq S + 2 + i \<and> i < 32 \<and> bit (sack_bits S) i) \<longleftrightarrow>
      q \<in> set (rsReceived S) \<and> q \<le> rsNextExpected S + 32" for q
  proof
    assume "q \<in> set (rsReceived S) \<and> q \<le> rsNextExpected S + 32"
    moreover from this above obtain j where "q = rsNextExpected S + 1 + j"
      by (auto dest: less_imp_Suc_add)
    ultimately have "q = ack_seq S + 2 + j" "j < 32" "bit (sack_bits S) j"
      unfolding a by (auto simp: bit_sack)
    then show "\<exists>i. q = ack_seq S + 2 + i \<and> i < 32 \<and> bit (sack_bits S) i" by blast
  next
    assume "\<exists>i. q = ack_seq S + 2 + i \<and> i < 32 \<and> bit (sack_bits S) i"
    then show "q \<in> set (rsReceived S) \<and> q \<le> rsNextExpected S + 32"
      unfolding a by (auto simp: bit_sack)
  qed
  then show ?thesis by (auto simp: acked_by_def seen_def c)
qed

section \<open>Draining\<close>

lemma EnqueueInbox_room:
  "InboxHasRoom ib (length d) \<Longrightarrow> snd (EnqueueInbox (rsPeer S) (rsSocket S) (rsChannel S) d ib) =
     ib\<lparr>ibBytes := ibBytes ib + length d, ibPackets := ibPackets ib @ [rs_packet S d]\<rparr>"
  by (simp add: EnqueueInbox_def rs_packet_def)

lemma rs_packet_cong [simp]:
  "rs_packet (S\<lparr>rsBuffer := b\<rparr>) = rs_packet S" "rs_packet (S\<lparr>rsNextToDeliver := n\<rparr>) = rs_packet S"
  by (simp_all add: rs_packet_def fun_eq_iff)

text \<open>The ordered drain releases the run that starts at \<open>NextToDeliver\<close>, in order, and stops
  only at a gap or at a packet the inbox cannot take.\<close>

definition same_stream :: "RecvStream \<Rightarrow> RecvStream \<Rightarrow> bool" where
  "same_stream S S' \<longleftrightarrow> rsPeer S' = rsPeer S \<and> rsSocket S' = rsSocket S \<and> rsChannel S' = rsChannel S \<and>
     rsOrdered S' = rsOrdered S \<and> rsNextExpected S' = rsNextExpected S \<and> rsReceived S' = rsReceived S"

lemma drain_ordered_spec:
  assumes "drain_ordered S ib = (b, S', ib')"
  shows "\<exists>n. same_stream S S' \<and> rsNextToDeliver S' = rsNextToDeliver S + n \<and>
    (\<forall>q. rsNextToDeliver S \<le> q \<and> q < rsNextToDeliver S + n \<longrightarrow> map_of (rsBuffer S) q \<noteq> None) \<and>
    rsBuffer S' = filter (\<lambda>(q, d). \<not> (rsNextToDeliver S \<le> q \<and> q < rsNextToDeliver S + n)) (rsBuffer S) \<and>
    ibPackets ib' = ibPackets ib @
      map (\<lambda>q. rs_packet S (the (map_of (rsBuffer S) q))) [rsNextToDeliver S ..< rsNextToDeliver S + n] \<and>
    (b \<longleftrightarrow> (\<exists>d. map_of (rsBuffer S') (rsNextToDeliver S') = Some d \<and> \<not> InboxHasRoom ib' (length d))) \<and>
    (\<not> b \<longrightarrow> map_of (rsBuffer S') (rsNextToDeliver S') = None)"
  using assms
proof (induction S ib rule: drain_ordered.induct)
  case (1 S ib)
  let ?k = "rsNextToDeliver S"
  show ?case
  proof (cases "\<exists>d. map_of (rsBuffer S) ?k = Some d \<and> InboxHasRoom ib (length d)")
    case False
    with "1.prems" have same: "S' = S" "ib' = ib"
      and b: "b \<longleftrightarrow> (\<exists>d. map_of (rsBuffer S) ?k = Some d \<and> \<not> InboxHasRoom ib (length d))"
        "\<not> b \<longrightarrow> map_of (rsBuffer S) ?k = None"
      by (subst (asm) drain_ordered.simps, auto split: option.splits if_splits)+
    have none: "\<not> (?k \<le> q \<and> q < ?k)" for q by simp
    show ?thesis unfolding same using b by (intro exI [of _ 0] conjI) (simp_all add: none same_stream_def)
  next
    case True
    then obtain d where d: "map_of (rsBuffer S) ?k = Some d" "InboxHasRoom ib (length d)" by blast
    let ?S = "S\<lparr>rsBuffer := AList.delete ?k (rsBuffer S), rsNextToDeliver := Suc ?k\<rparr>"
    let ?ib = "snd (EnqueueInbox (rsPeer S) (rsSocket S) (rsChannel S) d ib)"
    have "drain_ordered ?S ?ib = (b, S', ib')"
      using "1.prems" d by (subst (asm) drain_ordered.simps) simp
    from "1.IH" [OF d(1) _ this] d(2) obtain n where n:
      "same_stream S S'" "rsNextToDeliver S' = Suc ?k + n"
      "\<forall>q. Suc ?k \<le> q \<and> q < Suc ?k + n \<longrightarrow> map_of (AList.delete ?k (rsBuffer S)) q \<noteq> None"
      "rsBuffer S' = filter (\<lambda>(q, d). \<not> (Suc ?k \<le> q \<and> q < Suc ?k + n)) (AList.delete ?k (rsBuffer S))"
      "ibPackets ib' = ibPackets ?ib @
        map (\<lambda>q. rs_packet S (the (map_of (AList.delete ?k (rsBuffer S)) q))) [Suc ?k ..< Suc ?k + n]"
      "b \<longleftrightarrow> (\<exists>d. map_of (rsBuffer S') (rsNextToDeliver S') = Some d \<and> \<not> InboxHasRoom ib' (length d))"
      "\<not> b \<longrightarrow> map_of (rsBuffer S') (rsNextToDeliver S') = None"
      by (auto simp: same_stream_def)
    have present: "map_of (rsBuffer S) q \<noteq> None" if "?k \<le> q" "q < ?k + Suc n" for q
    proof (cases "q = ?k")
      case True
      with d(1) show ?thesis by simp
    next
      case False
      with that n(3) have "map_of (AList.delete ?k (rsBuffer S)) q \<noteq> None" by simp
      with False show ?thesis by simp
    qed
    have buf: "rsBuffer S' = filter (\<lambda>(q, d). \<not> (?k \<le> q \<and> q < ?k + Suc n)) (rsBuffer S)"
      unfolding n(4) AList.delete_eq filter_filter by (rule filter_cong) auto
    have "ibPackets ib' = ibPackets ib @ map (\<lambda>q. rs_packet S (the (map_of (rsBuffer S) q))) [?k ..< ?k + Suc n]"
    proof -
      have "map (\<lambda>q. rs_packet S (the (map_of (AList.delete ?k (rsBuffer S)) q))) [Suc ?k ..< Suc ?k + n] =
          map (\<lambda>q. rs_packet S (the (map_of (rsBuffer S) q))) [Suc ?k ..< Suc ?k + n]"
        by (rule map_cong) auto
      moreover have "[?k ..< ?k + Suc n] = ?k # [Suc ?k ..< Suc ?k + n]"
        by (simp add: upt_conv_Cons)
      ultimately show ?thesis using n(5) d EnqueueInbox_room [OF d(2), of S] by simp
    qed
    moreover have "rsNextToDeliver S' = ?k + Suc n" using n(2) by simp
    ultimately show ?thesis using n(1,6,7) buf present by blast
  qed
qed

lemma drain_unordered_spec:
  "drain_unordered S m ib = (b, m', ib') \<Longrightarrow>
   \<exists>n \<le> length m. m' = drop n m \<and>
     ibPackets ib' = ibPackets ib @ map (rs_packet S \<circ> snd) (take n m) \<and> (b \<longleftrightarrow> m' \<noteq> []) \<and>
     (m' \<noteq> [] \<longrightarrow> \<not> InboxHasRoom ib' (length (snd (hd m'))))"
proof (induction S m ib rule: drain_unordered.induct)
  case (1 S ib)
  then show ?case by simp
next
  case (2 S q d m ib)
  show ?case
  proof (cases "InboxHasRoom ib (length d)")
    case False
    with 2 show ?thesis by (intro exI [of _ 0]) auto
  next
    case True
    with 2 obtain n where "n \<le> length m" "m' = drop n m"
      "ibPackets ib' = ibPackets (snd (EnqueueInbox (rsPeer S) (rsSocket S) (rsChannel S) d ib)) @
         map (rs_packet S \<circ> snd) (take n m)" "b \<longleftrightarrow> m' \<noteq> []"
      "m' \<noteq> [] \<longrightarrow> \<not> InboxHasRoom ib' (length (snd (hd m')))"
      by auto
    then show ?thesis using EnqueueInbox_room [OF True, of S] by (intro exI [of _ "Suc n"]) simp
  qed
qed

lemma drain_ordered_inbox:
  "drain_ordered S ib = (b, S', ib') \<Longrightarrow> inbox_inv ib \<Longrightarrow> inbox_inv ib' \<and> capped ib ib'"
proof (induction S ib rule: drain_ordered.induct)
  case (1 S ib)
  show ?case
  proof (cases "\<exists>d. map_of (rsBuffer S) (rsNextToDeliver S) = Some d \<and> InboxHasRoom ib (length d)")
    case False
    with 1(2,3) show ?thesis
      by (subst (asm) drain_ordered.simps) (auto split: option.splits if_splits)
  next
    case True
    then obtain d where d: "map_of (rsBuffer S) (rsNextToDeliver S) = Some d" "InboxHasRoom ib (length d)"
      by blast
    let ?ib = "snd (EnqueueInbox (rsPeer S) (rsSocket S) (rsChannel S) d ib)"
    have "drain_ordered (S\<lparr>rsBuffer := AList.delete (rsNextToDeliver S) (rsBuffer S),
        rsNextToDeliver := Suc (rsNextToDeliver S)\<rparr>) ?ib = (b, S', ib')"
      using 1(2) d by (subst (asm) drain_ordered.simps) simp
    from 1(1) [OF d(1) _ this] d(2) inbox_inv_Enqueue [OF 1(3)]
    have "inbox_inv ib' \<and> capped ?ib ib'" by simp
    with capped_trans [OF Enqueue_capped, of _ _ _ _ _ ib'] inbox_inv_Enqueue [OF 1(3)] 1(3)
    show ?thesis by blast
  qed
qed

lemma drain_unordered_inbox:
  "drain_unordered S m ib = (b, m', ib') \<Longrightarrow> inbox_inv ib \<Longrightarrow> inbox_inv ib' \<and> capped ib ib'"
proof (induction S m ib rule: drain_unordered.induct)
  case (1 S ib)
  then show ?case by simp
next
  case (2 S q d m ib)
  show ?case
  proof (cases "InboxHasRoom ib (length d)")
    case False
    with 2 show ?thesis by simp
  next
    case True
    let ?ib = "snd (EnqueueInbox (rsPeer S) (rsSocket S) (rsChannel S) d ib)"
    from True "2.prems"(1) "2.IH" inbox_inv_Enqueue [OF "2.prems"(2)]
    have "inbox_inv ib' \<and> capped ?ib ib'" by simp
    with capped_trans [OF Enqueue_capped, of _ _ _ _ _ ib'] inbox_inv_Enqueue "2.prems"(2)
    show ?thesis by blast
  qed
qed

lemma Drain_inbox:
  "DrainRecvStream S ib = (b, S', ib') \<Longrightarrow> inbox_inv ib \<Longrightarrow> inbox_inv ib' \<and> capped ib ib'"
  using drain_ordered_inbox [of S ib] drain_unordered_inbox [of S "rsBuffer S" ib]
  by (auto simp: DrainRecvStream_def split: if_splits prod.splits)

lemma Drain_fields:
  assumes "DrainRecvStream S ib = (b, S', ib')"
  shows "rsPeer S' = rsPeer S \<and> rsSocket S' = rsSocket S \<and> rsChannel S' = rsChannel S \<and>
    rsOrdered S' = rsOrdered S \<and> rsNextExpected S' = rsNextExpected S \<and> rsReceived S' = rsReceived S \<and>
    seen S' = seen S"
proof (cases "rsOrdered S")
  case True
  with assms have "drain_ordered S ib = (b, S', ib')" by (simp add: DrainRecvStream_def)
  from drain_ordered_spec [OF this] show ?thesis by (auto simp: same_stream_def seen_def)
next
  case False
  with assms show ?thesis by (auto simp: DrainRecvStream_def seen_def split: prod.splits)
qed

lemma smap_ok_filter: "smap_ok m \<Longrightarrow> smap_ok (filter P m)"
  by (induction m) (auto simp: smap_ok_Cons)

lemma smap_ok_drop: "smap_ok m \<Longrightarrow> smap_ok (drop n m)"
  by (simp add: smap_ok_def drop_map [symmetric] sorted_wrt_drop)

lemma keys_filter_key: "set (keys (filter (\<lambda>(k, d). P k) m)) = {k \<in> set (keys m). P k}"
  by (induction m) auto

lemma drop_ordered_bound:
  assumes "rs_inv S" "rsOrdered S"
    and "\<forall>q. rsNextToDeliver S \<le> q \<and> q < rsNextToDeliver S + n \<longrightarrow> map_of (rsBuffer S) q \<noteq> None"
  shows "rsNextToDeliver S + n \<le> rsNextExpected S"
proof (rule ccontr)
  assume "\<not> ?thesis"
  with assms have "map_of (rsBuffer S) (rsNextExpected S) \<noteq> None" by (simp add: rs_inv_def)
  then have "rsNextExpected S \<in> set (keys (rsBuffer S))" by (simp add: map_of_eq_None_iff)
  with assms(1,2) show False by (auto simp: rs_inv_def simp del: set_map)
qed

lemma rs_inv_Drain [inv_intros]:
  assumes "rs_inv S" "DrainRecvStream S ib = (b, S', ib')"
  shows "rs_inv S'"
proof (cases "rsOrdered S")
  case True
  with assms have "drain_ordered S ib = (b, S', ib')" by (simp add: DrainRecvStream_def)
  from drain_ordered_spec [OF this] obtain n where
    same: "same_stream S S'" and d: "rsNextToDeliver S' = rsNextToDeliver S + n"
    and present: "\<forall>q. rsNextToDeliver S \<le> q \<and> q < rsNextToDeliver S + n \<longrightarrow> map_of (rsBuffer S) q \<noteq> None"
    and buf: "rsBuffer S' = filter (\<lambda>(q, d). \<not> (rsNextToDeliver S \<le> q \<and> q < rsNextToDeliver S + n)) (rsBuffer S)"
    by blast
  have le: "rsNextToDeliver S + n \<le> rsNextExpected S"
    using assms(1) True present by (rule drop_ordered_bound)
  have keys: "set (keys (rsBuffer S')) = {q \<in> set (keys (rsBuffer S)). \<not> (rsNextToDeliver S \<le> q \<and> q < rsNextToDeliver S + n)}"
    unfolding buf by (rule keys_filter_key)
  have "smap_ok (rsBuffer S')" using assms(1) buf by (simp add: smap_ok_filter rs_inv_def)
  moreover have "set (keys (rsBuffer S')) = {q. rsNextToDeliver S' \<le> q \<and> q < rsNextExpected S'} \<union> set (rsReceived S')"
    unfolding keys using assms(1) True le d same
    by (auto simp: rs_inv_def same_stream_def simp del: set_map)
  ultimately show ?thesis using assms(1) True le d same keys
    by (auto simp: rs_inv_def same_stream_def seen_def simp del: set_map)
next
  case False
  with assms(2) obtain m where m: "drain_unordered S (rsBuffer S) ib = (b, m, ib')" "S' = S\<lparr>rsBuffer := m\<rparr>"
    by (auto simp: DrainRecvStream_def split: prod.splits)
  from drain_unordered_spec [OF m(1)] obtain n where "m = drop n (rsBuffer S)" by blast
  then have "smap_ok m" "set (keys m) \<subseteq> set (keys (rsBuffer S))"
    using assms(1) by (auto simp: rs_inv_def smap_ok_drop dest: in_set_dropD)
  with assms(1) False m(2) show ?thesis by (auto simp: rs_inv_def seen_def simp del: set_map)
qed

end
