(* ===== verification/P2P.thy ===== *)
theory P2P
  imports P2PSend P2PRecv
begin

unbundle bit_operations_syntax

text \<open>
  The peer-to-peer interface, \<open>src/interfaces/P2P.h\<close> and \<open>src/interfaces/P2P.cpp\<close>:
  connections, the packet queue and the calls and datagrams that drive them, on top of the stream
  operations of theories P2PSend and P2PRecv.

  An operation takes the part of the platform it reads (\<open>p2p_env\<close>: the transport, the local
  user's id, the peer directory), the clock reading, its arguments and the state, and returns its
  result, the new state and what it did to the outside in order (\<open>p2p_event\<close>: a datagram sent
  or a callback posted to the dispatcher).  A critical section of \<open>Mutex_\<close> is one atomic step;
  the two sections of \<open>SendPacket\<close> are run without interleaving.
\<close>

section \<open>State\<close>

record Connection =
  cnPeer :: puid
  cnSocketName :: string
  cnEndpoint :: Endpoint
  cnAcceptedLocally :: bool
  cnEstablished :: bool
  cnInterrupted :: bool
  cnInterruptedAt :: time_ns

text \<open>\<open>Connection Fresh\<close>: a null peer is the empty id, overwritten before anything reads it.\<close>

definition Connection_default :: Connection where
  "Connection_default =
     \<lparr>cnPeer = [], cnSocketName = [], cnEndpoint = no_endpoint, cnAcceptedLocally = False,
      cnEstablished = False, cnInterrupted = False, cnInterruptedAt = 0\<rparr>"

record fentry = nentry +
  feSocketName :: string

record p2p =
  p2Inbox :: inbox
  p2Connections :: "(string, Connection) amap"
  p2SendStreams :: "(string, SendStream) amap"
  p2RecvStreams :: "(string, RecvStream) amap"
  p2TestLossPermille :: nat
  p2SendCounter :: u64
  p2ConnRequest :: "fentry list"
  p2ConnEstablished :: "fentry list"
  p2ConnClosed :: "fentry list"
  p2ConnInterrupted :: "fentry list"
  p2QueueFull :: "nentry list"
  p2RelayControl :: enum
  p2PortRangeBase :: u16
  p2PortRangeExtra :: u16

text \<open>\<open>ReadLossPermille\<close> on the value of \<open>atoi\<close>, and the constructor.\<close>

definition ReadLossPermille :: "int option \<Rightarrow> nat" where
  "ReadLossPermille env =
     (case env of None \<Rightarrow> 0
      | Some v \<Rightarrow> (let v1 = (if v < 0 then 0 else v); v2 = (if v1 > 1000 then 1000 else v1) in nat v2))"

definition P2PInterface :: "int option \<Rightarrow> enum \<Rightarrow> p2p" where
  "P2PInterface env allow_relays =
     \<lparr>p2Inbox = \<lparr>ibPackets = [], ibMax = 0, ibBytes = 0\<rparr>, p2Connections = [], p2SendStreams = [],
      p2RecvStreams = [], p2TestLossPermille = ReadLossPermille env, p2SendCounter = 0,
      p2ConnRequest = [], p2ConnEstablished = [], p2ConnClosed = [], p2ConnInterrupted = [],
      p2QueueFull = [], p2RelayControl = allow_relays, p2PortRangeBase = 7777, p2PortRangeExtra = 99\<rparr>"

record p2p_env =
  peNode :: node
  peLocal :: string
  pePeers :: peer_dir

datatype est_type = EOS_CET_NewConnection | EOS_CET_Reconnection
datatype close_reason = EOS_CCR_ClosedByPeer | EOS_CCR_ConnectionIgnored | EOS_CCR_TimedOut

text \<open>The posted closures: callback, client data, and the fields of the info structure (local
  user, remote user, the socket id's characters, ...).\<close>

datatype p2p_task =
    ConnectionRequestCb nat nat "puid option" puid string
  | ConnectionEstablishedCb nat nat "puid option" puid string est_type
  | ConnectionInterruptedCb nat nat "puid option" puid string
  | ConnectionClosedCb nat nat "puid option" puid string close_reason
  | QueueFullCb nat nat nat
  | NATTypeCb nat nat

datatype p2p_event = Sent dgram | Posted p2p_task

section \<open>Sending helpers\<close>

text \<open>The test-loss injector: a scrambled counter decides, in per mille.\<close>

definition loss_hash :: "u64 \<Rightarrow> u64" where
  "loss_hash n =
     (let h = n * 6364136223846793005 + 1442695040888963407 in h XOR drop_bit 33 h)"

definition RawSend :: "p2p_env \<Rightarrow> Endpoint \<Rightarrow> MessageType \<Rightarrow> bytes \<Rightarrow> p2p \<Rightarrow> p2p \<times> p2p_event list" where
  "RawSend E to ty payload s =
     (if p2TestLossPermille s > 0
      then let n = p2SendCounter s; s1 = s\<lparr>p2SendCounter := n + 1\<rparr> in
        if unat (loss_hash n mod 1000) < p2TestLossPermille s then (s1, [])
        else (s1, map Sent (SendTo (peNode E) to ty payload (W_Size payload)))
      else (s, map Sent (SendTo (peNode E) to ty payload (W_Size payload))))"

definition SendControl :: "p2p_env \<Rightarrow> Endpoint \<Rightarrow> MessageType \<Rightarrow> string \<Rightarrow> p2p_event list" where
  "SendControl E to ty socket =
     (let w = enc_head (peLocal E) socket in map Sent (SendTo (peNode E) to ty w (W_Size w)))"

definition FindConn :: "p2p \<Rightarrow> puid \<Rightarrow> string \<Rightarrow> Connection option" where
  "FindConn s peer socket = map_of (p2Connections s) (ConnKey peer socket)"

text \<open>\<open>operator[]\<close> on the three maps: the stored value or a default one.\<close>

definition conn_at :: "p2p \<Rightarrow> string \<Rightarrow> Connection" where
  "conn_at s k = (case map_of (p2Connections s) k of Some c \<Rightarrow> c | None \<Rightarrow> Connection_default)"

definition send_at :: "p2p \<Rightarrow> string \<Rightarrow> SendStream" where
  "send_at s k = (case map_of (p2SendStreams s) k of Some S \<Rightarrow> S | None \<Rightarrow> SendStream_default)"

definition recv_at :: "p2p \<Rightarrow> string \<Rightarrow> RecvStream" where
  "recv_at s k = (case map_of (p2RecvStreams s) k of Some S \<Rightarrow> S | None \<Rightarrow> RecvStream_default)"

definition put_conn :: "string \<Rightarrow> Connection \<Rightarrow> p2p \<Rightarrow> p2p" where
  "put_conn k c s = s\<lparr>p2Connections := AList.update k c (p2Connections s)\<rparr>"

definition ClearStreams :: "puid \<Rightarrow> string \<Rightarrow> p2p \<Rightarrow> p2p" where
  "ClearStreams peer socket s =
     s\<lparr>p2SendStreams := clear_map peer socket (p2SendStreams s),
       p2RecvStreams := clear_map peer socket (p2RecvStreams s)\<rparr>"

definition ClearInterrupted :: "Connection \<Rightarrow> bool \<times> Connection" where
  "ClearInterrupted c = (if \<not> cnInterrupted c then (False, c) else (True, c\<lparr>cnInterrupted := False\<rparr>))"

section \<open>Notification fan-outs\<close>

definition targets :: "fentry list \<Rightarrow> string \<Rightarrow> fentry list" where
  "targets es socket = filter (\<lambda>e. SocketMatches (feSocketName e) socket) es"

definition FireConnectionRequest :: "p2p_env \<Rightarrow> sdk \<Rightarrow> p2p \<Rightarrow> puid \<Rightarrow> string \<Rightarrow> p2p_event list" where
  "FireConnectionRequest E K s remote socket =
     map (\<lambda>e. Posted (ConnectionRequestCb (neFn e) (neCd e) (intern (peLocal E)) remote (FillSocketId K socket)))
       (targets (p2ConnRequest s) socket)"

definition FireConnectionEstablished ::
  "p2p_env \<Rightarrow> sdk \<Rightarrow> p2p \<Rightarrow> puid \<Rightarrow> string \<Rightarrow> est_type \<Rightarrow> p2p_event list" where
  "FireConnectionEstablished E K s remote socket ty =
     map (\<lambda>e. Posted (ConnectionEstablishedCb (neFn e) (neCd e) (intern (peLocal E)) remote (FillSocketId K socket) ty))
       (targets (p2ConnEstablished s) socket)"

definition FireConnectionInterrupted :: "p2p_env \<Rightarrow> sdk \<Rightarrow> p2p \<Rightarrow> puid \<Rightarrow> string \<Rightarrow> p2p_event list" where
  "FireConnectionInterrupted E K s remote socket =
     map (\<lambda>e. Posted (ConnectionInterruptedCb (neFn e) (neCd e) (intern (peLocal E)) remote (FillSocketId K socket)))
       (targets (p2ConnInterrupted s) socket)"

definition FireConnectionClosed ::
  "p2p_env \<Rightarrow> sdk \<Rightarrow> p2p \<Rightarrow> puid \<Rightarrow> string \<Rightarrow> close_reason \<Rightarrow> p2p_event list" where
  "FireConnectionClosed E K s remote socket reason =
     map (\<lambda>e. Posted (ConnectionClosedCb (neFn e) (neCd e) (intern (peLocal E)) remote (FillSocketId K socket) reason))
       (targets (p2ConnClosed s) socket)"

definition FireQueueFull :: "p2p \<Rightarrow> p2p_event list" where
  "FireQueueFull s =
     map (\<lambda>e. Posted (QueueFullCb (neFn e) (neCd e) (ibMax (p2Inbox s)))) (p2QueueFull s)"

section \<open>SendPacket\<close>

text \<open>A null pointer is \<open>None\<close>; \<open>spData\<close> is the memory behind \<open>Data\<close>, of which
  \<open>DataLengthBytes\<close> bytes are used.\<close>

record SendPacketOptions =
  spApiVersion :: int
  spRemoteUserId :: "puid option"
  spSocketId :: "string option"
  spChannel :: byte
  spDataLengthBytes :: nat
  spData :: "bytes option"
  spReliability :: enum
  spDisableAutoAccept :: int

definition sp_bytes :: "SendPacketOptions \<Rightarrow> bytes" where
  "sp_bytes opt = (case spData opt of None \<Rightarrow> [] | Some d \<Rightarrow> take (spDataLengthBytes opt) d)"

text \<open>The first critical section: find or open the connection; \<open>None\<close> is the
  \<open>EOS_NoConnection\<close> return.\<close>

definition send_connect ::
  "p2p_env \<Rightarrow> puid \<Rightarrow> string \<Rightarrow> bool \<Rightarrow> p2p \<Rightarrow> (Endpoint \<times> p2p \<times> p2p_event list) option" where
  "send_connect E remote socket autoaccept s =
     (let endpoint = EndpointFor (pePeers E) remote;
          fix_ep = (\<lambda>c. if \<not> ep_Valid (cnEndpoint c) \<and> ep_Valid endpoint then c\<lparr>cnEndpoint := endpoint\<rparr> else c)
      in case FindConn s remote socket of
           None \<Rightarrow>
             if \<not> autoaccept then None
             else let fresh = Connection_default\<lparr>cnPeer := remote, cnSocketName := socket,
                                cnEndpoint := endpoint, cnAcceptedLocally := True\<rparr>
                  in Some (endpoint, put_conn (ConnKey remote socket) (fix_ep fresh) s,
                       if ep_Valid endpoint then SendControl E endpoint P2PConnectRequest socket else [])
         | Some c \<Rightarrow>
             if \<not> cnAcceptedLocally c \<and> \<not> autoaccept then None
             else Some (endpoint,
                    put_conn (ConnKey remote socket) (fix_ep (c\<lparr>cnAcceptedLocally := True\<rparr>)) s, []))"

text \<open>The second: number, frame and remember a reliable packet, or just frame an unreliable one.\<close>

definition send_data ::
  "p2p_env \<Rightarrow> sdk \<Rightarrow> time_ns \<Rightarrow> puid \<Rightarrow> string \<Rightarrow> byte \<Rightarrow> enum \<Rightarrow> Endpoint \<Rightarrow> bytes \<Rightarrow> p2p \<Rightarrow> bytes \<times> p2p" where
  "send_data E K now remote socket channel reliability endpoint d s =
     (let mode = enum_byte reliability;
          reliable = (reliability \<noteq> EOS_PR_UnreliableUnordered K);
          ordered = (reliability = EOS_PR_ReliableOrdered K);
          k = StreamKey remote socket channel ordered
      in if reliable
         then (case stream_send now (peLocal E) remote socket channel mode endpoint d (send_at s k) of
                 (payload, S) \<Rightarrow> (payload, s\<lparr>p2SendStreams := AList.update k S (p2SendStreams s)\<rparr>))
         else (data_payload (peLocal E) socket channel mode 0 d, s))"

definition SendPacket ::
  "p2p_env \<Rightarrow> sdk \<Rightarrow> time_ns \<Rightarrow> SendPacketOptions option \<Rightarrow> p2p \<Rightarrow> eresult \<times> p2p \<times> p2p_event list" where
  "SendPacket E K now options s =
     (case options of
        None \<Rightarrow> (EOS_InvalidParameters, s, [])
      | Some opt \<Rightarrow>
        if spRemoteUserId opt = None \<or> spSocketId opt = None \<or> (spData opt = None \<and> spDataLengthBytes opt > 0)
        then (EOS_InvalidParameters, s, [])
        else if \<not> VersionInRange (spApiVersion opt) (EOS_P2P_SENDPACKET_API_LATEST K)
        then (EOS_IncompatibleVersion, s, [])
        else if spDataLengthBytes opt > EOS_P2P_MAX_PACKET_SIZE K then (EOS_LimitExceeded, s, [])
        else let socket = SocketName K (spSocketId opt) in
        if socket = [] then (EOS_InvalidParameters, s, [])
        else let remote = the (spRemoteUserId opt);
                 reliability = (if HasField (spApiVersion opt) 2 then spReliability opt else EOS_PR_ReliableOrdered K);
                 autoaccept = (\<not> HasField (spApiVersion opt) 3 \<or> spDisableAutoAccept opt = EOS_FALSE)
             in case send_connect E remote socket autoaccept s of
                  None \<Rightarrow> (EOS_NoConnection, s, [])
                | Some (endpoint, s1, ev1) \<Rightarrow>
                    if \<not> ep_Valid endpoint then (EOS_Success, s1, ev1)
                    else case send_data E K now remote socket (spChannel opt) reliability endpoint (sp_bytes opt) s1 of
                           (payload, s2) \<Rightarrow>
                             (case RawSend E endpoint P2PData payload s2 of
                                (s3, ev2) \<Rightarrow> (EOS_Success, s3, ev1 @ ev2)))"

section \<open>Receiving\<close>

record ReceiveOptions =
  roApiVersion :: int
  roRequestedChannel :: "byte option"
  roMaxDataSizeBytes :: nat

definition channel_match :: "ReceiveOptions \<Rightarrow> IncomingPacket \<Rightarrow> bool" where
  "channel_match opt p \<longleftrightarrow>
     (case (if HasField (roApiVersion opt) 2 then roRequestedChannel opt else None) of
        None \<Rightarrow> True | Some c \<Rightarrow> ipChannel p = c)"

text \<open>\<open>outs\<close>: the out-parameters are all non-null.\<close>

definition GetNextReceivedPacketSize ::
  "sdk \<Rightarrow> ReceiveOptions option \<Rightarrow> bool \<Rightarrow> p2p \<Rightarrow> eresult \<times> nat option" where
  "GetNextReceivedPacketSize K options outs s =
     (case options of
        None \<Rightarrow> (EOS_InvalidParameters, None)
      | Some opt \<Rightarrow>
        if \<not> outs then (EOS_InvalidParameters, None)
        else if \<not> VersionInRange (roApiVersion opt) (EOS_P2P_GETNEXTRECEIVEDPACKETSIZE_API_LATEST K)
        then (EOS_IncompatibleVersion, None)
        else case find (channel_match opt) (ibPackets (p2Inbox s)) of
               Some p \<Rightarrow> (EOS_Success, Some (length (ipData p)))
             | None \<Rightarrow> (EOS_NotFound, None))"

record ReceivedPacket =
  rpPeer :: puid
  rpSocketId :: string
  rpChannel :: byte
  rpData :: bytes

definition ReceivePacket ::
  "sdk \<Rightarrow> ReceiveOptions option \<Rightarrow> bool \<Rightarrow> p2p \<Rightarrow> eresult \<times> ReceivedPacket option \<times> p2p" where
  "ReceivePacket K options outs s =
     (case options of
        None \<Rightarrow> (EOS_InvalidParameters, None, s)
      | Some opt \<Rightarrow>
        if \<not> outs then (EOS_InvalidParameters, None, s)
        else if \<not> VersionInRange (roApiVersion opt) (EOS_P2P_RECEIVEPACKET_API_LATEST K)
        then (EOS_IncompatibleVersion, None, s)
        else let ib = p2Inbox s in
          case find (channel_match opt) (ibPackets ib) of
            None \<Rightarrow> (EOS_NotFound, None, s)
          | Some p \<Rightarrow>
              (EOS_Success,
               Some \<lparr>rpPeer = ipPeer p, rpSocketId = FillSocketId K (ipSocket p), rpChannel = ipChannel p,
                     rpData = take (roMaxDataSizeBytes opt) (ipData p)\<rparr>,
               s\<lparr>p2Inbox := ib\<lparr>ibBytes := ibBytes ib - length (ipData p),
                  ibPackets := erase_first (channel_match opt) (ibPackets ib)\<rparr>\<rparr>))"

section \<open>Inbound datagrams\<close>

definition on_connect_request :: "p2p_env \<Rightarrow> sdk \<Rightarrow> Endpoint \<Rightarrow> puid \<Rightarrow> string \<Rightarrow> p2p \<Rightarrow> p2p \<times> p2p_event list" where
  "on_connect_request E K from peer socket s =
     (let accepted = (case FindConn s peer socket of Some c \<Rightarrow> cnAcceptedLocally c | None \<Rightarrow> False);
          listener = (\<exists>e \<in> set (p2ConnRequest s). SocketMatches (feSocketName e) socket);
          k = ConnKey peer socket
      in if \<not> accepted \<and> listener
         then let s1 = put_conn k ((conn_at s k)\<lparr>cnPeer := peer, cnSocketName := socket, cnEndpoint := from\<rparr>) s
              in (s1, FireConnectionRequest E K s1 peer socket)
         else if \<not> accepted then (s, SendControl E from P2PConnectIgnored socket)
         else (s, []))"

definition on_connect_ignored :: "p2p_env \<Rightarrow> sdk \<Rightarrow> puid \<Rightarrow> string \<Rightarrow> p2p \<Rightarrow> p2p \<times> p2p_event list" where
  "on_connect_ignored E K peer socket s =
     (let existed = (FindConn s peer socket \<noteq> None);
          s1 = ClearStreams peer socket
                 (s\<lparr>p2Connections := AList.delete (ConnKey peer socket) (p2Connections s)\<rparr>)
      in (s1, if existed then FireConnectionClosed E K s1 peer socket EOS_CCR_ConnectionIgnored else []))"

text \<open>The common tail of the accept and data cases: which established notification is owed.\<close>

definition established_events ::
  "p2p_env \<Rightarrow> sdk \<Rightarrow> p2p \<Rightarrow> puid \<Rightarrow> string \<Rightarrow> bool \<Rightarrow> bool \<Rightarrow> p2p_event list" where
  "established_events E K s peer socket established reconnected =
     (if established then FireConnectionEstablished E K s peer socket EOS_CET_NewConnection
      else if reconnected then FireConnectionEstablished E K s peer socket EOS_CET_Reconnection
      else [])"

definition on_connect_accept :: "p2p_env \<Rightarrow> sdk \<Rightarrow> Endpoint \<Rightarrow> puid \<Rightarrow> string \<Rightarrow> p2p \<Rightarrow> p2p \<times> p2p_event list" where
  "on_connect_accept E K from peer socket s =
     (let k = ConnKey peer socket;
          c = (conn_at s k)\<lparr>cnPeer := peer, cnSocketName := socket, cnEndpoint := from, cnAcceptedLocally := True\<rparr>;
          established = (\<not> cnEstablished c)
      in case ClearInterrupted (c\<lparr>cnEstablished := True\<rparr>) of
           (reconnected, c') \<Rightarrow>
             (let s1 = put_conn k c' s
              in (s1, established_events E K s1 peer socket established reconnected)))"

definition on_connect_close :: "p2p_env \<Rightarrow> sdk \<Rightarrow> puid \<Rightarrow> string \<Rightarrow> p2p \<Rightarrow> p2p \<times> p2p_event list" where
  "on_connect_close E K peer socket s =
     (let s1 = ClearStreams peer socket
                 (s\<lparr>p2Connections := AList.delete (ConnKey peer socket) (p2Connections s)\<rparr>)
      in (s1, FireConnectionClosed E K s1 peer socket EOS_CCR_ClosedByPeer))"

text \<open>The reliable branch of the data case, on the stream map and the inbox: whether delivery is
  blocked, and the acknowledgement payload.\<close>

definition receive_reliable ::
  "p2p_env \<Rightarrow> puid \<Rightarrow> string \<Rightarrow> byte \<Rightarrow> bool \<Rightarrow> u32 \<Rightarrow> bytes \<Rightarrow> p2p \<Rightarrow> bool \<times> bytes \<times> p2p" where
  "receive_reliable E peer socket channel ordered wire d s =
     (let k = StreamKey peer socket channel ordered;
          S0 = (recv_at s k)\<lparr>rsPeer := peer, rsSocket := socket, rsChannel := channel, rsOrdered := ordered\<rparr>
      in case stream_deliver S0 (p2Inbox s) wire d of
           (blocked, S2, ib) \<Rightarrow>
             (blocked,
              ack_payload (peLocal E) socket channel ordered (seq_low (ack_seq S2)) (sack_bits S2),
              s\<lparr>p2RecvStreams := AList.update k S2 (p2RecvStreams s), p2Inbox := ib\<rparr>))"

definition on_data ::
  "p2p_env \<Rightarrow> sdk \<Rightarrow> Endpoint \<Rightarrow> puid \<Rightarrow> string \<Rightarrow> byte \<times> byte \<times> u32 \<times> bytes \<Rightarrow> p2p \<Rightarrow> p2p \<times> p2p_event list" where
  "on_data E K from peer socket body s =
     (case body of (channel, mode, wire, d) \<Rightarrow>
      let reliable = (mode \<noteq> enum_byte (EOS_PR_UnreliableUnordered K));
          ordered = (mode = enum_byte (EOS_PR_ReliableOrdered K));
          k = ConnKey peer socket;
          c = (conn_at s k)\<lparr>cnPeer := peer, cnSocketName := socket, cnEndpoint := from\<rparr>;
          established = (\<not> cnEstablished c)
      in case ClearInterrupted (c\<lparr>cnEstablished := True\<rparr>) of (reconnected, c') \<Rightarrow>
      let s1 = put_conn k c' s
      in if \<not> reliable
         then (case EnqueueInbox peer socket channel d (p2Inbox s1) of (dropped, ib) \<Rightarrow>
                let s2 = s1\<lparr>p2Inbox := ib\<rparr> in
                (s2, established_events E K s2 peer socket established reconnected @
                     (if dropped then FireQueueFull s2 else [])))
         else (case receive_reliable E peer socket channel ordered wire d s1 of (dropped, ack, s2) \<Rightarrow>
               case RawSend E from P2PAck ack s2 of (s3, ev) \<Rightarrow>
                (s3, ev @ established_events E K s3 peer socket established reconnected @
                     (if dropped then FireQueueFull s3 else []))))"

definition on_ack ::
  "p2p_env \<Rightarrow> sdk \<Rightarrow> time_ns \<Rightarrow> puid \<Rightarrow> string \<Rightarrow> byte \<times> byte \<times> u32 \<times> u32 \<Rightarrow> p2p \<Rightarrow> p2p \<times> p2p_event list" where
  "on_ack E K now peer socket body s =
     (case body of (channel, ordered_byte, wire_ack, sack) \<Rightarrow>
      let (reconnected, s1) =
            (case FindConn s peer socket of
               None \<Rightarrow> (False, s)
             | Some c \<Rightarrow> (case ClearInterrupted c of (r, c') \<Rightarrow> (r, put_conn (ConnKey peer socket) c' s)));
          k = StreamKey peer socket channel (ordered_byte \<noteq> 0);
          s2 = (case map_of (p2SendStreams s1) k of
                  None \<Rightarrow> s1
                | Some S \<Rightarrow> s1\<lparr>p2SendStreams := AList.update k (stream_ack now wire_ack sack S) (p2SendStreams s1)\<rparr>)
      in (s2, if reconnected then FireConnectionEstablished E K s2 peer socket EOS_CET_Reconnection else []))"

definition OnDatagram ::
  "p2p_env \<Rightarrow> sdk \<Rightarrow> time_ns \<Rightarrow> Endpoint \<Rightarrow> MessageType \<Rightarrow> bytes \<Rightarrow> p2p \<Rightarrow> p2p \<times> p2p_event list" where
  "OnDatagram E K now from ty payload s =
     (case read_head (reader_init payload) of ((sender, socket), r) \<Rightarrow>
      if \<not> rdOk r \<or> sender = [] \<or> socket = [] then (s, [])
      else case ty of
        P2PConnectRequest \<Rightarrow> on_connect_request E K from sender socket s
      | P2PConnectIgnored \<Rightarrow> on_connect_ignored E K sender socket s
      | P2PConnectAccept \<Rightarrow> on_connect_accept E K from sender socket s
      | P2PConnectClose \<Rightarrow> on_connect_close E K sender socket s
      | P2PData \<Rightarrow>
          (case read_data_body r of (body, r') \<Rightarrow>
             if \<not> rdOk r' then (s, []) else on_data E K from sender socket body s)
      | P2PAck \<Rightarrow>
          (case read_ack_body r of (body, r') \<Rightarrow>
             if \<not> rdOk r' then (s, []) else on_ack E K now sender socket body s)
      | _ \<Rightarrow> (s, []))"

end
