(* ===== verification/P2POps.thy ===== *)
theory P2POps
  imports P2P
begin

text \<open>
  The rest of \<open>src/interfaces/P2P.cpp\<close>: the retransmission pump that runs once per tick,
  accepting and closing connections, notification registration, and the NAT, relay, port and
  packet-queue calls.
\<close>

section \<open>The pump\<close>

fun drain_all :: "(string, RecvStream) amap \<Rightarrow> inbox \<Rightarrow> (string, RecvStream) amap \<times> inbox" where
  "drain_all [] ib = ([], ib)"
| "drain_all ((k, S) # m) ib =
     (if rsBuffer S \<noteq> []
      then (case DrainRecvStream S ib of (b, S', ib1) \<Rightarrow>
              (case drain_all m ib1 of (m', ib2) \<Rightarrow> ((k, S') # m', ib2)))
      else (case drain_all m ib of (m', ib2) \<Rightarrow> ((k, S) # m', ib2)))"

text \<open>Interrupt a connection once; a second exhausted packet changes nothing.\<close>

definition interrupt ::
  "time_ns \<Rightarrow> puid \<Rightarrow> string \<Rightarrow> (string, Connection) amap \<Rightarrow> (string, Connection) amap \<times> (puid \<times> string) list" where
  "interrupt now peer socket cs =
     (case map_of cs (ConnKey peer socket) of
        None \<Rightarrow> (cs, [])
      | Some c \<Rightarrow>
          if cnInterrupted c then (cs, [])
          else (AList.update (ConnKey peer socket) (c\<lparr>cnInterrupted := True, cnInterruptedAt := now\<rparr>) cs,
                [(peer, socket)]))"

text \<open>The loop over the send streams: new streams and connections, datagrams to resend,
  connections interrupted.\<close>

fun pump_streams ::
  "time_ns \<Rightarrow> (string, SendStream) amap \<Rightarrow> (string, Connection) amap \<Rightarrow>
   (string, SendStream) amap \<times> (string, Connection) amap \<times> (Endpoint \<times> bytes) list \<times> (puid \<times> string) list" where
  "pump_streams now [] cs = ([], cs, [], [])"
| "pump_streams now ((k, S) # m) cs =
     (if ssPending S = []
      then (case pump_streams now m cs of (m', cs', out, intr) \<Rightarrow> ((k, S) # m', cs', out, intr))
      else (case pump_pending now (RtoFor S) (ssPending S) of (ps, out1, exhausted) \<Rightarrow>
            case (if exhausted then interrupt now (ssPeer S) (ssSocket S) cs else (cs, [])) of (cs1, intr1) \<Rightarrow>
            case pump_streams now m cs1 of (m', cs2, out2, intr2) \<Rightarrow>
              ((k, S\<lparr>ssPending := ps\<rparr>) # m', cs2, out1 @ out2, intr1 @ intr2)))"

definition grace_over :: "time_ns \<Rightarrow> Connection \<Rightarrow> bool" where
  "grace_over now c \<longleftrightarrow> cnInterrupted c \<and> now - cnInterruptedAt c \<ge> ms kInterruptedGrace"

fun grace_sweep ::
  "time_ns \<Rightarrow> (string, Connection) amap \<Rightarrow> p2p \<Rightarrow> (string, Connection) amap \<times> p2p \<times> (puid \<times> string) list" where
  "grace_sweep now [] s = ([], s, [])"
| "grace_sweep now ((k, c) # cs) s =
     (if grace_over now c
      then (case grace_sweep now cs (ClearStreams (cnPeer c) (cnSocketName c) s) of
              (cs', s', out) \<Rightarrow> (cs', s', (cnPeer c, cnSocketName c) # out))
      else (case grace_sweep now cs s of (cs', s', out) \<Rightarrow> ((k, c) # cs', s', out)))"

fun resend :: "p2p_env \<Rightarrow> (Endpoint \<times> bytes) list \<Rightarrow> p2p \<Rightarrow> p2p \<times> p2p_event list" where
  "resend E [] s = (s, [])"
| "resend E ((to, payload) # ts) s =
     (case RawSend E to P2PData payload s of (s1, ev1) \<Rightarrow>
        (case resend E ts s1 of (s2, ev2) \<Rightarrow> (s2, ev1 @ ev2)))"

text \<open>The critical section of \<open>Pump\<close>, then the sends and notifications after it.\<close>

definition pump_locked ::
  "time_ns \<Rightarrow> p2p \<Rightarrow> p2p \<times> (Endpoint \<times> bytes) list \<times> (puid \<times> string) list \<times> (puid \<times> string) list" where
  "pump_locked now s =
     (case drain_all (p2RecvStreams s) (p2Inbox s) of (rm, ib) \<Rightarrow>
      case pump_streams now (p2SendStreams s) (p2Connections s) of (sm, cs, out, intr) \<Rightarrow>
      case grace_sweep now cs (s\<lparr>p2RecvStreams := rm, p2Inbox := ib, p2SendStreams := sm\<rparr>) of (cs', s', gone) \<Rightarrow>
        (s'\<lparr>p2Connections := cs'\<rparr>, out, intr, gone))"

definition Pump :: "p2p_env \<Rightarrow> sdk \<Rightarrow> time_ns \<Rightarrow> p2p \<Rightarrow> p2p \<times> p2p_event list" where
  "Pump E K now s =
     (case pump_locked now s of (s1, out, intr, gone) \<Rightarrow>
      case resend E out s1 of (s2, ev) \<Rightarrow>
        (s2, ev @ concat (map (\<lambda>(p, k). FireConnectionInterrupted E K s2 p k) intr) @
             concat (map (\<lambda>(p, k). FireConnectionClosed E K s2 p k EOS_CCR_TimedOut) gone)))"

section \<open>Accept and close\<close>

record ConnectionOptions =
  coRemoteUserId :: "puid option"
  coSocketId :: "string option"

definition AcceptConnection ::
  "p2p_env \<Rightarrow> sdk \<Rightarrow> ConnectionOptions option \<Rightarrow> p2p \<Rightarrow> eresult \<times> p2p \<times> p2p_event list" where
  "AcceptConnection E K options s =
     (case options of
        None \<Rightarrow> (EOS_InvalidParameters, s, [])
      | Some opt \<Rightarrow>
        if coRemoteUserId opt = None \<or> coSocketId opt = None then (EOS_InvalidParameters, s, [])
        else let remote = the (coRemoteUserId opt);
                 socket = SocketName K (coSocketId opt);
                 k = ConnKey remote socket;
                 c0 = (conn_at s k)\<lparr>cnPeer := remote, cnSocketName := socket\<rparr>;
                 c1 = (if \<not> ep_Valid (cnEndpoint c0) then c0\<lparr>cnEndpoint := EndpointFor (pePeers E) remote\<rparr> else c0);
                 established = (\<not> cnEstablished c1);
                 c2 = c1\<lparr>cnAcceptedLocally := True, cnEstablished := True\<rparr>;
                 s1 = put_conn k c2 s
             in (EOS_Success, s1,
                 (if ep_Valid (cnEndpoint c2) then SendControl E (cnEndpoint c2) P2PConnectAccept socket else []) @
                 (if established then FireConnectionEstablished E K s1 remote socket EOS_CET_NewConnection else [])))"

definition CloseConnection ::
  "p2p_env \<Rightarrow> sdk \<Rightarrow> ConnectionOptions option \<Rightarrow> p2p \<Rightarrow> eresult \<times> p2p \<times> p2p_event list" where
  "CloseConnection E K options s =
     (case options of
        None \<Rightarrow> (EOS_InvalidParameters, s, [])
      | Some opt \<Rightarrow>
        if coRemoteUserId opt = None then (EOS_InvalidParameters, s, [])
        else let remote = the (coRemoteUserId opt);
                 socket = SocketName K (coSocketId opt);
                 endpoint = (case FindConn s remote socket of Some c \<Rightarrow> cnEndpoint c | None \<Rightarrow> no_endpoint);
                 s1 = ClearStreams remote socket
                        (s\<lparr>p2Connections := AList.delete (ConnKey remote socket) (p2Connections s)\<rparr>)
             in (EOS_Success, s1,
                 if ep_Valid endpoint then SendControl E endpoint P2PConnectClose socket else []))"

fun close_socket ::
  "string \<Rightarrow> (string, Connection) amap \<Rightarrow> p2p \<Rightarrow> (string, Connection) amap \<times> p2p \<times> Endpoint list" where
  "close_socket socket [] s = ([], s, [])"
| "close_socket socket ((k, c) # cs) s =
     (if cnSocketName c = socket
      then (case close_socket socket cs (ClearStreams (cnPeer c) socket s) of
              (cs', s', eps) \<Rightarrow> (cs', s', cnEndpoint c # eps))
      else (case close_socket socket cs s of (cs', s', eps) \<Rightarrow> ((k, c) # cs', s', eps)))"

definition CloseConnections ::
  "p2p_env \<Rightarrow> sdk \<Rightarrow> string option option \<Rightarrow> p2p \<Rightarrow> eresult \<times> p2p \<times> p2p_event list" where
  "CloseConnections E K options s =
     (case options of
        None \<Rightarrow> (EOS_InvalidParameters, s, [])
      | Some sid \<Rightarrow>
        if sid = None then (EOS_InvalidParameters, s, [])
        else let socket = SocketName K sid in
          case close_socket socket (p2Connections s) s of (cs, s1, eps) \<Rightarrow>
            (EOS_Success, s1\<lparr>p2Connections := cs\<rparr>,
             concat (map (\<lambda>e. if ep_Valid e then SendControl E e P2PConnectClose socket else []) eps)))"

section \<open>Notification registration\<close>

text \<open>The four socket-filtered registries share one body; the state carries the process-wide id
  counter as an argument.\<close>

definition add_filtered ::
  "sdk \<Rightarrow> string option \<Rightarrow> nat option \<Rightarrow> nat \<Rightarrow> nat \<Rightarrow> fentry list \<Rightarrow> nat \<times> nat \<times> fentry list" where
  "add_filtered K sid cb cd c es =
     (case cb of
        None \<Rightarrow> (EOS_INVALID_NOTIFICATIONID, c, es)
      | Some f \<Rightarrow> (case NextId c of (i, c') \<Rightarrow>
          (i, c', reg_add \<lparr>neId = i, neFn = f, neCd = cd, feSocketName = SocketName K sid\<rparr> es)))"

definition AddNotifyPeerConnectionRequest ::
  "sdk \<Rightarrow> string option \<Rightarrow> nat option \<Rightarrow> nat \<Rightarrow> nat \<Rightarrow> p2p \<Rightarrow> nat \<times> nat \<times> p2p" where
  "AddNotifyPeerConnectionRequest K sid cb cd c s =
     (case add_filtered K sid cb cd c (p2ConnRequest s) of (i, c', es) \<Rightarrow> (i, c', s\<lparr>p2ConnRequest := es\<rparr>))"

definition RemoveNotifyPeerConnectionRequest :: "nat \<Rightarrow> p2p \<Rightarrow> p2p" where
  "RemoveNotifyPeerConnectionRequest i s = s\<lparr>p2ConnRequest := reg_remove i (p2ConnRequest s)\<rparr>"

definition AddNotifyPeerConnectionEstablished ::
  "sdk \<Rightarrow> string option \<Rightarrow> nat option \<Rightarrow> nat \<Rightarrow> nat \<Rightarrow> p2p \<Rightarrow> nat \<times> nat \<times> p2p" where
  "AddNotifyPeerConnectionEstablished K sid cb cd c s =
     (case add_filtered K sid cb cd c (p2ConnEstablished s) of (i, c', es) \<Rightarrow> (i, c', s\<lparr>p2ConnEstablished := es\<rparr>))"

definition RemoveNotifyPeerConnectionEstablished :: "nat \<Rightarrow> p2p \<Rightarrow> p2p" where
  "RemoveNotifyPeerConnectionEstablished i s = s\<lparr>p2ConnEstablished := reg_remove i (p2ConnEstablished s)\<rparr>"

definition AddNotifyPeerConnectionInterrupted ::
  "sdk \<Rightarrow> string option \<Rightarrow> nat option \<Rightarrow> nat \<Rightarrow> nat \<Rightarrow> p2p \<Rightarrow> nat \<times> nat \<times> p2p" where
  "AddNotifyPeerConnectionInterrupted K sid cb cd c s =
     (case add_filtered K sid cb cd c (p2ConnInterrupted s) of (i, c', es) \<Rightarrow> (i, c', s\<lparr>p2ConnInterrupted := es\<rparr>))"

definition RemoveNotifyPeerConnectionInterrupted :: "nat \<Rightarrow> p2p \<Rightarrow> p2p" where
  "RemoveNotifyPeerConnectionInterrupted i s = s\<lparr>p2ConnInterrupted := reg_remove i (p2ConnInterrupted s)\<rparr>"

definition AddNotifyPeerConnectionClosed ::
  "sdk \<Rightarrow> string option \<Rightarrow> nat option \<Rightarrow> nat \<Rightarrow> nat \<Rightarrow> p2p \<Rightarrow> nat \<times> nat \<times> p2p" where
  "AddNotifyPeerConnectionClosed K sid cb cd c s =
     (case add_filtered K sid cb cd c (p2ConnClosed s) of (i, c', es) \<Rightarrow> (i, c', s\<lparr>p2ConnClosed := es\<rparr>))"

definition RemoveNotifyPeerConnectionClosed :: "nat \<Rightarrow> p2p \<Rightarrow> p2p" where
  "RemoveNotifyPeerConnectionClosed i s = s\<lparr>p2ConnClosed := reg_remove i (p2ConnClosed s)\<rparr>"

definition AddNotifyIncomingPacketQueueFull :: "nat option \<Rightarrow> nat \<Rightarrow> nat \<Rightarrow> p2p \<Rightarrow> nat \<times> nat \<times> p2p" where
  "AddNotifyIncomingPacketQueueFull cb cd c s =
     (case Notify_Add cb cd c (p2QueueFull s) of (i, c', es) \<Rightarrow> (i, c', s\<lparr>p2QueueFull := es\<rparr>))"

definition RemoveNotifyIncomingPacketQueueFull :: "nat \<Rightarrow> p2p \<Rightarrow> p2p" where
  "RemoveNotifyIncomingPacketQueueFull i s = s\<lparr>p2QueueFull := Notify_Remove i (p2QueueFull s)\<rparr>"

section \<open>NAT, relay, ports, queue\<close>

definition QueryNATType :: "nat \<Rightarrow> nat option \<Rightarrow> p2p_event list" where
  "QueryNATType cd cb = (case cb of None \<Rightarrow> [] | Some f \<Rightarrow> [Posted (NATTypeCb f cd)])"

text \<open>\<open>nat_open\<close> stands for \<open>EOS_NAT_Open\<close>; the out-pointer may be null.\<close>

definition GetNATType :: "enum \<Rightarrow> bool \<Rightarrow> eresult \<times> enum option" where
  "GetNATType nat_open out = (if \<not> out then (EOS_InvalidParameters, None) else (EOS_Success, Some nat_open))"

definition SetRelayControl :: "enum option \<Rightarrow> p2p \<Rightarrow> eresult \<times> p2p" where
  "SetRelayControl options s =
     (case options of None \<Rightarrow> (EOS_InvalidParameters, s) | Some r \<Rightarrow> (EOS_Success, s\<lparr>p2RelayControl := r\<rparr>))"

definition GetRelayControl :: "bool \<Rightarrow> p2p \<Rightarrow> eresult \<times> enum option" where
  "GetRelayControl out s =
     (if \<not> out then (EOS_InvalidParameters, None) else (EOS_Success, Some (p2RelayControl s)))"

definition SetPortRange :: "(u16 \<times> u16) option \<Rightarrow> p2p \<Rightarrow> eresult \<times> p2p" where
  "SetPortRange options s =
     (case options of None \<Rightarrow> (EOS_InvalidParameters, s)
      | Some (port, extra) \<Rightarrow> (EOS_Success, s\<lparr>p2PortRangeBase := port, p2PortRangeExtra := extra\<rparr>))"

definition GetPortRange :: "bool \<Rightarrow> p2p \<Rightarrow> eresult \<times> (u16 \<times> u16) option" where
  "GetPortRange outs s =
     (if \<not> outs then (EOS_InvalidParameters, None)
      else (EOS_Success, Some (p2PortRangeBase s, p2PortRangeExtra s)))"

definition SetPacketQueueSize :: "nat option \<Rightarrow> p2p \<Rightarrow> eresult \<times> p2p" where
  "SetPacketQueueSize options s =
     (case options of None \<Rightarrow> (EOS_InvalidParameters, s)
      | Some n \<Rightarrow> (EOS_Success, s\<lparr>p2Inbox := (p2Inbox s)\<lparr>ibMax := n\<rparr>\<rparr>))"

record PacketQueueInfo =
  pqInMax :: nat
  pqInBytes :: nat
  pqInCount :: nat
  pqOutMax :: nat
  pqOutBytes :: nat
  pqOutCount :: nat

definition all_pending :: "p2p \<Rightarrow> Unacked list" where
  "all_pending s = concat (map (\<lambda>(k, S). map snd (ssPending S)) (p2SendStreams s))"

definition GetPacketQueueInfo :: "sdk \<Rightarrow> bool \<Rightarrow> p2p \<Rightarrow> eresult \<times> PacketQueueInfo option" where
  "GetPacketQueueInfo K out s =
     (if \<not> out then (EOS_InvalidParameters, None)
      else (EOS_Success, Some
        \<lparr>pqInMax = ibMax (p2Inbox s), pqInBytes = ibBytes (p2Inbox s),
         pqInCount = length (ibPackets (p2Inbox s)),
         pqOutMax = EOS_P2P_MAX_QUEUE_SIZE_UNLIMITED K,
         pqOutBytes = (\<Sum>u\<leftarrow>all_pending s. length (uaPayload u)),
         pqOutCount = length (all_pending s)\<rparr>))"

fun clear_queue :: "(IncomingPacket \<Rightarrow> bool) \<Rightarrow> IncomingPacket list \<Rightarrow> nat \<Rightarrow> IncomingPacket list \<times> nat" where
  "clear_queue P [] n = ([], n)"
| "clear_queue P (p # ps) n =
     (if P p then clear_queue P ps (n - length (ipData p))
      else (case clear_queue P ps n of (ps', n') \<Rightarrow> (p # ps', n')))"

definition ClearPacketQueue :: "sdk \<Rightarrow> ConnectionOptions option \<Rightarrow> p2p \<Rightarrow> eresult \<times> p2p" where
  "ClearPacketQueue K options s =
     (case options of
        None \<Rightarrow> (EOS_InvalidParameters, s)
      | Some opt \<Rightarrow>
        let ib = p2Inbox s in
        if coRemoteUserId opt = None \<and> coSocketId opt = None
        then (EOS_Success, s\<lparr>p2Inbox := ib\<lparr>ibPackets := [], ibBytes := 0\<rparr>\<rparr>)
        else let socket = SocketName K (coSocketId opt);
                 P = (\<lambda>p. (coRemoteUserId opt = None \<or> coRemoteUserId opt = Some (ipPeer p)) \<and>
                          (socket = [] \<or> ipSocket p = socket))
             in case clear_queue P (ibPackets ib) (ibBytes ib) of
                  (ps, n) \<Rightarrow> (EOS_Success, s\<lparr>p2Inbox := ib\<lparr>ibPackets := ps, ibBytes := n\<rparr>\<rparr>))"

end
