(* ===== verification/P2PInv.thy ===== *)
theory P2PInv
  imports P2POps
begin

text \<open>
  The state invariant of the peer-to-peer interface and its preservation by every operation: the
  byte count of the inbox, the well-formedness of every stream, the agreement of each map's keys
  with the entries stored under them, and the notification registries.
\<close>

section \<open>The invariant\<close>

definition conn_ok :: "string \<Rightarrow> Connection \<Rightarrow> bool" where
  "conn_ok k c \<longleftrightarrow> k = ConnKey (cnPeer c) (cnSocketName c)"

definition send_ok :: "string \<Rightarrow> SendStream \<Rightarrow> bool" where
  "send_ok k S \<longleftrightarrow> ss_inv S \<and> (\<exists>c o1. k = StreamKey (ssPeer S) (ssSocket S) c o1)"

definition recv_ok :: "string \<Rightarrow> RecvStream \<Rightarrow> bool" where
  "recv_ok k S \<longleftrightarrow> rs_inv S \<and> k = StreamKey (rsPeer S) (rsSocket S) (rsChannel S) (rsOrdered S)"

definition regs_ok :: "nat \<Rightarrow> p2p \<Rightarrow> bool" where
  "regs_ok c s \<longleftrightarrow> reg_inv c (p2ConnRequest s) \<and> reg_inv c (p2ConnEstablished s) \<and>
     reg_inv c (p2ConnClosed s) \<and> reg_inv c (p2ConnInterrupted s) \<and> reg_inv c (p2QueueFull s)"

definition p2p_inv :: "nat \<Rightarrow> p2p \<Rightarrow> bool" where
  "p2p_inv c s \<longleftrightarrow> inbox_inv (p2Inbox s) \<and> map_ok conn_ok (p2Connections s) \<and>
     map_ok send_ok (p2SendStreams s) \<and> map_ok recv_ok (p2RecvStreams s) \<and> regs_ok c s"

lemma p2p_inv_init [simp]: "p2p_inv 1 (P2PInterface env r)"
  by (simp add: p2p_inv_def P2PInterface_def inbox_inv_def regs_ok_def reg_inv_def)

section \<open>State updates\<close>

lemma p2p_inv_put_conn [inv_intros]:
  "p2p_inv c s \<Longrightarrow> k = ConnKey (cnPeer x) (cnSocketName x) \<Longrightarrow> p2p_inv c (put_conn k x s)"
  by (auto simp: p2p_inv_def put_conn_def conn_ok_def regs_ok_def intro!: map_ok_update)

lemma p2p_inv_del_conn [inv_intros]:
  "p2p_inv c s \<Longrightarrow> p2p_inv c (s\<lparr>p2Connections := AList.delete k (p2Connections s)\<rparr>)"
  by (auto simp: p2p_inv_def regs_ok_def)

lemma map_ok_clear: "map_ok P m \<Longrightarrow> map_ok P (clear_map p k m)"
  by (simp add: clear_map_def map_ok_filter)

lemma p2p_inv_ClearStreams [inv_intros]: "p2p_inv c s \<Longrightarrow> p2p_inv c (ClearStreams p k s)"
  by (auto simp: p2p_inv_def ClearStreams_def regs_ok_def map_ok_clear)

lemma p2p_inv_put_send [inv_intros]:
  "p2p_inv c s \<Longrightarrow> send_ok k S \<Longrightarrow> p2p_inv c (s\<lparr>p2SendStreams := AList.update k S (p2SendStreams s)\<rparr>)"
  by (auto simp: p2p_inv_def regs_ok_def intro!: map_ok_update)

lemma p2p_inv_inbox [inv_intros]: "p2p_inv c s \<Longrightarrow> inbox_inv ib \<Longrightarrow> p2p_inv c (s\<lparr>p2Inbox := ib\<rparr>)"
  by (auto simp: p2p_inv_def regs_ok_def)

lemma p2p_inv_RawSend [inv_intros]: "p2p_inv c s \<Longrightarrow> p2p_inv c (fst (RawSend E to ty pl s))"
  by (auto simp: p2p_inv_def RawSend_def Let_def regs_ok_def)

lemma ClearInterrupted_key [simp]:
  "cnPeer (snd (ClearInterrupted c)) = cnPeer c" "cnSocketName (snd (ClearInterrupted c)) = cnSocketName c"
  by (simp_all add: ClearInterrupted_def)

lemma ss_inv_send_at: "p2p_inv c s \<Longrightarrow> ss_inv (send_at s k)"
  by (auto simp: p2p_inv_def send_at_def send_ok_def split: option.splits dest: map_ok_get)

lemma StreamKey_ordered: "StreamKey p s c o1 = StreamKey q t d o2 \<Longrightarrow> o1 = o2"
  by (auto simp: StreamKey_def split: if_splits)

text \<open>The stream the data case works on, whatever the sender calls itself.\<close>

lemma rs_inv_recv_at:
  assumes "p2p_inv c s"
  shows "rs_inv ((recv_at s (StreamKey p k ch o1))\<lparr>rsPeer := p, rsSocket := k, rsChannel := ch, rsOrdered := o1\<rparr>)"
proof (cases "map_of (p2RecvStreams s) (StreamKey p k ch o1)")
  case None
  then show ?thesis by (simp add: recv_at_def)
next
  case (Some S)
  with assms have S: "rs_inv S" "StreamKey p k ch o1 = StreamKey (rsPeer S) (rsSocket S) (rsChannel S) (rsOrdered S)"
    by (auto simp: p2p_inv_def recv_ok_def dest: map_ok_get)
  from StreamKey_ordered [OF S(2)] S(1) Some show ?thesis
    by (auto simp: recv_at_def rs_inv_def seen_def)
qed

section \<open>Calls\<close>

lemma p2p_inv_send_connect:
  "p2p_inv c s \<Longrightarrow> send_connect E p k aa s = Some (ep, s1, ev) \<Longrightarrow> p2p_inv c s1"
  by (auto simp: send_connect_def FindConn_def Let_def conn_ok_def Connection_default_def p2p_inv_def
      split: option.splits if_splits dest: map_ok_get
      intro!: p2p_inv_put_conn [unfolded p2p_inv_def])

lemma p2p_inv_send_data:
  assumes "p2p_inv c s"
  shows "p2p_inv c (snd (send_data E K now p k ch rel ep d s))"
proof -
  have "send_ok (StreamKey p k ch o1) (snd (stream_send now l p k ch m ep d (send_at s (StreamKey p k ch o1))))" for o1 l m
    using ss_inv_send [OF ss_inv_send_at [OF assms]]
    by (auto simp: send_ok_def) (auto simp: stream_send_def Let_def)
  then show ?thesis
    using assms by (auto simp: send_data_def Let_def case_prod_beta intro!: inv_intros)
qed

lemma p2p_inv_SendPacket: "p2p_inv c s \<Longrightarrow> p2p_inv c (fst (snd (SendPacket E K now opt s)))"
  by (auto simp: SendPacket_def Let_def case_prod_beta
      split: option.splits intro!: p2p_inv_RawSend p2p_inv_send_data
      dest: p2p_inv_send_connect)

lemma erase_first_find_sum:
  "find P xs = Some x \<Longrightarrow> (\<Sum>y\<leftarrow>xs. f y) = f x + (\<Sum>y\<leftarrow>erase_first P xs. f y :: nat)"
  by (induction xs) (auto split: if_splits)

lemma p2p_inv_ReceivePacket: "p2p_inv c s \<Longrightarrow> p2p_inv c (snd (snd (ReceivePacket K opt outs s)))"
  by (auto simp: ReceivePacket_def Let_def split: option.splits intro!: p2p_inv_inbox)
    (auto simp: p2p_inv_def inbox_inv_def erase_first_find_sum)

lemma p2p_inv_AcceptConnection: "p2p_inv c s \<Longrightarrow> p2p_inv c (fst (snd (AcceptConnection E K opt s)))"
  by (auto simp: AcceptConnection_def Let_def split: option.splits intro!: p2p_inv_put_conn)

lemma p2p_inv_CloseConnection: "p2p_inv c s \<Longrightarrow> p2p_inv c (fst (snd (CloseConnection E K opt s)))"
  by (auto simp: CloseConnection_def Let_def split: option.splits intro!: inv_intros)

lemma close_socket_eq:
  "fst (close_socket socket cs s) = filter (\<lambda>(k, c). cnSocketName c \<noteq> socket) cs"
  "snd (snd (close_socket socket cs s)) = map (\<lambda>(k, c). cnEndpoint c) (filter (\<lambda>(k, c). cnSocketName c = socket) cs)"
  by (induction socket cs s rule: close_socket.induct) (auto split: prod.splits)

lemma p2p_inv_close_socket: "p2p_inv c s \<Longrightarrow> p2p_inv c (fst (snd (close_socket socket cs s)))"
  by (induction socket cs s rule: close_socket.induct) (auto split: prod.splits simp: p2p_inv_ClearStreams)

lemma p2p_inv_CloseConnections: 
  assumes "p2p_inv c s"
  shows "p2p_inv c (fst (snd (CloseConnections E K opt s)))"
proof -
  have "p2p_inv c ((fst (snd (close_socket so (p2Connections s) s)))
      \<lparr>p2Connections := fst (close_socket so (p2Connections s) s)\<rparr>)" for so
    using p2p_inv_close_socket [OF assms, of so "p2Connections s"] assms
    by (auto simp: p2p_inv_def regs_ok_def close_socket_eq)
  with assms show ?thesis
    by (auto simp: CloseConnections_def Let_def case_prod_beta split: option.splits)
qed

section \<open>Datagrams\<close>

lemma p2p_inv_receive_reliable:
  assumes "p2p_inv c s"
  shows "p2p_inv c (snd (snd (receive_reliable E p k ch o1 w d s)))"
proof -
  define S0 where "S0 = (recv_at s (StreamKey p k ch o1))\<lparr>rsPeer := p, rsSocket := k, rsChannel := ch, rsOrdered := o1\<rparr>"
  define S1 where "S1 = stream_receive S0 (ext_seq (rsNextExpected S0) w) d"
  obtain b S2 ib where dr: "DrainRecvStream S1 (p2Inbox s) = (b, S2, ib)"
    by (cases "DrainRecvStream S1 (p2Inbox s)")
  have "rs_inv S1" unfolding S1_def S0_def by (rule rs_inv_stream_receive [OF rs_inv_recv_at [OF assms]])
  then have "rs_inv S2" using dr by (rule rs_inv_Drain)
  moreover have "rsPeer S2 = p \<and> rsSocket S2 = k \<and> rsChannel S2 = ch \<and> rsOrdered S2 = o1"
    using Drain_fields [OF dr] by (simp add: S1_def S0_def)
  moreover have "inbox_inv ib" using Drain_inbox [OF dr] assms by (simp add: p2p_inv_def)
  ultimately have "p2p_inv c (s\<lparr>p2RecvStreams := AList.update (StreamKey p k ch o1) S2 (p2RecvStreams s), p2Inbox := ib\<rparr>)"
    using assms by (auto simp: p2p_inv_def regs_ok_def recv_ok_def intro!: map_ok_update)
  then show ?thesis
    using dr unfolding S1_def S0_def by (simp add: receive_reliable_def stream_deliver_def Let_def)
qed

lemma p2p_inv_on_data: 
  assumes "p2p_inv c s"
  shows "p2p_inv c (fst (on_data E K from p k body s))"
proof -
  obtain ch m w d where body: "body = (ch, m, w, d)" by (cases body)
  let ?c = "(conn_at s (ConnKey p k))\<lparr>cnPeer := p, cnSocketName := k, cnEndpoint := from, cnEstablished := True\<rparr>"
  let ?s = "put_conn (ConnKey p k) (snd (ClearInterrupted ?c)) s"
  have s1: "p2p_inv c ?s" using assms by (rule p2p_inv_put_conn) simp
  have en: "p2p_inv c (?s\<lparr>p2Inbox := snd (EnqueueInbox p k ch d (p2Inbox ?s))\<rparr>)"
    using s1 by (intro p2p_inv_inbox inbox_inv_Enqueue) (simp_all add: p2p_inv_def)
  have rr: "p2p_inv c (fst (RawSend E from P2PAck pl (snd (snd (receive_reliable E p k ch o1 w d ?s)))))" for pl o1
    by (intro p2p_inv_RawSend p2p_inv_receive_reliable s1)
  show ?thesis using en rr by (simp add: on_data_def body Let_def case_prod_beta)
qed

lemma p2p_inv_on_ack: 
  assumes "p2p_inv c s"
  shows "p2p_inv c (fst (on_ack E K now p k body s))"
proof -
  obtain ch b w sk where body: "body = (ch, b, w, sk)" by (cases body)
  have conn: "p2p_inv c (put_conn (ConnKey p k) (snd (ClearInterrupted x)) s)" if "FindConn s p k = Some x" for x
    using that assms by (intro p2p_inv_put_conn) (auto simp: FindConn_def p2p_inv_def conn_ok_def dest: map_ok_get)
  have ack: "p2p_inv c (t\<lparr>p2SendStreams := AList.update q (stream_ack now w sk S) (p2SendStreams t)\<rparr>)"
    if t: "p2p_inv c t" and S: "map_of (p2SendStreams t) q = Some S" for t q S
  proof -
    from t S have ok: "send_ok q S" by (auto simp: p2p_inv_def dest: map_ok_get)
    then have "same_sender S (stream_ack now w sk S)" "ss_inv (stream_ack now w sk S)"
      using stream_ack_eq [of S now w sk] ss_inv_ack [of S now w sk] by (auto simp: send_ok_def ss_inv_def)
    with ok have "send_ok q (stream_ack now w sk S)" by (auto simp: send_ok_def same_sender_def)
    with t show ?thesis by (rule p2p_inv_put_send)
  qed
  show ?thesis using assms conn ack
    by (auto simp: on_ack_def body Let_def case_prod_beta split: option.splits)
qed

lemma p2p_inv_OnDatagram: "p2p_inv c s \<Longrightarrow> p2p_inv c (fst (OnDatagram E K now from ty pl s))"
  by (auto simp: OnDatagram_def case_prod_beta Let_def p2p_inv_on_data p2p_inv_on_ack
      on_connect_request_def on_connect_ignored_def on_connect_accept_def on_connect_close_def
      split: MessageType.splits intro!: inv_intros)

section \<open>Pump\<close>

lemma drain_all_inv:
  "map_ok recv_ok m \<Longrightarrow> inbox_inv ib \<Longrightarrow>
     map_ok recv_ok (fst (drain_all m ib)) \<and> keys (fst (drain_all m ib)) = keys m \<and>
     inbox_inv (snd (drain_all m ib)) \<and> capped ib (snd (drain_all m ib))"
proof (induction m ib rule: drain_all.induct)
  case (1 ib)
  then show ?case by simp
next
  case (2 k S m ib)
  show ?case
  proof (cases "rsBuffer S = []")
    case True
    with 2 show ?thesis by (auto simp: map_ok_Cons case_prod_beta simp del: set_map)
  next
    case False
    obtain b S' ib1 where dr: "DrainRecvStream S ib = (b, S', ib1)" by (cases "DrainRecvStream S ib")
    from 2(3,4) have S: "recv_ok k S" "map_ok recv_ok m" "k \<notin> set (keys m)" by (auto simp: map_ok_Cons)
    with Drain_fields [OF dr] rs_inv_Drain [OF _ dr] have "recv_ok k S'" by (simp add: recv_ok_def)
    moreover from Drain_inbox [OF dr 2(4)] have ib1: "inbox_inv ib1" "capped ib ib1" by simp_all
    moreover from 2(1) [OF False dr [symmetric] refl S(2) ib1(1)]
    have "map_ok recv_ok (fst (drain_all m ib1))" "keys (fst (drain_all m ib1)) = keys m"
      "inbox_inv (snd (drain_all m ib1))" "capped ib1 (snd (drain_all m ib1))" by auto
    ultimately show ?thesis using False dr S(3) 2(4) capped_trans [of ib ib1 "snd (drain_all m ib1)"]
      by (simp add: case_prod_beta map_ok_Cons del: set_map)
  qed
qed

lemma interrupt_ok: "map_ok conn_ok cs \<Longrightarrow> map_ok conn_ok (fst (interrupt now p k cs))"
  by (auto simp: interrupt_def conn_ok_def split: option.splits intro!: map_ok_update dest: map_ok_get)

lemma ss_inv_pump: "ss_inv S \<Longrightarrow> ss_inv (S\<lparr>ssPending := fst (pump_pending now rto (ssPending S))\<rparr>)"
  using keys_pump_pending [of now rto "ssPending S"]
  by (metis (no_types, lifting) SendStream.select_convs(3,4) SendStream.surjective SendStream.update_convs(4) ss_inv_def smap_ok_def)

lemma pump_streams_inv:
  "map_ok send_ok m \<Longrightarrow> map_ok conn_ok cs \<Longrightarrow>
     (case pump_streams now m cs of (m', cs', out, intr) \<Rightarrow>
        map_ok send_ok m' \<and> keys m' = keys m \<and> map_ok conn_ok cs')"
proof (induction now m cs rule: pump_streams.induct)
  case (1 now cs)
  then show ?case by simp
next
  case (2 now k S m cs)
  from 2(3) have S: "send_ok k S" "map_ok send_ok m" "k \<notin> set (keys m)" by (auto simp: map_ok_Cons)
  show ?case
  proof (cases "ssPending S = []")
    case True
    with 2(1) [OF True S(2) 2(4)] S show ?thesis
      by (auto simp: map_ok_Cons case_prod_beta simp del: set_map)
  next
    case False
    obtain ps out ex where p: "pump_pending now (RtoFor S) (ssPending S) = (ps, out, ex)"
      by (cases "pump_pending now (RtoFor S) (ssPending S)")
    obtain cs1 intr1 where i: "(if ex then interrupt now (ssPeer S) (ssSocket S) cs else (cs, [])) = (cs1, intr1)"
      by (cases "if ex then interrupt now (ssPeer S) (ssSocket S) cs else (cs, [])")
    have cs1: "map_ok conn_ok cs1" using interrupt_ok [OF 2(4), of now "ssPeer S" "ssSocket S"] 2(4) i
      by (cases ex) auto
    have "send_ok k (S\<lparr>ssPending := ps\<rparr>)"
      using ss_inv_pump [of S now "RtoFor S"] S(1) p by (auto simp: send_ok_def)
    moreover note 2(2) [OF False p [symmetric] refl i [symmetric] S(2) cs1]
    ultimately show ?thesis using False p i S(3)
      by (auto simp: map_ok_Cons case_prod_beta simp del: set_map)
  qed
qed

lemma grace_sweep_conns:
  "fst (grace_sweep now cs s) = filter (\<lambda>(k, c). \<not> grace_over now c) cs"
  "snd (snd (grace_sweep now cs s)) = map (\<lambda>(k, c). (cnPeer c, cnSocketName c)) (filter (\<lambda>(k, c). grace_over now c) cs)"
  by (induction now cs s rule: grace_sweep.induct) (auto split: prod.splits)

lemma p2p_inv_grace_sweep: "p2p_inv c s \<Longrightarrow> p2p_inv c (fst (snd (grace_sweep now cs s)))"
  by (induction now cs s rule: grace_sweep.induct) (auto split: prod.splits simp: p2p_inv_ClearStreams)

lemma p2p_inv_resend: "p2p_inv c s \<Longrightarrow> p2p_inv c (fst (resend E out s))"
proof (induction E out s rule: resend.induct)
  case (1 E s)
  then show ?case by simp
next
  case (2 E to payload ts s)
  then show ?case using p2p_inv_RawSend [OF 2(2), of E to P2PData payload] by (auto split: prod.splits)
qed

lemma p2p_inv_pump_locked: 
  assumes "p2p_inv c s"
  shows "p2p_inv c (fst (pump_locked now s))"
proof -
  obtain rm ib where d: "drain_all (p2RecvStreams s) (p2Inbox s) = (rm, ib)"
    by (cases "drain_all (p2RecvStreams s) (p2Inbox s)")
  obtain sm cs out intr where p: "pump_streams now (p2SendStreams s) (p2Connections s) = (sm, cs, out, intr)"
    by (cases "pump_streams now (p2SendStreams s) (p2Connections s)")
  let ?s = "s\<lparr>p2RecvStreams := rm, p2Inbox := ib, p2SendStreams := sm\<rparr>"
  have ok: "map_ok recv_ok rm" "inbox_inv ib" "map_ok send_ok sm" "map_ok conn_ok cs"
    using drain_all_inv [of "p2RecvStreams s" "p2Inbox s"] pump_streams_inv [of "p2SendStreams s" "p2Connections s" now]
      assms d p by (auto simp: p2p_inv_def)
  have "p2p_inv c ?s" using assms ok by (auto simp: p2p_inv_def regs_ok_def)
  then have g: "p2p_inv c (fst (snd (grace_sweep now cs ?s)))" by (rule p2p_inv_grace_sweep)
  moreover have "map_ok conn_ok (fst (grace_sweep now cs ?s))"
    unfolding grace_sweep_conns using ok(4) by (rule map_ok_filter)
  ultimately show ?thesis
    by (simp add: pump_locked_def d p case_prod_beta) (simp add: p2p_inv_def regs_ok_def)
qed

lemma p2p_inv_Pump: "p2p_inv c s \<Longrightarrow> p2p_inv c (fst (Pump E K now s))"
  by (simp add: Pump_def case_prod_beta p2p_inv_resend p2p_inv_pump_locked)

end
