(* ===== verification/P2PLink.thy ===== *)
theory P2PLink
  imports P2PInv "HOL-Library.Multiset"
begin

text \<open>
  End to end: one reliable stream between two nodes over a network that loses, duplicates and
  reorders datagrams.

  A state of the link (record \<open>link\<close>) is the sender's stream, the receiver's stream and inbox,
  the datagrams on the network in either direction, and two logs: the data the sending
  application handed over and the data this stream put in the inbox.  A step is one call of the
  code's own stream operations: a send, a retransmission pump (which puts on the network exactly the
  datagrams \<open>pump_pending\<close> returns), the arrival of any datagram on the network (it stays there, so
  a duplicate is one that arrives again), the pump's drain, and any change the application or other
  streams make to the inbox.  The network itself may at any time lose any of its datagrams, in both
  directions, for good (\<open>lose\<close>).  Each datagram carries its full
  sequence number as a ghost, used only to state the code's own proviso for the 32-bit wire form:
  a datagram that arrives is within \<open>2 ^ 31\<close> of the watermark of whoever receives it.  The link is
  one stream that is not closed: giving up after \<open>kMaxTransmits\<close> transmissions interrupts the
  connection, not the stream, and closing it is \<open>grace_sweep\<close> in theory P2POps.
\<close>

section \<open>The link\<close>

record stream_id =
  siSender :: string
  siReceiver :: string
  siSocket :: string
  siChannel :: byte
  siMode :: byte
  siOrdered :: bool

record link =
  lkSend :: SendStream
  lkRecv :: RecvStream
  lkInbox :: inbox
  lkData :: "(nat \<times> bytes) list"
  lkAcks :: "(nat \<times> bytes) list"
  lkSent :: "bytes list"
  lkDelivered :: "bytes list"

definition id_ok :: "stream_id \<Rightarrow> bool" where
  "id_ok I \<longleftrightarrow> short (siSender I) \<and> short (siReceiver I) \<and> short (siSocket I)"

definition recv_start :: "stream_id \<Rightarrow> RecvStream" where
  "recv_start I = RecvStream_default\<lparr>rsPeer := siSender I, rsSocket := siSocket I,
     rsChannel := siChannel I, rsOrdered := siOrdered I\<rparr>"

definition link_start :: "stream_id \<Rightarrow> inbox \<Rightarrow> link" where
  "link_start I ib =
     \<lparr>lkSend = SendStream_default, lkRecv = recv_start I, lkInbox = ib, lkData = [], lkAcks = [],
      lkSent = [], lkDelivered = []\<rparr>"

definition near :: "nat \<Rightarrow> nat \<Rightarrow> bool" where
  "near ref q \<longleftrightarrow> ref \<le> q + 2 ^ 31 \<and> q < ref + 2 ^ 31 \<and> ref < 2 ^ 63"

text \<open>What the receiver's inbox gained.\<close>

definition gained :: "inbox \<Rightarrow> inbox \<Rightarrow> bytes list" where
  "gained ib ib' = map ipData (drop (length (ibPackets ib)) (ibPackets ib'))"

text \<open>The sequence numbers of the packets a pump finds due: the ghosts of the datagrams it returns.\<close>

definition due_numbers :: "time_ns \<Rightarrow> int \<Rightarrow> (nat, Unacked) amap \<Rightarrow> nat list" where
  "due_numbers now rto ps = map fst (filter (\<lambda>(q, u). due now rto u) ps)"

inductive link_step :: "stream_id \<Rightarrow> link \<Rightarrow> link \<Rightarrow> bool" for I where
  send: "short d \<Longrightarrow>
    stream_send now (siSender I) (siReceiver I) (siSocket I) (siChannel I) (siMode I) to d (lkSend x) = (pl, S) \<Longrightarrow>
    link_step I x (x\<lparr>lkSend := S, lkData := (ssNextSeq (lkSend x), pl) # lkData x, lkSent := lkSent x @ [d]\<rparr>)"
| pump: "rto = RtoFor (lkSend x) \<Longrightarrow> pump_pending now rto (ssPending (lkSend x)) = (ps, out, ex) \<Longrightarrow>
    link_step I x (x\<lparr>lkSend := (lkSend x)\<lparr>ssPending := ps\<rparr>,
      lkData := zip (due_numbers now rto (ssPending (lkSend x))) (map snd out) @ lkData x\<rparr>)"
| lose: "set ds \<subseteq> set (lkData x) \<Longrightarrow> set as \<subseteq> set (lkAcks x) \<Longrightarrow>
    link_step I x (x\<lparr>lkData := ds, lkAcks := as\<rparr>)"
| data: "(q, pl) \<in> set (lkData x) \<Longrightarrow> near (rsNextExpected (lkRecv x)) q \<Longrightarrow>
    read_head (reader_init pl) = ((sender, socket), r) \<Longrightarrow>
    read_data_body r = ((ch, m, wire, d), r') \<Longrightarrow> rdOk r' \<Longrightarrow>
    stream_deliver (lkRecv x) (lkInbox x) wire d = (b, R, ib) \<Longrightarrow>
    link_step I x (x\<lparr>lkRecv := R, lkInbox := ib, lkDelivered := lkDelivered x @ gained (lkInbox x) ib,
      lkAcks := (ack_seq R, ack_payload (siReceiver I) (siSocket I) (siChannel I) (siOrdered I)
                   (seq_low (ack_seq R)) (sack_bits R)) # lkAcks x\<rparr>)"
| ack: "(a, pl) \<in> set (lkAcks x) \<Longrightarrow> near (ssNextSeq (lkSend x)) a \<Longrightarrow>
    read_head (reader_init pl) = ((sender, socket), r) \<Longrightarrow>
    read_ack_body r = ((ch, ordb, wire, sack), r') \<Longrightarrow> rdOk r' \<Longrightarrow>
    link_step I x (x\<lparr>lkSend := stream_ack now wire sack (lkSend x)\<rparr>)"
| drain: "DrainRecvStream (lkRecv x) (lkInbox x) = (b, R, ib) \<Longrightarrow>
    link_step I x (x\<lparr>lkRecv := R, lkInbox := ib, lkDelivered := lkDelivered x @ gained (lkInbox x) ib\<rparr>)"
| inbox: "link_step I x (x\<lparr>lkInbox := ib\<rparr>)"

definition link_reach :: "stream_id \<Rightarrow> inbox \<Rightarrow> link \<Rightarrow> bool" where
  "link_reach I ib x \<longleftrightarrow> (link_step I)\<^sup>*\<^sup>* (link_start I ib) x"

section \<open>Invariant\<close>

definition frame_of :: "stream_id \<Rightarrow> bytes list \<Rightarrow> nat \<Rightarrow> bytes" where
  "frame_of I sent q = data_payload (siSender I) (siSocket I) (siChannel I) (siMode I) (seq_low q) (sent ! (q - 1))"

definition in_log :: "bytes list \<Rightarrow> nat \<Rightarrow> bool" where
  "in_log sent q \<longleftrightarrow> 1 \<le> q \<and> q \<le> length sent"

definition send_part :: "stream_id \<Rightarrow> link \<Rightarrow> bool" where
  "send_part I x \<longleftrightarrow> ss_inv (lkSend x) \<and> ssNextSeq (lkSend x) = Suc (length (lkSent x)) \<and>
     (\<forall>d \<in> set (lkSent x). short d) \<and>
     (\<forall>(q, pl) \<in> set (lkData x). in_log (lkSent x) q \<and> pl = frame_of I (lkSent x) q) \<and>
     (\<forall>(q, u) \<in> set (ssPending (lkSend x)). uaPayload u = frame_of I (lkSent x) q)"

definition recv_core :: "bytes list \<Rightarrow> bool \<Rightarrow> RecvStream \<Rightarrow> bytes list \<Rightarrow> bool" where
  "recv_core sent ordered R delivered \<longleftrightarrow> rs_inv R \<and> rsOrdered R = ordered \<and>
     (\<forall>q \<in> seen R. in_log sent q) \<and>
     (\<forall>(q, d) \<in> set (rsBuffer R). d = sent ! (q - 1)) \<and>
     (\<exists>qs. distinct qs \<and> delivered = map (\<lambda>q. sent ! (q - 1)) qs \<and>
        set qs = seen R - set (keys (rsBuffer R)) \<and>
        (ordered \<longrightarrow> qs = [1 ..< rsNextToDeliver R]))"

definition recv_part :: "stream_id \<Rightarrow> link \<Rightarrow> bool" where
  "recv_part I x \<longleftrightarrow> recv_core (lkSent x) (siOrdered I) (lkRecv x) (lkDelivered x)"

definition ack_part :: "stream_id \<Rightarrow> link \<Rightarrow> bool" where
  "ack_part I x \<longleftrightarrow>
     (\<forall>(a, pl) \<in> set (lkAcks x). \<exists>sack. acked_by a sack \<subseteq> seen (lkRecv x) \<and>
        pl = ack_payload (siReceiver I) (siSocket I) (siChannel I) (siOrdered I) (seq_low a) sack) \<and>
     (\<forall>q. in_log (lkSent x) q \<longrightarrow> q \<in> set (keys (ssPending (lkSend x))) \<or> q \<in> seen (lkRecv x))"

definition link_inv :: "stream_id \<Rightarrow> link \<Rightarrow> bool" where
  "link_inv I x \<longleftrightarrow> send_part I x \<and> recv_part I x \<and> ack_part I x"

lemma link_inv_start: "link_inv I (link_start I ib)"
proof -
  have "seen (recv_start I) = {}" "rs_inv (recv_start I)"
    by (simp_all add: recv_start_def)
  then show ?thesis
    by (auto simp: link_inv_def send_part_def recv_part_def recv_core_def ack_part_def link_start_def in_log_def
        recv_start_def RecvStream_default_def SendStream_default_def ss_inv_def)
qed

lemma nth_log_append: "in_log sent q \<Longrightarrow> (sent @ [d]) ! (q - 1) = sent ! (q - 1)"
  by (simp add: in_log_def nth_append) linarith

lemma frame_of_append: "in_log sent q \<Longrightarrow> frame_of I (sent @ [d]) q = frame_of I sent q"
  by (simp only: frame_of_def nth_log_append)

lemma in_log_append: "in_log sent q \<Longrightarrow> in_log (sent @ [d]) q"
  by (simp add: in_log_def)

lemma in_log_append_cases: "in_log (sent @ [d]) q \<longleftrightarrow> in_log sent q \<or> q = Suc (length sent)"
  by (auto simp: in_log_def)

section \<open>Receiving and draining\<close>

lemma recv_core_receive:
  assumes core: "recv_core sent ordered R delivered" and q: "in_log sent q"
  shows "recv_core sent ordered (stream_receive R q (sent ! (q - 1))) delivered"
proof -
  let ?R = "stream_receive R q (sent ! (q - 1))"
  from core have inv: "rs_inv R" by (simp add: recv_core_def)
  from q have q1: "1 \<le> q" by (simp add: in_log_def)
  note sn = seen_stream_receive [OF inv q1, of "sent ! (q - 1)"]
  have keys_seen: "set (keys (rsBuffer R)) \<subseteq> seen R" using inv by (simp add: rs_inv_def)
  have "seen ?R - set (keys (rsBuffer ?R)) = seen R - set (keys (rsBuffer R))"
    unfolding sn keys_stream_receive using is_duplicate_seen [OF inv q1] keys_seen
    by (auto simp del: set_map)
  moreover have "set (rsBuffer ?R) \<subseteq> insert (q, sent ! (q - 1)) (set (rsBuffer R))"
    using set_smap_put_subset [of q "sent ! (q - 1)" "rsBuffer R"]
    by (auto simp: stream_receive_def Let_def)
  ultimately show ?thesis
    using core q rs_inv_stream_receive [OF inv, of q "sent ! (q - 1)"] sn
    by (auto simp: recv_core_def simp del: set_map)
qed

lemma ipData_rs_packet [simp]: "ipData (rs_packet S d) = d"
  by (simp add: rs_packet_def)

lemma gained_append: "ibPackets ib' = ibPackets ib @ ps \<Longrightarrow> gained ib ib' = map ipData ps"
  by (simp add: gained_def)

lemma recv_core_drain:
  assumes core: "recv_core sent ordered R delivered" and dr: "DrainRecvStream R ib = (b, R', ib')"
  shows "recv_core sent ordered R' (delivered @ gained ib ib')"
proof -
  from core have inv: "rs_inv R" and ord: "rsOrdered R = ordered" by (simp_all add: recv_core_def)
  from core obtain qs where qs: "distinct qs" "delivered = map (\<lambda>q. sent ! (q - 1)) qs"
    "set qs = seen R - set (keys (rsBuffer R))" "ordered \<longrightarrow> qs = [1 ..< rsNextToDeliver R]"
    by (auto simp: recv_core_def simp del: set_map)
  have buf: "\<And>q d. (q, d) \<in> set (rsBuffer R) \<Longrightarrow> d = sent ! (q - 1)"
    using core by (auto simp: recv_core_def)
  have keys_seen: "set (keys (rsBuffer R)) \<subseteq> seen R" and dist: "distinct (keys (rsBuffer R))"
    using inv by (auto simp: rs_inv_def smap_ok_distinct)
  note fields = Drain_fields [OF dr] and inv' = rs_inv_Drain [OF inv dr]
  obtain rel where rel: "gained ib ib' = map (\<lambda>q. sent ! (q - 1)) rel" "distinct rel"
    "set rel \<subseteq> set (keys (rsBuffer R))"
    "set (keys (rsBuffer R')) = set (keys (rsBuffer R)) - set rel" "set (rsBuffer R') \<subseteq> set (rsBuffer R)"
    "ordered \<longrightarrow> rel = [rsNextToDeliver R ..< rsNextToDeliver R'] \<and> rsNextToDeliver R \<le> rsNextToDeliver R'"
  proof (cases ordered)
    case True
    with ord dr have "drain_ordered R ib = (b, R', ib')" by (simp add: DrainRecvStream_def)
    from drain_ordered_spec [OF this] obtain n where n:
      "rsNextToDeliver R' = rsNextToDeliver R + n"
      "\<forall>q. rsNextToDeliver R \<le> q \<and> q < rsNextToDeliver R + n \<longrightarrow> map_of (rsBuffer R) q \<noteq> None"
      "rsBuffer R' = filter (\<lambda>(q, d). \<not> (rsNextToDeliver R \<le> q \<and> q < rsNextToDeliver R + n)) (rsBuffer R)"
      "ibPackets ib' = ibPackets ib @
        map (\<lambda>q. rs_packet R (the (map_of (rsBuffer R) q))) [rsNextToDeliver R ..< rsNextToDeliver R + n]"
      by blast
    let ?rel = "[rsNextToDeliver R ..< rsNextToDeliver R + n]"
    have val: "the (map_of (rsBuffer R) q) = sent ! (q - 1) \<and> q \<in> set (keys (rsBuffer R))" if "q \<in> set ?rel" for q
    proof -
      from that n(2) obtain d where "map_of (rsBuffer R) q = Some d" by auto
      then show ?thesis using buf [of q d] by (force dest: map_of_SomeD)
    qed
    have "gained ib ib' = map (\<lambda>q. sent ! (q - 1)) ?rel"
      unfolding gained_append [OF n(4)] using val by (auto intro!: map_cong simp del: set_upt)
    moreover have "set ?rel \<subseteq> set (keys (rsBuffer R))" using val by blast
    moreover have "set (keys (rsBuffer R')) = set (keys (rsBuffer R)) - set ?rel"
      unfolding n(3) keys_filter_key by auto
    moreover have "set (rsBuffer R') \<subseteq> set (rsBuffer R)" unfolding n(3) by auto
    moreover have "ordered \<longrightarrow> ?rel = [rsNextToDeliver R ..< rsNextToDeliver R'] \<and> rsNextToDeliver R \<le> rsNextToDeliver R'"
      using n(1) by simp
    ultimately show ?thesis using that [of ?rel] by (simp del: set_map)
  next
    case False
    with ord dr obtain m where m: "drain_unordered R (rsBuffer R) ib = (b, m, ib')" "R' = R\<lparr>rsBuffer := m\<rparr>"
      by (auto simp: DrainRecvStream_def split: prod.splits)
    from drain_unordered_spec [OF m(1)] obtain n where n: "m = drop n (rsBuffer R)"
      "ibPackets ib' = ibPackets ib @ map (rs_packet R \<circ> snd) (take n (rsBuffer R))" by blast
    let ?rel = "take n (keys (rsBuffer R))"
    have "map (\<lambda>q. sent ! (q - 1)) (keys xs) = map snd xs" if "set xs \<subseteq> set (rsBuffer R)" for xs
      using that buf by (induction xs) auto
    from this [of "take n (rsBuffer R)"] have "gained ib ib' = map (\<lambda>q. sent ! (q - 1)) ?rel"
      unfolding gained_append [OF n(2)] by (simp add: take_map set_take_subset comp_def)
    moreover have "set (keys m) = set (keys (rsBuffer R)) - set ?rel"
    proof -
      have "set (drop n (keys (rsBuffer R))) = set (keys (rsBuffer R)) - set ?rel"
        using dist by (rule set_drop_distinct)
      then show ?thesis by (simp add: n(1) drop_map del: set_map)
    qed
    ultimately show ?thesis using that [of ?rel] False m(2) n(1) dist
      by (auto simp: set_take_subset set_drop_subset simp del: set_map)
  qed
  have "distinct (qs @ rel)" using qs(1,3) rel(2,3) by auto
  moreover have "delivered @ gained ib ib' = map (\<lambda>q. sent ! (q - 1)) (qs @ rel)" using qs(2) rel(1) by simp
  moreover have "set (qs @ rel) = seen R' - set (keys (rsBuffer R'))"
    using qs(3) rel(3,4) fields keys_seen by auto
  moreover have "ordered \<longrightarrow> qs @ rel = [1 ..< rsNextToDeliver R']"
  proof
    assume o: ordered
    then have "1 \<le> rsNextToDeliver R" using inv ord by (simp add: rs_inv_def)
    with o qs(4) rel(6) show "qs @ rel = [1 ..< rsNextToDeliver R']"
      by (metis le_add_diff_inverse upt_add_eq_append)
  qed
  ultimately have "\<exists>qs. distinct qs \<and> delivered @ gained ib ib' = map (\<lambda>q. sent ! (q - 1)) qs \<and>
        set qs = seen R' - set (keys (rsBuffer R')) \<and> (ordered \<longrightarrow> qs = [1 ..< rsNextToDeliver R'])" by blast
  then show ?thesis using core inv' fields rel(5) by (auto simp: recv_core_def simp del: set_map)
qed

section \<open>Frames read back\<close>

lemma frame_reads:
  assumes "id_ok I" "short (sent ! (q - 1))"
    and "read_head (reader_init (frame_of I sent q)) = ((sender, socket), r)"
    and "read_data_body r = ((ch, m, wire, d), r')"
  shows "sender = siSender I \<and> socket = siSocket I \<and> ch = siChannel I \<and> m = siMode I \<and>
    wire = seq_low q \<and> d = sent ! (q - 1)"
proof -
  let ?body = "enc_data_body (siChannel I, siMode I, seq_low q, sent ! (q - 1))"
  have f: "frame_of I sent q = enc_head (siSender I) (siSocket I) @ ?body"
    by (simp add: frame_of_def data_payload_def)
  obtain r0 where r0: "read_head (reader_init (frame_of I sent q)) = ((siSender I, siSocket I), r0)" "rd_at r0 ?body"
    unfolding f using read_head_payload [of "siSender I" "siSocket I" ?body] assms(1) by (auto simp: id_ok_def)
  with assms(3) have "r = r0" by simp
  with r0(2) have "rd_at r (?body @ [])" by simp
  from data_body.dec_step [OF _ this] assms(2)
  have "fst (read_data_body r) = (siChannel I, siMode I, seq_low q, sent ! (q - 1))" by auto
  with assms(3,4) r0 show ?thesis by simp
qed

lemma ack_reads:
  assumes "id_ok I"
    and "read_head (reader_init (ack_payload (siReceiver I) (siSocket I) (siChannel I) (siOrdered I) a sk))
           = ((sender, socket), r)"
    and "read_ack_body r = ((ch, ordb, wire, sack), r')"
  shows "wire = a \<and> sack = sk \<and> sender = siReceiver I \<and> socket = siSocket I \<and> ch = siChannel I \<and>
    (ordb \<noteq> 0 \<longleftrightarrow> siOrdered I)"
proof -
  let ?body = "enc_ack_body (siChannel I, if siOrdered I then 1 else 0, a, sk)"
  have f: "ack_payload (siReceiver I) (siSocket I) (siChannel I) (siOrdered I) a sk =
      enc_head (siReceiver I) (siSocket I) @ ?body"
    by (simp add: ack_payload_def)
  obtain r0 where r0: "read_head (reader_init (enc_head (siReceiver I) (siSocket I) @ ?body)) = ((siReceiver I, siSocket I), r0)"
    "rd_at r0 ?body"
    using read_head_payload [of "siReceiver I" "siSocket I" ?body] assms(1) by (auto simp: id_ok_def)
  with assms(2) f have "r = r0" by simp
  with r0(2) have "rd_at r (?body @ [])" by simp
  from ack_body.dec_step [OF TrueI this]
  have "fst (read_ack_body r) = (siChannel I, if siOrdered I then 1 else 0, a, sk)" by auto
  with assms(2,3) f r0 show ?thesis by (auto split: if_splits)
qed

section \<open>Preservation\<close>

lemma link_inv_send:
  assumes inv: "link_inv I x" and d: "short d"
    and send: "stream_send now (siSender I) (siReceiver I) (siSocket I) (siChannel I) (siMode I) to d (lkSend x) = (pl, S)"
  shows "link_inv I (x\<lparr>lkSend := S, lkData := (ssNextSeq (lkSend x), pl) # lkData x, lkSent := lkSent x @ [d]\<rparr>)"
proof -
  let ?q = "ssNextSeq (lkSend x)" and ?sent = "lkSent x"
  have q: "?q = Suc (length ?sent)" using inv by (simp add: link_inv_def send_part_def)
  have pl: "pl = frame_of I (?sent @ [d]) ?q"
    using send q by (auto simp: stream_send_def Let_def frame_of_def)
  have S: "ss_inv S" "ssNextSeq S = Suc ?q" "set (keys (ssPending S)) = insert ?q (set (keys (ssPending (lkSend x))))"
    "\<forall>(r, u) \<in> set (ssPending S). uaPayload u = frame_of I (?sent @ [d]) r"
  proof -
    from inv have si: "ss_inv (lkSend x)" by (simp add: link_inv_def send_part_def)
    from ss_inv_send [OF si] send show "ss_inv S" by (metis snd_conv)
    show "ssNextSeq S = Suc ?q" "set (keys (ssPending S)) = insert ?q (set (keys (ssPending (lkSend x))))"
      using send by (auto simp: stream_send_def Let_def set_keys_smap_put simp del: set_map)
    have new: "(r, u) \<in> set (ssPending S) \<Longrightarrow> (r = ?q \<and> uaPayload u = pl) \<or> (r, u) \<in> set (ssPending (lkSend x))" for r u
      using send set_smap_put_subset by (fastforce simp: stream_send_def Let_def)
    have old: "uaPayload u = frame_of I (?sent @ [d]) r" if "(r, u) \<in> set (ssPending (lkSend x))" for r u
    proof -
      have "in_log ?sent r" using that si q by (force simp: ss_inv_def in_log_def)
      then show ?thesis using that inv frame_of_append [of ?sent r I d]
        by (auto simp: link_inv_def send_part_def)
    qed
    show "\<forall>(r, u) \<in> set (ssPending S). uaPayload u = frame_of I (?sent @ [d]) r"
      using new old pl by blast
  qed
  have qlog: "in_log (?sent @ [d]) ?q" using q by (simp add: in_log_def)
  have send: "send_part I (x\<lparr>lkSend := S, lkData := (?q, pl) # lkData x, lkSent := ?sent @ [d]\<rparr>)"
    using inv S(1,2,4) q d pl qlog
    by (auto simp: link_inv_def send_part_def frame_of_append in_log_append)
  have recv: "recv_part I (x\<lparr>lkSend := S, lkData := (?q, pl) # lkData x, lkSent := ?sent @ [d]\<rparr>)"
  proof -
    from inv have core: "recv_core ?sent (siOrdered I) (lkRecv x) (lkDelivered x)"
      by (simp add: link_inv_def recv_part_def)
    then have log: "\<And>q. q \<in> seen (lkRecv x) \<Longrightarrow> in_log ?sent q"
      and "set (keys (rsBuffer (lkRecv x))) \<subseteq> seen (lkRecv x)" by (auto simp: recv_core_def rs_inv_def)
    then have buf: "\<And>q d. (q, d) \<in> set (rsBuffer (lkRecv x)) \<Longrightarrow> in_log ?sent q" by force
    from core obtain qs where qs: "distinct qs" "lkDelivered x = map (\<lambda>q. ?sent ! (q - 1)) qs"
      "set qs = seen (lkRecv x) - set (keys (rsBuffer (lkRecv x)))"
      "siOrdered I \<longrightarrow> qs = [1 ..< rsNextToDeliver (lkRecv x)]"
      by (auto simp: recv_core_def simp del: set_map)
    have "lkDelivered x = map (\<lambda>q. (?sent @ [d]) ! (q - 1)) qs"
      unfolding qs(2) using qs(3) log nth_log_append [of ?sent _ d] by (auto simp del: set_map One_nat_def)
    then have ex: "\<exists>qs. distinct qs \<and> lkDelivered x = map (\<lambda>q. (?sent @ [d]) ! (q - 1)) qs \<and>
        set qs = seen (lkRecv x) - set (keys (rsBuffer (lkRecv x))) \<and>
        (siOrdered I \<longrightarrow> qs = [1 ..< rsNextToDeliver (lkRecv x)])" using qs by blast
    have "\<forall>(q, v) \<in> set (rsBuffer (lkRecv x)). v = (?sent @ [d]) ! (q - 1)"
      using core buf nth_log_append [of ?sent _ d] by (auto simp: recv_core_def simp del: One_nat_def)
    with ex show ?thesis using core log in_log_append [of ?sent _ d]
      by (simp add: recv_part_def recv_core_def del: set_map One_nat_def)
  qed
  have "ack_part I (x\<lparr>lkSend := S, lkData := (?q, pl) # lkData x, lkSent := ?sent @ [d]\<rparr>)"
    using inv S(3) q by (auto simp: link_inv_def ack_part_def in_log_append_cases simp del: set_map)
  with send recv show ?thesis by (simp add: link_inv_def)
qed

text \<open>What a pump puts on the network: the packets due, each under its number.\<close>

lemma zip_fst_map: "zip (map fst ps) (map (\<lambda>(q, u). f u) ps) = map (\<lambda>(q, u). (q, f u)) ps"
  by (induction ps) auto

lemma pump_datagrams:
  assumes "pump_pending now rto ps0 = (ps, out, ex)"
  shows "zip (due_numbers now rto ps0) (map snd out) =
    map (\<lambda>(q, u). (q, uaPayload u)) (filter (\<lambda>(q, u). due now rto u) ps0)"
proof -
  have "map snd out = map (\<lambda>(q, u). uaPayload u) (filter (\<lambda>(q, u). due now rto u) ps0)"
    using assms by (auto simp: pump_pending_eq)
  then show ?thesis by (simp only: due_numbers_def zip_fst_map)
qed

lemma link_inv_pump:
  assumes inv: "link_inv I x" and p: "pump_pending now rto (ssPending (lkSend x)) = (ps, out, ex)"
  shows "link_inv I (x\<lparr>lkSend := (lkSend x)\<lparr>ssPending := ps\<rparr>,
      lkData := zip (due_numbers now rto (ssPending (lkSend x))) (map snd out) @ lkData x\<rparr>)"
proof -
  have ps: "ps = fst (pump_pending now rto (ssPending (lkSend x)))" using p by simp
  then have keys: "keys ps = keys (ssPending (lkSend x))" by (simp only: keys_pump_pending)
  have "ss_inv ((lkSend x)\<lparr>ssPending := ps\<rparr>)"
    unfolding ps using inv by (intro ss_inv_pump) (simp add: link_inv_def send_part_def)
  moreover have "\<forall>(q, u) \<in> set ps. uaPayload u = frame_of I (lkSent x) q"
    using inv by (auto simp: ps pump_pending_eq link_inv_def send_part_def)
  moreover have "in_log (lkSent x) q" if "(q, u) \<in> set (ssPending (lkSend x))" for q u
    using inv that by (force simp: link_inv_def send_part_def ss_inv_def in_log_def)
  ultimately show ?thesis using inv keys unfolding pump_datagrams [OF p]
    by (auto simp: link_inv_def send_part_def recv_part_def ack_part_def)
qed

lemma link_inv_lose:
  assumes "link_inv I x" "set ds \<subseteq> set (lkData x)" "set as \<subseteq> set (lkAcks x)"
  shows "link_inv I (x\<lparr>lkData := ds, lkAcks := as\<rparr>)"
  using assms unfolding link_inv_def send_part_def recv_part_def ack_part_def
  by (simp add: subset_iff del: set_map) blast

lemma link_inv_recv:
  assumes inv: "link_inv I x" and R: "recv_core (lkSent x) (siOrdered I) R del"
    and sub: "seen (lkRecv x) \<subseteq> seen R"
  shows "link_inv I (x\<lparr>lkRecv := R, lkInbox := ib, lkDelivered := del\<rparr>)"
proof -
  have "ack_part I (x\<lparr>lkRecv := R, lkInbox := ib, lkDelivered := del\<rparr>)"
    using inv sub unfolding link_inv_def ack_part_def by (auto simp del: set_map) blast
  then show ?thesis using inv R by (auto simp: link_inv_def send_part_def recv_part_def)
qed

lemma link_inv_add_ack:
  assumes inv: "link_inv I x" and sub: "acked_by a sack \<subseteq> seen (lkRecv x)"
  shows "link_inv I (x\<lparr>lkAcks := (a, ack_payload (siReceiver I) (siSocket I) (siChannel I) (siOrdered I) (seq_low a) sack) # lkAcks x\<rparr>)"
  using inv sub by (auto simp: link_inv_def send_part_def recv_part_def ack_part_def simp del: set_map)

lemma link_inv_ack:
  assumes inv: "link_inv I x" and sub: "named_by (ext_seq (ssNextSeq (lkSend x)) w) sack - {0} \<subseteq> seen (lkRecv x)"
  shows "link_inv I (x\<lparr>lkSend := stream_ack now w sack (lkSend x)\<rparr>)"
proof -
  from inv have si: "ss_inv (lkSend x)" by (simp add: link_inv_def send_part_def)
  then have ok: "smap_ok (ssPending (lkSend x))" by (simp add: ss_inv_def)
  let ?S = "stream_ack now w sack (lkSend x)"
  let ?named = "named_by (ext_seq (ssNextSeq (lkSend x)) w) sack"
  have p: "ssPending ?S = filter (\<lambda>(q, u). q \<notin> ?named) (ssPending (lkSend x))"
    and same: "same_sender (lkSend x) ?S"
    using stream_ack_eq [OF ok, of now w sack] by simp_all
  have keys: "set (keys (ssPending ?S)) = {q \<in> set (keys (ssPending (lkSend x))). q \<notin> ?named}"
    unfolding p by (rule keys_filter_key)
  have "send_part I (x\<lparr>lkSend := ?S\<rparr>)"
    using inv p same ss_inv_ack [OF si, of now w sack]
    by (auto simp: link_inv_def send_part_def same_sender_def)
  moreover have "ack_part I (x\<lparr>lkSend := ?S\<rparr>)"
    using inv sub keys by (auto simp: link_inv_def ack_part_def in_log_def simp del: set_map)
  ultimately show ?thesis using inv by (simp add: link_inv_def recv_part_def)
qed

lemma link_inv_step:
  assumes ids: "id_ok I" and step: "link_step I x y" and inv: "link_inv I x"
  shows "link_inv I y"
  using step
proof cases
  case (send d now to pl S)
  show ?thesis unfolding send(1) by (rule link_inv_send [OF inv send(2,3)])
next
  case (pump rto now ps out ex)
  show ?thesis unfolding pump(1) by (rule link_inv_pump [OF inv pump(3)])
next
  case (lose ds as)
  show ?thesis unfolding lose(1) by (rule link_inv_lose [OF inv lose(2,3)])
next
  case (data q pl sender socket r ch m wire d r' b R ib)
  from data(2) inv have q: "in_log (lkSent x) q" and pl: "pl = frame_of I (lkSent x) q"
    by (auto simp: link_inv_def send_part_def)
  from q inv have sh: "short (lkSent x ! (q - 1))" by (auto simp: link_inv_def send_part_def in_log_def)
  from frame_reads [OF ids sh data(4) [unfolded pl] data(5)]
  have w: "wire = seq_low q" "d = lkSent x ! (q - 1)" by simp_all
  have ext: "ext_seq (rsNextExpected (lkRecv x)) wire = q"
    unfolding w using data(3) by (auto simp: near_def ext_seq_near)
  from inv have core: "recv_core (lkSent x) (siOrdered I) (lkRecv x) (lkDelivered x)"
    by (simp add: link_inv_def recv_part_def)
  let ?R = "stream_receive (lkRecv x) q (lkSent x ! (q - 1))"
  have dr: "DrainRecvStream ?R (lkInbox x) = (b, R, ib)"
    using data(7) by (simp add: stream_deliver_def ext w(2))
  from core have rinv: "rs_inv (lkRecv x)" by (simp add: recv_core_def)
  have c': "recv_core (lkSent x) (siOrdered I) R (lkDelivered x @ gained (lkInbox x) ib)"
    by (rule recv_core_drain [OF recv_core_receive [OF core q] dr])
  have "seen R = insert q (seen (lkRecv x))"
    using Drain_fields [OF dr] seen_stream_receive [OF rinv] q by (simp add: in_log_def)
  then have "seen (lkRecv x) \<subseteq> seen R" by blast
  note inv' = link_inv_recv [OF inv c' this, of ib]
  have "acked_by (ack_seq R) (sack_bits R) \<subseteq> seen R"
    using acked_by_seen c' by (auto simp: recv_core_def)
  from link_inv_add_ack [OF inv', of "ack_seq R" "sack_bits R"] this data(1) show ?thesis by simp
next
  case (ack a pl sender socket r ch ordb wire sack r' now)
  from ack(2) inv obtain sk where sub: "acked_by a sk \<subseteq> seen (lkRecv x)"
    and pl: "pl = ack_payload (siReceiver I) (siSocket I) (siChannel I) (siOrdered I) (seq_low a) sk"
    by (auto simp: link_inv_def ack_part_def)
  from ack_reads [OF ids ack(4) [unfolded pl] ack(5)] have w: "wire = seq_low a" "sack = sk" by simp_all
  have "ext_seq (ssNextSeq (lkSend x)) wire = a"
    unfolding w using ack(3) by (auto simp: near_def ext_seq_near)
  moreover have "named_by a sack - {0} \<subseteq> acked_by a sk" by (auto simp: named_by_def acked_by_def w)
  ultimately show ?thesis unfolding ack(1) using sub by (intro link_inv_ack [OF inv]) auto
next
  case (drain b R ib)
  from inv have core: "recv_core (lkSent x) (siOrdered I) (lkRecv x) (lkDelivered x)"
    by (simp add: link_inv_def recv_part_def)
  show ?thesis unfolding drain(1)
    by (rule link_inv_recv [OF inv recv_core_drain [OF core drain(2)]])
      (use Drain_fields [OF drain(2)] in simp)
next
  case (inbox ib)
  then show ?thesis using inv by (simp add: link_inv_def send_part_def recv_part_def ack_part_def)
qed

lemma link_inv_steps:
  assumes "(link_step I)\<^sup>*\<^sup>* x y" "id_ok I" "link_inv I x"
  shows "link_inv I y"
  using assms by (induction rule: rtranclp_induct) (blast intro: link_inv_step)+

lemma link_reach_inv:
  assumes ids: "id_ok I" and reach: "link_reach I ib x"
  shows "link_inv I x"
  using link_inv_steps [OF _ ids link_inv_start] reach by (simp add: link_reach_def)

section \<open>What a reachable link guarantees\<close>

lemma link_ordered_prefix:
  assumes "id_ok I" "link_reach I ib x" "siOrdered I"
  shows "lkDelivered x = take (rsNextToDeliver (lkRecv x) - 1) (lkSent x)"
proof -
  let ?n = "rsNextToDeliver (lkRecv x)"
  from link_reach_inv [OF assms(1,2)] assms(3)
  have inv: "recv_core (lkSent x) True (lkRecv x) (lkDelivered x)"
    by (simp add: link_inv_def recv_part_def)
  then have del: "lkDelivered x = map (\<lambda>q. lkSent x ! (q - 1)) [1 ..< ?n]"
    and b: "1 \<le> ?n" "?n \<le> rsNextExpected (lkRecv x)"
    by (auto simp: recv_core_def rs_inv_def)
  have "?n - 1 \<le> length (lkSent x)"
  proof (cases "?n = 1")
    case False
    with b have "?n - 1 \<in> seen (lkRecv x)" by (auto simp: seen_def)
    with inv show ?thesis by (auto simp: recv_core_def in_log_def)
  qed simp
  moreover have "map (\<lambda>q. lkSent x ! (q - 1)) [1 ..< ?n] = map (\<lambda>i. lkSent x ! i) [0 ..< ?n - 1]"
    using b(1) by (intro nth_equalityI) auto
  moreover from calculation(1) have "map (\<lambda>i. lkSent x ! i) [0 ..< ?n - 1] = take (?n - 1) (lkSent x)"
    by (intro nth_equalityI) auto
  ultimately show ?thesis by (simp only: del)
qed

lemma link_exactly_once:
  assumes "id_ok I" "link_reach I ib x"
  shows "\<exists>qs. distinct qs \<and> (\<forall>q \<in> set qs. in_log (lkSent x) q) \<and>
    lkDelivered x = map (\<lambda>q. lkSent x ! (q - 1)) qs"
proof -
  from link_reach_inv [OF assms]
  have core: "recv_core (lkSent x) (siOrdered I) (lkRecv x) (lkDelivered x)" by (simp add: link_inv_def recv_part_def)
  then obtain qs where "distinct qs" "lkDelivered x = map (\<lambda>q. lkSent x ! (q - 1)) qs"
    "set qs = seen (lkRecv x) - set (keys (rsBuffer (lkRecv x)))"
    by (auto simp: recv_core_def simp del: set_map)
  with core show ?thesis by (intro exI [of _ qs]) (simp add: recv_core_def del: set_map)
qed

lemma link_no_loss:
  assumes "id_ok I" "link_reach I ib x" "in_log (lkSent x) q"
  shows "q \<in> set (keys (ssPending (lkSend x))) \<or> q \<in> seen (lkRecv x)"
  using link_reach_inv [OF assms(1,2)] assms(3) by (simp add: link_inv_def ack_part_def del: set_map)

text \<open>Nothing pending and nothing buffered: every packet has been delivered exactly once, on an ordered
  stream in the order sent.\<close>

lemma all_numbers: "map (\<lambda>q. sent ! (q - 1)) [1 ..< Suc (length sent)] = sent"
  by (rule nth_equalityI) (auto simp del: upt_Suc)

lemma link_all_delivered:
  assumes inv: "link_inv I x" and "ssPending (lkSend x) = []" "rsBuffer (lkRecv x) = []"
  shows "mset (lkDelivered x) = mset (lkSent x) \<and> (siOrdered I \<longrightarrow> lkDelivered x = lkSent x)"
proof -
  let ?n = "length (lkSent x)" and ?f = "\<lambda>q. lkSent x ! (q - 1)"
  from inv have "recv_core (lkSent x) (siOrdered I) (lkRecv x) (lkDelivered x)"
    by (simp add: link_inv_def recv_part_def)
  with assms(3) obtain qs where qs: "distinct qs" "lkDelivered x = map ?f qs" "set qs = seen (lkRecv x)"
    "siOrdered I \<longrightarrow> qs = [1 ..< rsNextToDeliver (lkRecv x)]" "set qs \<subseteq> {q. in_log (lkSent x) q}"
    by (auto simp: recv_core_def)
  moreover have "in_log (lkSent x) q \<Longrightarrow> q \<in> seen (lkRecv x)" for q
    using inv assms(2) by (simp add: link_inv_def ack_part_def)
  ultimately have all: "set qs = set [1 ..< Suc ?n]" by (auto simp: in_log_def)
  then have "mset qs = mset [1 ..< Suc ?n]" using qs(1) set_eq_iff_mset_eq_distinct distinct_upt by blast
  then have "mset (map ?f qs) = mset (map ?f [1 ..< Suc ?n])" by (simp only: mset_map)
  then have "mset (lkDelivered x) = mset (lkSent x)" unfolding qs(2) all_numbers .
  moreover have "lkDelivered x = lkSent x" if "siOrdered I"
  proof -
    from that qs(4) have "qs = [1 ..< rsNextToDeliver (lkRecv x)]" by simp
    with all have "qs = [1 ..< Suc ?n]" by (intro sorted_distinct_set_unique) (auto simp: qs(1) simp del: upt_Suc)
    then show ?thesis using qs(2) all_numbers [of "lkSent x"] by (simp only:)
  qed
  ultimately show ?thesis by blast
qed

end
