(* ===== verification/P2PProgress.thy ===== *)
theory P2PProgress
  imports P2PLink
begin

text \<open>
  Progress of one reliable stream: from every reachable state of the link (theory P2PLink) with an
  unlimited inbox and fewer than \<open>2 ^ 31\<close> packets, and even when the network has just lost every
  datagram it carried, the code's own retransmission, delivery and acknowledgement steps can deliver
  everything sent and empty the sender's pending map.  The run shown is: one pump at a moment when
  every pending packet is due, the arrival of what that pump put on the network, and the arrival of
  the last acknowledgement.
\<close>

lemma drain_ibMax: "DrainRecvStream S ib = (b, S', ib') \<Longrightarrow> ibMax ib' = ibMax ib"
proof -
  have o: "ibMax (snd (snd (drain_ordered S ib))) = ibMax ib"
  proof (induction S ib rule: drain_ordered.induct)
    case (1 S ib)
    have "ibMax (snd (EnqueueInbox p k c d ib)) = ibMax ib" for p k c d by (simp add: EnqueueInbox_def)
    with 1 show ?case by (subst drain_ordered.simps) (auto split: option.splits)
  qed
  have "ibMax (snd (snd (drain_unordered S m ib))) = ibMax ib" for m
  proof (induction S m ib rule: drain_unordered.induct)
    case (2 S q d m ib)
    have "ibMax (snd (EnqueueInbox p k c d ib)) = ibMax ib" for p k c d by (simp add: EnqueueInbox_def)
    with 2 show ?case by auto
  qed simp
  with o show "DrainRecvStream S ib = (b, S', ib') \<Longrightarrow> ibMax ib' = ibMax ib"
    by (auto simp: DrainRecvStream_def case_prod_beta split: if_splits)
qed

text \<open>With no inbox limit a drain empties what can be released.\<close>

lemma drain_unlimited:
  assumes "DrainRecvStream S ib = (b, S', ib')" "ibMax ib = 0" "rs_inv S"
  shows "rsReceived S' = [] \<longrightarrow> rsBuffer S' = []"
proof
  assume empty: "rsReceived S' = []"
  have max: "ibMax ib' = 0" using drain_ibMax [OF assms(1)] assms(2) by simp
  show "rsBuffer S' = []"
  proof (cases "rsOrdered S")
    case True
    with assms(1) have "drain_ordered S ib = (b, S', ib')" by (simp add: DrainRecvStream_def)
    from drain_ordered_spec [OF this] max have none: "map_of (rsBuffer S') (rsNextToDeliver S') = None"
      by (auto simp: InboxHasRoom_def)
    have inv: "rs_inv S'" "rsOrdered S'" using rs_inv_Drain [OF assms(3,1)] Drain_fields [OF assms(1)] True by simp_all
    then have keys: "set (keys (rsBuffer S')) = {q. rsNextToDeliver S' \<le> q \<and> q < rsNextExpected S'}"
      using empty by (simp add: rs_inv_def)
    have "rsNextToDeliver S' \<notin> set (keys (rsBuffer S'))" using none by (simp add: map_of_eq_None_iff)
    with keys have "set (keys (rsBuffer S')) = {}" by auto
    then show ?thesis by simp
  next
    case False
    with assms(1) obtain m where m: "drain_unordered S (rsBuffer S) ib = (b, m, ib')" "S' = S\<lparr>rsBuffer := m\<rparr>"
      by (auto simp: DrainRecvStream_def split: prod.splits)
    from drain_unordered_spec [OF m(1)] max have "m = []" by (auto simp: InboxHasRoom_def)
    with m(2) show ?thesis by simp
  qed
qed

section \<open>Delivering one packet\<close>

lemma frame_read_ex:
  assumes "id_ok I" "short (sent ! (q - 1))"
  shows "\<exists>r r'. read_head (reader_init (frame_of I sent q)) = ((siSender I, siSocket I), r) \<and>
    read_data_body r = ((siChannel I, siMode I, seq_low q, sent ! (q - 1)), r') \<and> rdOk r'"
proof -
  let ?body = "enc_data_body (siChannel I, siMode I, seq_low q, sent ! (q - 1))"
  obtain r where r: "read_head (reader_init (enc_head (siSender I) (siSocket I) @ ?body)) = ((siSender I, siSocket I), r)"
    "rd_at r (?body @ [])"
    using read_head_payload [of "siSender I" "siSocket I" ?body] assms(1) by (auto simp: id_ok_def)
  from data_body.dec_step [OF _ r(2)] assms(2) r(1) show ?thesis
    by (auto simp: frame_of_def data_payload_def dest: rd_at_ok)
qed

text \<open>The acknowledgement the receiver answers with.\<close>

definition own_ack :: "stream_id \<Rightarrow> RecvStream \<Rightarrow> nat \<times> bytes" where
  "own_ack I R = (ack_seq R, ack_payload (siReceiver I) (siSocket I) (siChannel I) (siOrdered I)
     (seq_low (ack_seq R)) (sack_bits R))"

lemma deliver_one:
  assumes ids: "id_ok I" and inv: "link_inv I x" and kept: "q \<in> set (keys (lkData x))"
    and few: "length (lkSent x) < 2 ^ 31"
  shows "\<exists>y. link_step I x y \<and> lkSent y = lkSent x \<and> lkSend y = lkSend x \<and> lkData y = lkData x \<and>
    seen (lkRecv y) = insert q (seen (lkRecv x)) \<and> ibMax (lkInbox y) = ibMax (lkInbox x) \<and>
    (ibMax (lkInbox x) = 0 \<and> rsReceived (lkRecv y) = [] \<longrightarrow> rsBuffer (lkRecv y) = []) \<and>
    own_ack I (lkRecv y) \<in> set (lkAcks y)"
proof -
  let ?d = "lkSent x ! (q - 1)" and ?R = "lkRecv x"
  from kept obtain pl where "(q, pl) \<in> set (lkData x)" by auto
  with inv have mem: "(q, frame_of I (lkSent x) q) \<in> set (lkData x)" and q: "in_log (lkSent x) q"
    by (auto simp: link_inv_def send_part_def)
  from inv have core: "rs_inv ?R" "\<forall>q \<in> seen ?R. in_log (lkSent x) q"
    by (auto simp: link_inv_def recv_part_def recv_core_def)
  have ne: "rsNextExpected ?R \<le> Suc (length (lkSent x))"
  proof (rule ccontr)
    assume "\<not> ?thesis"
    then have "Suc (length (lkSent x)) \<in> seen ?R" by (auto simp: seen_def)
    with core(2) show False by (auto simp: in_log_def)
  qed
  then have near: "near (rsNextExpected ?R) q" using few q by (simp add: near_def in_log_def)
  from inv q have sh: "short ?d" by (auto simp: link_inv_def send_part_def in_log_def)
  obtain r r' where rd: "read_head (reader_init (frame_of I (lkSent x) q)) = ((siSender I, siSocket I), r)"
    "read_data_body r = ((siChannel I, siMode I, seq_low q, ?d), r')" "rdOk r'"
    using frame_read_ex [of I "lkSent x" q, OF ids sh] by blast
  obtain b S ib where sd: "stream_deliver ?R (lkInbox x) (seq_low q) ?d = (b, S, ib)" by (metis prod_cases3)
  have "ext_seq (rsNextExpected ?R) (seq_low q) = q" using near by (auto simp: near_def ext_seq_near)
  then have dr: "DrainRecvStream (stream_receive ?R q ?d) (lkInbox x) = (b, S, ib)"
    using sd by (simp add: stream_deliver_def)
  have "seen S = insert q (seen ?R)"
    using Drain_fields [OF dr] seen_stream_receive [OF core(1)] q by (simp add: in_log_def)
  moreover have "ibMax ib = ibMax (lkInbox x)" by (rule drain_ibMax [OF dr])
  moreover have "ibMax (lkInbox x) = 0 \<and> rsReceived S = [] \<longrightarrow> rsBuffer S = []"
    using drain_unlimited [OF dr] rs_inv_stream_receive [OF core(1)] by blast
  ultimately show ?thesis unfolding own_ack_def
    using link_step.data [OF mem near rd(1,2,3) sd] by (intro exI conjI) (assumption | simp)+
qed

text \<open>The arrival of any selection of the datagrams on the network, one after the other.\<close>

lemma deliver_all:
  assumes ids: "id_ok I"
  shows "\<lbrakk>link_inv I x; length (lkSent x) < 2 ^ 31; ibMax (lkInbox x) = 0; set qs \<subseteq> set (keys (lkData x))\<rbrakk> \<Longrightarrow>
    \<exists>y. (link_step I)\<^sup>*\<^sup>* x y \<and> lkSent y = lkSent x \<and> lkSend y = lkSend x \<and>
      seen (lkRecv y) = set qs \<union> seen (lkRecv x) \<and>
      (qs \<noteq> [] \<longrightarrow> (rsReceived (lkRecv y) = [] \<longrightarrow> rsBuffer (lkRecv y) = []) \<and>
         own_ack I (lkRecv y) \<in> set (lkAcks y))"
proof (induction qs arbitrary: x)
  case Nil
  show ?case by (intro exI [of _ x]) simp
next
  case (Cons q qs)
  from Cons.prems(4) have "q \<in> set (keys (lkData x))" by simp
  from deliver_one [OF ids Cons.prems(1) this Cons.prems(2)] obtain z where z:
    "link_step I x z" "lkSent z = lkSent x" "lkSend z = lkSend x" "lkData z = lkData x"
    "seen (lkRecv z) = insert q (seen (lkRecv x))" "ibMax (lkInbox z) = 0"
    "rsReceived (lkRecv z) = [] \<longrightarrow> rsBuffer (lkRecv z) = []" "own_ack I (lkRecv z) \<in> set (lkAcks z)"
    using Cons.prems(3) by auto
  from Cons.IH [OF link_inv_step [OF ids z(1) Cons.prems(1)], unfolded z(2,4), OF Cons.prems(2) z(6)] Cons.prems(4)
  obtain y where y: "(link_step I)\<^sup>*\<^sup>* z y" "lkSent y = lkSent x" "lkSend y = lkSend z"
    "seen (lkRecv y) = set qs \<union> seen (lkRecv z)"
    "qs \<noteq> [] \<longrightarrow> (rsReceived (lkRecv y) = [] \<longrightarrow> rsBuffer (lkRecv y) = []) \<and> own_ack I (lkRecv y) \<in> set (lkAcks y)"
    by auto
  from z(1) y(1) have r: "(link_step I)\<^sup>*\<^sup>* x y" by (rule converse_rtranclp_into_rtranclp)
  show ?case
  proof (cases "qs = []")
    case True
    with z show ?thesis by (intro exI [of _ z]) auto
  next
    case False
    with r y z(3,5) show ?thesis by (intro exI [of _ y]) auto
  qed
qed

text \<open>A receive stream that has accepted everything has its watermark past the end.\<close>

lemma seen_all_watermark:
  assumes "rs_inv R" "seen R = {1..n}"
  shows "rsNextExpected R = Suc n \<and> rsReceived R = []"
proof -
  have above: "\<forall>q \<in> set (rsReceived R). rsNextExpected R < q" and low: "1 \<le> rsNextExpected R"
    using assms(1) by (auto simp: rs_inv_def)
  then have "rsNextExpected R \<notin> seen R" by (auto simp: seen_def)
  with assms(2) low have gt: "n < rsNextExpected R" by simp
  have "set (rsReceived R) = {}"
  proof (rule ccontr)
    assume "set (rsReceived R) \<noteq> {}"
    then obtain q where "q \<in> set (rsReceived R)" by (meson equals0I)
    then have "q \<in> seen R" "rsNextExpected R < q" using above by (auto simp: seen_def)
    with assms(2) gt show False by simp
  qed
  moreover have "rsNextExpected R \<le> Suc n"
  proof (rule ccontr)
    assume "\<not> ?thesis"
    then have "Suc n \<in> seen R" by (simp add: seen_def)
    with assms(2) show False by simp
  qed
  ultimately show ?thesis using gt by simp
qed

section \<open>Retransmitting\<close>

text \<open>At some moment every pending packet is due.\<close>

lemma all_due_eventually: "\<exists>now. \<forall>(q, u) \<in> set ps. due now rto u"
proof (induction ps)
  case (Cons p ps)
  then obtain now where now: "\<forall>(q, u) \<in> set ps. due now rto u" by blast
  let ?t = "max now (uaLastSent (snd p) + ms (wait_for rto (uaTries (snd p))))"
  have "due ?t rto (snd p)" by (simp add: due_def)
  moreover have "due now rto u \<Longrightarrow> due ?t rto u" for u by (simp add: due_def)
  ultimately show ?case using now by (intro exI [of _ ?t]) auto
qed simp

text \<open>One pump puts every pending packet back on the network.\<close>

lemma pump_resends:
  assumes "x' = x\<lparr>lkData := [], lkAcks := []\<rparr>"
  shows "\<exists>y. link_step I x' y \<and> lkSent y = lkSent x \<and> lkInbox y = lkInbox x \<and> lkRecv y = lkRecv x \<and>
    keys (ssPending (lkSend y)) = keys (ssPending (lkSend x)) \<and>
    keys (lkData y) = keys (ssPending (lkSend x))"
proof -
  let ?ps = "ssPending (lkSend x)" and ?rto = "RtoFor (lkSend x)"
  obtain now where due: "\<forall>(q, u) \<in> set ?ps. due now ?rto u" using all_due_eventually [of ?ps ?rto] by (elim exE)
  obtain ps out ex where p: "pump_pending now ?rto ?ps = (ps, out, ex)" by (metis prod_cases3)
  let ?y = "x'\<lparr>lkSend := (lkSend x')\<lparr>ssPending := ps\<rparr>,
    lkData := zip (due_numbers now ?rto (ssPending (lkSend x'))) (map snd out) @ lkData x'\<rparr>"
  have "link_step I x' ?y" using p assms by (intro link_step.pump) auto
  moreover have "keys ps = keys ?ps" using keys_pump_pending [of now ?rto ?ps] p by simp
  moreover have "filter (\<lambda>(q, u). due now ?rto u) ?ps = ?ps" using due by (auto simp: filter_id_conv)
  then have "keys (lkData ?y) = keys ?ps"
    using pump_datagrams [OF p] assms by (simp add: case_prod_beta comp_def)
  ultimately show ?thesis using assms by (intro exI [of _ ?y]) simp
qed

lemma ack_read_ex:
  assumes "id_ok I"
  shows "\<exists>r r'. read_head (reader_init (ack_payload (siReceiver I) (siSocket I) (siChannel I) (siOrdered I) a sk)) =
      ((siReceiver I, siSocket I), r) \<and>
    read_ack_body r = ((siChannel I, if siOrdered I then 1 else 0, a, sk), r') \<and> rdOk r'"
proof -
  let ?body = "enc_ack_body (siChannel I, if siOrdered I then 1 else 0, a, sk)"
  obtain r where r: "read_head (reader_init (enc_head (siReceiver I) (siSocket I) @ ?body)) = ((siReceiver I, siSocket I), r)"
    "rd_at r (?body @ [])"
    using read_head_payload [of "siReceiver I" "siSocket I" ?body] assms by (auto simp: id_ok_def)
  from ack_body.dec_step [OF TrueI r(2)] r(1) show ?thesis
    by (auto simp: ack_payload_def dest: rd_at_ok)
qed

text \<open>Once the receiver has accepted everything, its acknowledgement empties the pending map.\<close>

lemma final_ack:
  assumes ids: "id_ok I" and inv: "link_inv I y" and few: "length (lkSent y) < 2 ^ 31"
    and all: "seen (lkRecv y) = {1..length (lkSent y)}" and ack: "own_ack I (lkRecv y) \<in> set (lkAcks y)"
  shows "\<exists>S. link_step I y (y\<lparr>lkSend := S\<rparr>) \<and> ssPending S = []"
proof -
  let ?n = "length (lkSent y)"
  from inv have "rs_inv (lkRecv y)" by (simp add: link_inv_def recv_part_def recv_core_def)
  from seen_all_watermark [OF this all] have a: "ack_seq (lkRecv y) = ?n" by (simp add: ack_seq_def)
  from inv have S: "ss_inv (lkSend y)" "ssNextSeq (lkSend y) = Suc ?n" by (simp_all add: link_inv_def send_part_def)
  have near: "near (ssNextSeq (lkSend y)) ?n" using few S(2) by (simp add: near_def)
  obtain r r' where r: "read_head (reader_init (ack_payload (siReceiver I) (siSocket I) (siChannel I) (siOrdered I)
      (seq_low ?n) (sack_bits (lkRecv y)))) = ((siReceiver I, siSocket I), r)"
    "read_ack_body r = ((siChannel I, if siOrdered I then 1 else 0, seq_low ?n, sack_bits (lkRecv y)), r')" "rdOk r'"
    using ack_read_ex [OF ids] by blast
  let ?S = "stream_ack 0 (seq_low ?n) (sack_bits (lkRecv y)) (lkSend y)"
  have "link_step I y (y\<lparr>lkSend := ?S\<rparr>)"
    by (rule link_step.ack [OF ack [unfolded own_ack_def a] near r])
  moreover have "smap_ok (ssPending (lkSend y))" "\<forall>q \<in> set (keys (ssPending (lkSend y))). q \<le> ?n"
    using S by (auto simp: ss_inv_def)
  moreover have "ext_seq (ssNextSeq (lkSend y)) (seq_low ?n) = ?n" using near by (auto simp: near_def ext_seq_near)
  ultimately show ?thesis
    using stream_ack_eq [of "lkSend y" 0 "seq_low ?n" "sack_bits (lkRecv y)"]
    by (intro exI [of _ ?S]) (auto simp: named_by_def filter_empty_conv)
qed

text \<open>With nothing pending everything has been accepted; the pump's drain releases what is buffered.\<close>

lemma accepted_all:
  assumes "link_inv I x" "set (keys (ssPending (lkSend x))) \<subseteq> seen (lkRecv x)"
  shows "seen (lkRecv x) = {1..length (lkSent x)}"
  using assms by (auto simp: link_inv_def recv_part_def recv_core_def ack_part_def in_log_def simp del: set_map)

lemma final_drain:
  assumes inv: "link_inv I x" and max: "ibMax (lkInbox x) = 0" and none: "ssPending (lkSend x) = []"
  shows "\<exists>y. link_step I x y \<and> lkSent y = lkSent x \<and> lkSend y = lkSend x \<and> rsBuffer (lkRecv y) = []"
proof -
  obtain b R ib where dr: "DrainRecvStream (lkRecv x) (lkInbox x) = (b, R, ib)" by (metis prod_cases3)
  from inv have rs: "rs_inv (lkRecv x)" by (simp add: link_inv_def recv_part_def recv_core_def)
  have "seen R = {1..length (lkSent x)}" using accepted_all [OF inv] none Drain_fields [OF dr] by simp
  with seen_all_watermark rs_inv_Drain [OF rs dr] have "rsReceived R = []" by blast
  with drain_unlimited [OF dr max rs] have "rsBuffer R = []" by simp
  with link_step.drain [OF dr, of I] show ?thesis
    by (intro exI conjI) (assumption | simp)+
qed

text \<open>After losing every datagram on the network, the stream can still finish.\<close>

lemma link_can_finish:
  assumes ids: "id_ok I" and inv: "link_inv I x" and few: "length (lkSent x) < 2 ^ 31"
    and max: "ibMax (lkInbox x) = 0"
  shows "\<exists>y. (link_step I)\<^sup>*\<^sup>* (x\<lparr>lkData := [], lkAcks := []\<rparr>) y \<and> lkSent y = lkSent x \<and>
    ssPending (lkSend y) = [] \<and> rsBuffer (lkRecv y) = []"
proof -
  let ?x = "x\<lparr>lkData := [], lkAcks := []\<rparr>"
  have inv0: "link_inv I ?x" by (rule link_inv_lose [OF inv]) simp_all
  show ?thesis
  proof (cases "ssPending (lkSend x) = []")
    case True
    with final_drain [OF inv0] max obtain y where y: "link_step I ?x y" "lkSent y = lkSent x" "lkSend y = lkSend x"
      "rsBuffer (lkRecv y) = []" by auto
    with True show ?thesis by (intro exI [of _ y]) auto
  next
    case False
    obtain p where p: "link_step I ?x p" "lkSent p = lkSent x" "lkInbox p = lkInbox x" "lkRecv p = lkRecv x"
      "keys (ssPending (lkSend p)) = keys (ssPending (lkSend x))" "keys (lkData p) = keys (ssPending (lkSend x))"
      using pump_resends [OF refl] by blast
    have invp: "link_inv I p" by (rule link_inv_step [OF ids p(1) inv0])
    let ?qs = "keys (lkData p)"
    from deliver_all [OF ids invp, of ?qs] obtain y where y: "(link_step I)\<^sup>*\<^sup>* p y" "lkSent y = lkSent x" "lkSend y = lkSend p"
      "seen (lkRecv y) = set ?qs \<union> seen (lkRecv p)"
      "rsReceived (lkRecv y) = [] \<longrightarrow> rsBuffer (lkRecv y) = []" "own_ack I (lkRecv y) \<in> set (lkAcks y)"
      using p False few max by (auto simp del: set_map)
    have invy: "link_inv I y" by (rule link_inv_steps [OF y(1) ids invp])
    have all: "seen (lkRecv y) = {1..length (lkSent y)}"
      by (rule accepted_all [OF invy]) (simp add: y(3,4) p(5,6) del: set_map)
    have few': "length (lkSent y) < 2 ^ 31" using few y(2) by simp
    obtain S where S: "link_step I y (y\<lparr>lkSend := S\<rparr>)" "ssPending S = []"
      using final_ack [OF ids invy few' all y(6)] by blast
    from invy have "rs_inv (lkRecv y)" by (simp add: link_inv_def recv_part_def recv_core_def)
    from seen_all_watermark [OF this all] y(5) have "rsBuffer (lkRecv y) = []" by simp
    moreover have "(link_step I)\<^sup>*\<^sup>* ?x (y\<lparr>lkSend := S\<rparr>)"
      using converse_rtranclp_into_rtranclp [of "link_step I", OF p(1) y(1)] S(1) by (rule rtranclp.rtrancl_into_rtrancl)
    ultimately show ?thesis using S(2) y(2) by (intro exI [of _ "y\<lparr>lkSend := S\<rparr>"]) simp
  qed
qed

section \<open>A link with traffic\<close>

text \<open>One ordered stream, an unlimited empty inbox, and a run that sends one packet and finishes; the
  examples of the root theory rest on it.\<close>

definition demo_id :: stream_id where
  "demo_id = \<lparr>siSender = ''A'', siReceiver = ''B'', siSocket = ''S'', siChannel = 3, siMode = 2, siOrdered = True\<rparr>"

definition demo_inbox :: inbox where
  "demo_inbox = \<lparr>ibPackets = [], ibMax = 0, ibBytes = 0\<rparr>"

lemma demo_id_ok: "id_ok demo_id" "siOrdered demo_id"
  by (simp_all add: id_ok_def demo_id_def short_def)

lemma demo_sent: "\<exists>x. link_reach demo_id demo_inbox x \<and> lkSent x = [[7]] \<and> lkInbox x = demo_inbox \<and> lkDelivered x = []"
proof -
  obtain pl S where s: "stream_send 0 (siSender demo_id) (siReceiver demo_id) (siSocket demo_id) (siChannel demo_id)
      (siMode demo_id) no_endpoint [7] (lkSend (link_start demo_id demo_inbox)) = (pl, S)"
    by (metis surj_pair)
  define y where "y = (link_start demo_id demo_inbox)\<lparr>lkSend := S,
        lkData := (ssNextSeq (lkSend (link_start demo_id demo_inbox)), pl) # lkData (link_start demo_id demo_inbox),
        lkSent := lkSent (link_start demo_id demo_inbox) @ [[7]]\<rparr>"
  have "link_step demo_id (link_start demo_id demo_inbox) y"
    unfolding y_def by (rule link_step.send [OF _ s]) (simp add: short_def)
  then have "link_reach demo_id demo_inbox y" by (simp add: link_reach_def)
  then show ?thesis by (intro exI [of _ y]) (simp add: y_def link_start_def)
qed

lemma demo_finished:
  "\<exists>x. link_reach demo_id demo_inbox x \<and> lkSent x = [[7]] \<and> ssPending (lkSend x) = [] \<and> rsBuffer (lkRecv x) = []"
proof -
  obtain x where x: "link_reach demo_id demo_inbox x" "lkSent x = [[7]]" "lkInbox x = demo_inbox"
    using demo_sent by blast
  then have u: "length (lkSent x) < 2 ^ 31" "ibMax (lkInbox x) = 0" by (simp_all add: demo_inbox_def)
  from link_can_finish [OF demo_id_ok(1) link_reach_inv [OF demo_id_ok(1) x(1)] u] obtain y where y:
    "(link_step demo_id)\<^sup>*\<^sup>* (x\<lparr>lkData := [], lkAcks := []\<rparr>) y" "lkSent y = [[7]]"
    "ssPending (lkSend y) = []" "rsBuffer (lkRecv y) = []" using x(2) by auto
  have "link_step demo_id x (x\<lparr>lkData := [], lkAcks := []\<rparr>)" by (rule link_step.lose) simp_all
  with x(1) y(1) have "link_reach demo_id demo_inbox y" unfolding link_reach_def by (meson rtranclp.rtrancl_into_rtrancl rtranclp_trans)
  with y show ?thesis by blast
qed

end
