(* ===== verification/P2PFacts.thy ===== *)
theory P2PFacts
  imports P2PLink
begin

unbundle bit_operations_syntax

text \<open>
  What the calls of the peer-to-peer interface promise their caller: which datagrams reach which
  handler, the inbox limit, polling, queue clearing, closing a connection, the interruption state
  machine, the loss injector, and what happens to a stream one side has forgotten.
\<close>

section \<open>Routing\<close>

lemma OnDatagram_data:
  assumes "short p" "short k" "short d" "p \<noteq> []" "k \<noteq> []"
  shows "OnDatagram E K now from P2PData (data_payload p k ch m w d) s = on_data E K from p k (ch, m, w, d) s"
proof -
  let ?body = "enc_data_body (ch, m, w, d)"
  obtain r where r: "read_head (reader_init (enc_head p k @ ?body)) = ((p, k), r)" "rd_at r (?body @ [])"
    using read_head_payload [OF assms(1,2), of ?body] by auto
  from data_body.dec_step [OF _ r(2)] assms(3) obtain r' where
    "read_data_body r = ((ch, m, w, d), r')" "rd_at r' []" by auto
  then show ?thesis using r assms(4,5) by (simp add: OnDatagram_def data_payload_def)
qed

lemma OnDatagram_ack:
  assumes "short p" "short k" "p \<noteq> []" "k \<noteq> []"
  shows "OnDatagram E K now from P2PAck (ack_payload p k ch o1 a sk) s =
    on_ack E K now p k (ch, if o1 then 1 else 0, a, sk) s"
proof -
  let ?body = "enc_ack_body (ch, if o1 then 1 else 0, a, sk)"
  obtain r where r: "read_head (reader_init (enc_head p k @ ?body)) = ((p, k), r)" "rd_at r (?body @ [])"
    using read_head_payload [OF assms(1,2), of ?body] by auto
  from ack_body.dec_step [OF TrueI r(2)] obtain r' where
    "read_ack_body r = ((ch, if o1 then 1 else 0, a, sk), r')" "rd_at r' []" by auto
  then show ?thesis using r assms(3,4) by (simp add: OnDatagram_def ack_payload_def)
qed

text \<open>A reliable data frame performs \<open>stream_deliver\<close> on the stream it names, leaves every other
  receive stream alone, and answers with that stream's acknowledgement.\<close>

lemma put_conn_fields [simp]:
  "p2Inbox (put_conn k c s) = p2Inbox s" "p2RecvStreams (put_conn k c s) = p2RecvStreams s"
  "p2SendStreams (put_conn k c s) = p2SendStreams s" "p2TestLossPermille (put_conn k c s) = p2TestLossPermille s"
  "recv_at (put_conn k c s) j = recv_at s j"
  by (simp_all add: put_conn_def recv_at_def)

lemma RawSend_fields [simp]:
  "p2Inbox (fst (RawSend E to ty pl s)) = p2Inbox s" "p2RecvStreams (fst (RawSend E to ty pl s)) = p2RecvStreams s"
  "p2SendStreams (fst (RawSend E to ty pl s)) = p2SendStreams s"
  "p2Connections (fst (RawSend E to ty pl s)) = p2Connections s"
  by (auto simp: RawSend_def Let_def)

lemma on_data_stream:
  assumes rel: "m \<noteq> enum_byte (EOS_PR_UnreliableUnordered K)"
    and o1: "o1 \<longleftrightarrow> m = enum_byte (EOS_PR_ReliableOrdered K)"
    and sd: "stream_deliver ((recv_at s (StreamKey p k ch o1))
      \<lparr>rsPeer := p, rsSocket := k, rsChannel := ch, rsOrdered := o1\<rparr>) (p2Inbox s) w d = (b, R, ib)"
  shows "p2Inbox (fst (on_data E K from p k (ch, m, w, d) s)) = ib \<and>
    map_of (p2RecvStreams (fst (on_data E K from p k (ch, m, w, d) s))) =
      (map_of (p2RecvStreams s))(StreamKey p k ch o1 \<mapsto> R) \<and>
    p2SendStreams (fst (on_data E K from p k (ch, m, w, d) s)) = p2SendStreams s"
proof -
  have "receive_reliable E p k ch o1 w d (put_conn c x s) =
      (b, ack_payload (peLocal E) k ch o1 (seq_low (ack_seq R)) (sack_bits R),
       (put_conn c x s)\<lparr>p2RecvStreams := AList.update (StreamKey p k ch o1) R (p2RecvStreams s), p2Inbox := ib\<rparr>)" for c x
    using sd by (simp add: receive_reliable_def)
  then show ?thesis using rel o1 by (simp add: on_data_def Let_def case_prod_beta)
qed

section \<open>The inbox limit\<close>

lemma capped_inbox_eq: "ib' = ib \<Longrightarrow> capped ib ib'"
  by simp

lemma OnDatagram_capped:
  assumes "p2p_inv c s"
  shows "capped (p2Inbox s) (p2Inbox (fst (OnDatagram E K now from ty pl s)))"
proof -
  have ib: "inbox_inv (p2Inbox s)" using assms by (simp add: p2p_inv_def)
  have data: "capped (p2Inbox s) (p2Inbox (fst (on_data E K from p k body s)))" for p k body
  proof -
    obtain ch m w d where body: "body = (ch, m, w, d)" by (cases body)
    have rr: "capped (p2Inbox s) (p2Inbox (snd (snd (receive_reliable E p k ch o1 w d (put_conn q x s)))))" for o1 q x
    proof -
      obtain b R jb where sd: "stream_deliver ((recv_at s (StreamKey p k ch o1))
          \<lparr>rsPeer := p, rsSocket := k, rsChannel := ch, rsOrdered := o1\<rparr>) (p2Inbox s) w d = (b, R, jb)"
        by (metis prod_cases3)
      then have "capped (p2Inbox s) jb" using Drain_inbox ib by (auto simp: stream_deliver_def)
      with sd show ?thesis by (simp add: receive_reliable_def)
    qed
    show ?thesis unfolding body on_data_def using rr Enqueue_capped
      by (auto simp: Let_def case_prod_beta)
  qed
  show ?thesis
    by (auto simp: OnDatagram_def case_prod_beta Let_def data on_connect_request_def on_connect_ignored_def
        on_connect_accept_def on_connect_close_def on_ack_def ClearStreams_def split: MessageType.splits option.splits)
qed

section \<open>Polling and clearing\<close>

lemma poll_then_receive:
  assumes "GetNextReceivedPacketSize K (Some opt) True s = (EOS_Success, Some n)"
    and "VersionInRange (roApiVersion opt) (EOS_P2P_RECEIVEPACKET_API_LATEST K)"
  shows "\<exists>p rp s'. ReceivePacket K (Some opt) True s = (EOS_Success, Some rp, s') \<and>
    p \<in> set (ibPackets (p2Inbox s)) \<and> channel_match opt p \<and> length (ipData p) = n \<and>
    rpData rp = take (roMaxDataSizeBytes opt) (ipData p) \<and> rpPeer rp = ipPeer p \<and> rpChannel rp = ipChannel p \<and>
    length (ibPackets (p2Inbox s')) + 1 = length (ibPackets (p2Inbox s))"
proof -
  from assms(1) obtain p where p: "find (channel_match opt) (ibPackets (p2Inbox s)) = Some p" "length (ipData p) = n"
    by (auto simp: GetNextReceivedPacketSize_def split: if_splits option.splits)
  then have mem: "p \<in> set (ibPackets (p2Inbox s))" "channel_match opt p"
    by (auto simp: find_Some_iff)
  then have "length (erase_first (channel_match opt) (ibPackets (p2Inbox s))) + 1 = length (ibPackets (p2Inbox s))"
    using length_pos_if_in_set [OF mem(1)] by (auto simp: length_erase_first)
  with p mem assms(2) show ?thesis by (intro exI [of _ p]) (simp add: ReceivePacket_def Let_def)
qed

lemma clear_queue_eq:
  "(\<Sum>p\<leftarrow>ps. length (ipData p)) \<le> n \<Longrightarrow>
   clear_queue P ps n = (filter (\<lambda>p. \<not> P p) ps, n - (\<Sum>p\<leftarrow>filter P ps. length (ipData p)))"
  by (induction P ps n rule: clear_queue.induct) auto

lemma ClearPacketQueue_effect:
  assumes "p2p_inv c s" "opt = \<lparr>coRemoteUserId = peer, coSocketId = sid\<rparr>"
  shows "\<exists>s'. ClearPacketQueue K (Some opt) s = (EOS_Success, s') \<and> p2p_inv c s' \<and>
    ibPackets (p2Inbox s') =
      (if peer = None \<and> sid = None then []
       else filter (\<lambda>p. \<not> ((peer = None \<or> peer = Some (ipPeer p)) \<and>
              (SocketName K sid = [] \<or> ipSocket p = SocketName K sid))) (ibPackets (p2Inbox s)))"
proof (cases "peer = None \<and> sid = None")
  case True
  with assms show ?thesis
    by (simp add: ClearPacketQueue_def Let_def p2p_inv_def inbox_inv_def regs_ok_def)
next
  case False
  let ?P = "\<lambda>p. (peer = None \<or> peer = Some (ipPeer p)) \<and> (SocketName K sid = [] \<or> ipSocket p = SocketName K sid)"
  let ?ib = "p2Inbox s"
  have ib: "ibBytes ?ib = (\<Sum>p\<leftarrow>ibPackets ?ib. length (ipData p))" using assms(1) by (simp add: p2p_inv_def inbox_inv_def)
  then have c: "clear_queue ?P (ibPackets ?ib) (ibBytes ?ib) =
      (filter (\<lambda>p. \<not> ?P p) (ibPackets ?ib), ibBytes ?ib - (\<Sum>p\<leftarrow>filter ?P (ibPackets ?ib). length (ipData p)))"
    by (intro clear_queue_eq) simp
  have "ibBytes ?ib - (\<Sum>p\<leftarrow>filter ?P (ibPackets ?ib). length (ipData p)) =
      (\<Sum>p\<leftarrow>filter (\<lambda>p. \<not> ?P p) (ibPackets ?ib). length (ipData p))"
    using sum_list_filter_split [of "\<lambda>p. length (ipData p)" ?P "ibPackets ?ib"] ib by simp
  then have "p2p_inv c (s\<lparr>p2Inbox := ?ib\<lparr>ibPackets := filter (\<lambda>p. \<not> ?P p) (ibPackets ?ib),
      ibBytes := ibBytes ?ib - (\<Sum>p\<leftarrow>filter ?P (ibPackets ?ib). length (ipData p))\<rparr>\<rparr>)"
    using assms(1) by (auto simp: p2p_inv_def inbox_inv_def regs_ok_def)
  then show ?thesis using False c unfolding assms(2) ClearPacketQueue_def
    by (simp add: Let_def del: de_Morgan_conj de_Morgan_disj)
qed

section \<open>Closing\<close>

text \<open>Closing a connection forgets it and every stream under it, and nothing else.\<close>

lemma CloseConnection_effect:
  assumes "CloseConnection E K (Some \<lparr>coRemoteUserId = Some peer, coSocketId = sid\<rparr>) s = (r, s', ev)"
    and "NUL \<notin> set peer"
  shows "r = EOS_Success \<and>
    map_of (p2Connections s') = (map_of (p2Connections s))(ConnKey peer (SocketName K sid) := None) \<and>
    (\<forall>q t c o1. NUL \<notin> set q \<and> NUL \<notin> set t \<longrightarrow>
       map_of (p2SendStreams s') (StreamKey q t c o1) =
         (if q = peer \<and> t = SocketName K sid then None else map_of (p2SendStreams s) (StreamKey q t c o1)) \<and>
       map_of (p2RecvStreams s') (StreamKey q t c o1) =
         (if q = peer \<and> t = SocketName K sid then None else map_of (p2RecvStreams s) (StreamKey q t c o1)))"
proof -
  from assms(1) have r: "r = EOS_Success"
    and s': "s' = ClearStreams peer (SocketName K sid)
        (s\<lparr>p2Connections := AList.delete (ConnKey peer (SocketName K sid)) (p2Connections s)\<rparr>)"
    by (auto simp: CloseConnection_def Let_def)
  show ?thesis
    using SocketName_no_NUL [of K sid] assms(2)
    by (auto simp: r s' ClearStreams_def map_of_clear_map key_under_StreamKey)
qed

section \<open>The loss injector\<close>

lemma RawSend_no_loss:
  "p2TestLossPermille s = 0 \<Longrightarrow> RawSend E to ty pl s = (s, map Sent (SendTo (peNode E) to ty pl (W_Size pl)))"
  by (simp add: RawSend_def)

lemma RawSend_total_loss: "1000 \<le> p2TestLossPermille s \<Longrightarrow> snd (RawSend E to ty pl s) = []"
proof -
  assume p: "1000 \<le> p2TestLossPermille s"
  have "unat (loss_hash (p2SendCounter s) mod 1000) < 1000"
    by (simp add: unat_mod)
  with p show ?thesis by (simp add: RawSend_def Let_def)
qed

lemma ReadLossPermille_le: "ReadLossPermille env \<le> 1000"
  by (auto simp: ReadLossPermille_def Let_def nat_le_iff split: option.splits)

section \<open>Interruption and time-out\<close>

text \<open>How one pump may change one connection.\<close>

definition conn_evolves :: "time_ns \<Rightarrow> Connection \<Rightarrow> Connection \<Rightarrow> bool" where
  "conn_evolves now c c' \<longleftrightarrow> c' = c \<or>
     (\<not> cnInterrupted c \<and> c' = c\<lparr>cnInterrupted := True, cnInterruptedAt := now\<rparr>)"

lemma conn_evolves_refl [simp]: "conn_evolves now c c"
  by (simp add: conn_evolves_def)

lemma conn_evolves_trans: "conn_evolves now a b \<Longrightarrow> conn_evolves now b c \<Longrightarrow> conn_evolves now a c"
  by (auto simp: conn_evolves_def)

lemma interrupt_evolves:
  "interrupt now p k cs = (cs', intr) \<Longrightarrow>
     (\<forall>j c. map_of cs j = Some c \<longrightarrow> (\<exists>c'. map_of cs' j = Some c' \<and> conn_evolves now c c')) \<and>
     (\<forall>j. map_of cs j = None \<longrightarrow> map_of cs' j = None)"
  by (auto simp: interrupt_def conn_evolves_def split: option.splits if_splits)

lemma pump_streams_evolves:
  "pump_streams now m cs = (m', cs', out, intr) \<Longrightarrow>
     (\<forall>j c. map_of cs j = Some c \<longrightarrow> (\<exists>c'. map_of cs' j = Some c' \<and> conn_evolves now c c')) \<and>
     (\<forall>j. map_of cs j = None \<longrightarrow> map_of cs' j = None)"
proof (induction now m cs arbitrary: m' cs' out intr rule: pump_streams.induct)
  case (1 now cs)
  then show ?case by simp
next
  case (2 now k S m cs)
  show ?case
  proof (cases "ssPending S = []")
    case True
    with 2(1) [OF True] 2(3) show ?thesis by (auto split: prod.splits)
  next
    case False
    obtain ps out1 ex where p: "pump_pending now (RtoFor S) (ssPending S) = (ps, out1, ex)"
      by (cases "pump_pending now (RtoFor S) (ssPending S)")
    obtain cs1 intr1 where i: "(if ex then interrupt now (ssPeer S) (ssSocket S) cs else (cs, [])) = (cs1, intr1)"
      by (cases "if ex then interrupt now (ssPeer S) (ssSocket S) cs else (cs, [])")
    obtain m2 cs2 out2 intr2 where r: "pump_streams now m cs1 = (m2, cs2, out2, intr2)"
      by (cases "pump_streams now m cs1")
    have "cs' = cs2" using 2(3) False p i r by simp
    moreover note 2(2) [OF False p [symmetric] refl i [symmetric] r]
    moreover have "(\<forall>j c. map_of cs j = Some c \<longrightarrow> (\<exists>c'. map_of cs1 j = Some c' \<and> conn_evolves now c c')) \<and>
        (\<forall>j. map_of cs j = None \<longrightarrow> map_of cs1 j = None)"
      using i interrupt_evolves [of now "ssPeer S" "ssSocket S" cs cs1 intr1] by (cases ex) auto
    ultimately show ?thesis using conn_evolves_trans by meson
  qed
qed

lemma p2Connections_resend [simp]: "p2Connections (fst (resend E out s)) = p2Connections s"
proof (induction E out s rule: resend.induct)
  case (2 E to payload ts s)
  obtain s1 ev1 where r: "RawSend E to P2PData payload s = (s1, ev1)"
    by (cases "RawSend E to P2PData payload s")
  then have "p2Connections s1 = p2Connections s" using RawSend_fields(4) [of E to P2PData payload s] by simp
  with 2 r show ?case by (auto split: prod.splits)
qed simp

text \<open>The state machine of a connection under the pump: it is closed exactly when it has been
  interrupted for the whole grace period; otherwise it stays, and may become interrupted now.\<close>

lemma Pump_connection:
  assumes inv: "p2p_inv i s" and c: "map_of (p2Connections s) k = Some c"
  shows "map_of (p2Connections (fst (Pump E K now s))) k =
      (if grace_over now c then None else map_of (p2Connections (fst (Pump E K now s))) k) \<and>
    (\<not> grace_over now c \<longrightarrow>
       (\<exists>c'. map_of (p2Connections (fst (Pump E K now s))) k = Some c' \<and> conn_evolves now c c'))"
proof -
  obtain rm ib where d: "drain_all (p2RecvStreams s) (p2Inbox s) = (rm, ib)"
    by (cases "drain_all (p2RecvStreams s) (p2Inbox s)")
  obtain sm cs out intr where p: "pump_streams now (p2SendStreams s) (p2Connections s) = (sm, cs, out, intr)"
    by (cases "pump_streams now (p2SendStreams s) (p2Connections s)")
  from pump_streams_evolves [OF p] c obtain c' where c': "map_of cs k = Some c'" "conn_evolves now c c'" by blast
  have "map_ok conn_ok cs" using pump_streams_inv [of "p2SendStreams s" "p2Connections s" now] inv p
    by (simp add: p2p_inv_def)
  then have dist: "distinct (keys cs)" by (simp add: map_ok_def)
  have conns: "p2Connections (fst (Pump E K now s)) = filter (\<lambda>(k, c). \<not> grace_over now c) cs"
    by (simp add: Pump_def pump_locked_def d p case_prod_beta grace_sweep_conns)
  have mf: "map_of (filter (\<lambda>(k, c). \<not> grace_over now c) cs) k = (if grace_over now c' then None else Some c')"
    using c'(1) dist
  proof (induction cs)
    case Nil
    then show ?case by simp
  next
    case (Cons x cs)
    obtain j y where x: "x = (j, y)" by (cases x)
    show ?case
    proof (cases "j = k")
      case True
      with Cons.prems x have "k \<notin> set (keys cs)" "y = c'" by auto
      then have "map_of (filter (\<lambda>(k, c). \<not> grace_over now c) cs) k = None"
        by (force simp: map_of_eq_None_iff)
      with True x \<open>y = c'\<close> show ?thesis by simp
    next
      case False
      with Cons x show ?thesis by simp
    qed
  qed
  have go: "grace_over now c' \<longleftrightarrow> grace_over now c"
    using c'(2) by (auto simp: conn_evolves_def grace_over_def ms_def kInterruptedGrace_def)
  show ?thesis unfolding conns mf go using c'(2) by auto
qed

section \<open>A stream one side has forgotten\<close>

text \<open>When the sender's stream has been cleared and numbering starts again at 1 while the receiver
  still holds the old stream, the receiver takes the new first packet for a duplicate, delivers
  nothing and acknowledges it; the sender then drops it as delivered.\<close>

lemma restarted_stream_loses:
  assumes R: "rs_inv R" "2 \<le> rsNextExpected R" "rsNextExpected R \<le> 2 ^ 31" "rsBuffer R = []"
    and send: "stream_send now p q k ch m to d SendStream_default = (pl, S)"
    and deliver: "stream_deliver R ib (seq_low 1) d = (b, R', ib')"
  shows "ib' = ib \<and> R' = R \<and> ssPending (stream_ack now' (seq_low (ack_seq R')) (sack_bits R') S) = []"
proof -
  have "ext_seq (rsNextExpected R) (seq_low 1) = 1" by (rule ext_seq_near) (use R(3) in auto)
  moreover have "stream_receive R 1 d = R" using R(2) by (simp add: stream_receive_def is_duplicate_def)
  moreover have "DrainRecvStream R ib = (False, R, ib)"
    using R(4) by (simp add: DrainRecvStream_def drain_ordered.simps)
  ultimately have same: "ib' = ib \<and> R' = R" using deliver by (simp add: stream_deliver_def)
  have S: "ssNextSeq S = 2" "keys (ssPending S) = [1]" "smap_ok (ssPending S)"
    using send by (auto simp: stream_send_def Let_def SendStream_default_def smap_ok_Cons)
  have "ext_seq (ssNextSeq S) (seq_low (ack_seq R)) = ack_seq R"
    by (rule ext_seq_near) (use R(2,3) S(1) in \<open>auto simp: ack_seq_def\<close>)
  moreover have "1 \<le> ack_seq R" using R(2) by (simp add: ack_seq_def)
  ultimately have "ssPending (stream_ack now' (seq_low (ack_seq R)) (sack_bits R) S) = []"
    using stream_ack_eq [OF S(3), of now' "seq_low (ack_seq R)" "sack_bits R"] S(2)
    by (auto simp: named_by_def filter_empty_conv)
  with same show ?thesis by simp
qed

section \<open>Sending\<close>

text \<open>A packet for a peer the directory does not know is reported sent and then kept nowhere: the
  only state it touches is the connection table.\<close>

lemma SendPacket_undiscovered:
  assumes "SendPacket E K now (Some opt) s = (r, s', ev)"
    and "\<not> ep_Valid (EndpointFor (pePeers E) (the (spRemoteUserId opt)))"
  shows "r \<in> {EOS_Success, EOS_NoConnection, EOS_InvalidParameters, EOS_IncompatibleVersion, EOS_LimitExceeded} \<and>
    ev = [] \<and> p2SendStreams s' = p2SendStreams s \<and> p2Inbox s' = p2Inbox s \<and> p2RecvStreams s' = p2RecvStreams s"
  using assms
  by (auto simp: SendPacket_def send_connect_def Let_def split: if_splits option.splits)

text \<open>A reliable packet that is accepted for a known peer is pending under the stream's next
  number, framed as it was sent.\<close>

lemma SendPacket_success:
  assumes "SendPacket E K now (Some opt) s = (EOS_Success, s', ev)" "spRemoteUserId opt = Some remote"
    and "rel = (if HasField (spApiVersion opt) 2 then spReliability opt else EOS_PR_ReliableOrdered K)"
  shows "\<exists>aa ep s1 ev1. send_connect E remote (SocketName K (spSocketId opt)) aa s = Some (ep, s1, ev1) \<and>
    (ep_Valid ep \<longrightarrow> s' = fst (RawSend E ep P2PData
       (fst (send_data E K now remote (SocketName K (spSocketId opt)) (spChannel opt) rel ep (sp_bytes opt) s1))
       (snd (send_data E K now remote (SocketName K (spSocketId opt)) (spChannel opt) rel ep (sp_bytes opt) s1))))"
proof -
  let ?socket = "SocketName K (spSocketId opt)"
  let ?aa = "\<not> HasField (spApiVersion opt) 3 \<or> spDisableAutoAccept opt = EOS_FALSE"
  have body: "(case send_connect E remote ?socket ?aa s of
        None \<Rightarrow> (EOS_NoConnection, s, [])
      | Some (ep, s1, ev1) \<Rightarrow>
          if \<not> ep_Valid ep then (EOS_Success, s1, ev1)
          else case send_data E K now remote ?socket (spChannel opt) rel ep (sp_bytes opt) s1 of
                 (payload, s2) \<Rightarrow>
                   (case RawSend E ep P2PData payload s2 of (s3, ev2) \<Rightarrow> (EOS_Success, s3, ev1 @ ev2))) =
      (EOS_Success, s', ev)"
    using assms(1,2) unfolding SendPacket_def Let_def assms(3)
    by (simp only: option.case option.sel split: if_split_asm) auto
  then obtain ep s1 ev1 where sc: "send_connect E remote ?socket ?aa s = Some (ep, s1, ev1)"
    by (cases "send_connect E remote ?socket ?aa s") auto
  with body show ?thesis
    by (intro exI [of _ ?aa] exI [of _ ep] exI [of _ s1] exI [of _ ev1]) (auto simp: case_prod_beta)
qed

lemma SendPacket_reliable:
  assumes "SendPacket E K now (Some opt) s = (EOS_Success, s', ev)"
    and "spRemoteUserId opt = Some remote" "ep_Valid (EndpointFor (pePeers E) remote)"
    and "rel = (if HasField (spApiVersion opt) 2 then spReliability opt else EOS_PR_ReliableOrdered K)"
    and "rel \<noteq> EOS_PR_UnreliableUnordered K"
    and "key = StreamKey remote (SocketName K (spSocketId opt)) (spChannel opt) (rel = EOS_PR_ReliableOrdered K)"
    and "p2p_inv i s"
  shows "\<exists>u. map_of (ssPending (send_at s' key)) (ssNextSeq (send_at s key)) = Some u \<and>
    ssNextSeq (send_at s' key) = Suc (ssNextSeq (send_at s key)) \<and> uaTries u = 1 \<and>
    uaPayload u = data_payload (peLocal E) (SocketName K (spSocketId opt)) (spChannel opt) (enum_byte rel)
      (seq_low (ssNextSeq (send_at s key))) (sp_bytes opt)"
proof -
  let ?socket = "SocketName K (spSocketId opt)" and ?ep = "EndpointFor (pePeers E) remote"
  obtain aa ep s1 ev1 where sc: "send_connect E remote ?socket aa s = Some (ep, s1, ev1)"
    and fin: "ep_Valid ep \<Longrightarrow> s' = fst (RawSend E ep P2PData
       (fst (send_data E K now remote ?socket (spChannel opt) rel ep (sp_bytes opt) s1))
       (snd (send_data E K now remote ?socket (spChannel opt) rel ep (sp_bytes opt) s1)))"
    using SendPacket_success [OF assms(1,2,4)] by blast
  then have ep: "ep = ?ep" and s1: "p2SendStreams s1 = p2SendStreams s"
    by (auto simp: send_connect_def Let_def split: if_splits option.splits)
  have send_eq: "send_at s1 j = send_at s j" for j by (simp add: send_at_def s1)
  obtain pl s2 where sd: "send_data E K now remote ?socket (spChannel opt) rel ep (sp_bytes opt) s1 = (pl, s2)"
    by (cases "send_data E K now remote ?socket (spChannel opt) rel ep (sp_bytes opt) s1")
  have s': "s' = fst (RawSend E ep P2PData pl s2)"
    using fin assms(3) sd ep by simp
  let ?u = "\<lparr>uaPayload = data_payload (peLocal E) ?socket (spChannel opt) (enum_byte rel)
      (seq_low (ssNextSeq (send_at s key))) (sp_bytes opt), uaTo = ep, uaFirstSent = now, uaLastSent = now, uaTries = 1\<rparr>"
  have ok: "smap_ok (ssPending (send_at s key))"
    using ss_inv_send_at [OF assms(7)] by (simp add: ss_inv_def)
  have "send_at s' key = send_at s2 key" by (simp add: s' send_at_def)
  also have "\<dots> = snd (stream_send now (peLocal E) remote ?socket (spChannel opt) (enum_byte rel) ep (sp_bytes opt) (send_at s key))"
    using sd assms(5,6) by (auto simp: send_data_def Let_def send_eq case_prod_beta send_at_def s1)
  finally show ?thesis using ok
    by (simp add: stream_send_def Let_def map_of_smap_put)
qed

end
