(* ===== verification/P2PReach.thy ===== *)
theory P2PReach
  imports P2PFacts
begin

text \<open>
  The states the peer-to-peer interface can reach: any sequence of calls, registrations, datagrams
  and pumps, at any times, with any peer directory.  Every reachable state satisfies
  \<open>p2p_inv\<close>: the byte count of the inbox is exact, the tables are keyed by their entries, every
  receive stream's counters agree with its buffer, every send stream's pending numbers are below the
  next one, and registration ids are distinct.  Registration ids come from a process-wide counter, which
  the registries of other interfaces advance too.
\<close>

inductive p2p_step :: "sdk \<Rightarrow> nat \<times> p2p \<Rightarrow> nat \<times> p2p \<Rightarrow> bool" for K where
  send: "p2p_step K (c, s) (c, fst (snd (SendPacket E K now sopt s)))"
| receive: "p2p_step K (c, s) (c, snd (snd (ReceivePacket K ropt outs s)))"
| accept: "p2p_step K (c, s) (c, fst (snd (AcceptConnection E K copt s)))"
| close: "p2p_step K (c, s) (c, fst (snd (CloseConnection E K copt s)))"
| close_all: "p2p_step K (c, s) (c, fst (snd (CloseConnections E K lopt s)))"
| datagram: "p2p_step K (c, s) (c, fst (OnDatagram E K now from ty pl s))"
| pump: "p2p_step K (c, s) (c, fst (Pump E K now s))"
| queue_size: "p2p_step K (c, s) (c, snd (SetPacketQueueSize n s))"
| clear: "p2p_step K (c, s) (c, snd (ClearPacketQueue K copt s))"
| relay: "p2p_step K (c, s) (c, snd (SetRelayControl e s))"
| ports: "p2p_step K (c, s) (c, snd (SetPortRange r s))"
| add_request: "p2p_step K (c, s) (snd (AddNotifyPeerConnectionRequest K sid cb cd c s))"
| add_established: "p2p_step K (c, s) (snd (AddNotifyPeerConnectionEstablished K sid cb cd c s))"
| add_interrupted: "p2p_step K (c, s) (snd (AddNotifyPeerConnectionInterrupted K sid cb cd c s))"
| add_closed: "p2p_step K (c, s) (snd (AddNotifyPeerConnectionClosed K sid cb cd c s))"
| add_full: "p2p_step K (c, s) (snd (AddNotifyIncomingPacketQueueFull cb cd c s))"
| remove_request: "p2p_step K (c, s) (c, RemoveNotifyPeerConnectionRequest i s)"
| remove_established: "p2p_step K (c, s) (c, RemoveNotifyPeerConnectionEstablished i s)"
| remove_interrupted: "p2p_step K (c, s) (c, RemoveNotifyPeerConnectionInterrupted i s)"
| remove_closed: "p2p_step K (c, s) (c, RemoveNotifyPeerConnectionClosed i s)"
| remove_full: "p2p_step K (c, s) (c, RemoveNotifyIncomingPacketQueueFull i s)"
| other_ids: "c \<le> c' \<Longrightarrow> p2p_step K (c, s) (c', s)"

definition p2p_reach :: "sdk \<Rightarrow> nat \<times> p2p \<Rightarrow> bool" where
  "p2p_reach K cs \<longleftrightarrow> (\<exists>env rel. (p2p_step K)\<^sup>*\<^sup>* (1, P2PInterface env rel) cs)"

lemma add_filtered_inv:
  "reg_inv c es \<Longrightarrow> add_filtered K sid cb cd c es = (i, c', es') \<Longrightarrow> c \<le> c' \<and> reg_inv c' es'"
  by (auto simp: add_filtered_def NextId_def split: option.splits intro!: reg_inv_add)

lemma Notify_Add_inv:
  "reg_inv c es \<Longrightarrow> Notify_Add cb cd c es = (i, c', es') \<Longrightarrow> c \<le> c' \<and> reg_inv c' es'"
  by (auto simp: Notify_Add_def NextId_def split: option.splits intro!: reg_inv_add)

lemma p2p_inv_later: "p2p_inv c s \<Longrightarrow> c \<le> c' \<Longrightarrow> p2p_inv c' s"
  by (auto simp: p2p_inv_def regs_ok_def intro: reg_inv_mono)

lemma p2p_inv_regs:
  assumes "p2p_inv c s" "c \<le> c'" "reg_inv c' es"
  shows "p2p_inv c' (s\<lparr>p2ConnRequest := es\<rparr>)" "p2p_inv c' (s\<lparr>p2ConnEstablished := es\<rparr>)"
    "p2p_inv c' (s\<lparr>p2ConnInterrupted := es\<rparr>)" "p2p_inv c' (s\<lparr>p2ConnClosed := es\<rparr>)"
  using p2p_inv_later [OF assms(1,2)] assms(3) by (simp_all add: p2p_inv_def regs_ok_def)

lemma p2p_inv_adds:
  assumes inv: "p2p_inv c s"
  shows "snd (AddNotifyPeerConnectionRequest K sid cb cd c s) = (a, b) \<Longrightarrow> p2p_inv a b"
    "snd (AddNotifyPeerConnectionEstablished K sid cb cd c s) = (a, b) \<Longrightarrow> p2p_inv a b"
    "snd (AddNotifyPeerConnectionInterrupted K sid cb cd c s) = (a, b) \<Longrightarrow> p2p_inv a b"
    "snd (AddNotifyPeerConnectionClosed K sid cb cd c s) = (a, b) \<Longrightarrow> p2p_inv a b"
    "snd (AddNotifyIncomingPacketQueueFull cb cd c s) = (a, b) \<Longrightarrow> p2p_inv a b"
proof -
  have add: "c \<le> c' \<and> reg_inv c' es'" if "reg_inv c es" "add_filtered K sid cb cd c es = (i, c', es')" for es i c' es'
    using add_filtered_inv that .
  from inv have r: "reg_inv c (p2ConnRequest s)" "reg_inv c (p2ConnEstablished s)" "reg_inv c (p2ConnInterrupted s)"
    "reg_inv c (p2ConnClosed s)" "reg_inv c (p2QueueFull s)" by (simp_all add: p2p_inv_def regs_ok_def)
  show "snd (AddNotifyPeerConnectionRequest K sid cb cd c s) = (a, b) \<Longrightarrow> p2p_inv a b"
    by (cases "add_filtered K sid cb cd c (p2ConnRequest s)")
      (use add [OF r(1)] p2p_inv_regs(1) [OF inv] in \<open>auto simp: AddNotifyPeerConnectionRequest_def\<close>)
  show "snd (AddNotifyPeerConnectionEstablished K sid cb cd c s) = (a, b) \<Longrightarrow> p2p_inv a b"
    by (cases "add_filtered K sid cb cd c (p2ConnEstablished s)")
      (use add [OF r(2)] p2p_inv_regs(2) [OF inv] in \<open>auto simp: AddNotifyPeerConnectionEstablished_def\<close>)
  show "snd (AddNotifyPeerConnectionInterrupted K sid cb cd c s) = (a, b) \<Longrightarrow> p2p_inv a b"
    by (cases "add_filtered K sid cb cd c (p2ConnInterrupted s)")
      (use add [OF r(3)] p2p_inv_regs(3) [OF inv] in \<open>auto simp: AddNotifyPeerConnectionInterrupted_def\<close>)
  show "snd (AddNotifyPeerConnectionClosed K sid cb cd c s) = (a, b) \<Longrightarrow> p2p_inv a b"
    by (cases "add_filtered K sid cb cd c (p2ConnClosed s)")
      (use add [OF r(4)] p2p_inv_regs(4) [OF inv] in \<open>auto simp: AddNotifyPeerConnectionClosed_def\<close>)
  show "snd (AddNotifyIncomingPacketQueueFull cb cd c s) = (a, b) \<Longrightarrow> p2p_inv a b"
    by (cases "Notify_Add cb cd c (p2QueueFull s)")
      (use Notify_Add_inv [OF r(5)] p2p_inv_later [OF inv] in
        \<open>fastforce simp: AddNotifyIncomingPacketQueueFull_def p2p_inv_def regs_ok_def\<close>)
qed

lemma p2p_inv_removes [inv_intros]:
  assumes "p2p_inv c s"
  shows "p2p_inv c (RemoveNotifyPeerConnectionRequest i s)" "p2p_inv c (RemoveNotifyPeerConnectionEstablished i s)"
    "p2p_inv c (RemoveNotifyPeerConnectionInterrupted i s)" "p2p_inv c (RemoveNotifyPeerConnectionClosed i s)"
    "p2p_inv c (RemoveNotifyIncomingPacketQueueFull i s)"
  using assms
  by (simp_all add: RemoveNotifyPeerConnectionRequest_def RemoveNotifyPeerConnectionEstablished_def
      RemoveNotifyPeerConnectionInterrupted_def RemoveNotifyPeerConnectionClosed_def
      RemoveNotifyIncomingPacketQueueFull_def Notify_Remove_def p2p_inv_def regs_ok_def reg_inv_remove)

lemma p2p_inv_settings [inv_intros]:
  assumes "p2p_inv c s"
  shows "p2p_inv c (snd (SetPacketQueueSize n s))" "p2p_inv c (snd (SetRelayControl e s))"
    "p2p_inv c (snd (SetPortRange r s))"
  using assms by (auto simp: SetPacketQueueSize_def SetRelayControl_def SetPortRange_def p2p_inv_def
      inbox_inv_def regs_ok_def split: option.splits)

lemma p2p_inv_ClearPacketQueue [inv_intros]:
  assumes "p2p_inv c s" shows "p2p_inv c (snd (ClearPacketQueue K opt s))"
proof (cases opt)
  case None
  with assms show ?thesis by (simp add: ClearPacketQueue_def)
next
  case (Some o1)
  obtain peer sid where "o1 = \<lparr>coRemoteUserId = peer, coSocketId = sid\<rparr>" by (metis ConnectionOptions.cases)
  from ClearPacketQueue_effect [OF assms this, of K] Some show ?thesis by auto
qed

lemma p2p_inv_step: "p2p_step K x y \<Longrightarrow> case_prod p2p_inv x \<Longrightarrow> case_prod p2p_inv y"
  by (induction rule: p2p_step.induct)
    (auto intro: p2p_inv_SendPacket p2p_inv_ReceivePacket p2p_inv_AcceptConnection
      p2p_inv_CloseConnection p2p_inv_CloseConnections p2p_inv_OnDatagram p2p_inv_Pump p2p_inv_later
      p2p_inv_adds p2p_inv_removes p2p_inv_settings p2p_inv_ClearPacketQueue)

lemma p2p_inv_reach: "p2p_reach K (c, s) \<Longrightarrow> p2p_inv c s"
proof -
  assume "p2p_reach K (c, s)"
  then obtain env rel where "(p2p_step K)\<^sup>*\<^sup>* (1, P2PInterface env rel) (c, s)" by (auto simp: p2p_reach_def)
  then have "case_prod p2p_inv (c, s)"
  proof (induction rule: rtranclp_induct)
    case base
    show ?case using p2p_inv_init [of env rel] by simp
  next
    case (step y z)
    show ?case by (rule p2p_inv_step [OF step(2,3)])
  qed
  then show ?thesis by simp
qed

end
