(* ===== verification/Effects.thy ===== *)
theory Effects
  imports Lan
begin

text \<open>
  What an interface operation does to the outside, in order: calls of the transport
  (\<open>Platform_.Net()\<close>, whose effect is given by \<open>SendTo\<close> and \<open>Broadcast\<close> of theory
  Lan) and closures posted to the dispatcher (\<open>Platform_.Dispatch().Post\<close>, theory Dispatch).
\<close>

datatype net_call =
    CallSendTo Endpoint MessageType bytes u16
  | CallBroadcast MessageType bytes u16

datatype 'a event = EvNet net_call | EvPost 'a

definition send_msg :: "Endpoint \<Rightarrow> MessageType \<Rightarrow> bytes \<Rightarrow> 'a event" where
  "send_msg to ty w = EvNet (CallSendTo to ty w (W_Size w))"

definition bcast_msg :: "MessageType \<Rightarrow> bytes \<Rightarrow> 'a event" where
  "bcast_msg ty w = EvNet (CallBroadcast ty w (W_Size w))"

text \<open>A completion callback: posted once, unless it is null.\<close>

definition complete :: "nat option \<Rightarrow> (nat \<Rightarrow> 'a) \<Rightarrow> 'a event list" where
  "complete cb info = (case cb of None \<Rightarrow> [] | Some f \<Rightarrow> [EvPost (info f)])"

definition posts :: "'a event list \<Rightarrow> 'a list" where
  "posts evs = concat (map (\<lambda>e. case e of EvPost t \<Rightarrow> [t] | EvNet _ \<Rightarrow> []) evs)"

definition net_calls :: "'a event list \<Rightarrow> net_call list" where
  "net_calls evs = concat (map (\<lambda>e. case e of EvPost _ \<Rightarrow> [] | EvNet c \<Rightarrow> [c]) evs)"

lemma posts_simps [simp]:
  "posts [] = []" "posts (EvPost t # evs) = t # posts evs" "posts (EvNet c # evs) = posts evs"
  "posts (a @ b) = posts a @ posts b" "posts (send_msg to ty w # evs) = posts evs"
  "posts (bcast_msg ty w # evs) = posts evs"
  by (simp_all add: posts_def send_msg_def bcast_msg_def)

lemma net_calls_simps [simp]:
  "net_calls [] = []" "net_calls (EvPost t # evs) = net_calls evs" "net_calls (EvNet c # evs) = c # net_calls evs"
  "net_calls (a @ b) = net_calls a @ net_calls b"
  "net_calls (send_msg to ty w # evs) = CallSendTo to ty w (W_Size w) # net_calls evs"
  "net_calls (bcast_msg ty w # evs) = CallBroadcast ty w (W_Size w) # net_calls evs"
  by (simp_all add: net_calls_def send_msg_def bcast_msg_def)

lemma complete_simps [simp]:
  "posts (complete None g) = []" "posts (complete (Some f) g) = [g f]"
  by (simp_all add: complete_def)

lemma net_calls_complete [simp]: "net_calls (complete cb g) = []"
  by (cases cb) (simp_all add: complete_def)

lemma net_calls_map_post [simp]: "net_calls (map (\<lambda>x. EvPost (g x)) xs) = []"
  by (induction xs) simp_all

lemma posts_map_post [simp]: "posts (map (\<lambda>x. EvPost (g x)) xs) = map g xs"
  by (induction xs) simp_all

end
