(* ===== verification/Records.thy ===== *)
theory Records
  imports Attributes Common Lan "HOL-Library.List_Lexorder" "HOL-Library.Char_ord"
begin

text \<open>
  What the two advertised records of the emulator, lobbies (\<open>src/interfaces/Lobby.cpp\<close>) and
  sessions (\<open>src/interfaces/Sessions.cpp\<close>), are handled with: sets of names
  (\<open>std::set<std::string>\<close>), the \<open>snprintf\<close> that mints backend ids, the edits of an
  attribute list, search parameters, and the wire form of the shared field types.

  The lemmas give the set, map or list each of these loops stands for.
\<close>

section \<open>Sets of strings\<close>

text \<open>\<open>std::set<std::string>\<close> is a sorted list without repetitions.\<close>

definition sset_insert :: "string \<Rightarrow> string list \<Rightarrow> string list" where
  "sset_insert x xs = insort_insert x xs"

definition sset_erase :: "string \<Rightarrow> string list \<Rightarrow> string list" where
  "sset_erase x xs = removeAll x xs"

lemma set_sset [simp]: "set (sset_insert x xs) = insert x (set xs)" "set (sset_erase x xs) = set xs - {x}"
  by (simp_all add: sset_insert_def sset_erase_def set_insort_insert)

lemma sset_sorted [simp]:
  "sorted xs \<Longrightarrow> sorted (sset_insert x xs)" "sorted xs \<Longrightarrow> sorted (sset_erase x xs)"
  "distinct xs \<Longrightarrow> distinct (sset_insert x xs)" "distinct xs \<Longrightarrow> distinct (sset_erase x xs)"
  by (simp_all add: sset_insert_def sset_erase_def sorted_insort_insert distinct_insort_insert
      distinct_removeAll removeAll_filter_not_eq sorted_wrt_filter)

definition sset_ok :: "string list \<Rightarrow> bool" where
  "sset_ok xs \<longleftrightarrow> sorted xs \<and> distinct xs"

lemma sset_ok_simps [simp]:
  "sset_ok []" "sset_ok xs \<Longrightarrow> sset_ok (sset_insert x xs)" "sset_ok xs \<Longrightarrow> sset_ok (sset_erase x xs)"
  by (simp_all add: sset_ok_def)

section \<open>C strings and minted ids\<close>

text \<open>\<open>c_str\<close> is what \<open>AttachString\<close> copies of a \<open>std::string\<close>: the characters before the
  first NUL; \<open>c_prefix n\<close> is what \<open>%.8s\<close> prints for \<open>n = 8\<close>.\<close>

definition c_str :: "string \<Rightarrow> string" where
  "c_str s = takeWhile (\<lambda>c. c \<noteq> CHR 0x00) s"

definition c_prefix :: "nat \<Rightarrow> string \<Rightarrow> string" where
  "c_prefix n s = takeWhile (\<lambda>c. c \<noteq> CHR 0x00) (take n s)"

text \<open>\<open>snprintf "lobby_%.8s_%llu_%llu"\<close> and \<open>"session_%.8s_%llu_%llu"\<close>: at most 58
  characters into a 96-byte buffer.\<close>

definition backend_id :: "string \<Rightarrow> string \<Rightarrow> u64 \<Rightarrow> nat \<Rightarrow> string" where
  "backend_id kind owner tick n = kind @ c_prefix 8 owner @ ''_'' @ dec_str (unat tick) @ ''_'' @ dec_str n"

lemma dec_str_inj: "dec_str a = dec_str b \<longleftrightarrow> a = b"
  using digits_value_dec_str by metis

lemma last_segment:
  assumes "c \<notin> set b" "c \<notin> set b'" "a @ c # b = a' @ c # b'"
  shows "b = b'"
proof -
  have tw: "takeWhile (\<lambda>x. x \<noteq> c) (rev (a @ c # b)) = rev b" if "c \<notin> set b" for a b :: "'a list"
    using that by (subst rev_append, simp, subst takeWhile_append2) (auto simp: takeWhile_append2)
  from tw [OF assms(1), of a] tw [OF assms(2), of a'] assms(3) show ?thesis by simp
qed

text \<open>Ids minted under different counter values differ, whoever the owner and whatever the clock.\<close>

lemma backend_id_inj:
  assumes "backend_id k p t n = backend_id k' p' t' n'" shows "n = n'"
proof -
  let ?c = "CHR ''_''"
  have d: "?c \<notin> set (dec_str n)" for n using dec_str_digits [of n] by (auto simp: is_digit_def)
  have "dec_str n = dec_str n'"
    by (rule last_segment [OF d d, where a = "k @ c_prefix 8 p @ ''_'' @ dec_str (unat t)"
        and a' = "k' @ c_prefix 8 p' @ ''_'' @ dec_str (unat t')"]) (use assms in \<open>simp add: backend_id_def\<close>)
  then show ?thesis by (simp add: dec_str_inj)
qed

lemma backend_id_ne [simp]: "backend_id k p t n \<noteq> []" "[] \<noteq> backend_id k p t n"
  by (simp_all add: backend_id_def)

section \<open>Settings and attribute lists\<close>

definition set_opt :: "'a option \<Rightarrow> 'a \<Rightarrow> 'a" where
  "set_opt new old = (case new of Some v \<Rightarrow> v | None \<Rightarrow> old)"

text \<open>Overwrite the first entry with the key, or append: \<open>AList.update\<close> is that loop.\<close>

definition add_attrs :: "(string \<times> 'a) list \<Rightarrow> (string \<times> 'a) list \<Rightarrow> (string \<times> 'a) list" where
  "add_attrs adds as = foldl (\<lambda>as kv. AList.update (fst kv) (snd kv) as) as adds"

definition remove_attrs :: "string list \<Rightarrow> (string \<times> 'a) list \<Rightarrow> (string \<times> 'a) list" where
  "remove_attrs ks as = foldl (\<lambda>as k. erase_first (\<lambda>kv. fst kv = k) as) as ks"

text \<open>As maps: added keys win over the old ones, removed keys are gone.\<close>

lemma map_of_add_attrs: "map_of (add_attrs adds as) = map_of as ++ map_of (rev adds)"
proof (induction adds arbitrary: as)
  case Nil
  then show ?case by (simp add: add_attrs_def)
next
  case (Cons kv adds)
  have "map_of (add_attrs (kv # adds) as) = map_of (AList.update (fst kv) (snd kv) as) ++ map_of (rev adds)"
    using Cons [of "AList.update (fst kv) (snd kv) as"] by (simp only: add_attrs_def foldl.simps)
  moreover have "map_of (rev (kv # adds)) = [fst kv \<mapsto> snd kv] ++ map_of (rev adds)"
    by (cases kv) (simp add: map_add_def fun_eq_iff split: option.splits)
  ultimately show ?case by (simp add: map_add_def fun_eq_iff split: option.splits)
qed

lemma distinct_add_attrs: "distinct (keys as) \<Longrightarrow> distinct (keys (add_attrs adds as))"
  by (induction adds arbitrary: as) (auto simp: add_attrs_def)

lemma erase_first_key: "distinct (keys as) \<Longrightarrow> erase_first (\<lambda>kv. fst kv = k) as = AList.delete k as"
  using erase_first_filter_distinct [of fst as k] by (auto simp: AList.delete_eq intro!: filter_cong)

lemma remove_attrs_props:
  "distinct (keys as) \<Longrightarrow> distinct (keys (remove_attrs ks as)) \<and>
     map_of (remove_attrs ks as) = (\<lambda>k. if k \<in> set ks then None else map_of as k)"
proof (induction ks arbitrary: as)
  case Nil
  then show ?case by (simp add: remove_attrs_def)
next
  case (Cons k ks)
  have "remove_attrs (k # ks) as = remove_attrs ks (AList.delete k as)"
    using erase_first_key [OF Cons.prems] by (simp add: remove_attrs_def)
  with Cons.IH [of "AList.delete k as"] Cons.prems show ?case by (auto simp: fun_eq_iff)
qed

lemma find_distinct: "distinct (map f xs) \<Longrightarrow> x \<in> set xs \<Longrightarrow> find (\<lambda>y. f y = f x) xs = Some x"
  by (induction xs) (auto simp: image_iff)

section \<open>Search\<close>

text \<open>The SDK's attribute structure, as an entry point receives it.\<close>

record AttributeData =
  adKey :: "string option"
  adType :: enum
  adInt :: u64
  adDbl :: u64
  adBool :: int
  adUtf8 :: "string option"

record SearchParam =
  seKey :: string
  seValue :: AttrValue
  seOp :: ComparisonOp

text \<open>Overwrite the parameter with the same key, or append.\<close>

fun put_param :: "SearchParam \<Rightarrow> SearchParam list \<Rightarrow> SearchParam list" where
  "put_param p [] = [p]"
| "put_param p (e # es) = (if seKey e = seKey p then p # es else e # put_param p es)"

lemma put_param_keys: "distinct (map seKey ps) \<Longrightarrow> distinct (map seKey (put_param p ps))"
proof -
  have "set (map seKey (put_param p ps)) = insert (seKey p) (set (map seKey ps))" for ps by (induction ps) auto
  then show "distinct (map seKey ps) \<Longrightarrow> distinct (map seKey (put_param p ps))" by (induction ps) auto
qed

text \<open>The first \<open>n\<close> matching records, gathered in order.\<close>

fun collect :: "('r \<Rightarrow> bool) \<Rightarrow> nat \<Rightarrow> 'r list \<Rightarrow> 'r list \<Rightarrow> 'r list" where
  "collect P n acc [] = acc"
| "collect P n acc (r # rs) =
     (if length acc \<ge> n then acc else collect P n (if P r then acc @ [r] else acc) rs)"

lemma collect_take: "collect P n acc rs = acc @ take (n - length acc) (filter P rs)"
proof (induction P n acc rs rule: collect.induct)
  case (1 P n acc)
  then show ?case by simp
next
  case (2 P n acc r rs)
  then show ?case by (auto simp: Suc_diff_le take_Cons' not_le)
qed

section \<open>Handle objects\<close>

text \<open>A mutator of a builder or search object: a null handle or options pointer, or options the
  mutator refuses, is an invalid parameter and leaves the object alone.\<close>

definition with_mod ::
  "'m option \<Rightarrow> 'o option \<Rightarrow> ('o \<Rightarrow> 'm \<Rightarrow> 'm option) \<Rightarrow> eresult \<times> 'm option" where
  "with_mod h options f =
     (case (h, options) of
        (Some m, Some opt) \<Rightarrow>
          (case f opt m of None \<Rightarrow> (EOS_InvalidParameters, h) | Some m' \<Rightarrow> (EOS_Success, Some m'))
      | _ \<Rightarrow> (EOS_InvalidParameters, h))"

definition with_search ::
  "'m option \<Rightarrow> 'o option option \<Rightarrow> ('o \<Rightarrow> 'm \<Rightarrow> 'm) \<Rightarrow> eresult \<times> 'm option" where
  "with_search h options f =
     (case (h, options) of
        (Some q, Some (Some v)) \<Rightarrow> (EOS_Success, Some (f v q))
      | _ \<Rightarrow> (EOS_InvalidParameters, h))"

text \<open>The attribute an accessor hands out: the union member its type selects is filled in.\<close>

record AttributeOut =
  aoKey :: string
  aoVisibility :: enum
  aoType :: enum
  aoInt :: "u64 option"
  aoDbl :: "u64 option"
  aoBool :: "int option"
  aoUtf8 :: "string option"

definition attribute_out :: "sdk \<Rightarrow> string \<Rightarrow> enum \<Rightarrow> AttrValue \<Rightarrow> AttributeOut" where
  "attribute_out K key vis v =
     (let t = avType v;
          out = \<lparr>aoKey = c_str key, aoVisibility = vis, aoType = t,
                 aoInt = None, aoDbl = None, aoBool = None, aoUtf8 = None\<rparr>
      in if t = EOS_AT_BOOLEAN K then out\<lparr>aoBool := Some (avBool v)\<rparr>
         else if t = EOS_AT_INT64 K then out\<lparr>aoInt := Some (avInt v)\<rparr>
         else if t = EOS_AT_DOUBLE K then out\<lparr>aoDbl := Some (avDbl v)\<rparr>
         else if t = EOS_AT_STRING K then out\<lparr>aoUtf8 := Some (c_str (avStr v))\<rparr>
         else out)"

section \<open>Wire form of flags and id lists\<close>

definition eos_bool :: "bool \<Rightarrow> int" where
  "eos_bool b = (if b then EOS_TRUE else EOS_FALSE)"

definition bool_ok :: "int \<Rightarrow> bool" where
  "bool_ok b \<longleftrightarrow> b = EOS_TRUE \<or> b = EOS_FALSE"

lemma eos_bool_ok: "bool_ok b \<Longrightarrow> eos_bool (b \<noteq> EOS_FALSE) = b"
  by (auto simp: bool_ok_def eos_bool_def EOS_TRUE_def EOS_FALSE_def)

lemma bool_ok_eos [simp]: "bool_ok (eos_bool b)"
  by (simp add: bool_ok_def eos_bool_def)

interpretation u32s: wire_codec "enc_list enc_u32" "read_list rd_u32" "list_wf (\<lambda>_. True)"
  by (rule list_codec [OF u32.wire_codec_axioms])

interpretation u32s_safe: safe_reader "read_list rd_u32"
  by (rule read_list_safe) unfold_locales

end
