(* ===== verification/LobbyData.thy ===== *)
theory LobbyData
  imports Records
begin

text \<open>
  The lobby records of \<open>src/interfaces/Lobby.h\<close>, the attribute-list edits and the record's
  wire form of \<open>src/interfaces/Lobby.cpp\<close>.

  The lemmas show that the record a node broadcasts is the record every other node reads, that the
  reader stays inside any datagram it is given, and how an attribute edit changes the map the list
  stands for.
\<close>

section \<open>Records\<close>

record LobbyAttr =
  laValue :: AttrValue
  laVisibility :: enum

type_synonym attr_list = "(string \<times> LobbyAttr) list"

record LobbyMemberRec =
  lmProductId :: string
  lmPlatform :: u32
  lmAttributes :: attr_list

definition Member_new :: "sdk \<Rightarrow> string \<Rightarrow> LobbyMemberRec" where
  "Member_new K pid = \<lparr>lmProductId = pid, lmPlatform = EOS_OPT_Epic K, lmAttributes = []\<rparr>"

record LobbyRecord =
  lrLobbyId :: string
  lrOwnerProductId :: string
  lrBucketId :: string
  lrMaxMembers :: u32
  lrPermission :: enum
  lrAllowInvites :: int
  lrAllowHostMigration :: int
  lrRTCRoomEnabled :: int
  lrPresenceEnabled :: int
  lrAllowJoinById :: int
  lrAttributes :: attr_list
  lrMembers :: "LobbyMemberRec list"
  lrAllowedPlatformIds :: "u32 list"
  lrHostEndpoint :: Endpoint
  lrVersion :: u64
  lrLastSeenTick :: u64

definition LobbyRecord_default :: "sdk \<Rightarrow> LobbyRecord" where
  "LobbyRecord_default K =
     \<lparr>lrLobbyId = [], lrOwnerProductId = [], lrBucketId = [], lrMaxMembers = 0,
      lrPermission = EOS_LPL_PUBLICADVERTISED K, lrAllowInvites = EOS_TRUE, lrAllowHostMigration = EOS_TRUE,
      lrRTCRoomEnabled = EOS_FALSE, lrPresenceEnabled = EOS_FALSE, lrAllowJoinById = EOS_FALSE,
      lrAttributes = [], lrMembers = [], lrAllowedPlatformIds = [], lrHostEndpoint = no_endpoint,
      lrVersion = 0, lrLastSeenTick = 0\<rparr>"

definition FindMember :: "LobbyRecord \<Rightarrow> string \<Rightarrow> LobbyMemberRec option" where
  "FindMember r pid = find (\<lambda>m. lmProductId m = pid) (lrMembers r)"

definition AvailableSlots :: "LobbyRecord \<Rightarrow> nat" where
  "AvailableSlots r =
     (let used = length (lrMembers r) mod 2 ^ 32 in
      if unat (lrMaxMembers r) > used then unat (lrMaxMembers r) - used else 0)"

text \<open>Erasing the first member with an id, and replacing the attributes of the first one.\<close>

definition erase_member :: "string \<Rightarrow> LobbyMemberRec list \<Rightarrow> LobbyMemberRec list" where
  "erase_member pid mems = erase_first (\<lambda>m. lmProductId m = pid) mems"

fun update_member :: "string \<Rightarrow> (LobbyMemberRec \<Rightarrow> LobbyMemberRec) \<Rightarrow> LobbyMemberRec list \<Rightarrow> LobbyMemberRec list" where
  "update_member pid f [] = []"
| "update_member pid f (m # mems) = (if lmProductId m = pid then f m # mems else m # update_member pid f mems)"

section \<open>Attribute lists\<close>

definition ApplyMemberAttrs :: "attr_list \<Rightarrow> string list \<Rightarrow> LobbyMemberRec \<Rightarrow> LobbyMemberRec" where
  "ApplyMemberAttrs adds removes m = m\<lparr>lmAttributes := remove_attrs removes (add_attrs adds (lmAttributes m))\<rparr>"

definition LobbyAttrEqual :: "sdk \<Rightarrow> LobbyAttr \<Rightarrow> LobbyAttr \<Rightarrow> bool" where
  "LobbyAttrEqual K a b \<longleftrightarrow> AttrEqual K (laValue a) (laValue b) \<and> laVisibility a = laVisibility b"

definition MemberAttrsEqual :: "sdk \<Rightarrow> attr_list \<Rightarrow> attr_list \<Rightarrow> bool" where
  "MemberAttrsEqual K a b \<longleftrightarrow> length a = length b \<and>
     list_all (\<lambda>(k, l). case find (\<lambda>kv. fst kv = k) b of None \<Rightarrow> False | Some (k', r) \<Rightarrow> LobbyAttrEqual K l r) a"

section \<open>Wire form\<close>

definition enc_lattr :: "sdk \<Rightarrow> string \<times> LobbyAttr \<Rightarrow> bytes" where
  "enc_lattr K ka = WriteAttrWire K (fst ka) (laValue (snd ka)) @ enc_u8 (enum_byte (laVisibility (snd ka)))"

definition read_lattr :: "sdk \<Rightarrow> reader \<Rightarrow> (string \<times> LobbyAttr) \<times> reader" where
  "read_lattr K r =
     (case ReadAttrWire K r of ((key, v), r1) \<Rightarrow> (case rd_u8 r1 of (vis, r2) \<Rightarrow>
        ((key, \<lparr>laValue = v, laVisibility = byte_enum vis\<rparr>), r2)))"

definition enc_member :: "sdk \<Rightarrow> LobbyMemberRec \<Rightarrow> bytes" where
  "enc_member K m = enc_str (lmProductId m) @ enc_u32 (lmPlatform m) @ enc_list (enc_lattr K) (lmAttributes m)"

definition read_member :: "sdk \<Rightarrow> reader \<Rightarrow> LobbyMemberRec \<times> reader" where
  "read_member K r =
     (case rd_str r of (pid, r1) \<Rightarrow> (case rd_u32 r1 of (platform, r2) \<Rightarrow>
      (case read_list (read_lattr K) r2 of (attrs, r3) \<Rightarrow>
        (\<lparr>lmProductId = pid, lmPlatform = platform, lmAttributes = attrs\<rparr>, r3))))"

definition SerializeRecord :: "sdk \<Rightarrow> LobbyRecord \<Rightarrow> bytes" where
  "SerializeRecord K rec =
     enc_str (lrLobbyId rec) @ enc_str (lrOwnerProductId rec) @ enc_str (lrBucketId rec) @
     enc_u32 (lrMaxMembers rec) @ enc_u8 (enum_byte (lrPermission rec)) @
     enc_bool (lrAllowInvites rec \<noteq> EOS_FALSE) @ enc_bool (lrAllowHostMigration rec \<noteq> EOS_FALSE) @
     enc_bool (lrRTCRoomEnabled rec \<noteq> EOS_FALSE) @ enc_bool (lrPresenceEnabled rec \<noteq> EOS_FALSE) @
     enc_bool (lrAllowJoinById rec \<noteq> EOS_FALSE) @ enc_u64 (lrVersion rec) @
     enc_list enc_u32 (lrAllowedPlatformIds rec) @ enc_list (enc_lattr K) (lrAttributes rec) @
     enc_list (enc_member K) (lrMembers rec)"

definition DeserializeRecord :: "sdk \<Rightarrow> reader \<Rightarrow> LobbyRecord \<times> reader" where
  "DeserializeRecord K r0 =
     (case rd_str r0 of (lobby, r1) \<Rightarrow> case rd_str r1 of (owner, r2) \<Rightarrow> case rd_str r2 of (bucket, r3) \<Rightarrow>
      case rd_u32 r3 of (maxm, r4) \<Rightarrow> case rd_u8 r4 of (perm, r5) \<Rightarrow> case rd_bool r5 of (invites, r6) \<Rightarrow>
      case rd_bool r6 of (migration, r7) \<Rightarrow> case rd_bool r7 of (rtc, r8) \<Rightarrow> case rd_bool r8 of (presence, r9) \<Rightarrow>
      case rd_bool r9 of (byid, r10) \<Rightarrow> case rd_u64 r10 of (version, r11) \<Rightarrow>
      case read_list rd_u32 r11 of (platforms, r12) \<Rightarrow> case read_list (read_lattr K) r12 of (attrs, r13) \<Rightarrow>
      case read_list (read_member K) r13 of (members, r14) \<Rightarrow>
        ((LobbyRecord_default K)
           \<lparr>lrLobbyId := lobby, lrOwnerProductId := owner, lrBucketId := bucket, lrMaxMembers := maxm,
            lrPermission := byte_enum perm, lrAllowInvites := eos_bool invites,
            lrAllowHostMigration := eos_bool migration, lrRTCRoomEnabled := eos_bool rtc,
            lrPresenceEnabled := eos_bool presence, lrAllowJoinById := eos_bool byid, lrVersion := version,
            lrAllowedPlatformIds := platforms, lrAttributes := attrs, lrMembers := members\<rparr>, r14))"

section \<open>Round trip\<close>

definition lattr_ok :: "sdk \<Rightarrow> string \<times> LobbyAttr \<Rightarrow> bool" where
  "lattr_ok K ka \<longleftrightarrow> wire_attr_ok K (fst ka, laValue (snd ka)) \<and>
     0 \<le> laVisibility (snd ka) \<and> laVisibility (snd ka) < 256"

definition member_ok :: "sdk \<Rightarrow> LobbyMemberRec \<Rightarrow> bool" where
  "member_ok K m \<longleftrightarrow> short (lmProductId m) \<and> list_wf (lattr_ok K) (lmAttributes m)"

text \<open>The records the wire can carry; the endpoint and the last-seen tick are not sent.\<close>

definition record_ok :: "sdk \<Rightarrow> LobbyRecord \<Rightarrow> bool" where
  "record_ok K rec \<longleftrightarrow>
     short (lrLobbyId rec) \<and> short (lrOwnerProductId rec) \<and> short (lrBucketId rec) \<and>
     0 \<le> lrPermission rec \<and> lrPermission rec < 256 \<and>
     bool_ok (lrAllowInvites rec) \<and> bool_ok (lrAllowHostMigration rec) \<and> bool_ok (lrRTCRoomEnabled rec) \<and>
     bool_ok (lrPresenceEnabled rec) \<and> bool_ok (lrAllowJoinById rec) \<and>
     list_wf (\<lambda>_. True) (lrAllowedPlatformIds rec) \<and> list_wf (lattr_ok K) (lrAttributes rec) \<and>
     list_wf (member_ok K) (lrMembers rec) \<and>
     lrHostEndpoint rec = no_endpoint \<and> lrLastSeenTick rec = 0"

interpretation lattr: wire_codec "enc_lattr K" "read_lattr K" "lattr_ok K" for K
proof (rule wire_codecI)
  fix ka pre bs
  assume ok: "lattr_ok K ka"
  obtain key a where ka: "ka = (key, a)" by (cases ka)
  from ok ka have "rd_at (rdx pre (WriteAttrWire K key (laValue a) @ (enc_u8 (enum_byte (laVisibility a)) @ bs)))
     (WriteAttrWire K key (laValue a) @ (enc_u8 (enum_byte (laVisibility a)) @ bs))" by (simp add: rd_at_rdx)
  from ReadAttrWire_WriteAttrWire [OF _ _ this] ok ka
  show "read_lattr K (rdx pre (enc_lattr K ka @ bs)) = (ka, rdx (pre @ enc_lattr K ka) bs)"
    by (simp add: read_lattr_def enc_lattr_def lattr_ok_def wire_attr_ok_def rd_adv_rdx prim_run)
qed

interpretation lattrs: wire_codec "enc_list (enc_lattr K)" "read_list (read_lattr K)" "list_wf (lattr_ok K)" for K
  by (rule list_codec [OF lattr.wire_codec_axioms])

interpretation member: wire_codec "enc_member K" "read_member K" "member_ok K" for K
  by (rule wire_codecI) (simp add: read_member_def enc_member_def member_ok_def prim_run lattrs.run)

interpretation members: wire_codec "enc_list (enc_member K)" "read_list (read_member K)" "list_wf (member_ok K)" for K
  by (rule list_codec [OF member.wire_codec_axioms])

interpretation lobby_record: wire_codec "SerializeRecord K" "DeserializeRecord K" "record_ok K" for K
proof (rule wire_codecI)
  fix rec pre bs
  assume ok: "record_ok K rec"
  then show "DeserializeRecord K (rdx pre (SerializeRecord K rec @ bs)) = (rec, rdx (pre @ SerializeRecord K rec) bs)"
    by (simp add: DeserializeRecord_def SerializeRecord_def prim_run u32s.run lattrs.run members.run
        record_ok_def eos_bool_ok LobbyRecord_default_def)
qed

section \<open>Safety of the readers\<close>

interpretation lattr_safe: safe_reader "read_lattr K" for K
proof
  fix r
  obtain kv r1 where r1: "ReadAttrWire K r = (kv, r1)" by (cases "ReadAttrWire K r")
  obtain v r2 where r2: "rd_u8 r1 = (v, r2)" by (cases "rd_u8 r1")
  have "rd_safe r r1" using ReadAttrWire_safe [of r K] r1 by simp
  then show "rd_safe r (snd (read_lattr K r))"
    using u8_safe.safe_case [OF r2] r1 r2 by (auto simp: read_lattr_def case_prod_beta intro: rd_safe_trans)
qed

interpretation lattrs_safe: safe_reader "read_list (read_lattr K)" for K
  by (rule read_list_safe) unfold_locales

interpretation member_safe: safe_reader "read_member K" for K
proof
  fix r
  obtain p r1 where r1: "rd_str r = (p, r1)" by (cases "rd_str r")
  obtain v r2 where r2: "rd_u32 r1 = (v, r2)" by (cases "rd_u32 r1")
  obtain as r3 where r3: "read_list (read_lattr K) r2 = (as, r3)" by (cases "read_list (read_lattr K) r2")
  show "rd_safe r (snd (read_member K r))"
    using str_safe.safe_case [OF r1] u32_safe.safe_case [OF r2] lattrs_safe.safe_case [OF r3] r1 r2 r3
    by (auto simp: read_member_def intro: rd_safe_trans)
qed

interpretation members_safe: safe_reader "read_list (read_member K)" for K
  by (rule read_list_safe) unfold_locales

section \<open>What arrives\<close>

text \<open>Whatever the bytes, the decoded record is one the wire can carry.\<close>

interpretation lattr_typed: typed_reader "read_lattr K" "lattr_ok K" for K
proof
  fix r
  assume "rd_good r"
  from attr_typed.typed [OF this, of K] show "lattr_ok K (fst (read_lattr K r))"
    by (simp add: read_lattr_def case_prod_unfold lattr_ok_def wire_attr_ok_def)
qed

interpretation lattrs_typed: typed_reader "read_list (read_lattr K)" "list_wf (lattr_ok K)" for K
  by (rule list_typed [OF lattr_typed.typed_reader_axioms])

interpretation member_typed: typed_reader "read_member K" "member_ok K" for K
  by unfold_locales (simp add: read_member_def case_prod_unfold member_ok_def typed_simps lattrs_typed.typed)

interpretation members_typed: typed_reader "read_list (read_member K)" "list_wf (member_ok K)" for K
  by (rule list_typed [OF member_typed.typed_reader_axioms])

lemma Deserialize_typed: "rd_good r \<Longrightarrow> record_ok K (fst (DeserializeRecord K r))"
  by (simp add: DeserializeRecord_def case_prod_unfold record_ok_def typed_simps lattrs_typed.typed lattrs_typed.good
      members_typed.typed LobbyRecord_default_def)

end
