(* ===== verification/Lobby.thy ===== *)
theory Lobby
  imports LobbyData Effects Peers
begin

text \<open>
  The lobby interface, \<open>src/interfaces/Lobby.h\<close> and the calls of
  \<open>src/interfaces/Lobby.cpp\<close>: creating, updating, destroying, joining and leaving lobbies,
  member management, invitations, the overlay's accept and join flow, and search.

  Pointers into the interned
  string storage (\<open>Intern\<close>) are named by the string; a null pointer is \<open>None\<close>.
\<close>

section \<open>State\<close>

record InviteRec =
  ivInviteId :: string
  ivLobbyId :: string
  ivFromProduct :: string

record lobbies =
  lbKnown :: "(string, LobbyRecord) amap"
  lbMemberOf :: "string list"
  lbOwned :: "string list"
  lbInvites :: "InviteRec list"
  lbNextInvite :: nat
  lbLobbyCounter :: nat
  lbUiEvents :: "(nat, LobbyRecord) amap"
  lbUpdateReceived :: "nentry list"
  lbMemberUpdateReceived :: "nentry list"
  lbMemberStatusReceived :: "nentry list"
  lbInviteReceived :: "nentry list"
  lbInviteAccepted :: "nentry list"
  lbInviteRejected :: "nentry list"
  lbJoinAccepted :: "nentry list"
  lbLeaveRequested :: "nentry list"
  lbRTCRoomConn :: "nentry list"

definition lobbies_init :: lobbies where
  "lobbies_init =
     \<lparr>lbKnown = [], lbMemberOf = [], lbOwned = [], lbInvites = [], lbNextInvite = 1, lbLobbyCounter = 1,
      lbUiEvents = [], lbUpdateReceived = [], lbMemberUpdateReceived = [], lbMemberStatusReceived = [],
      lbInviteReceived = [], lbInviteAccepted = [], lbInviteRejected = [], lbJoinAccepted = [],
      lbLeaveRequested = [], lbRTCRoomConn = []\<rparr>"

record lobby_env =
  leLocal :: string
  lePeers :: peer_dir
  leTick :: u64

text \<open>The posted closures.  \<open>LobbyDone\<close> is the completion of an asynchronous call: its
  callback, client data, result and lobby id.\<close>

datatype lobby_task =
    LobbyDone nat nat eresult "string option"
  | QueryInvitesDone nat nat "puid option"
  | LobbyUpdateCb nat nat string
  | MemberUpdateCb nat nat string "puid option"
  | MemberStatusCb nat nat string "puid option" enum
  | InviteReceivedCb nat nat string "puid option" "puid option"
  | InviteAcceptedCb nat nat string "puid option" "puid option" string
  | InviteRejectedCb nat nat string "puid option" "puid option" string
  | JoinAcceptedCb nat nat "puid option" nat

section \<open>Announcing\<close>

definition BroadcastAnnounce :: "sdk \<Rightarrow> LobbyRecord \<Rightarrow> lobby_task event" where
  "BroadcastAnnounce K rec = bcast_msg LobbyAnnounce (SerializeRecord K rec)"

definition PeriodicAnnounce :: "sdk \<Rightarrow> lobbies \<Rightarrow> lobby_task event list" where
  "PeriodicAnnounce K s =
     map (BroadcastAnnounce K)
       (concat (map (\<lambda>i. case map_of (lbKnown s) i of Some r \<Rightarrow> [r] | None \<Rightarrow> []) (lbOwned s)))"

definition NewLobbyId :: "lobby_env \<Rightarrow> string \<Rightarrow> lobbies \<Rightarrow> string \<times> lobbies" where
  "NewLobbyId E owner s =
     (backend_id ''lobby_'' owner (leTick E) (lbLobbyCounter s),
      s\<lparr>lbLobbyCounter := Suc (lbLobbyCounter s)\<rparr>)"

definition put_known :: "string \<Rightarrow> LobbyRecord \<Rightarrow> lobbies \<Rightarrow> lobbies" where
  "put_known i r s = s\<lparr>lbKnown := AList.update i r (lbKnown s)\<rparr>"

definition drop_lobby :: "string \<Rightarrow> lobbies \<Rightarrow> lobbies" where
  "drop_lobby i s = s\<lparr>lbKnown := AList.delete i (lbKnown s), lbMemberOf := sset_erase i (lbMemberOf s),
     lbOwned := sset_erase i (lbOwned s)\<rparr>"

section \<open>Create\<close>

record CreateLobbyOptions =
  clApiVersion :: int
  clLocalUserId :: "puid option"
  clMaxLobbyMembers :: u32
  clPermissionLevel :: enum
  clPresenceEnabled :: int
  clAllowInvites :: int
  clBucketId :: "string option"
  clDisableHostMigration :: int
  clEnableRTCRoom :: int

definition created_record :: "sdk \<Rightarrow> CreateLobbyOptions \<Rightarrow> puid \<Rightarrow> LobbyRecord" where
  "created_record K opt owner =
     (let v = clApiVersion opt in
      (LobbyRecord_default K)
        \<lparr>lrOwnerProductId := owner, lrMaxMembers := clMaxLobbyMembers opt, lrPermission := clPermissionLevel opt,
         lrAllowInvites := (if HasField v 2 then clAllowInvites opt else EOS_TRUE),
         lrPresenceEnabled := (if HasField v 2 then clPresenceEnabled opt else EOS_FALSE),
         lrAllowHostMigration := (if HasField v 4 \<and> clDisableHostMigration opt \<noteq> 0 then EOS_FALSE else EOS_TRUE),
         lrRTCRoomEnabled := (if HasField v 5 then clEnableRTCRoom opt else EOS_FALSE),
         lrBucketId := (if HasField v 3 then (case clBucketId opt of Some b \<Rightarrow> b | None \<Rightarrow> []) else []),
         lrVersion := 1,
         lrMembers := [Member_new K owner]\<rparr>)"

definition CreateLobby ::
  "lobby_env \<Rightarrow> sdk \<Rightarrow> CreateLobbyOptions option \<Rightarrow> nat \<Rightarrow> nat option \<Rightarrow> lobbies \<Rightarrow> lobbies \<times> lobby_task event list" where
  "CreateLobby E K options cd cb s =
     (case options of
        None \<Rightarrow> (s, complete cb (\<lambda>f. LobbyDone f cd EOS_InvalidParameters None))
      | Some opt \<Rightarrow>
        (case clLocalUserId opt of
           None \<Rightarrow> (s, complete cb (\<lambda>f. LobbyDone f cd EOS_InvalidParameters None))
         | Some owner \<Rightarrow>
           if \<not> VersionInRange (clApiVersion opt) (EOS_LOBBY_CREATELOBBY_API_LATEST K)
           then (s, complete cb (\<lambda>f. LobbyDone f cd EOS_IncompatibleVersion None))
           else case NewLobbyId E owner s of (i, s1) \<Rightarrow>
             let rec = (created_record K opt owner)\<lparr>lrLobbyId := i\<rparr>;
                 s2 = (put_known i rec s1)\<lparr>lbMemberOf := sset_insert i (lbMemberOf s1), lbOwned := sset_insert i (lbOwned s1)\<rparr>
             in (s2, BroadcastAnnounce K rec # complete cb (\<lambda>f. LobbyDone f cd EOS_Success (Some i)))))"

section \<open>Update\<close>

record LobbyModificationObj =
  moLobbyId :: string
  moLocalUser :: string
  moBucket :: "string option"
  moPerm :: "enum option"
  moMax :: "u32 option"
  moInvites :: "int option"
  moPlatforms :: "u32 list option"
  moAddAttrs :: attr_list
  moRemoveAttrs :: "string list"
  moAddMemberAttrs :: attr_list
  moRemoveMemberAttrs :: "string list"

text \<open>The \<open>bSet\<close> flag and value of a setting are one option.\<close>

definition UpdateLobbyModification :: "(string option \<times> puid option) option \<Rightarrow> bool \<Rightarrow> eresult \<times> LobbyModificationObj option" where
  "UpdateLobbyModification options out =
     (case options of
        Some (Some lobby, Some user) \<Rightarrow>
          if \<not> out then (EOS_InvalidParameters, None)
          else (EOS_Success, Some \<lparr>moLobbyId = lobby, moLocalUser = user, moBucket = None, moPerm = None,
                 moMax = None, moInvites = None, moPlatforms = None, moAddAttrs = [], moRemoveAttrs = [],
                 moAddMemberAttrs = [], moRemoveMemberAttrs = []\<rparr>)
      | _ \<Rightarrow> (EOS_InvalidParameters, None))"

definition ApplyModification :: "LobbyModificationObj \<Rightarrow> LobbyRecord \<Rightarrow> LobbyRecord" where
  "ApplyModification mo rec =
     (let r1 = rec\<lparr>lrBucketId := set_opt (moBucket mo) (lrBucketId rec),
                   lrPermission := set_opt (moPerm mo) (lrPermission rec),
                   lrMaxMembers := set_opt (moMax mo) (lrMaxMembers rec),
                   lrAllowInvites := set_opt (moInvites mo) (lrAllowInvites rec),
                   lrAllowedPlatformIds := set_opt (moPlatforms mo) (lrAllowedPlatformIds rec),
                   lrAttributes := remove_attrs (moRemoveAttrs mo) (add_attrs (moAddAttrs mo) (lrAttributes rec))\<rparr>
      in if moAddMemberAttrs mo \<noteq> [] \<or> moRemoveMemberAttrs mo \<noteq> []
         then r1\<lparr>lrMembers := update_member (moLocalUser mo)
                   (ApplyMemberAttrs (moAddMemberAttrs mo) (moRemoveMemberAttrs mo)) (lrMembers r1)\<rparr>
         else r1)"

definition HasLobbyScope :: "LobbyModificationObj \<Rightarrow> bool" where
  "HasLobbyScope mo \<longleftrightarrow> moBucket mo \<noteq> None \<or> moPerm mo \<noteq> None \<or> moMax mo \<noteq> None \<or> moInvites mo \<noteq> None \<or>
     moPlatforms mo \<noteq> None \<or> moAddAttrs mo \<noteq> [] \<or> moRemoveAttrs mo \<noteq> []"

definition member_update_payload :: "sdk \<Rightarrow> LobbyModificationObj \<Rightarrow> bytes" where
  "member_update_payload K mo =
     enc_str (moLobbyId mo) @ enc_str (moLocalUser mo) @
     enc_list (enc_lattr K) (moAddMemberAttrs mo) @ enc_list enc_str (moRemoveMemberAttrs mo)"

definition bump :: "LobbyRecord \<Rightarrow> LobbyRecord" where
  "bump r = r\<lparr>lrVersion := lrVersion r + 1\<rparr>"

definition UpdateLobby ::
  "sdk \<Rightarrow> LobbyModificationObj option \<Rightarrow> nat \<Rightarrow> nat option \<Rightarrow> lobbies \<Rightarrow> lobbies \<times> lobby_task event list" where
  "UpdateLobby K handle cd cb s =
     (case handle of
        None \<Rightarrow> (s, complete cb (\<lambda>f. LobbyDone f cd EOS_InvalidParameters None))
      | Some mo \<Rightarrow>
        (case map_of (lbKnown s) (moLobbyId mo) of
           None \<Rightarrow> (s, complete cb (\<lambda>f. LobbyDone f cd EOS_NotFound None))
         | Some rec \<Rightarrow>
           if moLobbyId mo \<in> set (lbOwned s)
           then let rec' = bump (ApplyModification mo rec) in
             (put_known (moLobbyId mo) rec' s,
              BroadcastAnnounce K rec' # complete cb (\<lambda>f. LobbyDone f cd EOS_Success (Some (lrLobbyId rec'))))
           else if HasLobbyScope mo
           then (s, complete cb (\<lambda>f. LobbyDone f cd EOS_Lobby_NotOwner None))
           else if moLobbyId mo \<in> set (lbMemberOf s)
           then let rec' = rec\<lparr>lrMembers := update_member (moLocalUser mo)
                      (ApplyMemberAttrs (moAddMemberAttrs mo) (moRemoveMemberAttrs mo)) (lrMembers rec)\<rparr>
             in (put_known (moLobbyId mo) rec' s,
                 (if ep_Valid (lrHostEndpoint rec')
                  then [send_msg (lrHostEndpoint rec') LobbyUpdate (member_update_payload K mo)] else []) @
                 complete cb (\<lambda>f. LobbyDone f cd EOS_Success (Some (lrLobbyId rec'))))
           else (s, complete cb (\<lambda>f. LobbyDone f cd EOS_NotFound None))))"

section \<open>Destroy, join, leave\<close>

definition leave_payload :: "string \<Rightarrow> string \<Rightarrow> enum \<Rightarrow> bytes" where
  "leave_payload lobby subject reason = enc_str lobby @ enc_str subject @ enc_u8 (enum_byte reason)"

definition DestroyLobby ::
  "lobby_env \<Rightarrow> sdk \<Rightarrow> string option option \<Rightarrow> nat \<Rightarrow> nat option \<Rightarrow> lobbies \<Rightarrow> lobbies \<times> lobby_task event list" where
  "DestroyLobby E K options cd cb s =
     (case options of
        Some (Some lobby) \<Rightarrow>
          if lobby \<in> set (lbOwned s)
          then (drop_lobby lobby s,
                bcast_msg LobbyLeave (leave_payload lobby (leLocal E) (EOS_LMS_CLOSED K)) #
                complete cb (\<lambda>f. LobbyDone f cd EOS_Success (Some lobby)))
          else (s, complete cb (\<lambda>f. LobbyDone f cd EOS_NotFound None))
      | _ \<Rightarrow> (s, complete cb (\<lambda>f. LobbyDone f cd EOS_NotFound None)))"

definition add_member :: "sdk \<Rightarrow> string \<Rightarrow> LobbyRecord \<Rightarrow> LobbyRecord" where
  "add_member K pid r =
     (if FindMember r pid = None then r\<lparr>lrMembers := lrMembers r @ [Member_new K pid]\<rparr> else r)"

definition join_request :: "lobby_env \<Rightarrow> Endpoint \<Rightarrow> string \<Rightarrow> lobby_task event list" where
  "join_request E host lobby =
     (if ep_Valid host then [send_msg host LobbyJoinRequest (enc_str lobby @ enc_str (leLocal E))] else [])"

text \<open>\<open>Known_[LobbyId]\<close> creates a default record, recognised by its empty id.  The details
  object is the record it copied.\<close>

definition JoinLobby ::
  "lobby_env \<Rightarrow> sdk \<Rightarrow> (LobbyRecord option \<times> puid option) option \<Rightarrow> nat \<Rightarrow> nat option \<Rightarrow> lobbies \<Rightarrow>
   lobbies \<times> lobby_task event list" where
  "JoinLobby E K options cd cb s =
     (case options of
        Some (Some rec, Some me) \<Rightarrow>
          (let i = lrLobbyId rec;
               stored0 = (case map_of (lbKnown s) i of Some r \<Rightarrow> r | None \<Rightarrow> LobbyRecord_default K);
               stored = (if lrLobbyId stored0 = [] then rec else stored0);
               s1 = (put_known i (add_member K me stored) s)\<lparr>lbMemberOf := sset_insert i (lbMemberOf s)\<rparr>
           in (s1, join_request E (lrHostEndpoint rec) i @
                   complete cb (\<lambda>f. LobbyDone f cd EOS_Success (Some i))))
      | _ \<Rightarrow> (s, complete cb (\<lambda>f. LobbyDone f cd EOS_InvalidParameters None)))"

definition JoinLobbyById ::
  "lobby_env \<Rightarrow> sdk \<Rightarrow> (string option \<times> puid option) option \<Rightarrow> nat \<Rightarrow> nat option \<Rightarrow> lobbies \<Rightarrow>
   lobbies \<times> lobby_task event list" where
  "JoinLobbyById E K options cd cb s =
     (case options of
        Some (Some i, Some me) \<Rightarrow>
          (case map_of (lbKnown s) i of
             None \<Rightarrow> (s, complete cb (\<lambda>f. LobbyDone f cd EOS_NotFound None))
           | Some r \<Rightarrow>
             ((put_known i (add_member K me r) s)\<lparr>lbMemberOf := sset_insert i (lbMemberOf s)\<rparr>,
              join_request E (lrHostEndpoint r) i @ complete cb (\<lambda>f. LobbyDone f cd EOS_Success (Some i))))
      | _ \<Rightarrow> (s, complete cb (\<lambda>f. LobbyDone f cd EOS_NotFound None)))"

definition LeaveLobby ::
  "sdk \<Rightarrow> (string option \<times> puid option) option \<Rightarrow> nat \<Rightarrow> nat option \<Rightarrow> lobbies \<Rightarrow> lobbies \<times> lobby_task event list" where
  "LeaveLobby K options cd cb s =
     (case options of
        Some (Some i, Some me) \<Rightarrow>
          (case map_of (lbKnown s) i of
             None \<Rightarrow> (s, complete cb (\<lambda>f. LobbyDone f cd EOS_NotFound None))
           | Some r \<Rightarrow>
             if i \<notin> set (lbMemberOf s) then (s, complete cb (\<lambda>f. LobbyDone f cd EOS_NotFound None))
             else let r1 = r\<lparr>lrMembers := erase_member me (lrMembers r)\<rparr>;
                      reannounce = (i \<in> set (lbOwned s) \<and> lrAllowHostMigration r1 \<noteq> EOS_FALSE \<and> lrMembers r1 \<noteq> []);
                      r2 = (if reannounce then bump (r1\<lparr>lrOwnerProductId := lmProductId (hd (lrMembers r1))\<rparr>) else r1);
                      s1 = (if reannounce
                            then (put_known i r2 s)\<lparr>lbMemberOf := sset_erase i (lbMemberOf s), lbOwned := sset_erase i (lbOwned s)\<rparr>
                            else drop_lobby i s)
                  in (s1, bcast_msg LobbyLeave (leave_payload i me (EOS_LMS_LEFT K)) #
                          (if reannounce then [BroadcastAnnounce K r2] else []) @
                          complete cb (\<lambda>f. LobbyDone f cd EOS_Success (Some i))))
      | _ \<Rightarrow> (s, complete cb (\<lambda>f. LobbyDone f cd EOS_NotFound None)))"

section \<open>Member management\<close>

definition PromoteMember ::
  "sdk \<Rightarrow> (string option \<times> puid option) option \<Rightarrow> nat \<Rightarrow> nat option \<Rightarrow> lobbies \<Rightarrow> lobbies \<times> lobby_task event list" where
  "PromoteMember K options cd cb s =
     (case options of
        Some (Some i, Some target) \<Rightarrow>
          (case map_of (lbKnown s) i of
             None \<Rightarrow> (s, complete cb (\<lambda>f. LobbyDone f cd EOS_NotFound None))
           | Some r \<Rightarrow>
             if i \<in> set (lbOwned s) \<and> FindMember r target \<noteq> None
             then let r1 = bump (r\<lparr>lrOwnerProductId := target\<rparr>)
                  in ((put_known i r1 s)\<lparr>lbOwned := sset_erase i (lbOwned s)\<rparr>,
                      BroadcastAnnounce K r1 # complete cb (\<lambda>f. LobbyDone f cd EOS_Success (Some i)))
             else (s, complete cb (\<lambda>f. LobbyDone f cd EOS_NotFound None)))
      | _ \<Rightarrow> (s, complete cb (\<lambda>f. LobbyDone f cd EOS_NotFound None)))"

definition KickMember ::
  "sdk \<Rightarrow> (string option \<times> puid option) option \<Rightarrow> nat \<Rightarrow> nat option \<Rightarrow> lobbies \<Rightarrow> lobbies \<times> lobby_task event list" where
  "KickMember K options cd cb s =
     (case options of
        Some (Some i, Some target) \<Rightarrow>
          (case map_of (lbKnown s) i of
             None \<Rightarrow> (s, complete cb (\<lambda>f. LobbyDone f cd EOS_NotFound None))
           | Some r \<Rightarrow>
             if i \<in> set (lbOwned s)
             then let r1 = bump (r\<lparr>lrMembers := erase_member target (lrMembers r)\<rparr>)
                  in (put_known i r1 s,
                      bcast_msg LobbyLeave (leave_payload i target (EOS_LMS_KICKED K)) # BroadcastAnnounce K r1 #
                      complete cb (\<lambda>f. LobbyDone f cd EOS_Success (Some i)))
             else (s, complete cb (\<lambda>f. LobbyDone f cd EOS_NotFound None)))
      | _ \<Rightarrow> (s, complete cb (\<lambda>f. LobbyDone f cd EOS_NotFound None)))"

definition HardMuteMember :: "string option option \<Rightarrow> nat \<Rightarrow> nat option \<Rightarrow> lobby_task event list" where
  "HardMuteMember options cd cb =
     complete cb (\<lambda>f. LobbyDone f cd EOS_Success (case options of Some i \<Rightarrow> i | None \<Rightarrow> None))"

section \<open>Invitations\<close>

definition SendInvite ::
  "lobby_env \<Rightarrow> (string option \<times> puid option) option \<Rightarrow> nat \<Rightarrow> nat option \<Rightarrow> lobby_task event list" where
  "SendInvite E options cd cb =
     (case options of
        Some (Some i, Some target) \<Rightarrow>
          (let to = EndpointFor (lePeers E) target in
           (if ep_Valid to then [send_msg to LobbyInvite (enc_str i @ enc_str (leLocal E) @ enc_str target)] else []) @
           complete cb (\<lambda>f. LobbyDone f cd EOS_Success (Some i)))
      | _ \<Rightarrow> complete cb (\<lambda>f. LobbyDone f cd EOS_InvalidParameters None))"

definition has_invite :: "lobbies \<Rightarrow> string \<Rightarrow> bool" where
  "has_invite s i \<longleftrightarrow> (\<exists>v \<in> set (lbInvites s). ivInviteId v = i)"

definition erase_invite :: "string \<Rightarrow> lobbies \<Rightarrow> lobbies" where
  "erase_invite i s = s\<lparr>lbInvites := erase_first (\<lambda>v. ivInviteId v = i) (lbInvites s)\<rparr>"

definition RejectInvite ::
  "string option option \<Rightarrow> nat \<Rightarrow> nat option \<Rightarrow> lobbies \<Rightarrow> lobbies \<times> lobby_task event list" where
  "RejectInvite options cd cb s =
     (case options of
        Some (Some i) \<Rightarrow>
          if has_invite s i then (erase_invite i s, complete cb (\<lambda>f. LobbyDone f cd EOS_Success None))
          else (s, complete cb (\<lambda>f. LobbyDone f cd EOS_NotFound None))
      | _ \<Rightarrow> (s, complete cb (\<lambda>f. LobbyDone f cd EOS_NotFound None)))"

definition QueryInvites :: "puid option option \<Rightarrow> nat \<Rightarrow> nat option \<Rightarrow> lobby_task event list" where
  "QueryInvites options cd cb =
     complete cb (\<lambda>f. QueryInvitesDone f cd (case options of Some u \<Rightarrow> u | None \<Rightarrow> None))"

definition GetInviteCount :: "lobbies \<Rightarrow> nat" where
  "GetInviteCount s = length (lbInvites s)"

definition GetInviteIdByIndex :: "nat \<Rightarrow> bool \<Rightarrow> int option \<Rightarrow> lobbies \<Rightarrow> eresult \<times> int option \<times> string option" where
  "GetInviteIdByIndex index has_buffer len s =
     (case len of
        None \<Rightarrow> (EOS_InvalidParameters, None, None)
      | Some n \<Rightarrow>
          if index \<ge> length (lbInvites s) then (EOS_NotFound, Some n, None)
          else (case sized_copy (ivInviteId (lbInvites s ! index)) has_buffer n of (r, l, t) \<Rightarrow> (r, Some l, t)))"

definition CopyLobbyDetailsHandleByInviteId :: "string option \<Rightarrow> bool \<Rightarrow> lobbies \<Rightarrow> eresult \<times> LobbyRecord option" where
  "CopyLobbyDetailsHandleByInviteId iid out s =
     (case iid of
        None \<Rightarrow> (EOS_InvalidParameters, None)
      | Some i \<Rightarrow>
          if \<not> out then (EOS_InvalidParameters, None)
          else case find (\<lambda>v. ivInviteId v = i) (lbInvites s) of
                 None \<Rightarrow> (EOS_NotFound, None)
               | Some v \<Rightarrow> (case map_of (lbKnown s) (ivLobbyId v) of
                               None \<Rightarrow> (EOS_NotFound, None) | Some r \<Rightarrow> (EOS_Success, Some r)))"

section \<open>Overlay\<close>

definition SnapshotInvites :: "lobbies \<Rightarrow> InviteRec list" where
  "SnapshotInvites s = filter (\<lambda>v. ivLobbyId v \<notin> set (lbMemberOf s)) (lbInvites s)"

definition SnapshotJoinable :: "lobbies \<Rightarrow> (string \<times> string) list" where
  "SnapshotJoinable s =
     map (\<lambda>r. (lrLobbyId r, lrOwnerProductId r))
       (filter (\<lambda>r. lrLobbyId r \<notin> set (lbMemberOf s) \<and> lrLobbyId r \<notin> set (lbOwned s) \<and> AvailableSlots r \<noteq> 0)
         (map snd (lbKnown s)))"

definition AcceptInviteFromOverlay :: "lobby_env \<Rightarrow> string \<Rightarrow> lobbies \<Rightarrow> lobby_task event list" where
  "AcceptInviteFromOverlay E i s =
     (case find (\<lambda>v. ivInviteId v = i) (lbInvites s) of
        None \<Rightarrow> []
      | Some v \<Rightarrow>
          map (\<lambda>e. EvPost (InviteAcceptedCb (neFn e) (neCd e) i (intern (leLocal E)) (intern (ivFromProduct v)) (ivLobbyId v)))
            (lbInviteAccepted s))"

definition RejectInviteFromOverlay :: "lobby_env \<Rightarrow> string \<Rightarrow> lobbies \<Rightarrow> lobbies \<times> lobby_task event list" where
  "RejectInviteFromOverlay E i s =
     (case find (\<lambda>v. ivInviteId v = i) (lbInvites s) of
        None \<Rightarrow> (s, [])
      | Some v \<Rightarrow>
          (erase_invite i s,
           map (\<lambda>e. EvPost (InviteRejectedCb (neFn e) (neCd e) i (intern (leLocal E)) (intern (ivFromProduct v)) (ivLobbyId v)))
            (lbInviteRejected s)))"

text \<open>The UiEventId counter is process-wide: passed in and returned.\<close>

definition BeginJoinFromOverlay ::
  "lobby_env \<Rightarrow> string \<Rightarrow> nat \<Rightarrow> lobbies \<Rightarrow> nat \<times> lobbies \<times> lobby_task event list" where
  "BeginJoinFromOverlay E lobby c s =
     (case map_of (lbKnown s) lobby of
        None \<Rightarrow> (c, s, [])
      | Some r \<Rightarrow> (case NextId c of (ev, c') \<Rightarrow>
          (c', s\<lparr>lbUiEvents := smap_put ev r (lbUiEvents s)\<rparr>,
           map (\<lambda>e. EvPost (JoinAcceptedCb (neFn e) (neCd e) (intern (leLocal E)) ev)) (lbJoinAccepted s))))"

definition CopyDetailsByUiEventId :: "nat \<Rightarrow> bool \<Rightarrow> lobbies \<Rightarrow> eresult \<times> LobbyRecord option" where
  "CopyDetailsByUiEventId ev out s =
     (if \<not> out then (EOS_InvalidParameters, None)
      else case map_of (lbUiEvents s) ev of None \<Rightarrow> (EOS_NotFound, None) | Some r \<Rightarrow> (EOS_Success, Some r))"

definition AcknowledgeUiEvent :: "nat \<Rightarrow> lobbies \<Rightarrow> lobbies" where
  "AcknowledgeUiEvent ev s = s\<lparr>lbUiEvents := AList.delete ev (lbUiEvents s)\<rparr>"

section \<open>Details and search\<close>

definition CopyLobbyDetailsHandle ::
  "(string option \<times> puid option) option \<Rightarrow> bool \<Rightarrow> lobbies \<Rightarrow> eresult \<times> (LobbyRecord \<times> string) option" where
  "CopyLobbyDetailsHandle options out s =
     (case options of
        Some (Some i, user) \<Rightarrow>
          if \<not> out then (EOS_InvalidParameters, None)
          else (case map_of (lbKnown s) i of
                  None \<Rightarrow> (EOS_NotFound, None)
                | Some r \<Rightarrow> (EOS_Success, Some (r, case user of Some u \<Rightarrow> u | None \<Rightarrow> [])))
      | _ \<Rightarrow> (EOS_InvalidParameters, None))"

record LobbySearchObj =
  soMaxResults :: nat
  soByLobbyId :: string
  soByTargetUser :: string
  soParams :: "SearchParam list"
  soResults :: "LobbyRecord list"

definition CreateLobbySearch :: "sdk \<Rightarrow> nat option \<Rightarrow> bool \<Rightarrow> eresult \<times> LobbySearchObj option" where
  "CreateLobbySearch K options out =
     (if \<not> out then (EOS_InvalidParameters, None)
      else (EOS_Success, Some
        \<lparr>soMaxResults = (case options of Some n \<Rightarrow> if n > 0 then n else EOS_LOBBY_MAX_SEARCH_RESULTS K
                            | None \<Rightarrow> EOS_LOBBY_MAX_SEARCH_RESULTS K),
         soByLobbyId = [], soByTargetUser = [], soParams = [], soResults = []\<rparr>))"

definition param_matches :: "sdk \<Rightarrow> LobbyRecord \<Rightarrow> SearchParam \<Rightarrow> bool" where
  "param_matches K r p \<longleftrightarrow>
     (if seKey p = EOS_LOBBY_SEARCH_BUCKET_ID K then lrBucketId r = avStr (seValue p)
      else if seKey p = EOS_LOBBY_SEARCH_MINCURRENTMEMBERS K
      then \<not> int (length (lrMembers r)) < sint (avInt (seValue p))
      else if seKey p = EOS_LOBBY_SEARCH_MINSLOTSAVAILABLE K
      then \<not> int (AvailableSlots r) < sint (avInt (seValue p))
      else (\<exists>(k, a) \<in> set (lrAttributes r). k = seKey p \<and> laVisibility a = EOS_LAT_PUBLIC K \<and>
              CompareAttr K (laValue a) (seOp p) (seValue p)))"

definition MatchesSearch :: "sdk \<Rightarrow> LobbySearchObj \<Rightarrow> LobbyRecord \<Rightarrow> bool" where
  "MatchesSearch K q r \<longleftrightarrow>
     (if soByLobbyId q \<noteq> [] then lrLobbyId r = soByLobbyId q
      else if soByTargetUser q \<noteq> [] then FindMember r (soByTargetUser q) \<noteq> None
      else list_all (param_matches K r) (soParams q))"

definition CollectSearchResults :: "sdk \<Rightarrow> LobbySearchObj \<Rightarrow> lobbies \<Rightarrow> LobbySearchObj" where
  "CollectSearchResults K q s =
     q\<lparr>soResults := collect (MatchesSearch K q) (soMaxResults q) [] (map snd (lbKnown s))\<rparr>"

section \<open>RTC room and connect string\<close>

definition GetRTCRoomName :: "string option option \<Rightarrow> bool \<Rightarrow> int option \<Rightarrow> eresult \<times> int option \<times> string option" where
  "GetRTCRoomName options has_buffer len =
     (case (options, len) of
        (Some (Some i), Some n) \<Rightarrow>
          (case sized_copy (''rtc_'' @ i) has_buffer n of (r, l, t) \<Rightarrow> (r, Some l, t))
      | _ \<Rightarrow> (EOS_InvalidParameters, len, None))"

definition GetConnectString :: "string option option \<Rightarrow> bool \<Rightarrow> int option \<Rightarrow> eresult \<times> int option \<times> string option" where
  "GetConnectString options has_buffer len =
     (case (options, len) of
        (Some (Some i), Some n) \<Rightarrow>
          (case sized_copy (''eosemu:lobby:'' @ i) has_buffer n of (r, l, t) \<Rightarrow> (r, Some l, t))
      | _ \<Rightarrow> (EOS_InvalidParameters, len, None))"

record LobbyRTCRoomView =
  rvLobbyId :: string
  rvRoomName :: string
  rvMemberPids :: "string list"

definition SnapshotRTCRooms :: "lobbies \<Rightarrow> LobbyRTCRoomView list" where
  "SnapshotRTCRooms s =
     concat (map (\<lambda>i. case map_of (lbKnown s) i of
          None \<Rightarrow> []
        | Some r \<Rightarrow> if lrRTCRoomEnabled r = EOS_FALSE then []
                    else [\<lparr>rvLobbyId = i, rvRoomName = ''rtc_'' @ i, rvMemberPids = map lmProductId (lrMembers r)\<rparr>])
       (lbMemberOf s))"

end
