(* ===== verification/LobbyNet.thy ===== *)
theory LobbyNet
  imports Lobby
begin

text \<open>
  The inbound half of the lobby interface, \<open>LobbyInterface::OnDatagram\<close> in
  \<open>src/interfaces/Lobby.cpp\<close>: one definition per message type, each the state update done
  under the lock followed by the messages and notifications it causes, and the dispatcher that reads
  the payload.  A notification goes to every registered handler in registration order.
\<close>

section \<open>Notifications\<close>

definition fire_update :: "lobbies \<Rightarrow> string \<Rightarrow> lobby_task event list" where
  "fire_update s i = map (\<lambda>e. EvPost (LobbyUpdateCb (neFn e) (neCd e) i)) (lbUpdateReceived s)"

definition fire_status :: "lobbies \<Rightarrow> string \<Rightarrow> enum \<Rightarrow> string \<Rightarrow> lobby_task event list" where
  "fire_status s i st pid =
     map (\<lambda>e. EvPost (MemberStatusCb (neFn e) (neCd e) i (intern pid) st)) (lbMemberStatusReceived s)"

definition fire_member_update :: "lobbies \<Rightarrow> string \<Rightarrow> string \<Rightarrow> lobby_task event list" where
  "fire_member_update s i pid =
     map (\<lambda>e. EvPost (MemberUpdateCb (neFn e) (neCd e) i (intern pid))) (lbMemberUpdateReceived s)"

section \<open>LobbyAnnounce\<close>

text \<open>The product ids that are in one record's member list and not in the other's, and the members
  of both whose attributes differ.\<close>

definition members_not_in :: "LobbyRecord \<Rightarrow> LobbyRecord \<Rightarrow> string list" where
  "members_not_in a b = filter (\<lambda>p. FindMember b p = None) (map lmProductId (lrMembers a))"

definition members_changed :: "sdk \<Rightarrow> LobbyRecord \<Rightarrow> LobbyRecord \<Rightarrow> string list" where
  "members_changed K old fresh =
     map lmProductId (filter (\<lambda>m. case FindMember old (lmProductId m) of
          None \<Rightarrow> False | Some o' \<Rightarrow> \<not> MemberAttrsEqual K (lmAttributes o') (lmAttributes m)) (lrMembers fresh))"

definition announce_events :: "sdk \<Rightarrow> lobbies \<Rightarrow> LobbyRecord \<Rightarrow> LobbyRecord \<Rightarrow> lobby_task event list" where
  "announce_events K s old fresh =
     (let i = lrLobbyId fresh in
      (if lrVersion fresh \<noteq> lrVersion old then fire_update s i else []) @
      concat (map (fire_status s i (EOS_LMS_JOINED K)) (members_not_in fresh old)) @
      concat (map (fire_status s i (EOS_LMS_LEFT K)) (members_not_in old fresh)) @
      concat (map (fire_member_update s i) (members_changed K old fresh)) @
      (if lrOwnerProductId old \<noteq> lrOwnerProductId fresh \<and> lrOwnerProductId fresh \<noteq> []
       then fire_status s i (EOS_LMS_PROMOTED K) (lrOwnerProductId fresh) else []))"

definition on_announce :: "lobby_env \<Rightarrow> sdk \<Rightarrow> LobbyRecord \<Rightarrow> lobbies \<Rightarrow> lobbies \<times> lobby_task event list" where
  "on_announce E K fresh s =
     (let i = lrLobbyId fresh; am_member = i \<in> set (lbMemberOf s) in
      if i \<in> set (lbOwned s) then (s, [])
      else
        let s1 = put_known i fresh s;
            s2 = (if am_member \<and> lrOwnerProductId fresh = leLocal E
                  then s1\<lparr>lbOwned := sset_insert i (lbOwned s1)\<rparr> else s1)
        in (s2, if am_member
                then (case map_of (lbKnown s) i of None \<Rightarrow> [] | Some old \<Rightarrow> announce_events K s2 old fresh)
                else []))"

section \<open>LobbyUpdate\<close>

definition on_member_update ::
  "sdk \<Rightarrow> string \<Rightarrow> string \<Rightarrow> attr_list \<Rightarrow> string list \<Rightarrow> lobbies \<Rightarrow> lobbies \<times> lobby_task event list" where
  "on_member_update K i pid adds removes s =
     (case map_of (lbKnown s) i of
        None \<Rightarrow> (s, [])
      | Some r \<Rightarrow>
        if i \<notin> set (lbOwned s) \<or> FindMember r pid = None then (s, [])
        else let r1 = bump (r\<lparr>lrMembers := update_member pid (ApplyMemberAttrs adds removes) (lrMembers r)\<rparr>)
             in (put_known i r1 s, BroadcastAnnounce K r1 # fire_member_update s i pid))"

section \<open>LobbyJoinRequest\<close>

definition on_join_request :: "sdk \<Rightarrow> string \<Rightarrow> string \<Rightarrow> lobbies \<Rightarrow> lobbies \<times> lobby_task event list" where
  "on_join_request K i pid s =
     (case map_of (lbKnown s) i of
        None \<Rightarrow> (s, [])
      | Some r \<Rightarrow>
        if i \<in> set (lbOwned s) \<and> FindMember r pid = None \<and> AvailableSlots r > 0
        then let r1 = bump (r\<lparr>lrMembers := lrMembers r @ [Member_new K pid]\<rparr>)
             in (put_known i r1 s, BroadcastAnnounce K r1 # fire_status s i (EOS_LMS_JOINED K) pid)
        else (s, []))"

section \<open>LobbyLeave\<close>

definition on_leave :: "lobby_env \<Rightarrow> sdk \<Rightarrow> string \<Rightarrow> string \<Rightarrow> enum \<Rightarrow> lobbies \<Rightarrow> lobbies \<times> lobby_task event list" where
  "on_leave E K i subject status s =
     (case map_of (lbKnown s) i of
        None \<Rightarrow> (s, [])
      | Some r \<Rightarrow>
        let am_member = i \<in> set (lbMemberOf s);
            notify = (if am_member then fire_status s i status subject else [])
        in if status = EOS_LMS_CLOSED K then (drop_lobby i s, notify)
           else let r1 = r\<lparr>lrMembers := erase_member subject (lrMembers r)\<rparr>;
                    owned = i \<in> set (lbOwned s);
                    r2 = (if owned then bump r1 else r1);
                    s1 = put_known i r2 s;
                    s2 = (if subject = leLocal E then s1\<lparr>lbMemberOf := sset_erase i (lbMemberOf s1)\<rparr> else s1)
                in (s2, (if owned then [BroadcastAnnounce K r2] else []) @ notify))"

section \<open>LobbyInvite\<close>

definition invite_id :: "nat \<Rightarrow> string" where
  "invite_id n = ''invite_'' @ dec_str n"

definition on_invite :: "lobby_env \<Rightarrow> string \<Rightarrow> string \<Rightarrow> string \<Rightarrow> lobbies \<Rightarrow> lobbies \<times> lobby_task event list" where
  "on_invite E lobby sender target s =
     (if target \<noteq> leLocal E then (s, [])
      else let i = invite_id (lbNextInvite s);
               s1 = s\<lparr>lbNextInvite := Suc (lbNextInvite s),
                      lbInvites := lbInvites s @ [\<lparr>ivInviteId = i, ivLobbyId = lobby, ivFromProduct = sender\<rparr>]\<rparr>
           in (s1, map (\<lambda>e. EvPost (InviteReceivedCb (neFn e) (neCd e) i (intern (leLocal E)) (intern sender)))
                     (lbInviteReceived s1)))"

section \<open>The dispatcher\<close>

definition stamp :: "lobby_env \<Rightarrow> Endpoint \<Rightarrow> LobbyRecord \<Rightarrow> LobbyRecord" where
  "stamp E from rec = rec\<lparr>lrHostEndpoint := from, lrLastSeenTick := leTick E\<rparr>"

definition Lobby_OnDatagram ::
  "lobby_env \<Rightarrow> sdk \<Rightarrow> Endpoint \<Rightarrow> MessageType \<Rightarrow> bytes \<Rightarrow> lobbies \<Rightarrow> lobbies \<times> lobby_task event list" where
  "Lobby_OnDatagram E K from ty payload s =
     (case ty of
        LobbyAnnounce \<Rightarrow>
          (case DeserializeRecord K (reader_init payload) of (fresh, r) \<Rightarrow>
             if \<not> rdOk r \<or> lrLobbyId fresh = [] then (s, []) else on_announce E K (stamp E from fresh) s)
      | LobbyUpdate \<Rightarrow>
          (case rd_str (reader_init payload) of (i, r1) \<Rightarrow> (case rd_str r1 of (pid, r2) \<Rightarrow>
           (case read_list (read_lattr K) r2 of (adds, r3) \<Rightarrow> (case read_list rd_str r3 of (removes, r4) \<Rightarrow>
             if \<not> rdOk r4 then (s, []) else on_member_update K i pid adds removes s))))
      | LobbyJoinRequest \<Rightarrow>
          (case rd_str (reader_init payload) of (i, r1) \<Rightarrow> (case rd_str r1 of (pid, r2) \<Rightarrow>
             if \<not> rdOk r2 then (s, []) else on_join_request K i pid s))
      | LobbyLeave \<Rightarrow>
          (case rd_str (reader_init payload) of (i, r1) \<Rightarrow> (case rd_str r1 of (subject, r2) \<Rightarrow>
           (case rd_u8 r2 of (reason, r3) \<Rightarrow>
             if \<not> rdOk r3 then (s, []) else on_leave E K i subject (byte_enum reason) s)))
      | LobbyInvite \<Rightarrow>
          (case rd_str (reader_init payload) of (i, r1) \<Rightarrow> (case rd_str r1 of (sender, r2) \<Rightarrow>
           (case rd_str r2 of (target, r3) \<Rightarrow>
             if \<not> rdOk r3 then (s, []) else on_invite E i sender target s)))
      | _ \<Rightarrow> (s, []))"

end
