(* ===== verification/LobbyFacts.thy ===== *)
theory LobbyFacts
  imports LobbyNet
begin

text \<open>
  What the lobby interface keeps and promises.  The invariant \<open>lobby_inv\<close> (cached records
  stand under their own id, the member and owner sets only name cached lobbies, invitation ids are
  distinct, an owned lobby names this node as its owner) is shown for every call and datagram by
  induction over the step relation \<open>lobby_step\<close>.  Then: replication of a record by its
  announcement, admission and capacity, host migration, search, and the uniqueness of ids.
\<close>

section \<open>Members\<close>

lemma FindMember_None: "FindMember r pid = None \<longleftrightarrow> pid \<notin> lmProductId ` set (lrMembers r)"
  by (auto simp: FindMember_def find_None_iff)

lemma FindMember_SomeD: "FindMember r pid = Some m \<Longrightarrow> lmProductId m = pid \<and> m \<in> set (lrMembers r)"
  by (auto simp: FindMember_def find_Some_iff)

lemma ids_update_member [simp]:
  "(\<And>m. lmProductId (f m) = lmProductId m) \<Longrightarrow> map lmProductId (update_member pid f mems) = map lmProductId mems"
  by (induction mems) auto

lemma ApplyMemberAttrs_id [simp]: "lmProductId (ApplyMemberAttrs a r m) = lmProductId m"
  by (simp add: ApplyMemberAttrs_def)

lemma Member_new_id [simp]: "lmProductId (Member_new K p) = p"
  by (simp add: Member_new_def)

definition member_ids :: "LobbyRecord \<Rightarrow> string list" where
  "member_ids r = map lmProductId (lrMembers r)"

lemma member_ids_erase:
  "distinct (member_ids r) \<Longrightarrow> member_ids (r\<lparr>lrMembers := erase_member p (lrMembers r)\<rparr>) = removeAll p (member_ids r)"
  using map_erase_first_distinct [of lmProductId "lrMembers r" p]
  by (simp add: member_ids_def erase_member_def removeAll_filter_not_eq) (metis)

lemma member_ids_simps [simp]:
  "member_ids (bump r) = member_ids r" "member_ids (stamp E from r) = member_ids r"
  "member_ids (r\<lparr>lrOwnerProductId := p\<rparr>) = member_ids r"
  "member_ids (r\<lparr>lrMembers := lrMembers r @ [Member_new K p]\<rparr>) = member_ids r @ [p]"
  "member_ids (r\<lparr>lrMembers := update_member p (ApplyMemberAttrs a d) (lrMembers r)\<rparr>) = member_ids r"
  by (simp_all add: member_ids_def bump_def stamp_def)

lemma bump_fields [simp]:
  "lrLobbyId (bump r) = lrLobbyId r" "lrOwnerProductId (bump r) = lrOwnerProductId r"
  "lrMembers (bump r) = lrMembers r" "lrMaxMembers (bump r) = lrMaxMembers r"
  "lrVersion (bump r) = lrVersion r + 1" "lrHostEndpoint (bump r) = lrHostEndpoint r"
  by (simp_all add: bump_def)

lemma stamp_fields [simp]:
  "lrLobbyId (stamp E from r) = lrLobbyId r" "lrOwnerProductId (stamp E from r) = lrOwnerProductId r"
  "lrMembers (stamp E from r) = lrMembers r" "lrVersion (stamp E from r) = lrVersion r"
  "lrHostEndpoint (stamp E from r) = from" "lrLastSeenTick (stamp E from r) = leTick E"
  by (simp_all add: stamp_def)

lemma ApplyModification_fields [simp]:
  "lrLobbyId (ApplyModification mo r) = lrLobbyId r"
  "lrOwnerProductId (ApplyModification mo r) = lrOwnerProductId r"
  "member_ids (ApplyModification mo r) = member_ids r"
  by (simp_all add: ApplyModification_def Let_def member_ids_def)

lemma add_member_fields [simp]:
  "lrLobbyId (add_member K p r) = lrLobbyId r" "lrOwnerProductId (add_member K p r) = lrOwnerProductId r"
  by (simp_all add: add_member_def)

lemma add_member_ids: "member_ids (add_member K p r) = (if p \<in> set (member_ids r) then member_ids r else member_ids r @ [p])"
  by (auto simp: add_member_def FindMember_None member_ids_def)

section \<open>State updates\<close>

lemma put_known_fields [simp]:
  "lbKnown (put_known i r s) = AList.update i r (lbKnown s)" "lbMemberOf (put_known i r s) = lbMemberOf s"
  "lbOwned (put_known i r s) = lbOwned s" "lbInvites (put_known i r s) = lbInvites s"
  "lbNextInvite (put_known i r s) = lbNextInvite s" "lbLobbyCounter (put_known i r s) = lbLobbyCounter s"
  "lbUpdateReceived (put_known i r s) = lbUpdateReceived s"
  "lbMemberStatusReceived (put_known i r s) = lbMemberStatusReceived s"
  "lbMemberUpdateReceived (put_known i r s) = lbMemberUpdateReceived s"
  by (simp_all add: put_known_def)

lemma drop_lobby_fields [simp]:
  "lbKnown (drop_lobby i s) = AList.delete i (lbKnown s)" "lbMemberOf (drop_lobby i s) = sset_erase i (lbMemberOf s)"
  "lbOwned (drop_lobby i s) = sset_erase i (lbOwned s)" "lbInvites (drop_lobby i s) = lbInvites s"
  "lbNextInvite (drop_lobby i s) = lbNextInvite s"
  by (simp_all add: drop_lobby_def)

section \<open>The invariant\<close>

definition invites_inv :: "lobbies \<Rightarrow> bool" where
  "invites_inv s \<longleftrightarrow> distinct (map ivInviteId (lbInvites s)) \<and>
     set (map ivInviteId (lbInvites s)) \<subseteq> invite_id ` {n. n < lbNextInvite s}"

definition lobby_inv :: "string \<Rightarrow> lobbies \<Rightarrow> bool" where
  "lobby_inv me s \<longleftrightarrow>
     map_ok (\<lambda>i r. lrLobbyId r = i \<and> (i \<in> set (lbOwned s) \<longrightarrow> lrOwnerProductId r = me)) (lbKnown s) \<and>
     sset_ok (lbMemberOf s) \<and> sset_ok (lbOwned s) \<and>
     set (lbMemberOf s) \<union> set (lbOwned s) \<subseteq> dom (map_of (lbKnown s)) \<and> [] \<notin> set (lbOwned s) \<and>
     invites_inv s"

lemma lobby_inv_known: "lobby_inv me s \<Longrightarrow> map_of (lbKnown s) i = Some r \<Longrightarrow>
    lrLobbyId r = i \<and> (i \<in> set (lbOwned s) \<longrightarrow> lrOwnerProductId r = me)"
  unfolding lobby_inv_def using map_ok_get by fastforce

text \<open>The three shapes of update the operations are made of.\<close>

lemma lobby_inv_put:
  assumes inv: "lobby_inv me s" and known': "lbKnown s' = AList.update i r (lbKnown s)"
    and id: "lrLobbyId r = i" and own: "i \<in> set (lbOwned s') \<Longrightarrow> lrOwnerProductId r = me"
    and mo: "sset_ok (lbMemberOf s')" "set (lbMemberOf s') \<subseteq> insert i (set (lbMemberOf s))"
    and ow: "sset_ok (lbOwned s')" "set (lbOwned s') \<subseteq> insert i (set (lbOwned s))" "[] \<notin> set (lbOwned s')"
    and frame: "lbInvites s' = lbInvites s" "lbNextInvite s' = lbNextInvite s"
  shows "lobby_inv me s'"
proof -
  have m: "map_ok (\<lambda>j r. lrLobbyId r = j \<and> (j \<in> set (lbOwned s) \<longrightarrow> lrOwnerProductId r = me)) (lbKnown s)"
    using inv by (simp add: lobby_inv_def)
  then have d: "distinct (keys (AList.update i r (lbKnown s)))" by (simp add: map_ok_def)
  have "lrLobbyId v = j \<and> (j \<in> set (lbOwned s') \<longrightarrow> lrOwnerProductId v = me)"
    if "(j, v) \<in> set (AList.update i r (lbKnown s))" for j v
  proof (cases "j = i")
    case True
    with that d have "v = r" by (metis map_of_is_SomeI map_of_update fun_upd_same option.inject)
    with True id own show ?thesis by simp
  next
    case False
    with that d have "map_of (lbKnown s) j = Some v"
      by (metis map_of_is_SomeI map_of_update fun_upd_other)
    with map_ok_get [OF m] ow(2) False show ?thesis by auto
  qed
  with d have "map_ok (\<lambda>j r. lrLobbyId r = j \<and> (j \<in> set (lbOwned s') \<longrightarrow> lrOwnerProductId r = me)) (lbKnown s')"
    by (auto simp: map_ok_def known')
  with inv mo ow show ?thesis
    by (auto simp: lobby_inv_def invites_inv_def known' frame)
qed

lemma lobby_inv_drop: "lobby_inv me s \<Longrightarrow> lobby_inv me (drop_lobby i s)"
  unfolding lobby_inv_def
  by (auto simp: invites_inv_def AList.delete_eq map_ok_def dom_def map_of_filter_keys split: if_splits)

lemma lobby_inv_frame:
  assumes "lobby_inv me s" "lbKnown s' = lbKnown s" "lbMemberOf s' = lbMemberOf s" "lbOwned s' = lbOwned s"
    "invites_inv s'"
  shows "lobby_inv me s'"
  using assms by (simp add: lobby_inv_def)

section \<open>Every call and datagram keeps it\<close>

lemma lobby_inv_init: "lobby_inv me lobbies_init"
  by (simp add: lobby_inv_def lobbies_init_def invites_inv_def)

lemma lobby_inv_put_same:
  assumes inv: "lobby_inv me s" and r: "map_of (lbKnown s) i = Some r0" "lrLobbyId r = lrLobbyId r0"
    "lrOwnerProductId r = lrOwnerProductId r0"
  shows "lobby_inv me (put_known i r s)"
  by (rule lobby_inv_put [OF inv, where i = i and r = r])
    (use assms lobby_inv_known [OF inv r(1)] in \<open>auto simp: lobby_inv_def\<close>)

lemma lobby_inv_CreateLobby [inv_intros]:
  assumes inv: "lobby_inv me s" and local: "\<And>opt. options = Some opt \<Longrightarrow> clLocalUserId opt \<in> {None, Some me}"
  shows "lobby_inv me (fst (CreateLobby E K options cd cb s))"
proof (cases "\<exists>opt. options = Some opt \<and> clLocalUserId opt = Some me \<and>
    VersionInRange (clApiVersion opt) (EOS_LOBBY_CREATELOBBY_API_LATEST K)")
  case True
  then obtain opt where o1: "options = Some opt" "clLocalUserId opt = Some me"
    "VersionInRange (clApiVersion opt) (EOS_LOBBY_CREATELOBBY_API_LATEST K)" by blast
  obtain i s1 where n: "NewLobbyId E me s = (i, s1)" by (cases "NewLobbyId E me s")
  then have f: "lbKnown s1 = lbKnown s" "lbMemberOf s1 = lbMemberOf s" "lbOwned s1 = lbOwned s"
    "lbInvites s1 = lbInvites s" "lbNextInvite s1 = lbNextInvite s" by (auto simp: NewLobbyId_def)
  have i1: "lobby_inv me s1" by (rule lobby_inv_frame [OF inv]) (use f inv in \<open>simp_all add: lobby_inv_def invites_inv_def\<close>)
  have "lobby_inv me ((put_known i ((created_record K opt me)\<lparr>lrLobbyId := i\<rparr>) s1)
      \<lparr>lbMemberOf := sset_insert i (lbMemberOf s1), lbOwned := sset_insert i (lbOwned s1)\<rparr>)"
    by (rule lobby_inv_put [OF i1, where i = i and r = "(created_record K opt me)\<lparr>lrLobbyId := i\<rparr>"]) (use i1 n in \<open>auto simp: lobby_inv_def created_record_def Let_def NewLobbyId_def\<close>)
  with o1 n show ?thesis by (simp add: CreateLobby_def Let_def)
next
  case False
  with local inv show ?thesis by (fastforce simp: CreateLobby_def split: option.splits)
qed

lemma lobby_inv_UpdateLobby [inv_intros]: "lobby_inv me s \<Longrightarrow> lobby_inv me (fst (UpdateLobby K h cd cb s))"
  by (auto simp: UpdateLobby_def Let_def split: option.splits intro: lobby_inv_put_same)

lemma lobby_inv_DestroyLobby [inv_intros]: "lobby_inv me s \<Longrightarrow> lobby_inv me (fst (DestroyLobby E K opt cd cb s))"
  by (auto simp: DestroyLobby_def split: option.splits intro: lobby_inv_drop)

lemma lobby_inv_join:
  assumes "lobby_inv me s" "lrLobbyId r = i" "i \<in> set (lbOwned s) \<Longrightarrow> lrOwnerProductId r = me"
  shows "lobby_inv me ((put_known i (add_member K p r) s)\<lparr>lbMemberOf := sset_insert i (lbMemberOf s)\<rparr>)"
  by (rule lobby_inv_put [OF assms(1), where i = i and r = "add_member K p r"])
    (use assms in \<open>auto simp: lobby_inv_def\<close>)

lemma lobby_inv_JoinLobby [inv_intros]:
  assumes inv: "lobby_inv me s" shows "lobby_inv me (fst (JoinLobby E K opt cd cb s))"
proof (cases "\<exists>rec p. opt = Some (Some rec, Some p)")
  case True
  then obtain rec p where o1: "opt = Some (Some rec, Some p)" by blast
  let ?i = "lrLobbyId rec"
  let ?s0 = "case map_of (lbKnown s) ?i of Some r \<Rightarrow> r | None \<Rightarrow> LobbyRecord_default K"
  let ?st = "if lrLobbyId ?s0 = [] then rec else ?s0"
  have id: "lrLobbyId ?st = ?i"
  proof (cases "map_of (lbKnown s) ?i")
    case None
    then show ?thesis by (simp add: LobbyRecord_default_def)
  next
    case (Some r)
    with lobby_inv_known [OF inv Some] show ?thesis by simp
  qed
  have "lrOwnerProductId ?st = me" if owned: "?i \<in> set (lbOwned s)"
  proof -
    have dom: "set (lbOwned s) \<subseteq> dom (map_of (lbKnown s))" and ne: "[] \<notin> set (lbOwned s)"
      using inv by (simp_all add: lobby_inv_def)
    from subsetD [OF dom owned] obtain r where r: "map_of (lbKnown s) ?i = Some r" by (metis domD)
    from ne owned have "?i \<noteq> []" by metis
    with lobby_inv_known [OF inv r] r owned show ?thesis by simp
  qed
  from lobby_inv_join [OF inv id this, of K p] o1 show ?thesis by (simp add: JoinLobby_def Let_def)
next
  case False
  with inv show ?thesis by (auto simp: JoinLobby_def split: option.splits)
qed

lemma lobby_inv_JoinLobbyById [inv_intros]: "lobby_inv me s \<Longrightarrow> lobby_inv me (fst (JoinLobbyById E K opt cd cb s))"
  by (auto simp: JoinLobbyById_def split: option.splits intro!: lobby_inv_join dest: lobby_inv_known)

lemma lobby_inv_release:
  assumes "lobby_inv me s" "lrLobbyId r = i" "set mo \<subseteq> set (lbMemberOf s)" "sset_ok mo"
  shows "lobby_inv me ((put_known i r s)\<lparr>lbMemberOf := mo, lbOwned := sset_erase i (lbOwned s)\<rparr>)"
  by (rule lobby_inv_put [OF assms(1), where i = i and r = r]) (use assms in \<open>auto simp: lobby_inv_def\<close>)

lemma lobby_inv_LeaveLobby [inv_intros]:
  assumes inv: "lobby_inv me s" shows "lobby_inv me (fst (LeaveLobby K opt cd cb s))"
proof -
  have "lobby_inv me ((put_known i (bump (r\<lparr>lrMembers := ml, lrOwnerProductId := ow\<rparr>)) s)
      \<lparr>lbMemberOf := sset_erase i (lbMemberOf s), lbOwned := sset_erase i (lbOwned s)\<rparr>)"
    if "map_of (lbKnown s) i = Some r" for i r ml ow
    by (rule lobby_inv_release [OF inv]) (use inv lobby_inv_known [OF inv that] in \<open>auto simp: lobby_inv_def\<close>)
  then show ?thesis using inv
    by (auto simp: LeaveLobby_def Let_def split: option.splits intro: lobby_inv_drop)
qed

lemma lobby_inv_PromoteMember [inv_intros]:
  assumes inv: "lobby_inv me s" shows "lobby_inv me (fst (PromoteMember K opt cd cb s))"
proof -
  have "lobby_inv me ((put_known i (bump (r\<lparr>lrOwnerProductId := ow\<rparr>)) s)\<lparr>lbOwned := sset_erase i (lbOwned s)\<rparr>)"
    if "map_of (lbKnown s) i = Some r" for i r ow
    by (rule lobby_inv_put [OF inv, where i = i and r = "bump (r\<lparr>lrOwnerProductId := ow\<rparr>)"])
      (use inv lobby_inv_known [OF inv that] in \<open>auto simp: lobby_inv_def\<close>)
  then show ?thesis using inv by (auto simp: PromoteMember_def Let_def split: option.splits)
qed

lemma lobby_inv_KickMember [inv_intros]: "lobby_inv me s \<Longrightarrow> lobby_inv me (fst (KickMember K opt cd cb s))"
  by (auto simp: KickMember_def Let_def split: option.splits intro: lobby_inv_put_same)

lemma invites_inv_erase: "invites_inv s \<Longrightarrow> invites_inv (erase_invite i s)"
  using distinct_map_erase_first [of ivInviteId "lbInvites s"] set_erase_first_subset [of _ "lbInvites s"]
  by (auto simp: invites_inv_def erase_invite_def dest!: set_mp)

lemma lobby_inv_erase_invite: "lobby_inv me s \<Longrightarrow> lobby_inv me (erase_invite i s)"
  by (rule lobby_inv_frame) (auto simp: erase_invite_def lobby_inv_def invites_inv_erase [unfolded erase_invite_def])

lemma lobby_inv_RejectInvite [inv_intros]: "lobby_inv me s \<Longrightarrow> lobby_inv me (fst (RejectInvite opt cd cb s))"
  by (auto simp: RejectInvite_def split: option.splits intro: lobby_inv_erase_invite)

lemma lobby_inv_RejectInviteFromOverlay [inv_intros]:
  "lobby_inv me s \<Longrightarrow> lobby_inv me (fst (RejectInviteFromOverlay E i s))"
  by (auto simp: RejectInviteFromOverlay_def split: option.splits intro: lobby_inv_erase_invite)

lemma lobby_inv_BeginJoin [inv_intros]: "lobby_inv me s \<Longrightarrow> lobby_inv me (fst (snd (BeginJoinFromOverlay E i c s)))"
  by (auto simp: BeginJoinFromOverlay_def lobby_inv_def invites_inv_def split: option.splits prod.splits)

lemma lobby_inv_AcknowledgeUiEvent [inv_intros]: "lobby_inv me s \<Longrightarrow> lobby_inv me (AcknowledgeUiEvent ev s)"
  by (simp add: AcknowledgeUiEvent_def lobby_inv_def invites_inv_def)

section \<open>Datagrams\<close>

lemma invite_id_inj: "invite_id a = invite_id b \<longleftrightarrow> a = b"
  by (simp add: invite_id_def dec_str_inj)

lemma invites_inv_on_invite: "invites_inv s \<Longrightarrow> invites_inv (fst (on_invite E i p t s))"
  by (auto simp: invites_inv_def on_invite_def Let_def invite_id_inj less_Suc_eq)

lemma lobby_inv_on_invite:
  assumes "lobby_inv me s" shows "lobby_inv me (fst (on_invite E i p t s))"
  by (rule lobby_inv_frame [OF assms])
    (use assms invites_inv_on_invite [of s E i p t] in \<open>simp_all add: lobby_inv_def on_invite_def Let_def\<close>)

lemma lobby_inv_on_announce:
  assumes inv: "lobby_inv (leLocal E) s" and ne: "lrLobbyId fresh \<noteq> []"
  shows "lobby_inv (leLocal E) (fst (on_announce E K fresh s))"
proof -
  let ?i = "lrLobbyId fresh" and ?me = "leLocal E"
  have "lobby_inv ?me (put_known ?i fresh s)" if "?i \<notin> set (lbOwned s)"
    by (rule lobby_inv_put [OF inv, where i = ?i and r = fresh]) (use inv that in \<open>auto simp: lobby_inv_def\<close>)
  moreover have "lobby_inv ?me ((put_known ?i fresh s)\<lparr>lbOwned := sset_insert ?i (lbOwned s)\<rparr>)"
    if "lrOwnerProductId fresh = ?me"
    by (rule lobby_inv_put [OF inv, where i = ?i and r = fresh]) (use inv that ne in \<open>auto simp: lobby_inv_def\<close>)
  ultimately show ?thesis using inv by (auto simp: on_announce_def Let_def)
qed

lemma lobby_inv_put_erase:
  assumes inv: "lobby_inv me s" and r: "map_of (lbKnown s) i = Some r0" "lrLobbyId r = lrLobbyId r0"
    "lrOwnerProductId r = lrOwnerProductId r0"
  shows "lobby_inv me ((put_known i r s)\<lparr>lbMemberOf := sset_erase i (lbMemberOf s)\<rparr>)"
  by (rule lobby_inv_put [OF inv, where i = i and r = r])
    (use assms lobby_inv_known [OF inv r(1)] in \<open>auto simp: lobby_inv_def\<close>)

lemma lobby_inv_on_leave: "lobby_inv me s \<Longrightarrow> lobby_inv me (fst (on_leave E K i subj st s))"
  by (auto simp: on_leave_def Let_def split: option.splits
      intro: lobby_inv_drop lobby_inv_put_same lobby_inv_put_erase)

lemma lobby_inv_OnDatagram [inv_intros]:
  assumes "lobby_inv (leLocal E) s"
  shows "lobby_inv (leLocal E) (fst (Lobby_OnDatagram E K from ty pl s))"
  using assms
  by (cases ty; auto simp: Lobby_OnDatagram_def on_member_update_def on_join_request_def Let_def
      split: prod.splits option.splits
      intro!: lobby_inv_on_announce lobby_inv_on_leave lobby_inv_on_invite
      intro: lobby_inv_put_same)

section \<open>Steps and reachable states\<close>

text \<open>One step of a node's lobby state: any call, with any arguments, and any datagram.  \<open>me\<close> is
  the local product user id, fixed for the process; the peer directory and the tick vary.\<close>

inductive lobby_step :: "sdk \<Rightarrow> string \<Rightarrow> lobbies \<Rightarrow> lobbies \<Rightarrow> bool" for K me where
  create: "leLocal E = me \<Longrightarrow> (\<And>opt. options = Some opt \<Longrightarrow> clLocalUserId opt \<in> {None, Some me}) \<Longrightarrow>
    lobby_step K me s (fst (CreateLobby E K options cd cb s))"
| update: "lobby_step K me s (fst (UpdateLobby K h cd cb s))"
| destroy: "leLocal E = me \<Longrightarrow> lobby_step K me s (fst (DestroyLobby E K opt cd cb s))"
| join: "leLocal E = me \<Longrightarrow> lobby_step K me s (fst (JoinLobby E K jopt cd cb s))"
| join_id: "leLocal E = me \<Longrightarrow> lobby_step K me s (fst (JoinLobbyById E K iopt cd cb s))"
| leave: "lobby_step K me s (fst (LeaveLobby K iopt cd cb s))"
| promote: "lobby_step K me s (fst (PromoteMember K iopt cd cb s))"
| kick: "lobby_step K me s (fst (KickMember K iopt cd cb s))"
| reject: "lobby_step K me s (fst (RejectInvite opt cd cb s))"
| overlay_reject: "leLocal E = me \<Longrightarrow> lobby_step K me s (fst (RejectInviteFromOverlay E i s))"
| overlay_join: "leLocal E = me \<Longrightarrow> lobby_step K me s (fst (snd (BeginJoinFromOverlay E i c s)))"
| acknowledge: "lobby_step K me s (AcknowledgeUiEvent ev s)"
| datagram: "leLocal E = me \<Longrightarrow> lobby_step K me s (fst (Lobby_OnDatagram E K from ty pl s))"

definition lobby_reach :: "sdk \<Rightarrow> string \<Rightarrow> lobbies \<Rightarrow> bool" where
  "lobby_reach K me = (lobby_step K me)\<^sup>*\<^sup>* lobbies_init"

lemma lobby_inv_step: "lobby_step K me s t \<Longrightarrow> lobby_inv me s \<Longrightarrow> lobby_inv me t"
  by (induction rule: lobby_step.induct) (auto intro: inv_intros)

lemma lobby_inv_reach: "lobby_reach K me s \<Longrightarrow> lobby_inv me s"
  unfolding lobby_reach_def
  by (induction rule: rtranclp_induct) (auto intro: lobby_inv_init lobby_inv_step)

section \<open>Lobby ids\<close>

text \<open>Ids made under different counter values differ, whoever the owner and whatever the clock.\<close>

lemma NewLobbyId_inj:
  "fst (NewLobbyId E p s) = fst (NewLobbyId E' p' s') \<Longrightarrow> lbLobbyCounter s = lbLobbyCounter s'"
  by (auto simp: NewLobbyId_def dest: backend_id_inj)

section \<open>Replication\<close>

text \<open>The part of a record the wire carries.\<close>

definition wire_rec :: "LobbyRecord \<Rightarrow> LobbyRecord" where
  "wire_rec r = r\<lparr>lrHostEndpoint := no_endpoint, lrLastSeenTick := 0\<rparr>"

lemma SerializeRecord_wire: "SerializeRecord K r = SerializeRecord K (wire_rec r)"
  by (simp add: SerializeRecord_def wire_rec_def)

lemma stamp_wire: "stamp E from (wire_rec r) = stamp E from r"
  by (simp add: stamp_def wire_rec_def)

lemma wire_rec_fields [simp]:
  "lrLobbyId (wire_rec r) = lrLobbyId r" "lrOwnerProductId (wire_rec r) = lrOwnerProductId r"
  "lrMembers (wire_rec r) = lrMembers r" "lrVersion (wire_rec r) = lrVersion r"
  by (simp_all add: wire_rec_def)

lemma OnDatagram_announce:
  assumes "record_ok K (wire_rec r)" "lrLobbyId r \<noteq> []"
  shows "Lobby_OnDatagram E K from LobbyAnnounce (SerializeRecord K r) s = on_announce E K (stamp E from r) s"
proof -
  have "DeserializeRecord K (rdx [] (SerializeRecord K (wire_rec r) @ [])) =
      (wire_rec r, rdx ([] @ SerializeRecord K (wire_rec r)) [])"
    by (rule lobby_record.run [OF assms(1)])
  then have "DeserializeRecord K (reader_init (SerializeRecord K r)) = (wire_rec r, rdx (SerializeRecord K (wire_rec r)) [])"
    using SerializeRecord_wire [of K r] by (simp add: reader_init_rdx)
  with assms(2) show ?thesis by (simp add: Lobby_OnDatagram_def stamp_wire)
qed

lemma OnDatagram_join_request:
  assumes "short i" "short p"
  shows "Lobby_OnDatagram E K from LobbyJoinRequest (enc_str i @ enc_str p) s = on_join_request K i p s"
  using str.run [OF assms(1), of "[]" "enc_str p"] str.run [OF assms(2), of "enc_str i" "[]"]
  by (simp add: Lobby_OnDatagram_def reader_init_rdx)

lemma OnDatagram_leave:
  assumes "short i" "short p" "0 \<le> st" "st < 256"
  shows "Lobby_OnDatagram E K from LobbyLeave (leave_payload i p st) s = on_leave E K i p st s"
  using str.run [OF assms(1), of "[]" "enc_str p @ enc_u8 (enum_byte st)"]
    str.run [OF assms(2), of "enc_str i" "enc_u8 (enum_byte st)"] u8.run [OF TrueI, of "enc_str i @ enc_str p" "enum_byte st" "[]"]
    assms(3,4)
  by (simp add: Lobby_OnDatagram_def reader_init_rdx leave_payload_def)

lemma on_announce_adopts:
  assumes "lrLobbyId r \<notin> set (lbOwned s)"
  shows "map_of (lbKnown (fst (on_announce E K r s))) = (map_of (lbKnown s))(lrLobbyId r \<mapsto> r)"
    and "lbMemberOf (fst (on_announce E K r s)) = lbMemberOf s"
    and "set (lbOwned (fst (on_announce E K r s))) = set (lbOwned s) \<union>
      (if lrLobbyId r \<in> set (lbMemberOf s) \<and> lrOwnerProductId r = leLocal E then {lrLobbyId r} else {})"
  using assms by (simp_all add: on_announce_def Let_def)

section \<open>Admission\<close>

lemma on_join_request_admits:
  assumes "map_of (lbKnown s) i = Some r" "i \<in> set (lbOwned s)" "p \<notin> set (member_ids r)" "AvailableSlots r > 0"
  shows "on_join_request K i p s =
    (put_known i (bump (r\<lparr>lrMembers := lrMembers r @ [Member_new K p]\<rparr>)) s,
     BroadcastAnnounce K (bump (r\<lparr>lrMembers := lrMembers r @ [Member_new K p]\<rparr>)) # fire_status s i (EOS_LMS_JOINED K) p)"
  using assms by (simp add: on_join_request_def Let_def FindMember_None member_ids_def)

lemma on_join_request_refuses:
  assumes "map_of (lbKnown s) i = Some r" "i \<notin> set (lbOwned s) \<or> p \<in> set (member_ids r) \<or> AvailableSlots r = 0"
  shows "on_join_request K i p s = (s, [])"
  using assms by (auto simp: on_join_request_def FindMember_None member_ids_def)

definition room_ok :: "LobbyRecord \<Rightarrow> bool" where
  "room_ok r \<longleftrightarrow> distinct (member_ids r) \<and> length (lrMembers r) \<le> unat (lrMaxMembers r)"

lemma AvailableSlots_pos: "length (lrMembers r) < 2 ^ 32 \<Longrightarrow> AvailableSlots r > 0 \<longleftrightarrow> length (lrMembers r) < unat (lrMaxMembers r)"
  by (simp add: AvailableSlots_def Let_def)

text \<open>Serving join requests never overfills a lobby and never lists a member twice.\<close>

lemma on_join_request_room:
  assumes "map_of (lbKnown s) i = Some r" "room_ok r"
  shows "\<exists>r'. map_of (lbKnown (fst (on_join_request K i p s))) i = Some r' \<and> room_ok r'"
proof (cases "i \<in> set (lbOwned s) \<and> p \<notin> set (member_ids r) \<and> AvailableSlots r > 0")
  case True
  have "length (lrMembers r) < 2 ^ 32" using assms(2) unat_lt_numerals(3) [of "lrMaxMembers r"] by (simp add: room_ok_def)
  from AvailableSlots_pos [OF this] True have "length (lrMembers r) < unat (lrMaxMembers r)" by simp
  with on_join_request_admits [OF assms(1), of p K] True assms(2) show ?thesis by (simp add: room_ok_def)
next
  case False
  with on_join_request_refuses [OF assms(1), of p K] assms show ?thesis by auto
qed

section \<open>Host migration\<close>

lemma LeaveLobby_migrates:
  assumes r: "map_of (lbKnown s) i = Some r" and own: "i \<in> set (lbOwned s)" "i \<in> set (lbMemberOf s)"
    and hm: "lrAllowHostMigration r \<noteq> EOS_FALSE" and d: "distinct (member_ids r)"
    and next_m: "removeAll me (member_ids r) = heir # rest"
  shows "\<exists>r'. map_of (lbKnown (fst (LeaveLobby K (Some (Some i, Some me)) cd cb s))) i = Some r' \<and>
    lrOwnerProductId r' = heir \<and> member_ids r' = heir # rest \<and> lrVersion r' = lrVersion r + 1 \<and> lrLobbyId r' = lrLobbyId r \<and>
    net_calls (snd (LeaveLobby K (Some (Some i, Some me)) cd cb s)) =
      net_calls [bcast_msg LobbyLeave (leave_payload i me (EOS_LMS_LEFT K)), BroadcastAnnounce K r'] \<and>
    i \<notin> set (lbOwned (fst (LeaveLobby K (Some (Some i, Some me)) cd cb s))) \<and>
    i \<notin> set (lbMemberOf (fst (LeaveLobby K (Some (Some i, Some me)) cd cb s)))"
proof -
  let ?r1 = "r\<lparr>lrMembers := erase_member me (lrMembers r)\<rparr>"
  have ids: "map lmProductId (erase_member me (lrMembers r)) = heir # rest"
    using member_ids_erase [OF d, of me] next_m by (simp add: member_ids_def)
  then obtain m mems where mm: "erase_member me (lrMembers r) = m # mems" "lmProductId m = heir" by (cases "erase_member me (lrMembers r)") auto
  let ?r2 = "bump (?r1\<lparr>lrOwnerProductId := heir\<rparr>)"
  have "LeaveLobby K (Some (Some i, Some me)) cd cb s =
    ((put_known i ?r2 s)\<lparr>lbMemberOf := sset_erase i (lbMemberOf s), lbOwned := sset_erase i (lbOwned s)\<rparr>,
     bcast_msg LobbyLeave (leave_payload i me (EOS_LMS_LEFT K)) # BroadcastAnnounce K ?r2 #
       complete cb (\<lambda>f. LobbyDone f cd EOS_Success (Some i)))"
    using r own hm mm by (simp add: LeaveLobby_def Let_def)
  then show ?thesis using ids by (simp add: BroadcastAnnounce_def member_ids_def)
qed

section \<open>Search\<close>

lemma CollectSearchResults_spec:
  "soResults (CollectSearchResults K q s) = take (soMaxResults q) (filter (MatchesSearch K q) (map snd (lbKnown s)))"
  by (simp add: CollectSearchResults_def collect_take)

section \<open>Repeated announcements\<close>

definition attrs_refl :: "sdk \<Rightarrow> attr_list \<Rightarrow> bool" where
  "attrs_refl K as \<longleftrightarrow> distinct (keys as) \<and> (\<forall>(k, a) \<in> set as. LobbyAttrEqual K a a)"

lemma MemberAttrsEqual_refl: "attrs_refl K as \<Longrightarrow> MemberAttrsEqual K as as"
proof -
  assume r: "attrs_refl K as"
  have "find (\<lambda>kv. fst kv = k) as = Some (k, a)" if "(k, a) \<in> set as" for k a
    using find_distinct [of fst as "(k, a)"] r that by (simp add: attrs_refl_def)
  with r show ?thesis by (auto simp: attrs_refl_def MemberAttrsEqual_def list_all_iff)
qed

lemma FindMember_mem: "distinct (member_ids r) \<Longrightarrow> m \<in> set (lrMembers r) \<Longrightarrow> FindMember r (lmProductId m) = Some m"
  unfolding member_ids_def FindMember_def by (rule find_distinct)

lemma members_not_in_same: "map lmProductId (lrMembers a) = map lmProductId (lrMembers b) \<Longrightarrow> members_not_in a b = []"
proof -
  assume eq: "map lmProductId (lrMembers a) = map lmProductId (lrMembers b)"
  have "FindMember b p \<noteq> None" if "p \<in> set (map lmProductId (lrMembers a))" for p
    using that unfolding eq FindMember_None by simp
  then show ?thesis by (simp add: members_not_in_def filter_empty_conv)
qed

lemma announce_repeat_silent:
  assumes same: "wire_rec old = wire_rec fresh" and d: "distinct (member_ids fresh)"
    and at: "\<forall>m \<in> set (lrMembers fresh). attrs_refl K (lmAttributes m)"
  shows "announce_events K s old fresh = []"
proof -
  have f: "lrVersion old = lrVersion fresh" "lrOwnerProductId old = lrOwnerProductId fresh"
    "lrMembers old = lrMembers fresh"
    using same by (metis wire_rec_fields(2-4))+
  from d f(3) have d': "distinct (member_ids old)" by (simp add: member_ids_def)
  have "members_changed K old fresh = []"
    using FindMember_mem [OF d'] at f(3) by (auto simp: members_changed_def filter_empty_conv MemberAttrsEqual_refl)
  moreover have "members_not_in old fresh = []" "members_not_in fresh old = []"
    by (rule members_not_in_same, simp add: f(3))+
  ultimately show ?thesis using f by (simp add: announce_events_def Let_def)
qed

section \<open>Notifications of a membership change\<close>

lemma posts_fire_status [simp]:
  "posts (fire_status s i st p) = map (\<lambda>e. MemberStatusCb (neFn e) (neCd e) i (intern p) st) (lbMemberStatusReceived s)"
  "net_calls (fire_status s i st p) = []"
  by (simp_all add: fire_status_def)

lemma posts_fire_update [simp]:
  "posts (fire_update s i) = map (\<lambda>e. LobbyUpdateCb (neFn e) (neCd e) i) (lbUpdateReceived s)"
  "net_calls (fire_update s i) = []"
  by (simp_all add: fire_update_def)

lemma posts_fire_member_update [simp]:
  "posts (fire_member_update s i p) = map (\<lambda>e. MemberUpdateCb (neFn e) (neCd e) i (intern p)) (lbMemberUpdateReceived s)"
  "net_calls (fire_member_update s i p) = []"
  by (simp_all add: fire_member_update_def)

section \<open>Who may write\<close>

lemma UpdateLobby_not_owner:
  assumes "map_of (lbKnown s) (moLobbyId mo) = Some r" "moLobbyId mo \<notin> set (lbOwned s)" "HasLobbyScope mo"
  shows "UpdateLobby K (Some mo) cd cb s = (s, complete cb (\<lambda>f. LobbyDone f cd EOS_Lobby_NotOwner None))"
  using assms by (simp add: UpdateLobby_def)

lemma update_member_at:
  "(\<And>m. lmProductId (f m) = lmProductId m) \<Longrightarrow>
   find (\<lambda>m. lmProductId m = q) (update_member p f mems) =
     (if q = p then map_option f (find (\<lambda>m. lmProductId m = p) mems) else find (\<lambda>m. lmProductId m = q) mems)"
  by (induction mems) auto

text \<open>A member's own update, as the owner merges it: the version grows by one, the member list keeps
  its order, and only the named member's attributes change.\<close>

lemma on_member_update_merges:
  assumes "map_of (lbKnown s) i = Some r" "i \<in> set (lbOwned s)" "p \<in> set (member_ids r)"
  shows "\<exists>r'. map_of (lbKnown (fst (on_member_update K i p adds rems s))) i = Some r' \<and>
    lrVersion r' = lrVersion r + 1 \<and> member_ids r' = member_ids r \<and> lrAttributes r' = lrAttributes r \<and>
    lrOwnerProductId r' = lrOwnerProductId r \<and>
    (\<forall>q. q \<noteq> p \<longrightarrow> FindMember r' q = FindMember r q) \<and>
    FindMember r' p = map_option (ApplyMemberAttrs adds rems) (FindMember r p) \<and>
    net_calls (snd (on_member_update K i p adds rems s)) = net_calls [BroadcastAnnounce K r']"
proof -
  let ?r = "r\<lparr>lrMembers := update_member p (ApplyMemberAttrs adds rems) (lrMembers r)\<rparr>"
  have "on_member_update K i p adds rems s =
      (put_known i (bump ?r) s, BroadcastAnnounce K (bump ?r) # fire_member_update s i p)"
    using assms by (simp add: on_member_update_def Let_def FindMember_None member_ids_def)
  then show ?thesis by (simp add: BroadcastAnnounce_def FindMember_def update_member_at bump_def member_ids_def)
qed

text \<open>What the attribute edit does to a member's attributes, as a map.\<close>

lemma ApplyMemberAttrs_map:
  assumes "distinct (keys (lmAttributes m))"
  shows "map_of (lmAttributes (ApplyMemberAttrs adds rems m)) =
    (\<lambda>k. if k \<in> set rems then None else (map_of (lmAttributes m) ++ map_of (rev adds)) k)"
  using remove_attrs_props [OF distinct_add_attrs [OF assms, of adds], of rems]
  unfolding map_of_add_attrs by (simp add: ApplyMemberAttrs_def)

section \<open>Closing\<close>

lemma drop_lobby_gone:
  "map_of (lbKnown (drop_lobby i s)) i = None \<and> i \<notin> set (lbMemberOf (drop_lobby i s)) \<and> i \<notin> set (lbOwned (drop_lobby i s))"
  by simp

lemma DestroyLobby_owned:
  "i \<in> set (lbOwned s) \<Longrightarrow> DestroyLobby E K (Some (Some i)) cd cb s =
     (drop_lobby i s, bcast_msg LobbyLeave (leave_payload i (leLocal E) (EOS_LMS_CLOSED K)) #
        complete cb (\<lambda>f. LobbyDone f cd EOS_Success (Some i)))"
  by (simp add: DestroyLobby_def)

lemma on_leave_closed:
  "map_of (lbKnown s) i = Some r \<Longrightarrow> on_leave E K i p (EOS_LMS_CLOSED K) s =
     (drop_lobby i s, if i \<in> set (lbMemberOf s) then fire_status s i (EOS_LMS_CLOSED K) p else [])"
  by (simp add: on_leave_def Let_def)

lemma sdk_lms: "sdk_ok K \<Longrightarrow> e \<in> {EOS_LMS_JOINED K, EOS_LMS_LEFT K, EOS_LMS_KICKED K, EOS_LMS_PROMOTED K, EOS_LMS_CLOSED K} \<Longrightarrow>
    0 \<le> e \<and> e < 256"
  by (auto simp: sdk_ok_def byte_codes_def)

lemma sdk_lms_closed: "sdk_ok K \<Longrightarrow> EOS_LMS_LEFT K \<noteq> EOS_LMS_CLOSED K \<and> EOS_LMS_KICKED K \<noteq> EOS_LMS_CLOSED K"
  by (auto simp: sdk_ok_def byte_codes_def)

section \<open>Self-promotion\<close>

text \<open>An owner that promotes itself names itself in the record and gives the authority up.\<close>

lemma PromoteMember_gives_up:
  assumes "map_of (lbKnown s) i = Some r" "i \<in> set (lbOwned s)" "p \<in> set (member_ids r)"
  shows "\<exists>r'. map_of (lbKnown (fst (PromoteMember K (Some (Some i, Some p)) cd cb s))) i = Some r' \<and>
    lrOwnerProductId r' = p \<and> member_ids r' = member_ids r \<and>
    i \<notin> set (lbOwned (fst (PromoteMember K (Some (Some i, Some p)) cd cb s)))"
  using assms by (simp add: PromoteMember_def Let_def FindMember_None member_ids_def)

end
