(* ===== verification/LobbyExports.thy ===== *)
theory LobbyExports
  imports LobbyNet
begin

text \<open>
  The exported entry points of \<open>src/interfaces/Lobby_Exports.cpp\<close> that do more than forward to
  \<open>LobbyInterface\<close>: notification registration, the modification builder, the accessors of a
  details snapshot, the search object and its retirement ring, and the connect-string parser.

  A null handle, options pointer or out pointer is \<open>None\<close> or \<open>False\<close>.
\<close>

section \<open>Notification registration\<close>

datatype lobby_registry =
    UpdateReceived | MemberUpdateReceived | MemberStatusReceived | InviteReceived | InviteAccepted
  | InviteRejected | JoinAccepted | LeaveRequested | RTCRoomConn

fun registry :: "lobby_registry \<Rightarrow> lobbies \<Rightarrow> nentry list" where
  "registry UpdateReceived s = lbUpdateReceived s"
| "registry MemberUpdateReceived s = lbMemberUpdateReceived s"
| "registry MemberStatusReceived s = lbMemberStatusReceived s"
| "registry InviteReceived s = lbInviteReceived s"
| "registry InviteAccepted s = lbInviteAccepted s"
| "registry InviteRejected s = lbInviteRejected s"
| "registry JoinAccepted s = lbJoinAccepted s"
| "registry LeaveRequested s = lbLeaveRequested s"
| "registry RTCRoomConn s = lbRTCRoomConn s"

fun put_registry :: "lobby_registry \<Rightarrow> nentry list \<Rightarrow> lobbies \<Rightarrow> lobbies" where
  "put_registry UpdateReceived es s = s\<lparr>lbUpdateReceived := es\<rparr>"
| "put_registry MemberUpdateReceived es s = s\<lparr>lbMemberUpdateReceived := es\<rparr>"
| "put_registry MemberStatusReceived es s = s\<lparr>lbMemberStatusReceived := es\<rparr>"
| "put_registry InviteReceived es s = s\<lparr>lbInviteReceived := es\<rparr>"
| "put_registry InviteAccepted es s = s\<lparr>lbInviteAccepted := es\<rparr>"
| "put_registry InviteRejected es s = s\<lparr>lbInviteRejected := es\<rparr>"
| "put_registry JoinAccepted es s = s\<lparr>lbJoinAccepted := es\<rparr>"
| "put_registry LeaveRequested es s = s\<lparr>lbLeaveRequested := es\<rparr>"
| "put_registry RTCRoomConn es s = s\<lparr>lbRTCRoomConn := es\<rparr>"

text \<open>The nine \<open>EOS_Lobby_AddNotify...\<close> and \<open>RemoveNotify...\<close> functions: id, new
  id counter, new state.\<close>

definition Lobby_AddNotify ::
  "lobby_registry \<Rightarrow> nat option \<Rightarrow> nat \<Rightarrow> nat \<Rightarrow> lobbies \<Rightarrow> nat \<times> nat \<times> lobbies" where
  "Lobby_AddNotify g fn cd c s =
     (case Notify_Add fn cd c (registry g s) of (i, c', es) \<Rightarrow> (i, c', put_registry g es s))"

definition Lobby_RemoveNotify :: "lobby_registry \<Rightarrow> nat \<Rightarrow> lobbies \<Rightarrow> lobbies" where
  "Lobby_RemoveNotify g i s = put_registry g (Notify_Remove i (registry g s)) s"

definition AddNotifySendLobbyNativeInviteRequested :: "nat \<times> lobbies \<Rightarrow> nat \<times> lobbies" where
  "AddNotifySendLobbyNativeInviteRequested cs = (EOS_INVALID_NOTIFICATIONID, snd cs)"

section \<open>The modification builder\<close>

definition AttrFromData :: "sdk \<Rightarrow> AttributeData \<Rightarrow> enum \<Rightarrow> LobbyAttr" where
  "AttrFromData K d vis = \<lparr>laValue = ReadAttr K (adType d) (adInt d) (adDbl d) (adBool d) (adUtf8 d), laVisibility = vis\<rparr>"

type_synonym mod_result = "eresult \<times> LobbyModificationObj option"

definition SetBucketId :: "LobbyModificationObj option \<Rightarrow> string option option \<Rightarrow> mod_result" where
  "SetBucketId h options = with_mod h options (\<lambda>b m. map_option (\<lambda>v. m\<lparr>moBucket := Some v\<rparr>) b)"

definition SetPermissionLevel :: "LobbyModificationObj option \<Rightarrow> enum option \<Rightarrow> mod_result" where
  "SetPermissionLevel h options = with_mod h options (\<lambda>p m. Some (m\<lparr>moPerm := Some p\<rparr>))"

definition SetMaxMembers :: "LobbyModificationObj option \<Rightarrow> u32 option \<Rightarrow> mod_result" where
  "SetMaxMembers h options = with_mod h options (\<lambda>n m. Some (m\<lparr>moMax := Some n\<rparr>))"

definition SetInvitesAllowed :: "LobbyModificationObj option \<Rightarrow> int option \<Rightarrow> mod_result" where
  "SetInvitesAllowed h options = with_mod h options (\<lambda>b m. Some (m\<lparr>moInvites := Some b\<rparr>))"

definition AddAttribute ::
  "sdk \<Rightarrow> LobbyModificationObj option \<Rightarrow> (AttributeData option \<times> enum) option \<Rightarrow> mod_result" where
  "AddAttribute K h options = with_mod h options
     (\<lambda>(d, vis) m. case d of None \<Rightarrow> None | Some dt \<Rightarrow> (case adKey dt of None \<Rightarrow> None
        | Some k \<Rightarrow> Some (m\<lparr>moAddAttrs := moAddAttrs m @ [(k, AttrFromData K dt vis)]\<rparr>)))"

definition RemoveAttribute :: "LobbyModificationObj option \<Rightarrow> string option option \<Rightarrow> mod_result" where
  "RemoveAttribute h options =
     with_mod h options (\<lambda>b m. map_option (\<lambda>k. m\<lparr>moRemoveAttrs := moRemoveAttrs m @ [k]\<rparr>) b)"

definition AddMemberAttribute ::
  "sdk \<Rightarrow> LobbyModificationObj option \<Rightarrow> (AttributeData option \<times> enum) option \<Rightarrow> mod_result" where
  "AddMemberAttribute K h options = with_mod h options
     (\<lambda>(d, vis) m. case d of None \<Rightarrow> None | Some dt \<Rightarrow> (case adKey dt of None \<Rightarrow> None
        | Some k \<Rightarrow> Some (m\<lparr>moAddMemberAttrs := moAddMemberAttrs m @ [(k, AttrFromData K dt vis)]\<rparr>)))"

definition RemoveMemberAttribute :: "LobbyModificationObj option \<Rightarrow> string option option \<Rightarrow> mod_result" where
  "RemoveMemberAttribute h options =
     with_mod h options (\<lambda>b m. map_option (\<lambda>k. m\<lparr>moRemoveMemberAttrs := moRemoveMemberAttrs m @ [k]\<rparr>) b)"

text \<open>The array is a nullable pointer and a count (the caller guarantees that many elements).\<close>

definition SetAllowedPlatformIds ::
  "LobbyModificationObj option \<Rightarrow> (u32 list option \<times> nat) option \<Rightarrow> mod_result" where
  "SetAllowedPlatformIds h options = with_mod h options
     (\<lambda>(ids, n) m. Some (m\<lparr>moPlatforms := Some (case ids of None \<Rightarrow> [] | Some xs \<Rightarrow> take n xs)\<rparr>))"

section \<open>Details accessors\<close>

text \<open>A details handle is the record it holds a copy of.\<close>

definition MakeAttribute :: "sdk \<Rightarrow> string \<Rightarrow> LobbyAttr \<Rightarrow> AttributeOut" where
  "MakeAttribute K key a = attribute_out K key (laVisibility a) (laValue a)"

definition GetLobbyOwner :: "LobbyRecord option \<Rightarrow> puid option" where
  "GetLobbyOwner h = (case h of None \<Rightarrow> None | Some r \<Rightarrow> intern (lrOwnerProductId r))"

record LobbyInfo =
  liLobbyId :: string
  liOwner :: "puid option"
  liPermission :: enum
  liAvailableSlots :: nat
  liMaxMembers :: u32
  liAllowInvites :: int
  liBucketId :: string
  liAllowHostMigration :: int
  liRTCRoomEnabled :: int
  liAllowJoinById :: int
  liRejoinAfterKickRequiresInvite :: int
  liPresenceEnabled :: int
  liAllowedPlatformIds :: "u32 list option"

definition CopyInfo :: "LobbyRecord option \<Rightarrow> bool \<Rightarrow> eresult \<times> LobbyInfo option" where
  "CopyInfo h out =
     (case h of
        None \<Rightarrow> (EOS_InvalidParameters, None)
      | Some r \<Rightarrow> if \<not> out then (EOS_InvalidParameters, None)
        else (EOS_Success, Some
          \<lparr>liLobbyId = c_str (lrLobbyId r), liOwner = intern (lrOwnerProductId r), liPermission = lrPermission r,
           liAvailableSlots = AvailableSlots r, liMaxMembers = lrMaxMembers r, liAllowInvites = lrAllowInvites r,
           liBucketId = c_str (lrBucketId r), liAllowHostMigration = lrAllowHostMigration r,
           liRTCRoomEnabled = lrRTCRoomEnabled r, liAllowJoinById = lrAllowJoinById r,
           liRejoinAfterKickRequiresInvite = EOS_FALSE, liPresenceEnabled = lrPresenceEnabled r,
           liAllowedPlatformIds = (if lrAllowedPlatformIds r = [] then None else Some (lrAllowedPlatformIds r))\<rparr>))"

record MemberInfo =
  miUserId :: puid
  miPlatform :: u32
  miAllowsCrossplay :: int

definition CopyMemberInfo :: "LobbyRecord option \<Rightarrow> puid option option \<Rightarrow> bool \<Rightarrow> eresult \<times> MemberInfo option" where
  "CopyMemberInfo h options out =
     (case (h, options) of
        (Some r, Some (Some pid)) \<Rightarrow>
          if \<not> out then (EOS_InvalidParameters, None)
          else (case FindMember r pid of
                  None \<Rightarrow> (EOS_NotFound, None)
                | Some m \<Rightarrow> (EOS_Success, Some \<lparr>miUserId = pid, miPlatform = lmPlatform m, miAllowsCrossplay = EOS_TRUE\<rparr>))
      | _ \<Rightarrow> (EOS_InvalidParameters, None))"

definition attr_by_index :: "sdk \<Rightarrow> nat \<Rightarrow> attr_list \<Rightarrow> eresult \<times> AttributeOut option" where
  "attr_by_index K i as =
     (if i \<ge> length as then (EOS_NotFound, None) else (EOS_Success, Some (MakeAttribute K (fst (as ! i)) (snd (as ! i)))))"

definition attr_by_key :: "sdk \<Rightarrow> string \<Rightarrow> attr_list \<Rightarrow> eresult \<times> AttributeOut option" where
  "attr_by_key K k as =
     (case find (\<lambda>kv. fst kv = k) as of None \<Rightarrow> (EOS_NotFound, None) | Some (k', a) \<Rightarrow> (EOS_Success, Some (MakeAttribute K k' a)))"

definition GetAttributeCount :: "LobbyRecord option \<Rightarrow> nat" where
  "GetAttributeCount h = (case h of None \<Rightarrow> 0 | Some r \<Rightarrow> length (lrAttributes r))"

definition CopyAttributeByIndex :: "sdk \<Rightarrow> LobbyRecord option \<Rightarrow> nat option \<Rightarrow> bool \<Rightarrow> eresult \<times> AttributeOut option" where
  "CopyAttributeByIndex K h options out =
     (case (h, options) of
        (Some r, Some i) \<Rightarrow> if out then attr_by_index K i (lrAttributes r) else (EOS_InvalidParameters, None)
      | _ \<Rightarrow> (EOS_InvalidParameters, None))"

definition CopyAttributeByKey ::
  "sdk \<Rightarrow> LobbyRecord option \<Rightarrow> string option option \<Rightarrow> bool \<Rightarrow> eresult \<times> AttributeOut option" where
  "CopyAttributeByKey K h options out =
     (case (h, options) of
        (Some r, Some (Some k)) \<Rightarrow> if out then attr_by_key K k (lrAttributes r) else (EOS_InvalidParameters, None)
      | _ \<Rightarrow> (EOS_InvalidParameters, None))"

definition GetMemberCount :: "LobbyRecord option \<Rightarrow> nat" where
  "GetMemberCount h = (case h of None \<Rightarrow> 0 | Some r \<Rightarrow> length (lrMembers r))"

definition GetMemberByIndex :: "LobbyRecord option \<Rightarrow> nat option \<Rightarrow> puid option" where
  "GetMemberByIndex h options =
     (case (h, options) of
        (Some r, Some i) \<Rightarrow> if i \<ge> length (lrMembers r) then None else intern (lmProductId (lrMembers r ! i))
      | _ \<Rightarrow> None)"

definition GetMemberAttributeCount :: "LobbyRecord option \<Rightarrow> puid option option \<Rightarrow> nat" where
  "GetMemberAttributeCount h options =
     (case (h, options) of
        (Some r, Some (Some pid)) \<Rightarrow> (case FindMember r pid of None \<Rightarrow> 0 | Some m \<Rightarrow> length (lmAttributes m))
      | _ \<Rightarrow> 0)"

definition CopyMemberAttributeByIndex ::
  "sdk \<Rightarrow> LobbyRecord option \<Rightarrow> (puid option \<times> nat) option \<Rightarrow> bool \<Rightarrow> eresult \<times> AttributeOut option" where
  "CopyMemberAttributeByIndex K h options out =
     (case (h, options) of
        (Some r, Some (Some pid, i)) \<Rightarrow>
          if \<not> out then (EOS_InvalidParameters, None)
          else (case FindMember r pid of None \<Rightarrow> (EOS_NotFound, None) | Some m \<Rightarrow> attr_by_index K i (lmAttributes m))
      | _ \<Rightarrow> (EOS_InvalidParameters, None))"

definition CopyMemberAttributeByKey ::
  "sdk \<Rightarrow> LobbyRecord option \<Rightarrow> (puid option \<times> string option) option \<Rightarrow> bool \<Rightarrow> eresult \<times> AttributeOut option" where
  "CopyMemberAttributeByKey K h options out =
     (case (h, options) of
        (Some r, Some (Some pid, Some k)) \<Rightarrow>
          if \<not> out then (EOS_InvalidParameters, None)
          else (case FindMember r pid of None \<Rightarrow> (EOS_NotFound, None) | Some m \<Rightarrow> attr_by_key K k (lmAttributes m))
      | _ \<Rightarrow> (EOS_InvalidParameters, None))"

section \<open>Search\<close>

definition kSearchLatencyMs :: int where
  "kSearchLatencyMs = 120"

text \<open>The retirement ring: searches are named by addresses; the result is the new ring and the
  addresses freed.\<close>

fun retire_loop :: "nat list \<Rightarrow> nat list \<times> nat list" where
  "retire_loop ring = (if length ring > 16 then (case retire_loop (tl ring) of (r, fr) \<Rightarrow> (r, hd ring # fr)) else (ring, []))"

declare retire_loop.simps [simp del]

definition RetireSearch :: "nat option \<Rightarrow> nat list \<Rightarrow> nat list \<times> nat list" where
  "RetireSearch h ring = (case h of None \<Rightarrow> (ring, []) | Some a \<Rightarrow> retire_loop (ring @ [a]))"

datatype find_completion =
    NoCompletion
  | AfterDelay int lobby_task
  | Inline lobby_task

text \<open>\<open>Find\<close>: the lobby state is \<open>None\<close> when there is no platform.  The completion carries
  no lobby id.\<close>

definition LobbySearch_Find ::
  "sdk \<Rightarrow> LobbySearchObj option \<Rightarrow> lobbies option \<Rightarrow> nat \<Rightarrow> nat option \<Rightarrow> LobbySearchObj option \<times> find_completion" where
  "LobbySearch_Find K h st cd cb =
     (let h' = (case (h, st) of (Some q, Some s) \<Rightarrow> Some (CollectSearchResults K q s) | _ \<Rightarrow> h);
          result = (if h \<noteq> None \<and> st \<noteq> None then EOS_Success else EOS_InvalidParameters)
      in (h', case cb of
                None \<Rightarrow> NoCompletion
              | Some f \<Rightarrow> if st \<noteq> None then AfterDelay kSearchLatencyMs (LobbyDone f cd result None)
                          else Inline (LobbyDone f cd result None)))"

type_synonym search_result = "eresult \<times> LobbySearchObj option"

definition SetLobbyId :: "LobbySearchObj option \<Rightarrow> string option option \<Rightarrow> search_result" where
  "SetLobbyId h options = with_search h options (\<lambda>i q. q\<lparr>soByLobbyId := i\<rparr>)"

definition SetTargetUserId :: "LobbySearchObj option \<Rightarrow> puid option option \<Rightarrow> search_result" where
  "SetTargetUserId h options = with_search h options (\<lambda>i q. q\<lparr>soByTargetUser := i\<rparr>)"

definition SetParameter ::
  "sdk \<Rightarrow> LobbySearchObj option \<Rightarrow> (AttributeData option \<times> ComparisonOp) option \<Rightarrow> search_result" where
  "SetParameter K h options =
     (case (h, options) of
        (Some q, Some (Some d, op)) \<Rightarrow>
          (case adKey d of
             None \<Rightarrow> (EOS_InvalidParameters, h)
           | Some k \<Rightarrow>
             (EOS_Success, Some (q\<lparr>soParams := put_param
                \<lparr>seKey = k, seValue = ReadAttr K (adType d) (adInt d) (adDbl d) (adBool d) (adUtf8 d), seOp = op\<rparr>
                (soParams q)\<rparr>)))
      | _ \<Rightarrow> (EOS_InvalidParameters, h))"

definition RemoveParameter :: "LobbySearchObj option \<Rightarrow> string option option \<Rightarrow> search_result" where
  "RemoveParameter h options =
     with_search h options (\<lambda>k q. q\<lparr>soParams := erase_first (\<lambda>e. seKey e = k) (soParams q)\<rparr>)"

definition SetMaxResults :: "LobbySearchObj option \<Rightarrow> nat option \<Rightarrow> search_result" where
  "SetMaxResults h options =
     (case (h, options) of
        (Some q, Some n) \<Rightarrow> if n = 0 then (EOS_InvalidParameters, h) else (EOS_Success, Some (q\<lparr>soMaxResults := n\<rparr>))
      | _ \<Rightarrow> (EOS_InvalidParameters, h))"

definition GetSearchResultCount :: "LobbySearchObj option \<Rightarrow> nat" where
  "GetSearchResultCount h = (case h of None \<Rightarrow> 0 | Some q \<Rightarrow> length (soResults q))"

definition CopySearchResultByIndex :: "LobbySearchObj option \<Rightarrow> nat option \<Rightarrow> bool \<Rightarrow> eresult \<times> LobbyRecord option" where
  "CopySearchResultByIndex h options out =
     (case (h, options) of
        (Some q, Some i) \<Rightarrow>
          if \<not> out then (EOS_InvalidParameters, None)
          else if i \<ge> length (soResults q) then (EOS_NotFound, None) else (EOS_Success, Some (soResults q ! i))
      | _ \<Rightarrow> (EOS_InvalidParameters, None))"

section \<open>Connect string\<close>

text \<open>\<open>strncmp\<close> and \<open>strlen\<close> on the C string argument.\<close>

definition ParseConnectString :: "string option option \<Rightarrow> bool \<Rightarrow> int option \<Rightarrow> eresult \<times> int option \<times> string option" where
  "ParseConnectString options has_buffer len =
     (case (options, len) of
        (Some (Some str), Some n) \<Rightarrow>
          (let pre = ''eosemu:lobby:'';
               lobby = (if take (length pre) str = pre then drop (length pre) str else str)
           in case sized_copy lobby has_buffer n of (r, l, t) \<Rightarrow> (r, Some l, t))
      | _ \<Rightarrow> (EOS_InvalidParameters, len, None))"

section \<open>Facts\<close>

lemma registry_put [simp]: "registry g (put_registry g es s) = es"
  by (cases g) simp_all

lemma registry_put_other [simp]: "g \<noteq> h \<Longrightarrow> registry h (put_registry g es s) = registry h s"
  by (cases g; cases h) simp_all

text \<open>The ring holds the last sixteen searches released; every earlier one has been freed, once.\<close>

lemma retire_loop_eq: "retire_loop ring = (drop (length ring - 16) ring, take (length ring - 16) ring)"
proof (induction ring rule: retire_loop.induct)
  case (1 ring)
  show ?case
  proof (cases "length ring > 16")
    case True
    then obtain a as where r: "ring = a # as" by (cases ring) auto
    with True have n: "length ring - 16 = Suc (length as - 16)" by auto
    from 1 True r show ?thesis unfolding n by (subst retire_loop.simps) simp
  next
    case False
    then show ?thesis by (subst retire_loop.simps) simp
  qed
qed

fun retire_all :: "nat list \<Rightarrow> nat list \<Rightarrow> nat list \<times> nat list" where
  "retire_all [] ring = (ring, [])"
| "retire_all (a # as) ring =
     (case RetireSearch (Some a) ring of (r, fr) \<Rightarrow> case retire_all as r of (r', fr') \<Rightarrow> (r', fr @ fr'))"

lemma retire_all_eq:
  "length ring \<le> 16 \<Longrightarrow> retire_all as ring =
     (drop (length ring + length as - 16) (ring @ as), take (length ring + length as - 16) (ring @ as))"
proof (induction as arbitrary: ring)
  case Nil
  then show ?case by simp
next
  case (Cons a as)
  let ?r = "drop (length ring + 1 - 16) (ring @ [a])" and ?f = "take (length ring + 1 - 16) (ring @ [a])"
  have "RetireSearch (Some a) ring = (?r, ?f)" by (simp add: RetireSearch_def retire_loop_eq)
  moreover have "length ?r \<le> 16" using Cons.prems by simp
  ultimately have "retire_all (a # as) ring =
      (drop (length ?r + length as - 16) (?r @ as), ?f @ take (length ?r + length as - 16) (?r @ as))"
    using Cons.IH [of ?r] by simp
  moreover have "?r @ as = drop (length ring - 15) (ring @ a # as)" "?f = take (length ring - 15) (ring @ a # as)"
    using Cons.prems by simp_all
  moreover have "length ?r + length as - 16 + (length ring - 15) = length ring + length (a # as) - 16"
    using Cons.prems by auto
  ultimately show ?case
    using take_add [of "length ring - 15" "length ?r + length as - 16" "ring @ a # as"]
    by (simp add: add.commute)
qed

end
