(* ===== verification/SessionData.thy ===== *)
theory SessionData
  imports Records
begin

text \<open>
  The session record of \<open>src/interfaces/Sessions.h\<close> and its wire form in
  \<open>src/interfaces/Sessions.cpp\<close>.

  The lemmas show that every field but the caller's local name, the presence flag, the source
  endpoint and the last-seen tick survives the wire, and that the reader stays inside any datagram.
\<close>

section \<open>Records\<close>

record SessionAttr =
  saValue :: AttrValue
  saAdv :: enum

type_synonym sattr_list = "(string \<times> SessionAttr) list"

record SessionRecord =
  srSessionName :: string
  srSessionId :: string
  srOwnerProductId :: string
  srBucketId :: string
  srHostAddress :: string
  srMaxPlayers :: u32
  srPermission :: enum
  srAllowJoinInProgress :: int
  srInvitesAllowed :: int
  srSanctionsEnabled :: int
  srPresenceEnabled :: int
  srAllowedPlatformIds :: "u32 list"
  srAttributes :: sattr_list
  srRegisteredPlayers :: "string list"
  srState :: enum
  srHostEndpoint :: Endpoint
  srVersion :: u64
  srLastSeenTick :: u64

definition SessionRecord_default :: "sdk \<Rightarrow> SessionRecord" where
  "SessionRecord_default K =
     \<lparr>srSessionName = [], srSessionId = [], srOwnerProductId = [], srBucketId = [], srHostAddress = [],
      srMaxPlayers = 0, srPermission = EOS_OSPF_PublicAdvertised K, srAllowJoinInProgress = EOS_TRUE,
      srInvitesAllowed = EOS_TRUE, srSanctionsEnabled = EOS_FALSE, srPresenceEnabled = EOS_FALSE,
      srAllowedPlatformIds = [], srAttributes = [], srRegisteredPlayers = [],
      srState = EOS_OSS_NoSession K, srHostEndpoint = no_endpoint, srVersion = 0, srLastSeenTick = 0\<rparr>"

definition OpenSlots :: "SessionRecord \<Rightarrow> nat" where
  "OpenSlots r =
     (let used = length (srRegisteredPlayers r) mod 2 ^ 32 in
      if unat (srMaxPlayers r) > used then unat (srMaxPlayers r) - used else 0)"

section \<open>Wire form\<close>

definition enc_sattr :: "sdk \<Rightarrow> string \<times> SessionAttr \<Rightarrow> bytes" where
  "enc_sattr K ka = WriteAttrWire K (fst ka) (saValue (snd ka)) @ enc_u8 (enum_byte (saAdv (snd ka)))"

definition read_sattr :: "sdk \<Rightarrow> reader \<Rightarrow> (string \<times> SessionAttr) \<times> reader" where
  "read_sattr K r =
     (case ReadAttrWire K r of ((key, v), r1) \<Rightarrow> (case rd_u8 r1 of (adv, r2) \<Rightarrow>
        ((key, \<lparr>saValue = v, saAdv = byte_enum adv\<rparr>), r2)))"

definition Session_SerializeRecord :: "sdk \<Rightarrow> SessionRecord \<Rightarrow> bytes" where
  "Session_SerializeRecord K rec =
     enc_str (srSessionId rec) @ enc_str (srOwnerProductId rec) @ enc_str (srBucketId rec) @
     enc_str (srHostAddress rec) @ enc_u32 (srMaxPlayers rec) @ enc_u8 (enum_byte (srPermission rec)) @
     enc_bool (srAllowJoinInProgress rec \<noteq> EOS_FALSE) @ enc_bool (srInvitesAllowed rec \<noteq> EOS_FALSE) @
     enc_bool (srSanctionsEnabled rec \<noteq> EOS_FALSE) @ enc_u8 (enum_byte (srState rec)) @
     enc_u64 (srVersion rec) @ enc_list enc_u32 (srAllowedPlatformIds rec) @
     enc_list (enc_sattr K) (srAttributes rec) @ enc_list enc_str (srRegisteredPlayers rec)"

definition Session_DeserializeRecord :: "sdk \<Rightarrow> reader \<Rightarrow> SessionRecord \<times> reader" where
  "Session_DeserializeRecord K r0 =
     (case rd_str r0 of (sid, r1) \<Rightarrow> case rd_str r1 of (owner, r2) \<Rightarrow> case rd_str r2 of (bucket, r3) \<Rightarrow>
      case rd_str r3 of (host, r4) \<Rightarrow> case rd_u32 r4 of (maxp, r5) \<Rightarrow> case rd_u8 r5 of (perm, r6) \<Rightarrow>
      case rd_bool r6 of (jip, r7) \<Rightarrow> case rd_bool r7 of (invites, r8) \<Rightarrow> case rd_bool r8 of (sanctions, r9) \<Rightarrow>
      case rd_u8 r9 of (st, r10) \<Rightarrow> case rd_u64 r10 of (version, r11) \<Rightarrow>
      case read_list rd_u32 r11 of (platforms, r12) \<Rightarrow> case read_list (read_sattr K) r12 of (attrs, r13) \<Rightarrow>
      case read_list rd_str r13 of (players, r14) \<Rightarrow>
        ((SessionRecord_default K)
           \<lparr>srSessionId := sid, srOwnerProductId := owner, srBucketId := bucket, srHostAddress := host,
            srMaxPlayers := maxp, srPermission := byte_enum perm, srAllowJoinInProgress := eos_bool jip,
            srInvitesAllowed := eos_bool invites, srSanctionsEnabled := eos_bool sanctions,
            srState := byte_enum st, srVersion := version, srAllowedPlatformIds := platforms,
            srAttributes := attrs, srRegisteredPlayers := players\<rparr>, r14))"

section \<open>Round trip\<close>

definition sattr_ok :: "sdk \<Rightarrow> string \<times> SessionAttr \<Rightarrow> bool" where
  "sattr_ok K ka \<longleftrightarrow> wire_attr_ok K (fst ka, saValue (snd ka)) \<and>
     0 \<le> saAdv (snd ka) \<and> saAdv (snd ka) < 256"

definition srecord_ok :: "sdk \<Rightarrow> SessionRecord \<Rightarrow> bool" where
  "srecord_ok K rec \<longleftrightarrow>
     short (srSessionId rec) \<and> short (srOwnerProductId rec) \<and> short (srBucketId rec) \<and> short (srHostAddress rec) \<and>
     0 \<le> srPermission rec \<and> srPermission rec < 256 \<and> 0 \<le> srState rec \<and> srState rec < 256 \<and>
     bool_ok (srAllowJoinInProgress rec) \<and> bool_ok (srInvitesAllowed rec) \<and> bool_ok (srSanctionsEnabled rec) \<and>
     list_wf (\<lambda>_. True) (srAllowedPlatformIds rec) \<and> list_wf (sattr_ok K) (srAttributes rec) \<and>
     list_wf short (srRegisteredPlayers rec)"

text \<open>The part of a record the wire carries.\<close>

definition wire_srec :: "SessionRecord \<Rightarrow> SessionRecord" where
  "wire_srec r = r\<lparr>srSessionName := [], srPresenceEnabled := EOS_FALSE, srHostEndpoint := no_endpoint, srLastSeenTick := 0\<rparr>"

interpretation sattr: wire_codec "enc_sattr K" "read_sattr K" "sattr_ok K" for K
proof (rule wire_codecI)
  fix ka pre bs
  assume ok: "sattr_ok K ka"
  obtain key a where ka: "ka = (key, a)" by (cases ka)
  from ok ka have "rd_at (rdx pre (WriteAttrWire K key (saValue a) @ (enc_u8 (enum_byte (saAdv a)) @ bs)))
     (WriteAttrWire K key (saValue a) @ (enc_u8 (enum_byte (saAdv a)) @ bs))" by (simp add: rd_at_rdx)
  from ReadAttrWire_WriteAttrWire [OF _ _ this] ok ka
  show "read_sattr K (rdx pre (enc_sattr K ka @ bs)) = (ka, rdx (pre @ enc_sattr K ka) bs)"
    by (simp add: read_sattr_def enc_sattr_def sattr_ok_def wire_attr_ok_def rd_adv_rdx prim_run)
qed

interpretation sattrs: wire_codec "enc_list (enc_sattr K)" "read_list (read_sattr K)" "list_wf (sattr_ok K)" for K
  by (rule list_codec [OF sattr.wire_codec_axioms])

interpretation strs: wire_codec "enc_list enc_str" "read_list rd_str" "list_wf short"
  by (rule list_codec [OF str.wire_codec_axioms])

interpretation session_record: wire_codec "Session_SerializeRecord K" "Session_DeserializeRecord K"
  "\<lambda>rec. srecord_ok K rec \<and> wire_srec rec = rec" for K
proof (rule wire_codecI)
  fix rec pre bs
  assume ok: "srecord_ok K rec \<and> wire_srec rec = rec"
  then have "srSessionName rec = [] \<and> srPresenceEnabled rec = EOS_FALSE \<and> srHostEndpoint rec = no_endpoint \<and>
      srLastSeenTick rec = 0"
    by (cases rec) (simp add: wire_srec_def)
  with ok show "Session_DeserializeRecord K (rdx pre (Session_SerializeRecord K rec @ bs)) =
      (rec, rdx (pre @ Session_SerializeRecord K rec) bs)"
    by (simp add: Session_DeserializeRecord_def Session_SerializeRecord_def prim_run u32s.run sattrs.run strs.run
        srecord_ok_def eos_bool_ok SessionRecord_default_def)
qed

lemma wire_srec_fields [simp]:
  "srSessionId (wire_srec r) = srSessionId r" "srOwnerProductId (wire_srec r) = srOwnerProductId r"
  "srBucketId (wire_srec r) = srBucketId r" "srHostAddress (wire_srec r) = srHostAddress r"
  "srMaxPlayers (wire_srec r) = srMaxPlayers r" "srPermission (wire_srec r) = srPermission r"
  "srAttributes (wire_srec r) = srAttributes r" "srRegisteredPlayers (wire_srec r) = srRegisteredPlayers r"
  "srState (wire_srec r) = srState r" "srVersion (wire_srec r) = srVersion r"
  "wire_srec (wire_srec r) = wire_srec r" "OpenSlots (wire_srec r) = OpenSlots r"
  by (simp_all add: wire_srec_def OpenSlots_def Let_def)

lemma Session_Serialize_wire: "Session_SerializeRecord K (wire_srec r) = Session_SerializeRecord K r"
  by (simp add: Session_SerializeRecord_def wire_srec_def)

lemma srecord_ok_wire [simp]: "srecord_ok K (wire_srec r) = srecord_ok K r"
  by (simp add: srecord_ok_def wire_srec_def)

text \<open>What a receiver reads of any record it is sent.\<close>

lemma Session_Deserialize_Serialize:
  assumes "srecord_ok K r"
  shows "Session_DeserializeRecord K (rdx pre (Session_SerializeRecord K r @ bs)) =
    (wire_srec r, rdx (pre @ Session_SerializeRecord K r) bs)"
  using session_record.run [of K "wire_srec r" pre bs] assms by (simp add: Session_Serialize_wire)

section \<open>Safety of the reader\<close>

interpretation sattr_safe: safe_reader "read_sattr K" for K
proof
  fix r
  obtain kv r1 where r1: "ReadAttrWire K r = (kv, r1)" by (cases "ReadAttrWire K r")
  obtain v r2 where r2: "rd_u8 r1 = (v, r2)" by (cases "rd_u8 r1")
  have "rd_safe r r1" using ReadAttrWire_safe [of r K] r1 by simp
  then show "rd_safe r (snd (read_sattr K r))"
    using u8_safe.safe_case [OF r2] r1 r2 by (auto simp: read_sattr_def case_prod_beta intro: rd_safe_trans)
qed

interpretation sattrs_safe: safe_reader "read_list (read_sattr K)" for K
  by (rule read_list_safe) unfold_locales

section \<open>What arrives\<close>

interpretation sattr_typed: typed_reader "read_sattr K" "sattr_ok K" for K
proof
  fix r
  assume "rd_good r"
  from attr_typed.typed [OF this, of K] show "sattr_ok K (fst (read_sattr K r))"
    by (simp add: read_sattr_def case_prod_unfold sattr_ok_def wire_attr_ok_def)
qed

interpretation sattrs_typed: typed_reader "read_list (read_sattr K)" "list_wf (sattr_ok K)" for K
  by (rule list_typed [OF sattr_typed.typed_reader_axioms])

lemma Session_Deserialize_typed: "rd_good r \<Longrightarrow> srecord_ok K (fst (Session_DeserializeRecord K r))"
  by (simp add: Session_DeserializeRecord_def case_prod_unfold srecord_ok_def typed_simps sattrs_typed.typed sattrs_typed.good
      SessionRecord_default_def)

end
