(* ===== verification/Sessions.thy ===== *)
theory Sessions
  imports SessionData Effects Peers
begin

text \<open>
  The sessions interface, \<open>src/interfaces/Sessions.h\<close> and the calls of
  \<open>src/interfaces/Sessions.cpp\<close>: the modification builder and its commit, the lifecycle calls,
  player registration, invitations, the overlay's flow, and search.

  \<open>ssLocal\<close> holds the sessions this node takes part in, by the caller's local name;
  \<open>ssKnown\<close> the advertised ones it heard of, by backend id; \<open>ssOwned\<close> the names it hosts.
  Both maps are \<open>std::map\<close>s, so they are iterated in key order.
\<close>

section \<open>State\<close>

record SessionInviteRec =
  siInviteId :: string
  siSessionId :: string
  siFromProduct :: string

record sessions =
  ssLocal :: "(string, SessionRecord) amap"
  ssKnown :: "(string, SessionRecord) amap"
  ssOwned :: "string list"
  ssInvites :: "SessionInviteRec list"
  ssNextInvite :: nat
  ssSessionCounter :: nat
  ssUiEvents :: "(nat, SessionRecord) amap"
  ssInviteReceived :: "nentry list"
  ssInviteAccepted :: "nentry list"
  ssInviteRejected :: "nentry list"
  ssJoinAccepted :: "nentry list"
  ssLeaveRequested :: "nentry list"

definition sessions_init :: sessions where
  "sessions_init =
     \<lparr>ssLocal = [], ssKnown = [], ssOwned = [], ssInvites = [], ssNextInvite = 1, ssSessionCounter = 1,
      ssUiEvents = [], ssInviteReceived = [], ssInviteAccepted = [], ssInviteRejected = [],
      ssJoinAccepted = [], ssLeaveRequested = []\<rparr>"

record session_env =
  veLocal :: string
  vePeers :: peer_dir
  veTick :: u64
  vePort :: u16

datatype session_task =
    SessionDone nat nat eresult
  | UpdateSessionDone nat nat eresult "string option" "string option"
  | PlayersDone nat nat eresult "puid list"
  | SessionInvitesDone nat nat "puid option"
  | SessionInviteReceivedCb nat nat "puid option" "puid option" string
  | SessionInviteAcceptedCb nat nat string "puid option" "puid option" string
  | SessionInviteRejectedCb nat nat string "puid option" "puid option" string
  | SessionJoinAcceptedCb nat nat "puid option" nat

definition put_local :: "string \<Rightarrow> SessionRecord \<Rightarrow> sessions \<Rightarrow> sessions" where
  "put_local name r s = s\<lparr>ssLocal := smap_put name r (ssLocal s)\<rparr>"

section \<open>Announcing\<close>

definition Session_BroadcastAnnounce :: "sdk \<Rightarrow> SessionRecord \<Rightarrow> session_task event" where
  "Session_BroadcastAnnounce K rec = bcast_msg SessionAnnounce (Session_SerializeRecord K rec)"

definition advertised :: "sdk \<Rightarrow> SessionRecord \<Rightarrow> bool" where
  "advertised K r \<longleftrightarrow> srPermission r = EOS_OSPF_PublicAdvertised K"

definition Session_PeriodicAnnounce :: "sdk \<Rightarrow> sessions \<Rightarrow> session_task event list" where
  "Session_PeriodicAnnounce K s =
     map (Session_BroadcastAnnounce K)
       (concat (map (\<lambda>n. case map_of (ssLocal s) n of
            Some r \<Rightarrow> if advertised K r then [r] else [] | None \<Rightarrow> []) (ssOwned s)))"

definition NewSessionId :: "session_env \<Rightarrow> string \<Rightarrow> sessions \<Rightarrow> string \<times> sessions" where
  "NewSessionId E owner s =
     (backend_id ''session_'' owner (veTick E) (ssSessionCounter s), s\<lparr>ssSessionCounter := Suc (ssSessionCounter s)\<rparr>)"

section \<open>Modifications\<close>

text \<open>The \<open>bSet\<close> flag and value of a setting are one option.\<close>

record SessionModificationObj =
  zmSessionName :: string
  zmLocalUser :: string
  zmIsCreate :: bool
  zmSessionIdOverride :: string
  zmPresence :: int
  zmSanctions :: int
  zmBucket :: "string option"
  zmHost :: "string option"
  zmPerm :: "enum option"
  zmJIP :: "int option"
  zmMax :: "u32 option"
  zmInvites :: "int option"
  zmPlatforms :: "u32 list option"
  zmAddAttrs :: sattr_list
  zmRemoveAttrs :: "string list"

definition SessionMod_new :: "string \<Rightarrow> SessionModificationObj" where
  "SessionMod_new name =
     \<lparr>zmSessionName = name, zmLocalUser = [], zmIsCreate = False, zmSessionIdOverride = [],
      zmPresence = EOS_FALSE, zmSanctions = EOS_FALSE, zmBucket = None, zmHost = None, zmPerm = None,
      zmJIP = None, zmMax = None, zmInvites = None, zmPlatforms = None, zmAddAttrs = [], zmRemoveAttrs = []\<rparr>"

record CreateSessionModificationOptions =
  csApiVersion :: int
  csSessionName :: "string option"
  csBucketId :: "string option"
  csMaxPlayers :: u32
  csLocalUserId :: "puid option"
  csPresenceEnabled :: int
  csSessionId :: "string option"
  csSanctionsEnabled :: int
  csAllowedPlatformIds :: "u32 list option"
  csAllowedPlatformIdsCount :: nat

definition created_platforms :: "CreateSessionModificationOptions \<Rightarrow> u32 list option" where
  "created_platforms opt =
     (case csAllowedPlatformIds opt of
        None \<Rightarrow> None
      | Some ids \<Rightarrow>
          if HasField (csApiVersion opt) 5 \<and> csAllowedPlatformIdsCount opt > 0
          then Some (take (csAllowedPlatformIdsCount opt) ids) else None)"

definition CreateSessionModification ::
  "sdk \<Rightarrow> CreateSessionModificationOptions option \<Rightarrow> bool \<Rightarrow> eresult \<times> SessionModificationObj option" where
  "CreateSessionModification K options out =
     (case options of
        None \<Rightarrow> (EOS_InvalidParameters, None)
      | Some opt \<Rightarrow>
        (case (csSessionName opt, csLocalUserId opt) of
           (Some name, Some user) \<Rightarrow>
             if \<not> out then (EOS_InvalidParameters, None)
             else if \<not> VersionInRange (csApiVersion opt) (EOS_SESSIONS_CREATESESSIONMODIFICATION_API_LATEST K)
             then (EOS_IncompatibleVersion, None)
             else let v = csApiVersion opt in
               (EOS_Success, Some ((SessionMod_new name)
                 \<lparr>zmIsCreate := True, zmLocalUser := user,
                  zmBucket := Some (case csBucketId opt of Some b \<Rightarrow> b | None \<Rightarrow> []),
                  zmMax := Some (csMaxPlayers opt),
                  zmPresence := (if HasField v 2 then csPresenceEnabled opt else EOS_FALSE),
                  zmSanctions := (if HasField v 4 then csSanctionsEnabled opt else EOS_FALSE),
                  zmSessionIdOverride := (if HasField v 3 then (case csSessionId opt of Some i \<Rightarrow> i | None \<Rightarrow> []) else []),
                  zmPlatforms := created_platforms opt\<rparr>))
         | _ \<Rightarrow> (EOS_InvalidParameters, None)))"

definition UpdateSessionModification :: "string option option \<Rightarrow> bool \<Rightarrow> eresult \<times> SessionModificationObj option" where
  "UpdateSessionModification options out =
     (case options of
        Some (Some name) \<Rightarrow> if out then (EOS_Success, Some (SessionMod_new name)) else (EOS_InvalidParameters, None)
      | _ \<Rightarrow> (EOS_InvalidParameters, None))"

text \<open>Committing a modification: the fresh record of a create, the settings, the host address.\<close>

definition fresh_session :: "session_env \<Rightarrow> sdk \<Rightarrow> SessionModificationObj \<Rightarrow> sessions \<Rightarrow> SessionRecord \<times> sessions" where
  "fresh_session E K m s =
     (let owner = (if zmLocalUser m = [] then veLocal E else zmLocalUser m) in
      case (if zmSessionIdOverride m = [] then NewSessionId E owner s else (zmSessionIdOverride m, s)) of
        (i, s1) \<Rightarrow>
          ((SessionRecord_default K)
             \<lparr>srSessionName := zmSessionName m, srOwnerProductId := owner, srSessionId := i,
              srPresenceEnabled := zmPresence m, srSanctionsEnabled := zmSanctions m,
              srState := EOS_OSS_Pending K, srRegisteredPlayers := [owner]\<rparr>, s1))"

definition apply_session_mod :: "SessionModificationObj \<Rightarrow> SessionRecord \<Rightarrow> SessionRecord" where
  "apply_session_mod m r =
     r\<lparr>srBucketId := set_opt (zmBucket m) (srBucketId r), srHostAddress := set_opt (zmHost m) (srHostAddress r),
       srPermission := set_opt (zmPerm m) (srPermission r),
       srAllowJoinInProgress := set_opt (zmJIP m) (srAllowJoinInProgress r),
       srMaxPlayers := set_opt (zmMax m) (srMaxPlayers r), srInvitesAllowed := set_opt (zmInvites m) (srInvitesAllowed r),
       srAllowedPlatformIds := set_opt (zmPlatforms m) (srAllowedPlatformIds r),
       srAttributes := remove_attrs (zmRemoveAttrs m) (add_attrs (zmAddAttrs m) (srAttributes r))\<rparr>"

definition default_host :: "session_env \<Rightarrow> SessionRecord \<Rightarrow> SessionRecord" where
  "default_host E r =
     (if srHostAddress r = [] then r\<lparr>srHostAddress := ''0.0.0.0:'' @ dec_str (unat (vePort E))\<rparr> else r)"

definition sbump :: "SessionRecord \<Rightarrow> SessionRecord" where
  "sbump r = r\<lparr>srVersion := srVersion r + 1\<rparr>"

definition UpdateSession ::
  "session_env \<Rightarrow> sdk \<Rightarrow> SessionModificationObj option \<Rightarrow> nat \<Rightarrow> nat option \<Rightarrow> sessions \<Rightarrow>
   sessions \<times> session_task event list" where
  "UpdateSession E K handle cd cb s =
     (case handle of
        None \<Rightarrow> (s, complete cb (\<lambda>f. UpdateSessionDone f cd EOS_InvalidParameters None None))
      | Some m \<Rightarrow>
        (let (rec, s1) =
           (if zmIsCreate m
            then (case fresh_session E K m s of (r, s1) \<Rightarrow>
                    (Some r, s1\<lparr>ssOwned := sset_insert (zmSessionName m) (ssOwned s1)\<rparr>))
            else (map_of (ssLocal s) (zmSessionName m), s))
         in case rec of
              None \<Rightarrow> (s1, complete cb (\<lambda>f. UpdateSessionDone f cd EOS_NotFound None None))
            | Some r0 \<Rightarrow>
              let r = sbump (default_host E (apply_session_mod m r0)) in
              (put_local (zmSessionName m) r s1,
               (if advertised K r then [Session_BroadcastAnnounce K r] else []) @
               complete cb (\<lambda>f. UpdateSessionDone f cd EOS_Success (Some (srSessionName r)) (Some (srSessionId r))))))"

section \<open>Lifecycle\<close>

definition DestroySession ::
  "string option option \<Rightarrow> nat \<Rightarrow> nat option \<Rightarrow> sessions \<Rightarrow> sessions \<times> session_task event list" where
  "DestroySession options cd cb s =
     (case options of
        Some (Some name) \<Rightarrow>
          (case map_of (ssLocal s) name of
             None \<Rightarrow> (s, complete cb (\<lambda>f. SessionDone f cd EOS_NotFound))
           | Some r \<Rightarrow>
             (s\<lparr>ssLocal := AList.delete name (ssLocal s), ssOwned := sset_erase name (ssOwned s)\<rparr>,
              (if name \<in> set (ssOwned s) \<and> srSessionId r \<noteq> []
               then [bcast_msg SessionWithdraw (enc_str (srSessionId r))] else []) @
              complete cb (\<lambda>f. SessionDone f cd EOS_Success)))
      | _ \<Rightarrow> (s, complete cb (\<lambda>f. SessionDone f cd EOS_NotFound)))"

record JoinSessionOptions =
  joSessionName :: "string option"
  joSessionHandle :: "SessionRecord option"
  joLocalUserId :: "puid option"

definition JoinSession ::
  "JoinSessionOptions option \<Rightarrow> nat \<Rightarrow> nat option \<Rightarrow> sessions \<Rightarrow> sessions \<times> session_task event list" where
  "JoinSession options cd cb s =
     (case options of
        None \<Rightarrow> (s, complete cb (\<lambda>f. SessionDone f cd EOS_InvalidParameters))
      | Some opt \<Rightarrow>
        (case (joSessionName opt, joSessionHandle opt) of
           (Some name, Some r) \<Rightarrow>
             (let players = (case joLocalUserId opt of
                    None \<Rightarrow> srRegisteredPlayers r
                  | Some me \<Rightarrow> if me \<in> set (srRegisteredPlayers r) then srRegisteredPlayers r
                               else srRegisteredPlayers r @ [me])
              in (put_local name (r\<lparr>srSessionName := name, srRegisteredPlayers := players\<rparr>) s,
                  complete cb (\<lambda>f. SessionDone f cd EOS_Success)))
         | _ \<Rightarrow> (s, complete cb (\<lambda>f. SessionDone f cd EOS_InvalidParameters))))"

text \<open>The common tail of the calls that change a local session in place: bump the version, store,
  and announce when this node hosts the session and it is advertised.\<close>

definition commit_local ::
  "sdk \<Rightarrow> string \<Rightarrow> SessionRecord \<Rightarrow> sessions \<Rightarrow> sessions \<times> session_task event list" where
  "commit_local K name r s =
     (let r' = sbump r in
      (put_local name r' s,
       if name \<in> set (ssOwned s) \<and> advertised K r' then [Session_BroadcastAnnounce K r'] else []))"

definition TransitionState :: "enum \<Rightarrow> SessionRecord \<Rightarrow> SessionRecord \<times> eresult" where
  "TransitionState to r = (r\<lparr>srState := to\<rparr>, EOS_Success)"

definition transition_session ::
  "sdk \<Rightarrow> enum \<Rightarrow> string option option \<Rightarrow> nat \<Rightarrow> nat option \<Rightarrow> sessions \<Rightarrow> sessions \<times> session_task event list" where
  "transition_session K to options cd cb s =
     (case options of
        Some (Some name) \<Rightarrow>
          (case map_of (ssLocal s) name of
             None \<Rightarrow> (s, complete cb (\<lambda>f. SessionDone f cd EOS_NotFound))
           | Some r \<Rightarrow> (case TransitionState to r of (r', result) \<Rightarrow>
               (case commit_local K name r' s of (s', evs) \<Rightarrow>
                  (s', evs @ complete cb (\<lambda>f. SessionDone f cd result)))))
      | _ \<Rightarrow> (s, complete cb (\<lambda>f. SessionDone f cd EOS_NotFound)))"

definition StartSession ::
  "sdk \<Rightarrow> string option option \<Rightarrow> nat \<Rightarrow> nat option \<Rightarrow> sessions \<Rightarrow> sessions \<times> session_task event list" where
  "StartSession K = transition_session K (EOS_OSS_InProgress K)"

definition EndSession ::
  "sdk \<Rightarrow> string option option \<Rightarrow> nat \<Rightarrow> nat option \<Rightarrow> sessions \<Rightarrow> sessions \<times> session_task event list" where
  "EndSession K = transition_session K (EOS_OSS_Ended K)"

section \<open>Player registration\<close>

text \<open>The ids array of the call: null, or its first \<open>n\<close> entries, the null ones skipped.\<close>

definition given_players :: "puid option list option \<Rightarrow> nat \<Rightarrow> puid list" where
  "given_players ids n = (case ids of None \<Rightarrow> [] | Some ps \<Rightarrow> List.map_filter id (take n ps))"

definition register_all :: "puid list \<Rightarrow> string list \<Rightarrow> string list" where
  "register_all ps players = foldl (\<lambda>acc p. if p \<in> set acc then acc else acc @ [p]) players ps"

definition unregister_all :: "puid list \<Rightarrow> string list \<Rightarrow> string list" where
  "unregister_all ps players = foldl (\<lambda>acc p. remove1 p acc) players ps"

definition change_players ::
  "(puid list \<Rightarrow> string list \<Rightarrow> string list) \<Rightarrow> sdk \<Rightarrow> (string option \<times> puid option list option \<times> nat) option \<Rightarrow>
   nat \<Rightarrow> nat option \<Rightarrow> sessions \<Rightarrow> sessions \<times> session_task event list" where
  "change_players f K options cd cb s =
     (case options of
        Some (Some name, ids, n) \<Rightarrow>
          (case map_of (ssLocal s) name of
             None \<Rightarrow> (s, complete cb (\<lambda>g. PlayersDone g cd EOS_NotFound []))
           | Some r \<Rightarrow>
             (let given = given_players ids n in
              case commit_local K name (r\<lparr>srRegisteredPlayers := f given (srRegisteredPlayers r)\<rparr>) s of
                (s', evs) \<Rightarrow> (s', evs @ complete cb (\<lambda>g. PlayersDone g cd EOS_Success given))))
      | _ \<Rightarrow> (s, complete cb (\<lambda>g. PlayersDone g cd EOS_NotFound [])))"

definition RegisterPlayers ::
  "sdk \<Rightarrow> (string option \<times> puid option list option \<times> nat) option \<Rightarrow> nat \<Rightarrow> nat option \<Rightarrow> sessions \<Rightarrow>
   sessions \<times> session_task event list" where
  "RegisterPlayers = change_players register_all"

definition UnregisterPlayers ::
  "sdk \<Rightarrow> (string option \<times> puid option list option \<times> nat) option \<Rightarrow> nat \<Rightarrow> nat option \<Rightarrow> sessions \<Rightarrow>
   sessions \<times> session_task event list" where
  "UnregisterPlayers = change_players unregister_all"

section \<open>Invitations\<close>

definition Sessions_SendInvite ::
  "session_env \<Rightarrow> (string option \<times> puid option) option \<Rightarrow> nat \<Rightarrow> nat option \<Rightarrow> sessions \<Rightarrow> session_task event list" where
  "Sessions_SendInvite E options cd cb s =
     (case options of
        Some (Some name, Some target) \<Rightarrow>
          (let sid = (case map_of (ssLocal s) name of Some r \<Rightarrow> srSessionId r | None \<Rightarrow> []) in
           if sid = [] then complete cb (\<lambda>f. SessionDone f cd EOS_NotFound)
           else let to = EndpointFor (vePeers E) target in
             (if ep_Valid to then [send_msg to SessionInvite (enc_str sid @ enc_str (veLocal E) @ enc_str target)] else []) @
             complete cb (\<lambda>f. SessionDone f cd EOS_Success))
      | _ \<Rightarrow> complete cb (\<lambda>f. SessionDone f cd EOS_InvalidParameters))"

definition erase_sinvite :: "string \<Rightarrow> sessions \<Rightarrow> sessions" where
  "erase_sinvite i s = s\<lparr>ssInvites := erase_first (\<lambda>v. siInviteId v = i) (ssInvites s)\<rparr>"

definition Sessions_RejectInvite ::
  "string option option \<Rightarrow> nat \<Rightarrow> nat option \<Rightarrow> sessions \<Rightarrow> sessions \<times> session_task event list" where
  "Sessions_RejectInvite options cd cb s =
     (case options of
        Some (Some i) \<Rightarrow>
          if \<exists>v \<in> set (ssInvites s). siInviteId v = i
          then (erase_sinvite i s, complete cb (\<lambda>f. SessionDone f cd EOS_Success))
          else (s, complete cb (\<lambda>f. SessionDone f cd EOS_NotFound))
      | _ \<Rightarrow> (s, complete cb (\<lambda>f. SessionDone f cd EOS_NotFound)))"

definition Sessions_QueryInvites :: "puid option option \<Rightarrow> nat \<Rightarrow> nat option \<Rightarrow> session_task event list" where
  "Sessions_QueryInvites options cd cb =
     complete cb (\<lambda>f. SessionInvitesDone f cd (case options of Some u \<Rightarrow> u | None \<Rightarrow> None))"

definition Sessions_GetInviteCount :: "sessions \<Rightarrow> nat" where
  "Sessions_GetInviteCount s = length (ssInvites s)"

definition Sessions_GetInviteIdByIndex ::
  "nat \<Rightarrow> bool \<Rightarrow> int option \<Rightarrow> sessions \<Rightarrow> eresult \<times> int option \<times> string option" where
  "Sessions_GetInviteIdByIndex index has_buffer len s =
     (case len of
        None \<Rightarrow> (EOS_InvalidParameters, None, None)
      | Some n \<Rightarrow>
          if index \<ge> length (ssInvites s) then (EOS_NotFound, Some n, None)
          else (case sized_copy (siInviteId (ssInvites s ! index)) has_buffer n of (r, l, t) \<Rightarrow> (r, Some l, t)))"

definition CopySessionHandleByInviteId :: "string option \<Rightarrow> bool \<Rightarrow> sessions \<Rightarrow> eresult \<times> SessionRecord option" where
  "CopySessionHandleByInviteId iid out s =
     (case iid of
        None \<Rightarrow> (EOS_InvalidParameters, None)
      | Some i \<Rightarrow>
          if \<not> out then (EOS_InvalidParameters, None)
          else case find (\<lambda>v. siInviteId v = i) (ssInvites s) of
                 None \<Rightarrow> (EOS_NotFound, None)
               | Some v \<Rightarrow> (case map_of (ssKnown s) (siSessionId v) of
                               None \<Rightarrow> (EOS_NotFound, None) | Some r \<Rightarrow> (EOS_Success, Some r)))"

section \<open>Overlay\<close>

definition ParticipatingInId :: "sessions \<Rightarrow> string \<Rightarrow> bool" where
  "ParticipatingInId s i \<longleftrightarrow> (\<exists>r \<in> set (map snd (ssLocal s)). srSessionId r = i)"

definition Sessions_SnapshotInvites :: "sessions \<Rightarrow> SessionInviteRec list" where
  "Sessions_SnapshotInvites s = filter (\<lambda>v. \<not> ParticipatingInId s (siSessionId v)) (ssInvites s)"

definition Sessions_SnapshotJoinable :: "sessions \<Rightarrow> (string \<times> string) list" where
  "Sessions_SnapshotJoinable s =
     map (\<lambda>r. (srSessionId r, srOwnerProductId r))
       (filter (\<lambda>r. \<not> ParticipatingInId s (srSessionId r) \<and> OpenSlots r \<noteq> 0) (map snd (ssKnown s)))"

definition Sessions_AcceptInviteFromOverlay :: "session_env \<Rightarrow> string \<Rightarrow> sessions \<Rightarrow> session_task event list" where
  "Sessions_AcceptInviteFromOverlay E i s =
     (case find (\<lambda>v. siInviteId v = i) (ssInvites s) of
        None \<Rightarrow> []
      | Some v \<Rightarrow>
          map (\<lambda>e. EvPost (SessionInviteAcceptedCb (neFn e) (neCd e) (siSessionId v) (intern (veLocal E))
                 (intern (siFromProduct v)) i)) (ssInviteAccepted s))"

definition Sessions_RejectInviteFromOverlay ::
  "session_env \<Rightarrow> string \<Rightarrow> sessions \<Rightarrow> sessions \<times> session_task event list" where
  "Sessions_RejectInviteFromOverlay E i s =
     (case find (\<lambda>v. siInviteId v = i) (ssInvites s) of
        None \<Rightarrow> (s, [])
      | Some v \<Rightarrow>
          (erase_sinvite i s,
           map (\<lambda>e. EvPost (SessionInviteRejectedCb (neFn e) (neCd e) i (intern (veLocal E))
                  (intern (siFromProduct v)) (siSessionId v))) (ssInviteRejected s)))"

definition Sessions_BeginJoinFromOverlay ::
  "session_env \<Rightarrow> string \<Rightarrow> nat \<Rightarrow> sessions \<Rightarrow> nat \<times> sessions \<times> session_task event list" where
  "Sessions_BeginJoinFromOverlay E sid c s =
     (case map_of (ssKnown s) sid of
        None \<Rightarrow> (c, s, [])
      | Some r \<Rightarrow> (case NextId c of (ev, c') \<Rightarrow>
          (c', s\<lparr>ssUiEvents := smap_put ev r (ssUiEvents s)\<rparr>,
           map (\<lambda>e. EvPost (SessionJoinAcceptedCb (neFn e) (neCd e) (intern (veLocal E)) ev)) (ssJoinAccepted s))))"

definition Sessions_CopyDetailsByUiEventId :: "nat \<Rightarrow> bool \<Rightarrow> sessions \<Rightarrow> eresult \<times> SessionRecord option" where
  "Sessions_CopyDetailsByUiEventId ev out s =
     (if \<not> out then (EOS_InvalidParameters, None)
      else case map_of (ssUiEvents s) ev of None \<Rightarrow> (EOS_NotFound, None) | Some r \<Rightarrow> (EOS_Success, Some r))"

definition Sessions_AcknowledgeUiEvent :: "nat \<Rightarrow> sessions \<Rightarrow> sessions" where
  "Sessions_AcknowledgeUiEvent ev s = s\<lparr>ssUiEvents := AList.delete ev (ssUiEvents s)\<rparr>"

section \<open>Handles and lookups\<close>

record ActiveSessionObj =
  acSessionName :: string
  acLocalUser :: string

definition CopyActiveSessionHandle ::
  "session_env \<Rightarrow> string option \<Rightarrow> bool \<Rightarrow> sessions \<Rightarrow> eresult \<times> ActiveSessionObj option" where
  "CopyActiveSessionHandle E name out s =
     (case name of
        None \<Rightarrow> (EOS_InvalidParameters, None)
      | Some n \<Rightarrow>
          if \<not> out then (EOS_InvalidParameters, None)
          else if map_of (ssLocal s) n = None then (EOS_NotFound, None)
          else (EOS_Success, Some \<lparr>acSessionName = n, acLocalUser = veLocal E\<rparr>))"

definition IsUserInSession :: "string option \<Rightarrow> puid option \<Rightarrow> sessions \<Rightarrow> eresult" where
  "IsUserInSession name target s =
     (case (name, target) of
        (Some n, Some p) \<Rightarrow>
          (case map_of (ssLocal s) n of
             None \<Rightarrow> EOS_NotFound
           | Some r \<Rightarrow> if p \<in> set (srRegisteredPlayers r) then EOS_Success else EOS_NotFound)
      | _ \<Rightarrow> EOS_InvalidParameters)"

definition DumpSessionState :: "string option \<Rightarrow> sessions \<Rightarrow> eresult" where
  "DumpSessionState name s =
     (case name of
        None \<Rightarrow> EOS_InvalidParameters
      | Some n \<Rightarrow> if map_of (ssLocal s) n = None then EOS_NotFound else EOS_Success)"

definition CopyRecord :: "string \<Rightarrow> sessions \<Rightarrow> SessionRecord option" where
  "CopyRecord name s = map_of (ssLocal s) name"

section \<open>Search\<close>

record SessionSearchObj =
  zsMaxResults :: nat
  zsBySessionId :: string
  zsByTargetUser :: string
  zsParams :: "SearchParam list"
  zsResults :: "SessionRecord list"

definition CreateSessionSearch :: "nat option \<Rightarrow> bool \<Rightarrow> eresult \<times> SessionSearchObj option" where
  "CreateSessionSearch options out =
     (if \<not> out then (EOS_InvalidParameters, None)
      else (EOS_Success, Some
        \<lparr>zsMaxResults = (case options of Some n \<Rightarrow> if n > 0 then n else 200 | None \<Rightarrow> 200),
         zsBySessionId = [], zsByTargetUser = [], zsParams = [], zsResults = []\<rparr>))"

definition sparam_matches :: "sdk \<Rightarrow> SessionRecord \<Rightarrow> SearchParam \<Rightarrow> bool" where
  "sparam_matches K r p \<longleftrightarrow>
     (if seKey p = EOS_SESSIONS_SEARCH_BUCKET_ID K then srBucketId r = avStr (seValue p)
      else if seKey p = EOS_SESSIONS_SEARCH_MINSLOTSAVAILABLE K
      then \<not> int (OpenSlots r) < sint (avInt (seValue p))
      else if seKey p = EOS_SESSIONS_SEARCH_EMPTY_SERVERS_ONLY K then srRegisteredPlayers r = []
      else if seKey p = EOS_SESSIONS_SEARCH_NONEMPTY_SERVERS_ONLY K then srRegisteredPlayers r \<noteq> []
      else (\<exists>(k, a) \<in> set (srAttributes r). k = seKey p \<and> saAdv a = EOS_SAAT_Advertise K \<and>
              CompareAttr K (saValue a) (seOp p) (seValue p)))"

definition Session_MatchesSearch :: "sdk \<Rightarrow> SessionSearchObj \<Rightarrow> SessionRecord \<Rightarrow> bool" where
  "Session_MatchesSearch K q r \<longleftrightarrow>
     (if zsBySessionId q \<noteq> [] then srSessionId r = zsBySessionId q
      else if zsByTargetUser q \<noteq> [] then zsByTargetUser q \<in> set (srRegisteredPlayers r)
      else list_all (sparam_matches K r) (zsParams q))"

definition hosted :: "sessions \<Rightarrow> SessionRecord list" where
  "hosted s = concat (map (\<lambda>n. case map_of (ssLocal s) n of Some r \<Rightarrow> [r] | None \<Rightarrow> []) (ssOwned s))"

definition Session_CollectSearchResults :: "sdk \<Rightarrow> SessionSearchObj \<Rightarrow> sessions \<Rightarrow> SessionSearchObj" where
  "Session_CollectSearchResults K q s =
     q\<lparr>zsResults := collect (Session_MatchesSearch K q) (zsMaxResults q) [] (map snd (ssKnown s) @ hosted s)\<rparr>"

section \<open>Inbound datagrams\<close>

definition stamp_session :: "session_env \<Rightarrow> Endpoint \<Rightarrow> SessionRecord \<Rightarrow> SessionRecord" where
  "stamp_session E from r =
     (let r1 = r\<lparr>srHostEndpoint := from, srLastSeenTick := veTick E\<rparr> in
      if srHostAddress r = [] \<or> take 8 (srHostAddress r) = ''0.0.0.0:''
      then r1\<lparr>srHostAddress := ep_ToString from\<rparr> else r1)"

definition put_known_session :: "SessionRecord \<Rightarrow> sessions \<Rightarrow> sessions" where
  "put_known_session r s = s\<lparr>ssKnown := smap_put (srSessionId r) r (ssKnown s)\<rparr>"

definition on_session_announce :: "session_env \<Rightarrow> Endpoint \<Rightarrow> SessionRecord \<Rightarrow> sessions \<Rightarrow> sessions" where
  "on_session_announce E from fresh s = put_known_session (stamp_session E from fresh) s"

definition on_session_withdraw :: "string \<Rightarrow> sessions \<Rightarrow> sessions" where
  "on_session_withdraw i s = s\<lparr>ssKnown := AList.delete i (ssKnown s)\<rparr>"

definition sinvite_id :: "nat \<Rightarrow> string" where
  "sinvite_id n = ''sinvite_'' @ dec_str n"

definition on_session_invite ::
  "session_env \<Rightarrow> string \<Rightarrow> string \<Rightarrow> string \<Rightarrow> sessions \<Rightarrow> sessions \<times> session_task event list" where
  "on_session_invite E sid sender target s =
     (if target \<noteq> veLocal E then (s, [])
      else let i = sinvite_id (ssNextInvite s);
               s1 = s\<lparr>ssNextInvite := Suc (ssNextInvite s),
                      ssInvites := ssInvites s @ [\<lparr>siInviteId = i, siSessionId = sid, siFromProduct = sender\<rparr>]\<rparr>
           in (s1, map (\<lambda>e. EvPost (SessionInviteReceivedCb (neFn e) (neCd e) (intern (veLocal E)) (intern sender) i))
                     (ssInviteReceived s1)))"

definition Sessions_OnDatagram ::
  "session_env \<Rightarrow> sdk \<Rightarrow> Endpoint \<Rightarrow> MessageType \<Rightarrow> bytes \<Rightarrow> sessions \<Rightarrow> sessions \<times> session_task event list" where
  "Sessions_OnDatagram E K from ty payload s =
     (case ty of
        SessionAnnounce \<Rightarrow>
          (case Session_DeserializeRecord K (reader_init payload) of (fresh, r) \<Rightarrow>
             if \<not> rdOk r \<or> srSessionId fresh = [] then (s, []) else (on_session_announce E from fresh s, []))
      | SessionWithdraw \<Rightarrow>
          (case rd_str (reader_init payload) of (i, r1) \<Rightarrow>
             if \<not> rdOk r1 then (s, []) else (on_session_withdraw i s, []))
      | SessionInvite \<Rightarrow>
          (case rd_str (reader_init payload) of (i, r1) \<Rightarrow> (case rd_str r1 of (sender, r2) \<Rightarrow>
           (case rd_str r2 of (target, r3) \<Rightarrow>
             if \<not> rdOk r3 then (s, []) else on_session_invite E i sender target s)))
      | _ \<Rightarrow> (s, []))"

end
