(* ===== verification/SessionFacts.thy ===== *)
theory SessionFacts
  imports Sessions
begin

text \<open>
  What the sessions interface keeps and promises.  The invariant \<open>session_inv\<close> (both maps are
  ordered and keyed by the name or id of their records, every hosted name has a local session,
  invitation ids are distinct) is shown for every call and datagram by induction over
  \<open>session_step\<close>.  Then: what a peer knows after an announcement or a withdrawal, player
  registration as set operations, search, and joining under a hosted name.
\<close>

section \<open>Records\<close>

lemma sbump_fields [simp]:
  "srSessionId (sbump r) = srSessionId r" "srSessionName (sbump r) = srSessionName r"
  "srPermission (sbump r) = srPermission r" "srRegisteredPlayers (sbump r) = srRegisteredPlayers r"
  "srVersion (sbump r) = srVersion r + 1" "srState (sbump r) = srState r" "srHostAddress (sbump r) = srHostAddress r"
  "advertised K (sbump r) = advertised K r"
  by (simp_all add: sbump_def advertised_def)

lemma default_host_fields [simp]:
  "srSessionId (default_host E r) = srSessionId r" "srSessionName (default_host E r) = srSessionName r"
  "srPermission (default_host E r) = srPermission r" "srVersion (default_host E r) = srVersion r"
  "srRegisteredPlayers (default_host E r) = srRegisteredPlayers r" "srState (default_host E r) = srState r"
  "advertised K (default_host E r) = advertised K r"
  by (simp_all add: default_host_def advertised_def)

lemma apply_session_mod_fields [simp]:
  "srSessionId (apply_session_mod m r) = srSessionId r" "srSessionName (apply_session_mod m r) = srSessionName r"
  "srVersion (apply_session_mod m r) = srVersion r" "srState (apply_session_mod m r) = srState r"
  "srRegisteredPlayers (apply_session_mod m r) = srRegisteredPlayers r"
  by (simp_all add: apply_session_mod_def)

lemma stamp_session_fields [simp]:
  "srSessionId (stamp_session E from r) = srSessionId r" "srHostEndpoint (stamp_session E from r) = from"
  "srRegisteredPlayers (stamp_session E from r) = srRegisteredPlayers r" "srVersion (stamp_session E from r) = srVersion r"
  "srState (stamp_session E from r) = srState r" "srOwnerProductId (stamp_session E from r) = srOwnerProductId r"
  by (simp_all add: stamp_session_def Let_def)

section \<open>The invariant\<close>

definition sinvites_inv :: "sessions \<Rightarrow> bool" where
  "sinvites_inv s \<longleftrightarrow> distinct (map siInviteId (ssInvites s)) \<and>
     set (map siInviteId (ssInvites s)) \<subseteq> sinvite_id ` {n. n < ssNextInvite s}"

definition session_inv :: "sessions \<Rightarrow> bool" where
  "session_inv s \<longleftrightarrow>
     smap_ok (ssLocal s) \<and> (\<forall>name r. map_of (ssLocal s) name = Some r \<longrightarrow> srSessionName r = name) \<and>
     smap_ok (ssKnown s) \<and> (\<forall>i r. map_of (ssKnown s) i = Some r \<longrightarrow> srSessionId r = i \<and> i \<noteq> []) \<and>
     sset_ok (ssOwned s) \<and> set (ssOwned s) \<subseteq> dom (map_of (ssLocal s)) \<and> sinvites_inv s"

lemma session_inv_parts:
  assumes "session_inv s"
  shows "smap_ok (ssLocal s)" "smap_ok (ssKnown s)" "map_of (ssLocal s) n = Some r \<Longrightarrow> srSessionName r = n"
    "map_of (ssKnown s) i = Some q \<Longrightarrow> srSessionId q = i \<and> i \<noteq> []" "set (ssOwned s) \<subseteq> dom (map_of (ssLocal s))"
    "sset_ok (ssOwned s)" "sinvites_inv s"
  using assms by (simp_all add: session_inv_def)

text \<open>The shapes of update the operations are made of.\<close>

lemma session_inv_put_local:
  assumes inv: "session_inv s" and loc: "ssLocal s' = smap_put name r (ssLocal s)" and nm: "srSessionName r = name"
    and own: "ssOwned s' = ssOwned s \<or> ssOwned s' = sset_insert name (ssOwned s)"
    and frame: "ssKnown s' = ssKnown s" "ssInvites s' = ssInvites s" "ssNextInvite s' = ssNextInvite s"
  shows "session_inv s'"
  using assms by (auto simp: session_inv_def sinvites_inv_def map_of_smap_put loc frame)

lemma session_inv_drop_local:
  assumes inv: "session_inv s" and loc: "ssLocal s' = AList.delete name (ssLocal s)"
    and own: "ssOwned s' = sset_erase name (ssOwned s)"
    and frame: "ssKnown s' = ssKnown s" "ssInvites s' = ssInvites s" "ssNextInvite s' = ssNextInvite s"
  shows "session_inv s'"
  using assms by (auto simp: session_inv_def sinvites_inv_def loc frame)

lemma session_inv_known:
  assumes inv: "session_inv s" and known: "smap_ok (ssKnown s')"
      "\<And>i r. map_of (ssKnown s') i = Some r \<Longrightarrow> srSessionId r = i \<and> i \<noteq> []"
    and frame: "ssLocal s' = ssLocal s" "ssOwned s' = ssOwned s" "ssInvites s' = ssInvites s" "ssNextInvite s' = ssNextInvite s"
  shows "session_inv s'"
  using assms by (auto simp: session_inv_def sinvites_inv_def frame)

lemma session_inv_frame:
  assumes inv: "session_inv s" and frame: "ssLocal s' = ssLocal s" "ssKnown s' = ssKnown s" "ssOwned s' = ssOwned s"
    "sinvites_inv s'"
  shows "session_inv s'"
  using assms by (simp add: session_inv_def)

lemma session_inv_init: "session_inv sessions_init"
  by (simp add: session_inv_def sessions_init_def sinvites_inv_def)

section \<open>Every call and datagram keeps it\<close>

lemma fresh_session_props:
  assumes "fresh_session E K m s = (r, s1)"
  shows "srSessionName r = zmSessionName m" "ssLocal s1 = ssLocal s" "ssOwned s1 = ssOwned s" "ssKnown s1 = ssKnown s"
    "ssInvites s1 = ssInvites s" "ssNextInvite s1 = ssNextInvite s" "srVersion r = 0" "srState r = EOS_OSS_Pending K"
    "srRegisteredPlayers r = [srOwnerProductId r]"
    "srSessionId r = (if zmSessionIdOverride m = []
        then backend_id ''session_'' (srOwnerProductId r) (veTick E) (ssSessionCounter s) else zmSessionIdOverride m)"
    "srOwnerProductId r = (if zmLocalUser m = [] then veLocal E else zmLocalUser m)" "srHostAddress r = []"
    "srPermission r = EOS_OSPF_PublicAdvertised K"
  using assms by (auto simp: fresh_session_def NewSessionId_def Let_def SessionRecord_default_def split: if_splits)

lemma session_inv_UpdateSession [inv_intros]:
  assumes inv: "session_inv s" shows "session_inv (fst (UpdateSession E K h cd cb s))"
proof (cases h)
  case None
  with inv show ?thesis by (simp add: UpdateSession_def)
next
  case (Some m)
  show ?thesis
  proof (cases "zmIsCreate m")
    case True
    obtain r s1 where f: "fresh_session E K m s = (r, s1)" by (cases "fresh_session E K m s")
    let ?r = "sbump (default_host E (apply_session_mod m r))"
    have "session_inv (put_local (zmSessionName m) ?r (s1\<lparr>ssOwned := sset_insert (zmSessionName m) (ssOwned s1)\<rparr>))"
      by (rule session_inv_put_local [OF inv, where name = "zmSessionName m" and r = ?r])
        (simp_all add: put_local_def fresh_session_props [OF f])
    with Some True f show ?thesis by (simp add: UpdateSession_def Let_def)
  next
    case False
    have "session_inv (put_local (zmSessionName m) (sbump (default_host E (apply_session_mod m r))) s)"
      if "map_of (ssLocal s) (zmSessionName m) = Some r" for r
      by (rule session_inv_put_local [OF inv, where name = "zmSessionName m" and r = "sbump (default_host E (apply_session_mod m r))"])
        (use session_inv_parts(3) [OF inv that] in \<open>simp_all add: put_local_def\<close>)
    with Some False inv show ?thesis by (auto simp: UpdateSession_def Let_def split: option.splits)
  qed
qed

lemma session_inv_DestroySession [inv_intros]: "session_inv s \<Longrightarrow> session_inv (fst (DestroySession opt cd cb s))"
  by (auto simp: DestroySession_def split: option.splits intro: session_inv_drop_local)

lemma session_inv_JoinSession [inv_intros]: "session_inv s \<Longrightarrow> session_inv (fst (JoinSession jopt cd cb s))"
  by (auto simp: JoinSession_def Let_def put_local_def split: option.splits intro: session_inv_put_local)

lemma session_inv_commit:
  "session_inv s \<Longrightarrow> srSessionName r = name \<Longrightarrow> session_inv (fst (commit_local K name r s))"
  by (auto simp: commit_local_def Let_def put_local_def intro: session_inv_put_local [where name = name and r = "sbump r"])

lemma session_inv_transition [inv_intros]:
  "session_inv s \<Longrightarrow> session_inv (fst (StartSession K opt cd cb s))"
  "session_inv s \<Longrightarrow> session_inv (fst (EndSession K opt cd cb s))"
  by (auto simp: StartSession_def EndSession_def transition_session_def TransitionState_def case_prod_beta
      session_inv_parts(3) split: option.splits intro!: session_inv_commit)

lemma session_inv_players [inv_intros]:
  "session_inv s \<Longrightarrow> session_inv (fst (RegisterPlayers K popt cd cb s))"
  "session_inv s \<Longrightarrow> session_inv (fst (UnregisterPlayers K popt cd cb s))"
  by (auto simp: RegisterPlayers_def UnregisterPlayers_def change_players_def Let_def case_prod_beta
      session_inv_parts(3) split: option.splits intro!: session_inv_commit)

lemma sinvites_inv_erase: "sinvites_inv s \<Longrightarrow> sinvites_inv (erase_sinvite i s)"
  using distinct_map_erase_first [of siInviteId "ssInvites s"] set_erase_first_subset [of _ "ssInvites s"]
  by (auto simp: sinvites_inv_def erase_sinvite_def dest!: set_mp)

lemma session_inv_erase_sinvite: "session_inv s \<Longrightarrow> session_inv (erase_sinvite i s)"
  by (rule session_inv_frame [of s]) (simp_all add: erase_sinvite_def session_inv_parts(7) sinvites_inv_erase [unfolded erase_sinvite_def])

lemma session_inv_invites [inv_intros]:
  "session_inv s \<Longrightarrow> session_inv (fst (Sessions_RejectInvite opt cd cb s))"
  "session_inv s \<Longrightarrow> session_inv (fst (Sessions_RejectInviteFromOverlay E i s))"
  by (auto simp: Sessions_RejectInvite_def Sessions_RejectInviteFromOverlay_def
      split: option.splits intro: session_inv_erase_sinvite)

lemma session_inv_overlay [inv_intros]:
  "session_inv s \<Longrightarrow> session_inv (fst (snd (Sessions_BeginJoinFromOverlay E i c s)))"
  "session_inv s \<Longrightarrow> session_inv (Sessions_AcknowledgeUiEvent ev s)"
  by (auto simp: Sessions_BeginJoinFromOverlay_def Sessions_AcknowledgeUiEvent_def sinvites_inv_def
      split: option.splits prod.splits intro!: session_inv_frame [of s] dest: session_inv_parts(7))

lemma session_inv_on_announce:
  assumes "session_inv s" "srSessionId r \<noteq> []" shows "session_inv (on_session_announce E from r s)"
  by (rule session_inv_known [OF assms(1)])
    (use assms session_inv_parts(2,4) [OF assms(1)]
      in \<open>auto simp: on_session_announce_def put_known_session_def map_of_smap_put split: if_splits\<close>)

lemma session_inv_on_withdraw: "session_inv s \<Longrightarrow> session_inv (on_session_withdraw i s)"
  by (rule session_inv_known [of s])
    (auto simp: on_session_withdraw_def dest: session_inv_parts(2,4) split: if_splits)

lemma sinvite_id_inj: "sinvite_id a = sinvite_id b \<longleftrightarrow> a = b"
  by (simp add: sinvite_id_def dec_str_inj)

lemma sinvites_inv_on_invite: "sinvites_inv s \<Longrightarrow> sinvites_inv (fst (on_session_invite E i p t s))"
  by (auto simp: on_session_invite_def Let_def sinvites_inv_def sinvite_id_inj less_Suc_eq)

lemma session_inv_on_invite:
  assumes "session_inv s" shows "session_inv (fst (on_session_invite E i p t s))"
  by (rule session_inv_frame [OF assms])
    (use sinvites_inv_on_invite [OF session_inv_parts(7) [OF assms], of E i p t]
      in \<open>simp_all add: on_session_invite_def Let_def\<close>)

lemma session_inv_OnDatagram [inv_intros]: "session_inv s \<Longrightarrow> session_inv (fst (Sessions_OnDatagram E K from ty pl s))"
  by (auto simp: Sessions_OnDatagram_def split: MessageType.splits prod.splits
      intro!: session_inv_on_announce session_inv_on_withdraw session_inv_on_invite)

section \<open>Steps and reachable states\<close>

inductive session_step :: "sdk \<Rightarrow> sessions \<Rightarrow> sessions \<Rightarrow> bool" for K where
  s_update: "session_step K s (fst (UpdateSession E K h cd cb s))"
| s_destroy: "session_step K s (fst (DestroySession opt cd cb s))"
| s_join: "session_step K s (fst (JoinSession jopt cd cb s))"
| s_start: "session_step K s (fst (StartSession K opt cd cb s))"
| s_end: "session_step K s (fst (EndSession K opt cd cb s))"
| s_register: "session_step K s (fst (RegisterPlayers K popt cd cb s))"
| s_unregister: "session_step K s (fst (UnregisterPlayers K popt cd cb s))"
| s_reject: "session_step K s (fst (Sessions_RejectInvite opt cd cb s))"
| s_overlay_reject: "session_step K s (fst (Sessions_RejectInviteFromOverlay E i s))"
| s_overlay_join: "session_step K s (fst (snd (Sessions_BeginJoinFromOverlay E i c s)))"
| s_acknowledge: "session_step K s (Sessions_AcknowledgeUiEvent ev s)"
| s_datagram: "session_step K s (fst (Sessions_OnDatagram E K from ty pl s))"

definition session_reach :: "sdk \<Rightarrow> sessions \<Rightarrow> bool" where
  "session_reach K = (session_step K)\<^sup>*\<^sup>* sessions_init"

lemma session_inv_step: "session_step K s t \<Longrightarrow> session_inv s \<Longrightarrow> session_inv t"
  by (induction rule: session_step.induct) (auto intro: inv_intros)

lemma session_inv_reach: "session_reach K s \<Longrightarrow> session_inv s"
  unfolding session_reach_def
  by (induction rule: rtranclp_induct) (auto intro: session_inv_init session_inv_step)

section \<open>Announcement and withdrawal, as a peer sees them\<close>

lemma OnDatagram_session_announce:
  assumes "srecord_ok K r" "srSessionId r \<noteq> []"
  shows "Sessions_OnDatagram E K from SessionAnnounce (Session_SerializeRecord K r) s =
    (on_session_announce E from (wire_srec r) s, [])"
proof -
  have "Session_DeserializeRecord K (reader_init (Session_SerializeRecord K r)) =
      (wire_srec r, rdx (Session_SerializeRecord K r) [])"
    using Session_Deserialize_Serialize [OF assms(1), of "[]" "[]"] by (simp add: reader_init_rdx)
  with assms(2) show ?thesis by (simp add: Sessions_OnDatagram_def)
qed

lemma OnDatagram_session_withdraw:
  "short i \<Longrightarrow> Sessions_OnDatagram E K from SessionWithdraw (enc_str i) s = (on_session_withdraw i s, [])"
  using str.run [of i "[]" "[]"] by (simp add: Sessions_OnDatagram_def reader_init_rdx)

lemma on_session_announce_known:
  "session_inv s \<Longrightarrow> map_of (ssKnown (on_session_announce E from r s)) =
     (map_of (ssKnown s))(srSessionId r \<mapsto> stamp_session E from r)"
  by (simp add: on_session_announce_def put_known_session_def map_of_smap_put session_inv_parts(2))

text \<open>A host that left the address to the emulator is reachable at the datagram's source.\<close>

lemma stamp_default_host:
  "srHostAddress r = [] \<Longrightarrow> srHostAddress (stamp_session E' from (wire_srec (sbump (default_host E r)))) = ep_ToString from"
  by (simp add: stamp_session_def default_host_def sbump_def Let_def)

lemma stamp_explicit_host:
  "srHostAddress r \<noteq> [] \<Longrightarrow> take 8 (srHostAddress r) \<noteq> ''0.0.0.0:'' \<Longrightarrow>
   srHostAddress (stamp_session E' from (wire_srec (sbump (default_host E r)))) = srHostAddress r"
  by (simp add: stamp_session_def default_host_def sbump_def wire_srec_def Let_def)

section \<open>Player registration\<close>

lemma register_all_props:
  "set (register_all ps players) = set players \<union> set ps \<and> (distinct players \<longrightarrow> distinct (register_all ps players)) \<and>
   (\<exists>new. register_all ps players = players @ new)"
proof (induction ps arbitrary: players)
  case Nil
  then show ?case by (simp add: register_all_def)
next
  case (Cons p ps)
  have "register_all (p # ps) players = register_all ps (if p \<in> set players then players else players @ [p])"
    by (simp add: register_all_def)
  with Cons.IH [of "if p \<in> set players then players else players @ [p]"] show ?case by (auto split: if_splits)
qed

lemma register_all_known: "set ps \<subseteq> set players \<Longrightarrow> register_all ps players = players"
  by (induction ps) (auto simp: register_all_def)

lemma unregister_all_distinct:
  "distinct players \<Longrightarrow> unregister_all ps players = filter (\<lambda>p. p \<notin> set ps) players"
proof (induction ps arbitrary: players)
  case Nil
  then show ?case by (simp add: unregister_all_def)
next
  case (Cons p ps)
  have "unregister_all (p # ps) players = unregister_all ps (remove1 p players)" by (simp add: unregister_all_def)
  with Cons.IH [of "remove1 p players"] Cons.prems show ?case
    by (auto simp: distinct_remove1_removeAll removeAll_filter_not_eq intro: filter_cong)
qed

lemma commit_local_fields [simp]:
  "ssLocal (fst (commit_local K n r s)) = smap_put n (sbump r) (ssLocal s)"
  "ssOwned (fst (commit_local K n r s)) = ssOwned s" "ssKnown (fst (commit_local K n r s)) = ssKnown s"
  by (simp_all add: commit_local_def Let_def put_local_def)

lemma change_players_local:
  assumes "session_inv s" "map_of (ssLocal s) name = Some r"
  shows "map_of (ssLocal (fst (change_players f K (Some (Some name, ids, n)) cd cb s))) =
    (map_of (ssLocal s))(name \<mapsto> sbump (r\<lparr>srRegisteredPlayers := f (given_players ids n) (srRegisteredPlayers r)\<rparr>))"
  using assms by (simp add: change_players_def Let_def case_prod_beta map_of_smap_put session_inv_parts(1))

section \<open>Search\<close>

lemma Session_CollectSearchResults_spec:
  "zsResults (Session_CollectSearchResults K q s) =
     take (zsMaxResults q) (filter (Session_MatchesSearch K q) (map snd (ssKnown s) @ hosted s))"
  by (simp add: Session_CollectSearchResults_def collect_take)

lemma set_hosted:
  "session_inv s \<Longrightarrow> set (hosted s) = {r. \<exists>n \<in> set (ssOwned s). map_of (ssLocal s) n = Some r}"
  by (auto simp: hosted_def split: option.splits)

lemma known_records: "session_inv s \<Longrightarrow> set (map snd (ssKnown s)) = ran (map_of (ssKnown s))"
  by (simp add: ran_distinct smap_ok_distinct session_inv_parts(2))

lemma filter_values_by_key:
  "distinct (keys m) \<Longrightarrow> (\<And>k v. map_of m k = Some v \<Longrightarrow> f v = k) \<Longrightarrow>
   filter (\<lambda>v. f v = i) (map snd m) = (case map_of m i of Some v \<Rightarrow> [v] | None \<Rightarrow> [])"
proof (induction m)
  case Nil
  then show ?case by simp
next
  case (Cons kv m)
  obtain k v where kv: "kv = (k, v)" by (cases kv)
  have nk: "k \<notin> set (keys m)" using Cons.prems(1) kv by simp
  have key: "f w = j" if "map_of m j = Some w" for j w
  proof -
    have "j \<noteq> k" using nk that by (metis map_of_SomeD fst_conv image_eqI list.set_map)
    then show ?thesis using Cons.prems(2) [of j w] that kv by simp
  qed
  have "filter (\<lambda>v. f v = i) (map snd m) = (case map_of m i of Some v \<Rightarrow> [v] | None \<Rightarrow> [])"
    using Cons.IH key Cons.prems(1) by simp
  moreover have "f v = k" using Cons.prems(2) [of k v] kv by simp
  moreover have "map_of m k = None" using nk by (simp add: map_of_eq_None_iff)
  ultimately show ?case using kv by auto
qed

lemma search_by_id:
  assumes "session_inv s" "zsBySessionId q = i" "i \<noteq> []"
  shows "zsResults (Session_CollectSearchResults K q s) =
    take (zsMaxResults q) ((case map_of (ssKnown s) i of Some r \<Rightarrow> [r] | None \<Rightarrow> []) @ filter (\<lambda>h. srSessionId h = i) (hosted s))"
proof -
  have m: "Session_MatchesSearch K q = (\<lambda>r. srSessionId r = i)" using assms(2,3) by (auto simp: Session_MatchesSearch_def)
  have "filter (\<lambda>r. srSessionId r = i) (map snd (ssKnown s)) = (case map_of (ssKnown s) i of Some r \<Rightarrow> [r] | None \<Rightarrow> [])"
    by (rule filter_values_by_key) (use session_inv_parts(2,4) [OF assms(1)] smap_ok_distinct in blast)+
  then show ?thesis by (simp add: Session_CollectSearchResults_spec m)
qed

section \<open>Destroying a session\<close>

text \<open>A destroyed session goes, with the authority over it; every other one stays as it was.\<close>

lemma DestroySession_others:
  assumes "session_inv s" "map_of (ssLocal s) name = Some r" "DestroySession (Some (Some name)) cd cb s = (s', ev)"
  shows "s' = s\<lparr>ssLocal := ssLocal s', ssOwned := ssOwned s'\<rparr>"
    "map_of (ssLocal s') n = (if n = name then None else map_of (ssLocal s) n)"
    "n \<in> set (ssOwned s') \<longleftrightarrow> n \<noteq> name \<and> n \<in> set (ssOwned s)"
  using assms by (auto simp: DestroySession_def session_inv_parts(6))

section \<open>Joining under a hosted name\<close>

text \<open>\<open>JoinSession\<close> does not look at \<open>Owned_\<close>: a name this node hosts stays hosted, now
  naming the joined session, and destroying it withdraws that session.\<close>

lemma JoinSession_over_hosted:
  assumes inv: "session_inv s" and own: "name \<in> set (ssOwned s)" and id: "srSessionId r \<noteq> []"
    and s1: "s1 = fst (JoinSession (Some \<lparr>joSessionName = Some name, joSessionHandle = Some r, joLocalUserId = u\<rparr>) cd cb s)"
  shows "net_calls (snd (DestroySession (Some (Some name)) cd' cb' s1)) =
      net_calls [bcast_msg SessionWithdraw (enc_str (srSessionId r)) :: session_task event]"
proof -
  have "\<exists>q. map_of (ssLocal s1) name = Some q \<and> srSessionId q = srSessionId r" "ssOwned s1 = ssOwned s"
    using inv by (simp_all add: s1 JoinSession_def Let_def put_local_def map_of_smap_put session_inv_parts(1))
  with own id show ?thesis by (auto simp: DestroySession_def)
qed

end
