(* ===== verification/SessionExports.thy ===== *)
theory SessionExports
  imports Sessions
begin

text \<open>
  The exported entry points of \<open>src/interfaces/Sessions_Exports.cpp\<close> that do more than forward
  to \<open>SessionsInterface\<close>: notification registration, the modification builder, the accessors of
  an active session and of a details snapshot, and the search object.

  A null handle, options pointer or out pointer is \<open>None\<close> or \<open>False\<close>; the interface
  of a missing platform is \<open>None\<close>.
\<close>

section \<open>Notification registration\<close>

datatype session_registry =
    SessionInviteReceived | SessionInviteAccepted | SessionInviteRejected | JoinSessionAccepted | LeaveSessionRequested

fun sregistry :: "session_registry \<Rightarrow> sessions \<Rightarrow> nentry list" where
  "sregistry SessionInviteReceived s = ssInviteReceived s"
| "sregistry SessionInviteAccepted s = ssInviteAccepted s"
| "sregistry SessionInviteRejected s = ssInviteRejected s"
| "sregistry JoinSessionAccepted s = ssJoinAccepted s"
| "sregistry LeaveSessionRequested s = ssLeaveRequested s"

fun put_sregistry :: "session_registry \<Rightarrow> nentry list \<Rightarrow> sessions \<Rightarrow> sessions" where
  "put_sregistry SessionInviteReceived es s = s\<lparr>ssInviteReceived := es\<rparr>"
| "put_sregistry SessionInviteAccepted es s = s\<lparr>ssInviteAccepted := es\<rparr>"
| "put_sregistry SessionInviteRejected es s = s\<lparr>ssInviteRejected := es\<rparr>"
| "put_sregistry JoinSessionAccepted es s = s\<lparr>ssJoinAccepted := es\<rparr>"
| "put_sregistry LeaveSessionRequested es s = s\<lparr>ssLeaveRequested := es\<rparr>"

definition Sessions_AddNotify ::
  "session_registry \<Rightarrow> nat option \<Rightarrow> nat \<Rightarrow> nat \<Rightarrow> sessions option \<Rightarrow> nat \<times> nat \<times> sessions option" where
  "Sessions_AddNotify g fn cd c st =
     (case st of
        None \<Rightarrow> (EOS_INVALID_NOTIFICATIONID, c, None)
      | Some s \<Rightarrow> (case Notify_Add fn cd c (sregistry g s) of (i, c', es) \<Rightarrow> (i, c', Some (put_sregistry g es s))))"

definition Sessions_RemoveNotify :: "session_registry \<Rightarrow> nat \<Rightarrow> sessions option \<Rightarrow> sessions option" where
  "Sessions_RemoveNotify g i st = map_option (\<lambda>s. put_sregistry g (Notify_Remove i (sregistry g s)) s) st"

definition CopySessionHandleForPresence :: "sessions option \<Rightarrow> bool \<Rightarrow> eresult \<times> SessionRecord option" where
  "CopySessionHandleForPresence st out =
     (if st = None \<or> \<not> out then (EOS_InvalidParameters, None) else (EOS_NotFound, None))"

section \<open>The modification builder\<close>

definition Session_AttrFromData :: "sdk \<Rightarrow> AttributeData \<Rightarrow> enum \<Rightarrow> SessionAttr" where
  "Session_AttrFromData K d adv = \<lparr>saValue = ReadAttr K (adType d) (adInt d) (adDbl d) (adBool d) (adUtf8 d), saAdv = adv\<rparr>"

type_synonym smod_result = "eresult \<times> SessionModificationObj option"

definition SessionModification_SetBucketId :: "SessionModificationObj option \<Rightarrow> string option option \<Rightarrow> smod_result" where
  "SessionModification_SetBucketId h options = with_mod h options (\<lambda>b m. map_option (\<lambda>v. m\<lparr>zmBucket := Some v\<rparr>) b)"

definition SetHostAddress :: "SessionModificationObj option \<Rightarrow> string option option \<Rightarrow> smod_result" where
  "SetHostAddress h options = with_mod h options (\<lambda>b m. map_option (\<lambda>v. m\<lparr>zmHost := Some v\<rparr>) b)"

definition SessionModification_SetPermissionLevel :: "SessionModificationObj option \<Rightarrow> enum option \<Rightarrow> smod_result" where
  "SessionModification_SetPermissionLevel h options = with_mod h options (\<lambda>p m. Some (m\<lparr>zmPerm := Some p\<rparr>))"

definition SetJoinInProgressAllowed :: "SessionModificationObj option \<Rightarrow> int option \<Rightarrow> smod_result" where
  "SetJoinInProgressAllowed h options = with_mod h options (\<lambda>b m. Some (m\<lparr>zmJIP := Some b\<rparr>))"

definition SetMaxPlayers :: "SessionModificationObj option \<Rightarrow> u32 option \<Rightarrow> smod_result" where
  "SetMaxPlayers h options = with_mod h options (\<lambda>n m. Some (m\<lparr>zmMax := Some n\<rparr>))"

definition SessionModification_SetInvitesAllowed :: "SessionModificationObj option \<Rightarrow> int option \<Rightarrow> smod_result" where
  "SessionModification_SetInvitesAllowed h options = with_mod h options (\<lambda>b m. Some (m\<lparr>zmInvites := Some b\<rparr>))"

definition SessionModification_SetAllowedPlatformIds ::
  "SessionModificationObj option \<Rightarrow> (u32 list option \<times> nat) option \<Rightarrow> smod_result" where
  "SessionModification_SetAllowedPlatformIds h options = with_mod h options
     (\<lambda>(ids, n) m. Some (m\<lparr>zmPlatforms := Some (case ids of None \<Rightarrow> [] | Some xs \<Rightarrow> take n xs)\<rparr>))"

definition SessionModification_AddAttribute ::
  "sdk \<Rightarrow> SessionModificationObj option \<Rightarrow> (AttributeData option \<times> enum) option \<Rightarrow> smod_result" where
  "SessionModification_AddAttribute K h options = with_mod h options
     (\<lambda>(d, adv) m. case d of None \<Rightarrow> None | Some dt \<Rightarrow> (case adKey dt of None \<Rightarrow> None
        | Some k \<Rightarrow> Some (m\<lparr>zmAddAttrs := zmAddAttrs m @ [(k, Session_AttrFromData K dt adv)]\<rparr>)))"

definition SessionModification_RemoveAttribute :: "SessionModificationObj option \<Rightarrow> string option option \<Rightarrow> smod_result" where
  "SessionModification_RemoveAttribute h options =
     with_mod h options (\<lambda>b m. map_option (\<lambda>k. m\<lparr>zmRemoveAttrs := zmRemoveAttrs m @ [k]\<rparr>) b)"

section \<open>Details\<close>

definition Session_MakeAttribute :: "sdk \<Rightarrow> string \<Rightarrow> SessionAttr \<Rightarrow> AttributeOut" where
  "Session_MakeAttribute K key a = attribute_out K key (saAdv a) (saValue a)"

record SessionInfo =
  nfSessionId :: string
  nfHostAddress :: string
  nfOpenConnections :: nat
  nfOwner :: "puid option"
  nfBucketId :: string
  nfPublicConnections :: u32
  nfAllowJoinInProgress :: int
  nfPermission :: enum
  nfInvitesAllowed :: int
  nfSanctionsEnabled :: int
  nfAllowedPlatformIds :: "u32 list option"

definition Session_MakeInfo :: "SessionRecord \<Rightarrow> SessionInfo" where
  "Session_MakeInfo r =
     \<lparr>nfSessionId = c_str (srSessionId r), nfHostAddress = c_str (srHostAddress r), nfOpenConnections = OpenSlots r,
      nfOwner = intern (srOwnerProductId r), nfBucketId = c_str (srBucketId r), nfPublicConnections = srMaxPlayers r,
      nfAllowJoinInProgress = srAllowJoinInProgress r, nfPermission = srPermission r,
      nfInvitesAllowed = srInvitesAllowed r, nfSanctionsEnabled = srSanctionsEnabled r,
      nfAllowedPlatformIds = (if srAllowedPlatformIds r = [] then None else Some (srAllowedPlatformIds r))\<rparr>"

definition SessionDetails_CopyInfo :: "SessionRecord option \<Rightarrow> bool \<Rightarrow> eresult \<times> SessionInfo option" where
  "SessionDetails_CopyInfo h out =
     (case h of
        None \<Rightarrow> (EOS_InvalidParameters, None)
      | Some r \<Rightarrow> if out then (EOS_Success, Some (Session_MakeInfo r)) else (EOS_InvalidParameters, None))"

definition GetSessionAttributeCount :: "SessionRecord option \<Rightarrow> nat" where
  "GetSessionAttributeCount h = (case h of None \<Rightarrow> 0 | Some r \<Rightarrow> length (srAttributes r))"

definition CopySessionAttributeByIndex ::
  "sdk \<Rightarrow> SessionRecord option \<Rightarrow> nat option \<Rightarrow> bool \<Rightarrow> eresult \<times> AttributeOut option" where
  "CopySessionAttributeByIndex K h options out =
     (case (h, options) of
        (Some r, Some i) \<Rightarrow>
          if \<not> out then (EOS_InvalidParameters, None)
          else if i \<ge> length (srAttributes r) then (EOS_NotFound, None)
          else (case srAttributes r ! i of (k, a) \<Rightarrow> (EOS_Success, Some (Session_MakeAttribute K k a)))
      | _ \<Rightarrow> (EOS_InvalidParameters, None))"

definition CopySessionAttributeByKey ::
  "sdk \<Rightarrow> SessionRecord option \<Rightarrow> string option option \<Rightarrow> bool \<Rightarrow> eresult \<times> AttributeOut option" where
  "CopySessionAttributeByKey K h options out =
     (case (h, options) of
        (Some r, Some (Some k)) \<Rightarrow>
          if \<not> out then (EOS_InvalidParameters, None)
          else (case find (\<lambda>kv. fst kv = k) (srAttributes r) of
                  None \<Rightarrow> (EOS_NotFound, None)
                | Some (k', a) \<Rightarrow> (EOS_Success, Some (Session_MakeAttribute K k' a)))
      | _ \<Rightarrow> (EOS_InvalidParameters, None))"

section \<open>Active sessions\<close>

record ActiveSessionInfo =
  aiSessionName :: string
  aiLocalUserId :: "puid option"
  aiState :: enum
  aiDetails :: SessionInfo

definition ActiveSession_CopyInfo ::
  "ActiveSessionObj option \<Rightarrow> sessions option \<Rightarrow> bool \<Rightarrow> eresult \<times> ActiveSessionInfo option" where
  "ActiveSession_CopyInfo h st out =
     (case (h, st) of
        (Some a, Some s) \<Rightarrow>
          if \<not> out then (EOS_InvalidParameters, None)
          else (case CopyRecord (acSessionName a) s of
                  None \<Rightarrow> (EOS_NotFound, None)
                | Some r \<Rightarrow> (EOS_Success, Some
                    \<lparr>aiSessionName = c_str (srSessionName r), aiLocalUserId = intern (acLocalUser a),
                     aiState = srState r, aiDetails = Session_MakeInfo r\<rparr>))
      | _ \<Rightarrow> (EOS_InvalidParameters, None))"

definition GetRegisteredPlayerCount :: "ActiveSessionObj option \<Rightarrow> sessions option \<Rightarrow> nat" where
  "GetRegisteredPlayerCount h st =
     (case (h, st) of
        (Some a, Some s) \<Rightarrow>
          (case CopyRecord (acSessionName a) s of None \<Rightarrow> 0 | Some r \<Rightarrow> length (srRegisteredPlayers r))
      | _ \<Rightarrow> 0)"

definition GetRegisteredPlayerByIndex :: "ActiveSessionObj option \<Rightarrow> sessions option \<Rightarrow> nat option \<Rightarrow> puid option" where
  "GetRegisteredPlayerByIndex h st options =
     (case (h, st, options) of
        (Some a, Some s, Some i) \<Rightarrow>
          (case CopyRecord (acSessionName a) s of
             None \<Rightarrow> None
           | Some r \<Rightarrow> if i \<ge> length (srRegisteredPlayers r) then None else intern (srRegisteredPlayers r ! i))
      | _ \<Rightarrow> None)"

section \<open>Search\<close>

type_synonym ssearch_result = "eresult \<times> SessionSearchObj option"

definition SetSessionId :: "SessionSearchObj option \<Rightarrow> string option option \<Rightarrow> ssearch_result" where
  "SetSessionId h options = with_search h options (\<lambda>i q. q\<lparr>zsBySessionId := i\<rparr>)"

definition SessionSearch_SetTargetUserId :: "SessionSearchObj option \<Rightarrow> puid option option \<Rightarrow> ssearch_result" where
  "SessionSearch_SetTargetUserId h options = with_search h options (\<lambda>i q. q\<lparr>zsByTargetUser := i\<rparr>)"

definition SessionSearch_SetParameter ::
  "sdk \<Rightarrow> SessionSearchObj option \<Rightarrow> (AttributeData option \<times> ComparisonOp) option \<Rightarrow> ssearch_result" where
  "SessionSearch_SetParameter K h options = with_mod h options
     (\<lambda>(d, op) q. case d of None \<Rightarrow> None | Some dt \<Rightarrow> (case adKey dt of None \<Rightarrow> None
        | Some k \<Rightarrow> Some (q\<lparr>zsParams := put_param
            \<lparr>seKey = k, seValue = ReadAttr K (adType dt) (adInt dt) (adDbl dt) (adBool dt) (adUtf8 dt), seOp = op\<rparr>
            (zsParams q)\<rparr>)))"

definition SessionSearch_RemoveParameter :: "SessionSearchObj option \<Rightarrow> string option option \<Rightarrow> ssearch_result" where
  "SessionSearch_RemoveParameter h options =
     with_search h options (\<lambda>k q. q\<lparr>zsParams := erase_first (\<lambda>e. seKey e = k) (zsParams q)\<rparr>)"

definition SessionSearch_SetMaxResults :: "SessionSearchObj option \<Rightarrow> nat option \<Rightarrow> ssearch_result" where
  "SessionSearch_SetMaxResults h options =
     with_mod h options (\<lambda>n q. if n = 0 then None else Some (q\<lparr>zsMaxResults := n\<rparr>))"

text \<open>\<open>Find\<close>: the search with its results, the closures posted, and the callbacks called on
  the spot because there is no platform to defer through.\<close>

definition SessionSearch_Find ::
  "sdk \<Rightarrow> SessionSearchObj option \<Rightarrow> sessions option \<Rightarrow> nat \<Rightarrow> nat option \<Rightarrow>
   SessionSearchObj option \<times> session_task event list \<times> session_task list" where
  "SessionSearch_Find K h st cd cb =
     (case (h, st) of
        (Some q, Some s) \<Rightarrow> (Some (Session_CollectSearchResults K q s), complete cb (\<lambda>f. SessionDone f cd EOS_Success), [])
      | (None, Some s) \<Rightarrow> (None, complete cb (\<lambda>f. SessionDone f cd EOS_InvalidParameters), [])
      | (_, None) \<Rightarrow> (h, [], case cb of None \<Rightarrow> [] | Some f \<Rightarrow> [SessionDone f cd EOS_InvalidParameters]))"

definition SessionSearch_GetSearchResultCount :: "SessionSearchObj option \<Rightarrow> nat" where
  "SessionSearch_GetSearchResultCount h = (case h of None \<Rightarrow> 0 | Some q \<Rightarrow> length (zsResults q))"

definition SessionSearch_CopySearchResultByIndex ::
  "SessionSearchObj option \<Rightarrow> nat option \<Rightarrow> bool \<Rightarrow> eresult \<times> SessionRecord option" where
  "SessionSearch_CopySearchResultByIndex h options out =
     (case (h, options) of
        (Some q, Some i) \<Rightarrow>
          if \<not> out then (EOS_InvalidParameters, None)
          else if i \<ge> length (zsResults q) then (EOS_NotFound, None) else (EOS_Success, Some (zsResults q ! i))
      | _ \<Rightarrow> (EOS_InvalidParameters, None))"

section \<open>Facts\<close>

lemma sregistry_put [simp]: "sregistry g (put_sregistry g es s) = es"
  by (cases g) simp_all

lemma sregistry_put_other [simp]: "g \<noteq> h \<Longrightarrow> sregistry h (put_sregistry g es s) = sregistry h s"
  by (cases g; cases h) simp_all

text \<open>Walking the registered players by index gives the record's list.\<close>

lemma registered_players_by_index:
  assumes "map_of (ssLocal s) (acSessionName a) = Some r" "[] \<notin> set (srRegisteredPlayers r)"
  shows "map (\<lambda>i. GetRegisteredPlayerByIndex (Some a) (Some s) (Some i)) [0..<GetRegisteredPlayerCount (Some a) (Some s)] =
    map Some (srRegisteredPlayers r)"
proof (rule nth_equalityI)
  fix i
  assume "i < length (map (\<lambda>i. GetRegisteredPlayerByIndex (Some a) (Some s) (Some i))
      [0..<GetRegisteredPlayerCount (Some a) (Some s)])"
  then have i: "i < length (srRegisteredPlayers r)" using assms(1) by (simp add: GetRegisteredPlayerCount_def CopyRecord_def)
  with assms(2) have "srRegisteredPlayers r ! i \<noteq> []" using nth_mem by metis
  with i assms(1) show "map (\<lambda>i. GetRegisteredPlayerByIndex (Some a) (Some s) (Some i))
      [0..<GetRegisteredPlayerCount (Some a) (Some s)] ! i = map Some (srRegisteredPlayers r) ! i"
    by (simp add: GetRegisteredPlayerByIndex_def GetRegisteredPlayerCount_def CopyRecord_def intern_def)
qed (simp add: GetRegisteredPlayerCount_def CopyRecord_def assms(1))

text \<open>The results of a search, walked by index, are exactly the collected records.\<close>

lemma search_results_by_index:
  "map (\<lambda>i. SessionSearch_CopySearchResultByIndex (Some q) (Some i) True) [0..<SessionSearch_GetSearchResultCount (Some q)] =
     map (\<lambda>r. (EOS_Success, Some r)) (zsResults q)"
  by (auto simp: SessionSearch_CopySearchResultByIndex_def SessionSearch_GetSearchResultCount_def intro!: nth_equalityI)

end
