(* ===== verification/Config.thy ===== *)
theory Config
  imports Records
begin

text \<open>
  The INI configuration, \<open>src/core/Config.h\<close> and \<open>src/core/Config.cpp\<close>: the line
  parser, the store of values with their source priority, and the typed getters.

  The files a path names and the canonical form of a path are parameters: they come from the
  operating system.  The getters' laws are stated on \<open>values_of\<close>, the list of values a key has,
  in load order; \<open>ini_entries\<close> is the list of entries a text holds, and loading a file appends
  exactly those.
\<close>

section \<open>Characters and lines\<close>

text \<open>\<open>tolower\<close> of the C locale.\<close>

definition to_lower :: "char \<Rightarrow> char" where
  "to_lower c = (if 65 \<le> (of_char c :: nat) \<and> (of_char c :: nat) \<le> 90 then char_of (of_char c + (32 :: nat)) else c)"

definition Lower :: "string \<Rightarrow> string" where
  "Lower s = map to_lower s"

definition Trim :: "string \<Rightarrow> string" where
  "Trim s = rev (dropWhile is_space (rev (dropWhile is_space s)))"

definition StripQuotes :: "string \<Rightarrow> string" where
  "StripQuotes s =
     (if 2 \<le> length s \<and> hd s = CHR 0x22 \<and> last s = CHR 0x22 then take (length s - 2) (tl s) else s)"

text \<open>\<open>std::getline\<close> until the end of the file: a last line needs no newline.\<close>

fun getlines :: "string \<Rightarrow> string \<Rightarrow> string list" where
  "getlines cur [] = (if cur = [] then [] else [cur])"
| "getlines cur (c # cs) = (if c = CHR 0x0A then cur # getlines [] cs else getlines (cur @ [c]) cs)"

definition strip_cr :: "string \<Rightarrow> string" where
  "strip_cr l = (if l \<noteq> [] \<and> last l = CHR 0x0D then butlast l else l)"

definition strip_bom :: "string \<Rightarrow> string" where
  "strip_bom l = (if take 3 l = [CHR 0xEF, CHR 0xBB, CHR 0xBF] then drop 3 l else l)"

section \<open>The store\<close>

record cfg_value =
  cvText :: string
  cvPriority :: int

datatype cfg_source = CacheDir | DllAdjacent | Env

fun source_priority :: "cfg_source \<Rightarrow> int" where
  "source_priority CacheDir = 1"
| "source_priority DllAdjacent = 2"
| "source_priority Env = 3"

type_synonym cfg_data = "(string, (string, cfg_value list) amap) amap"

record config =
  cfData :: cfg_data
  cfAnyLoaded :: bool
  cfLoadedPaths :: "string list"

definition config_init :: config where
  "config_init = \<lparr>cfData = [], cfAnyLoaded = False, cfLoadedPaths = []\<rparr>"

text \<open>\<open>Data_[Section][Key].push_back(...)\<close>.\<close>

definition or_empty :: "'a list option \<Rightarrow> 'a list" where
  "or_empty m = (case m of None \<Rightarrow> [] | Some xs \<Rightarrow> xs)"

definition push_value :: "string \<Rightarrow> string \<Rightarrow> cfg_value \<Rightarrow> cfg_data \<Rightarrow> cfg_data" where
  "push_value sec key v d =
     (let ks = or_empty (map_of d sec) in smap_put sec (smap_put key (or_empty (map_of ks key) @ [v]) ks) d)"

section \<open>The parser\<close>

text \<open>One trimmed line: nothing, a section header, or a key and its value.\<close>

datatype ini_line = Blank | Header string | Entry string string

definition classify :: "string \<Rightarrow> ini_line" where
  "classify t =
     (if t = [] \<or> hd t = CHR ''#'' \<or> hd t = CHR '';'' then Blank
      else if hd t = CHR ''['' \<and> last t = CHR '']'' then Header (Lower (Trim (take (length t - 2) (tl t))))
      else if CHR ''='' \<notin> set t then Blank
      else let key = Lower (Trim (takeWhile (\<lambda>c. c \<noteq> CHR ''='') t));
               val = Trim (tl (dropWhile (\<lambda>c. c \<noteq> CHR ''='') t))
           in if key = [] then Blank else Entry key val)"

fun load_lines :: "bool \<Rightarrow> int \<Rightarrow> string \<Rightarrow> string list \<Rightarrow> cfg_data \<Rightarrow> cfg_data" where
  "load_lines first prio sec [] d = d"
| "load_lines first prio sec (l # ls) d =
     (let l1 = strip_cr l; l2 = (if first then strip_bom l1 else l1) in
      case classify (Trim l2) of
        Blank \<Rightarrow> load_lines False prio sec ls d
      | Header h \<Rightarrow> load_lines False prio h ls d
      | Entry k v \<Rightarrow> load_lines False prio sec ls (push_value sec k \<lparr>cvText = v, cvPriority = prio\<rparr> d))"

definition LoadFile ::
  "(string \<Rightarrow> string option) \<Rightarrow> (string \<Rightarrow> string) \<Rightarrow> string \<Rightarrow> cfg_source \<Rightarrow> config \<Rightarrow> bool \<times> config" where
  "LoadFile files canon path src c =
     (if path = [] then (False, c)
      else case files path of
        None \<Rightarrow> (False, c)
      | Some text \<Rightarrow>
          if canon path \<in> set (cfLoadedPaths c) then (False, c)
          else (True, \<lparr>cfData = load_lines True (source_priority src) [] (getlines [] text) (cfData c),
                       cfAnyLoaded = True, cfLoadedPaths = cfLoadedPaths c @ [canon path]\<rparr>))"

definition AnyLoaded :: "config \<Rightarrow> bool" where
  "AnyLoaded c = cfAnyLoaded c"

section \<open>The getters\<close>

definition Config_Find :: "string \<Rightarrow> string \<Rightarrow> config \<Rightarrow> cfg_value list option" where
  "Config_Find sec key c =
     (case map_of (cfData c) (Lower sec) of None \<Rightarrow> None | Some ks \<Rightarrow> map_of ks (Lower key))"

text \<open>The highest priority wins; of equals the later one does.\<close>

fun best_value :: "cfg_value \<Rightarrow> cfg_value list \<Rightarrow> cfg_value" where
  "best_value b [] = b"
| "best_value b (v # vs) = best_value (if cvPriority v \<ge> cvPriority b then v else b) vs"

definition GetString :: "string \<Rightarrow> string \<Rightarrow> string \<Rightarrow> config \<Rightarrow> string" where
  "GetString sec key dflt c =
     (case Config_Find sec key c of
        None \<Rightarrow> dflt
      | Some vs \<Rightarrow> if vs = [] then dflt else cvText (best_value (hd vs) vs))"

definition GetBool :: "string \<Rightarrow> string \<Rightarrow> bool \<Rightarrow> config \<Rightarrow> bool" where
  "GetBool sec key dflt c =
     (let raw = Lower (GetString sec key (if dflt then ''true'' else ''false'') c) in
      if raw \<in> {''true'', ''1'', ''yes'', ''on''} then True
      else if raw \<in> {''false'', ''0'', ''no'', ''off''} then False
      else dflt)"

text \<open>\<open>std::stoi(s, &consumed, 10)\<close>: leading space, one sign, the longest run of digits;
  no digits, or a value outside \<open>int\<close>, throws.\<close>

definition stoi :: "string \<Rightarrow> int option" where
  "stoi s =
     (let s1 = dropWhile is_space s;
          neg = (s1 \<noteq> [] \<and> hd s1 = CHR ''-'');
          s2 = (if s1 \<noteq> [] \<and> (hd s1 = CHR ''-'' \<or> hd s1 = CHR ''+'') then tl s1 else s1);
          ds = takeWhile is_digit s2;
          n = (if neg then - int (digits_value ds) else int (digits_value ds))
      in if ds = [] \<or> n < - (2 ^ 31) \<or> 2 ^ 31 \<le> n then None else Some n)"

definition GetInt :: "string \<Rightarrow> string \<Rightarrow> int \<Rightarrow> config \<Rightarrow> int" where
  "GetInt sec key dflt c =
     (let raw = GetString sec key [] c in
      if raw = [] then dflt else case stoi raw of None \<Rightarrow> dflt | Some n \<Rightarrow> n)"

definition GetList :: "string \<Rightarrow> string \<Rightarrow> config \<Rightarrow> string list" where
  "GetList sec key c = (case Config_Find sec key c of None \<Rightarrow> [] | Some vs \<Rightarrow> map cvText vs)"

definition Config_Has :: "string \<Rightarrow> string \<Rightarrow> config \<Rightarrow> bool" where
  "Config_Has sec key c = (case Config_Find sec key c of None \<Rightarrow> False | Some vs \<Rightarrow> vs \<noteq> [])"

definition GetSectionKeys :: "string \<Rightarrow> config \<Rightarrow> string list" where
  "GetSectionKeys sec c = (case map_of (cfData c) (Lower sec) of None \<Rightarrow> [] | Some ks \<Rightarrow> map fst ks)"

section \<open>What a file adds\<close>

definition values_of :: "string \<Rightarrow> string \<Rightarrow> cfg_data \<Rightarrow> cfg_value list" where
  "values_of sec key d = or_empty (map_of (or_empty (map_of d sec)) key)"

declare map_of_smap_put_any [simp]

lemma values_of_push:
  "values_of s k (push_value sec key v d) = values_of s k d @ (if s = sec \<and> k = key then [v] else [])"
  by (auto simp: values_of_def push_value_def or_empty_def Let_def)

text \<open>The entries of a text, with the section each stands in.\<close>

fun ini_entries :: "bool \<Rightarrow> string \<Rightarrow> string list \<Rightarrow> (string \<times> string \<times> string) list" where
  "ini_entries first sec [] = []"
| "ini_entries first sec (l # ls) =
     (case classify (Trim (if first then strip_bom (strip_cr l) else strip_cr l)) of
        Blank \<Rightarrow> ini_entries False sec ls
      | Header h \<Rightarrow> ini_entries False h ls
      | Entry k v \<Rightarrow> (sec, k, v) # ini_entries False sec ls)"

definition entries_at :: "string \<Rightarrow> string \<Rightarrow> (string \<times> string \<times> string) list \<Rightarrow> string list" where
  "entries_at s k es = map (\<lambda>(_, _, v). v) (filter (\<lambda>(s', k', _). s' = s \<and> k' = k) es)"

lemma entries_at_simps [simp]:
  "entries_at s k [] = []"
  "entries_at s k (e # es) = (case e of (s', k', v) \<Rightarrow> if s' = s \<and> k' = k then v # entries_at s k es else entries_at s k es)"
  "entries_at s k (es @ fs) = entries_at s k es @ entries_at s k fs"
  by (auto simp: entries_at_def split: prod.splits)

lemma load_lines_values:
  "values_of s k (load_lines first prio sec ls d) =
     values_of s k d @ map (\<lambda>v. \<lparr>cvText = v, cvPriority = prio\<rparr>) (entries_at s k (ini_entries first sec ls))"
  by (induction first prio sec ls d rule: load_lines.induct) (auto simp: Let_def values_of_push split: ini_line.splits)

text \<open>Every stored key has a value, so a found key is never empty.\<close>

definition data_ok :: "cfg_data \<Rightarrow> bool" where
  "data_ok d \<longleftrightarrow> (\<forall>sec key. map_of (or_empty (map_of d sec)) key \<noteq> Some [])"

lemma data_ok_push: "data_ok d \<Longrightarrow> data_ok (push_value s k v d)"
  by (simp add: data_ok_def push_value_def Let_def) (simp add: or_empty_def)

lemma data_ok_load_lines: "data_ok d \<Longrightarrow> data_ok (load_lines first prio s ls d)"
  by (induction first prio s ls d rule: load_lines.induct) (auto simp: Let_def data_ok_push split: ini_line.splits)

lemma data_ok_LoadFile [inv_intros]: "data_ok (cfData c) \<Longrightarrow> data_ok (cfData (snd (LoadFile files canon p src c)))"
  by (simp add: LoadFile_def data_ok_load_lines split: option.splits)

lemma data_ok_init: "data_ok (cfData config_init)"
  by (simp add: data_ok_def config_init_def or_empty_def)

text \<open>So \<open>Has\<close> says exactly that \<open>GetList\<close> is not empty.\<close>

lemma Config_Has_GetList: "data_ok (cfData c) \<Longrightarrow> Config_Has sec key c \<longleftrightarrow> Config_Find sec key c \<noteq> None"
  by (auto simp: Config_Has_def Config_Find_def data_ok_def or_empty_def split: option.splits)

lemma GetList_values: "GetList sec key c = map cvText (values_of (Lower sec) (Lower key) (cfData c))"
  by (auto simp: GetList_def Config_Find_def values_of_def or_empty_def split: option.splits)

lemma GetString_values:
  "GetString sec key dflt c =
     (let vs = values_of (Lower sec) (Lower key) (cfData c) in if vs = [] then dflt else cvText (best_value (hd vs) vs))"
  by (auto simp: GetString_def Config_Find_def values_of_def or_empty_def Let_def split: option.splits)

lemma LoadFile_values:
  assumes "path \<noteq> []" "files path = Some text" "canon path \<notin> set (cfLoadedPaths c)"
  shows "values_of s k (cfData (snd (LoadFile files canon path src c))) =
    values_of s k (cfData c) @
    map (\<lambda>v. \<lparr>cvText = v, cvPriority = source_priority src\<rparr>) (entries_at s k (ini_entries True [] (getlines [] text)))"
  using assms by (simp add: LoadFile_def load_lines_values)

text \<open>Loading a file again, under any name with the same canonical form, changes nothing.\<close>

lemma LoadFile_again:
  "canon p = canon q \<Longrightarrow> fst (LoadFile files canon p src c) \<Longrightarrow>
   LoadFile files canon q src' (snd (LoadFile files canon p src c)) = (False, snd (LoadFile files canon p src c))"
  by (auto simp: LoadFile_def split: option.splits if_splits)

section \<open>Precedence\<close>

text \<open>The value chosen is the last one of the highest priority.\<close>

lemma best_value_last:
  "\<forall>w \<in> set (b # vs). cvPriority w \<le> M \<Longrightarrow> \<exists>w \<in> set (b # vs). cvPriority w = M \<Longrightarrow>
   best_value b vs = last (filter (\<lambda>v. cvPriority v = M) (b # vs))"
proof (induction b vs rule: best_value.induct)
  case (1 b)
  then show ?case by simp
next
  case (2 b v vs)
  let ?b = "if cvPriority v \<ge> cvPriority b then v else b"
  have ex: "\<exists>w \<in> set (?b # vs). cvPriority w = M" using "2.prems" by auto
  have "best_value ?b vs = last (filter (\<lambda>w. cvPriority w = M) (?b # vs))" using "2.IH" "2.prems" ex by auto
  also have "\<dots> = last (filter (\<lambda>w. cvPriority w = M) (b # v # vs))"
    using ex "2.prems"(1) by (auto simp: filter_empty_conv)
  finally show ?case by simp
qed

lemma best_value_spec:
  "best_value b vs = last (filter (\<lambda>v. cvPriority v = Max (cvPriority ` set (b # vs))) (b # vs))"
proof (rule best_value_last)
  show "\<forall>w \<in> set (b # vs). cvPriority w \<le> Max (cvPriority ` set (b # vs))" by (blast intro: Max_ge)
  have "Max (cvPriority ` set (b # vs)) \<in> cvPriority ` set (b # vs)" by (rule Max_in) auto
  then show "\<exists>w \<in> set (b # vs). cvPriority w = Max (cvPriority ` set (b # vs))" by (metis imageE)
qed

lemma GetString_precedence:
  assumes "values_of (Lower sec) (Lower key) (cfData c) = vs" "vs \<noteq> []"
  shows "GetString sec key dflt c = cvText (last (filter (\<lambda>v. cvPriority v = Max (cvPriority ` set vs)) vs))"
proof -
  have "best_value (hd vs) vs = best_value (hd vs) (tl vs)" using assms(2) by (cases vs) auto
  then show ?thesis using assms best_value_spec [of "hd vs" "tl vs"] by (simp add: GetString_values Let_def)
qed

section \<open>Reading back a written file\<close>

text \<open>A file as a person would write it: sections, each with its keys, one per line; with or without
  a byte-order mark, with either line ending.\<close>

type_synonym ini_doc = "(string \<times> (string \<times> string) list) list"

definition doc_lines :: "ini_doc \<Rightarrow> string list" where
  "doc_lines doc = concat (map (\<lambda>(sec, kvs). (''['' @ sec @ '']'') # map (\<lambda>(k, v). k @ ''='' @ v) kvs) doc)"

definition ini_text :: "bool \<Rightarrow> bool \<Rightarrow> ini_doc \<Rightarrow> string" where
  "ini_text bom crlf doc =
     (if bom then [CHR 0xEF, CHR 0xBB, CHR 0xBF] else []) @
     concat (map (\<lambda>l. l @ (if crlf then [CHR 0x0D] else []) @ [CHR 0x0A]) (doc_lines doc))"

definition doc_entries :: "ini_doc \<Rightarrow> (string \<times> string \<times> string) list" where
  "doc_entries doc = concat (map (\<lambda>(sec, kvs). map (\<lambda>(k, v). (sec, k, v)) kvs) doc)"

text \<open>Names the format can carry: trimmed, on one line, lower case; a key is not empty, holds no
  equals sign and does not start like a comment or a header.\<close>

definition trimmed :: "string \<Rightarrow> bool" where
  "trimmed x \<longleftrightarrow> CHR 0x0A \<notin> set x \<and> (x \<noteq> [] \<longrightarrow> \<not> is_space (hd x) \<and> \<not> is_space (last x))"

definition key_ok :: "string \<Rightarrow> bool" where
  "key_ok k \<longleftrightarrow> trimmed k \<and> k \<noteq> [] \<and> Lower k = k \<and> CHR ''='' \<notin> set k \<and>
     hd k \<notin> {CHR ''#'', CHR '';'', CHR ''[''}"

definition doc_ok :: "ini_doc \<Rightarrow> bool" where
  "doc_ok doc \<longleftrightarrow> (\<forall>(sec, kvs) \<in> set doc. trimmed sec \<and> Lower sec = sec \<and> (\<forall>(k, v) \<in> set kvs. key_ok k \<and> trimmed v))"

lemma trimmed_Trim: "trimmed x \<Longrightarrow> Trim x = x"
proof (cases "x = []")
  case False
  assume t: "trimmed x"
  then have "dropWhile is_space x = x" using False by (cases x) (auto simp: trimmed_def)
  moreover have "dropWhile is_space (rev x) = rev x"
    using t False by (cases x rule: rev_cases) (auto simp: trimmed_def)
  ultimately show ?thesis by (simp add: Trim_def)
qed (simp add: Trim_def)

lemma not_space_chars: "\<not> is_space (CHR ''['')" "\<not> is_space (CHR '']'')" "\<not> is_space (CHR ''='')" "is_space (CHR 0x0D)"
  by (simp_all add: is_space_def)

lemma header_line: "trimmed sec \<Longrightarrow> trimmed (''['' @ sec @ '']'')"
  by (simp add: trimmed_def not_space_chars)

lemma entry_line: "key_ok k \<Longrightarrow> trimmed v \<Longrightarrow> trimmed (k @ ''='' @ v)"
  by (cases "v = []") (auto simp: key_ok_def trimmed_def not_space_chars)

lemma classify_header: "trimmed sec \<Longrightarrow> Lower sec = sec \<Longrightarrow> classify (''['' @ sec @ '']'') = Header sec"
  by (simp add: classify_def trimmed_Trim)

lemma classify_entry: "key_ok k \<Longrightarrow> trimmed v \<Longrightarrow> classify (k @ ''='' @ v) = Entry k v"
proof -
  assume k: "key_ok k" and v: "trimmed v"
  have all: "\<forall>x \<in> set k. x \<noteq> CHR ''=''" using k by (auto simp: key_ok_def)
  have tw: "takeWhile (\<lambda>c. c \<noteq> CHR ''='') (k @ CHR ''='' # x) = k"
    "dropWhile (\<lambda>c. c \<noteq> CHR ''='') (k @ CHR ''='' # x) = CHR ''='' # x" for x
    using takeWhile_append2 [of k "\<lambda>c. c \<noteq> CHR ''=''"] dropWhile_append2 [of k "\<lambda>c. c \<noteq> CHR ''=''"] all by simp_all
  have hd: "hd (k @ CHR ''='' # v) = hd k" "hd k \<noteq> CHR ''#''" "hd k \<noteq> CHR '';''" "hd k \<noteq> CHR ''[''" "Lower k = k" "k \<noteq> []"
    using k by (auto simp: key_ok_def)
  have t: "Trim k = k" "Trim v = v" using k v by (auto simp: key_ok_def trimmed_Trim)
  show ?thesis using hd by (simp add: classify_def tw Let_def t)
qed

lemma strip_cr_line: "trimmed l \<Longrightarrow> strip_cr (l @ (if crlf then [CHR 0x0D] else [])) = l"
  using not_space_chars(4) by (cases "l = []") (auto simp: strip_cr_def trimmed_def)

lemma strip_bom_line: "hd (l @ x) = CHR ''['' \<Longrightarrow> l \<noteq> [] \<Longrightarrow> strip_bom (l @ x) = l @ x"
  by (cases l) (auto simp: strip_bom_def)

lemma getlines_lines:
  "\<forall>l \<in> set ls. CHR 0x0A \<notin> set l \<Longrightarrow> CHR 0x0A \<notin> set pre \<Longrightarrow>
   getlines cur (concat (map (\<lambda>l. l @ pre @ [CHR 0x0A]) ls)) =
     (case ls of [] \<Rightarrow> (if cur = [] then [] else [cur]) | l # ls' \<Rightarrow> (cur @ l @ pre) # map (\<lambda>l. l @ pre) ls')"
proof (induction ls arbitrary: cur)
  case Nil
  then show ?case by simp
next
  case (Cons l ls)
  have one: "CHR 0x0A \<notin> set x \<Longrightarrow> getlines cur (x @ CHR 0x0A # rest) = (cur @ x) # getlines [] rest" for x rest and cur :: string
    by (induction x arbitrary: cur) auto
  have "getlines cur (concat (map (\<lambda>l. l @ pre @ [CHR 0x0A]) (l # ls))) =
      (cur @ l @ pre) # getlines [] (concat (map (\<lambda>l. l @ pre @ [CHR 0x0A]) ls))"
    using one [of "l @ pre" cur] Cons.prems by simp
  moreover have "getlines [] (concat (map (\<lambda>l. l @ pre @ [CHR 0x0A]) ls)) = map (\<lambda>l. l @ pre) ls"
    using Cons.IH [of "[]"] Cons.prems by (auto split: list.splits)
  ultimately show ?case by simp
qed

lemma doc_lines_trimmed: "doc_ok doc \<Longrightarrow> l \<in> set (doc_lines doc) \<Longrightarrow> trimmed l"
  unfolding doc_lines_def doc_ok_def
  by (auto simp del: append.simps append_Cons simp: header_line entry_line split: prod.splits)

abbreviation cr_of :: "bool \<Rightarrow> string" where
  "cr_of crlf \<equiv> if crlf then [CHR 0x0D] else []"

lemma ini_entries_keys:
  "\<forall>(k, v) \<in> set kvs. key_ok k \<and> trimmed v \<Longrightarrow>
   ini_entries False sec (map (\<lambda>l. l @ cr_of crlf) (map (\<lambda>(k, v). k @ ''='' @ v) kvs) @ rest) =
     map (\<lambda>(k, v). (sec, k, v)) kvs @ ini_entries False sec rest"
proof (induction kvs)
  case Nil
  then show ?case by simp
next
  case (Cons kv kvs)
  obtain k v where kv: "kv = (k, v)" by (cases kv)
  with Cons.prems have ok: "key_ok k" "trimmed v" by auto
  have "strip_cr ((k @ ''='' @ v) @ cr_of crlf) = k @ ''='' @ v" by (rule strip_cr_line [OF entry_line [OF ok]])
  then have "strip_cr (k @ CHR ''='' # v @ cr_of crlf) = k @ ''='' @ v" by simp
  moreover have "Trim (k @ ''='' @ v) = k @ ''='' @ v" by (rule trimmed_Trim [OF entry_line [OF ok]])
  moreover have "classify (k @ ''='' @ v) = Entry k v" by (rule classify_entry [OF ok])
  ultimately show ?case using Cons kv by simp
qed

lemma ini_entries_doc:
  "doc_ok doc \<Longrightarrow> ini_entries False sec (map (\<lambda>l. l @ cr_of crlf) (doc_lines doc)) = doc_entries doc"
proof (induction doc arbitrary: sec)
  case Nil
  then show ?case by (simp add: doc_lines_def doc_entries_def)
next
  case (Cons skv doc)
  obtain sec' kvs where s: "skv = (sec', kvs)" by (cases skv)
  with Cons.prems have ok: "trimmed sec'" "Lower sec' = sec'" "\<forall>(k, v) \<in> set kvs. key_ok k \<and> trimmed v" "doc_ok doc"
    by (auto simp: doc_ok_def)
  have "strip_cr ((''['' @ sec' @ '']'') @ cr_of crlf) = ''['' @ sec' @ '']''" by (rule strip_cr_line [OF header_line [OF ok(1)]])
  moreover have "Trim (''['' @ sec' @ '']'') = ''['' @ sec' @ '']''" by (rule trimmed_Trim [OF header_line [OF ok(1)]])
  moreover have "classify (''['' @ sec' @ '']'') = Header sec'" by (rule classify_header [OF ok(1,2)])
  ultimately have "ini_entries False sec (((''['' @ sec' @ '']'') @ cr_of crlf) # rest) = ini_entries False sec' rest" for rest
    by simp
  then show ?case
    using ini_entries_keys [OF ok(3), of sec' crlf "map (\<lambda>l. l @ cr_of crlf) (doc_lines doc)"] Cons.IH [OF ok(4)]
    by (simp add: s doc_lines_def doc_entries_def)
qed

lemma ini_text_entries:
  assumes "doc_ok doc"
  shows "ini_entries True [] (getlines [] (ini_text bom crlf doc)) = doc_entries doc"
proof -
  let ?bom = "if bom then [CHR 0xEF, CHR 0xBB, CHR 0xBF] else []"
  have nl: "\<forall>l \<in> set (doc_lines doc). CHR 0x0A \<notin> set l" using doc_lines_trimmed [OF assms] by (auto simp: trimmed_def)
  have "getlines [] (ini_text bom crlf doc) = getlines ?bom (concat (map (\<lambda>l. l @ cr_of crlf @ [CHR 0x0A]) (doc_lines doc)))"
    by (simp add: ini_text_def)
  also have "\<dots> = (case doc_lines doc of [] \<Rightarrow> (if ?bom = [] then [] else [?bom])
      | l # ls \<Rightarrow> (?bom @ l @ cr_of crlf) # map (\<lambda>l. l @ cr_of crlf) ls)"
    by (rule getlines_lines [OF nl]) simp
  finally have g: "getlines [] (ini_text bom crlf doc) = \<dots>" .
  show ?thesis
  proof (cases "doc_lines doc")
    case Nil
    then have "doc = []" by (cases doc) (auto simp: doc_lines_def)
    with g Nil show ?thesis by (simp add: doc_entries_def strip_cr_def strip_bom_def Trim_def classify_def)
  next
    case (Cons l ls)
    then obtain sec kvs doc' where d: "doc = (sec, kvs) # doc'" "l = ''['' @ sec @ '']''" by (cases doc) (auto simp: doc_lines_def)
    with assms have l: "trimmed l" using header_line by (auto simp: doc_ok_def)
    have "strip_cr ((?bom @ l) @ cr_of crlf) = ?bom @ l"
      using d(2) by (auto simp: strip_cr_def butlast_append)
    moreover have "strip_bom (?bom @ l) = l" "strip_bom l = l" using d(2) by (auto simp: strip_bom_def)
    moreover have "strip_cr (l @ cr_of crlf) = l" by (rule strip_cr_line [OF l])
    ultimately have "ini_entries True [] ((?bom @ l @ cr_of crlf) # map (\<lambda>l. l @ cr_of crlf) ls) =
        ini_entries False [] (map (\<lambda>l. l @ cr_of crlf) (l # ls))"
      by (auto split: ini_line.splits)
    with g Cons ini_entries_doc [OF assms, of "[]" crlf] show ?thesis by simp
  qed
qed

end
