(* ===== verification/SteamId.thy ===== *)
theory SteamId
  imports Serialize
begin

unbundle bit_operations_syntax

text \<open>
  The local Steam account id, \<open>src/core/SteamId.h\<close> and \<open>src/core/SteamId.cpp\<close>: the shape
  of an individual SteamID64 and the parser of a hex session ticket.  The query of a loaded
  \<open>steam_api\<close> module is code of another vendor: where it matters (theory Platform) its answer
  is a parameter.

  The lemmas show that a well-formed ticket yields the id it carries, and that nothing but an
  individual id is ever returned.
\<close>

definition IsIndividualId :: "u64 \<Rightarrow> bool" where
  "IsIndividualId i \<longleftrightarrow> drop_bit 56 i = 1 \<and> (drop_bit 52 i AND 15) = 1 \<and> (i AND 0xFFFFFFFF) \<noteq> 0"

definition HexNibble :: "char \<Rightarrow> int" where
  "HexNibble c =
     (let n = (of_char c :: nat) in
      if 48 \<le> n \<and> n \<le> 57 then int n - 48
      else if 97 \<le> n \<and> n \<le> 102 then int n - 97 + 10
      else if 65 \<le> n \<and> n \<le> 70 then int n - 65 + 10
      else -1)"

text \<open>The byte loop: \<open>None\<close> is its early return.\<close>

fun hex_bytes :: "string \<Rightarrow> bytes option" where
  "hex_bytes (h # l # cs) =
     (if HexNibble h < 0 \<or> HexNibble l < 0 then None
      else map_option (Cons (word_of_int (16 * HexNibble h + HexNibble l))) (hex_bytes cs))"
| "hex_bytes cs = Some []"

definition ReadLE32 :: "bytes \<Rightarrow> u32" where
  "ReadLE32 p = word_of_nat (of_le (take 4 p))"

definition ReadLE64 :: "bytes \<Rightarrow> u64" where
  "ReadLE64 p = ucast (ReadLE32 p) OR push_bit 32 (ucast (ReadLE32 (drop 4 p)))"

definition FromSessionTicketHex :: "string option \<Rightarrow> u64" where
  "FromSessionTicketHex token =
     (case token of
        None \<Rightarrow> 0
      | Some t \<Rightarrow>
          if length t < 48 \<or> odd (length t) then 0
          else case hex_bytes t of
            None \<Rightarrow> 0
          | Some bs \<Rightarrow>
              if ReadLE32 bs \<noteq> 20 then 0
              else let i = ReadLE64 (drop 12 bs) in if IsIndividualId i then i else 0)"

section \<open>Facts\<close>

lemma of_le_append: "of_le (a @ b) = of_le a + 256 ^ length a * of_le b"
  by (induction a) (simp_all add: algebra_simps)

lemma unat_ReadLE32: "unat (ReadLE32 p) = of_le (take 4 p)"
proof -
  have "of_le (take 4 p) < 2 ^ 32"
    using of_le_bound [of "take 4 p"] power_increasing [of "length (take 4 p)" 4 "256 :: nat"] by simp
  then show ?thesis by (simp add: ReadLE32_def unat_of_nat take_bit_eq_mod)
qed

lemma ReadLE64_eq: "8 \<le> length p \<Longrightarrow> ReadLE64 p = word_of_nat (of_le (take 8 p))"
proof -
  assume len: "8 \<le> length p"
  let ?lo = "ReadLE32 p" and ?hi = "ReadLE32 (drop 4 p)"
  have "ReadLE64 p = ucast ?lo + push_bit 32 (ucast ?hi)"
    unfolding ReadLE64_def by (rule disjunctive_add [symmetric]) (auto simp: bit_simps dest: bit_imp_le_length)
  also have "\<dots> = word_of_nat (unat ?lo) + push_bit 32 (word_of_nat (unat ?hi))" by simp
  also have "\<dots> = word_of_nat (unat ?lo + 2 ^ 32 * unat ?hi)"
    by (simp only: push_bit_eq_mult of_nat_add of_nat_mult of_nat_power of_nat_numeral mult.commute)
  also have "unat ?lo + 2 ^ 32 * unat ?hi = of_le (take 4 p @ take 4 (drop 4 p))"
    using len by (simp add: of_le_append unat_ReadLE32)
  also have "take 4 p @ take 4 (drop 4 p) = take 8 p" using take_add [of 4 4 p] by simp
  finally show ?thesis .
qed

lemma ReadLE_enc:
  "ReadLE32 (enc_u32 v @ bs) = v" "ReadLE64 (enc_u64 w @ bs) = w"
proof -
  show "ReadLE32 (enc_u32 v @ bs) = v"
    using unat_lt_numerals(3) [of v] by (simp add: ReadLE32_def enc_u32_def of_le_le_bytes)
  show "ReadLE64 (enc_u64 w @ bs) = w"
    using unat_lt_numerals(4) [of w] by (simp add: ReadLE64_eq) (simp add: enc_u64_def of_le_le_bytes)
qed

text \<open>Hex text, in either case of letters.\<close>

definition hex_char :: "bool \<Rightarrow> nat \<Rightarrow> char" where
  "hex_char upper n = char_of (if n < 10 then 48 + n else (if upper then 65 else 97) + (n - 10))"

definition to_hex :: "bool \<Rightarrow> bytes \<Rightarrow> string" where
  "to_hex upper bs = concat (map (\<lambda>b. [hex_char upper (unat b div 16), hex_char upper (unat b mod 16)]) bs)"

lemma HexNibble_hex_char: "n < 16 \<Longrightarrow> HexNibble (hex_char upper n) = int n"
  by (cases upper) (auto simp: HexNibble_def hex_char_def Let_def)

lemma hex_bytes_to_hex: "hex_bytes (to_hex upper bs) = Some bs"
proof (induction bs)
  case Nil
  then show ?case by (simp add: to_hex_def)
next
  case (Cons b bs)
  have "unat b < 256" using unsigned_less [of b] by simp
  then have n: "unat b div 16 < 16" "unat b mod 16 < 16" by auto
  have "16 * int (unat b div 16) + int (unat b mod 16) = int (unat b)"
    using of_nat_add [of "16 * (unat b div 16)" "unat b mod 16", where 'a = int] by simp
  then have "(word_of_int (16 * int (unat b div 16) + int (unat b mod 16)) :: byte) = b" by simp
  with Cons HexNibble_hex_char [OF n(1)] HexNibble_hex_char [OF n(2)] show ?case by (simp add: to_hex_def)
qed

lemma length_to_hex: "length (to_hex upper bs) = 2 * length bs"
  by (induction bs) (simp_all add: to_hex_def)

text \<open>The session ticket: section length, token, id, generation time, and whatever follows.\<close>

definition session_ticket :: "u64 \<Rightarrow> u64 \<Rightarrow> u32 \<Rightarrow> bytes \<Rightarrow> bytes" where
  "session_ticket tok i t rest = enc_u32 20 @ enc_u64 tok @ enc_u64 i @ enc_u32 t @ rest"

lemma FromSessionTicketHex_ticket:
  "IsIndividualId i \<Longrightarrow> FromSessionTicketHex (Some (to_hex upper (session_ticket tok i t rest))) = i"
proof -
  assume i: "IsIndividualId i"
  have "ReadLE32 (session_ticket tok i t rest) = 20" by (simp add: session_ticket_def ReadLE_enc)
  moreover have "drop 12 (session_ticket tok i t rest) = enc_u64 i @ enc_u32 t @ rest" by (simp add: session_ticket_def)
  moreover have "length (session_ticket tok i t rest) \<ge> 24" by (simp add: session_ticket_def)
  ultimately show ?thesis
    using i by (simp add: FromSessionTicketHex_def hex_bytes_to_hex length_to_hex ReadLE_enc)
qed

lemma FromSessionTicketHex_sound: "FromSessionTicketHex token \<noteq> 0 \<Longrightarrow> IsIndividualId (FromSessionTicketHex token)"
  by (auto simp: FromSessionTicketHex_def Let_def split: option.splits if_splits)

end
