(* ===== verification/Identity.thy ===== *)
theory Identity
  imports Config Ids
begin

unbundle bit_operations_syntax

text \<open>
  The local identity, \<open>src/core/Identity.cpp\<close>: a stable pair of account ids derived from the
  machine, the user and an optional profile, with the configuration's overrides on top.

  The machine and user names and the profile variable come from the operating system and are
  arguments.  The lemmas show the form of a derived id and that two profiles which differ in one
  character give different ids.
\<close>

section \<open>FNV-1a\<close>

definition fnv_step :: "u64 \<Rightarrow> char \<Rightarrow> u64" where
  "fnv_step h c = (h XOR word_of_nat (of_char c)) * 1099511628211"

definition Fnv1a :: "string \<Rightarrow> u64 \<Rightarrow> u64" where
  "Fnv1a s seed = foldl fnv_step seed s"

text \<open>\<open>%016llx\<close>.\<close>

definition hex16 :: "u64 \<Rightarrow> string" where
  "hex16 v = map (\<lambda>i. ''0123456789abcdef'' ! (unat v div 16 ^ (15 - i) mod 16)) [0..<16]"

definition DeriveIdHex :: "string \<Rightarrow> string" where
  "DeriveIdHex seed = hex16 (Fnv1a seed 14695981039346656037) @ hex16 (Fnv1a seed 1469598103934665603)"

section \<open>The identity\<close>

record identity =
  idEpicStr :: string
  idProductStr :: string
  idDisplayName :: string
  idEpic :: "epic option"
  idProduct :: "puid option"

definition id_profile :: "string \<Rightarrow> config option \<Rightarrow> string" where
  "id_profile salt cfg =
     (case cfg of
        None \<Rightarrow> salt
      | Some c \<Rightarrow> (let p = GetString ''Identity'' ''Profile'' [] c in if p = [] then salt else p))"

definition id_base :: "string \<Rightarrow> string \<Rightarrow> string \<Rightarrow> string" where
  "id_base machine user profile = machine @ ''|'' @ user @ (if profile = [] then [] else ''|'' @ profile)"

definition cfg_or :: "string \<Rightarrow> string \<Rightarrow> config option \<Rightarrow> string" where
  "cfg_or key dflt cfg =
     (case cfg of
        None \<Rightarrow> dflt
      | Some c \<Rightarrow> (let v = GetString ''Identity'' key [] c in if v = [] then dflt else v))"

definition Identity_new :: "string \<Rightarrow> string \<Rightarrow> string \<Rightarrow> config option \<Rightarrow> identity" where
  "Identity_new machine user salt cfg =
     (let profile = id_profile salt cfg;
          base = id_base machine user profile;
          name = (if user = [] then machine else user) @ (if profile = [] then [] else ''-'' @ profile);
          epic = cfg_or ''EpicAccountId'' (DeriveIdHex (''epic|'' @ base)) cfg;
          product = cfg_or ''ProductUserId'' (DeriveIdHex (''product|'' @ base)) cfg
      in \<lparr>idEpicStr = epic, idProductStr = product, idDisplayName = cfg_or ''DisplayName'' name cfg,
          idEpic = intern epic, idProduct = intern product\<rparr>)"

section \<open>Facts\<close>

lemma fnv_prime_inj: "(x :: u64) * 1099511628211 = y * 1099511628211 \<Longrightarrow> x = y"
proof -
  assume "x * 1099511628211 = y * 1099511628211"
  then have "x * (1099511628211 * 14886173955864302971) = y * (1099511628211 * 14886173955864302971)"
    by (simp only: mult.assoc [symmetric])
  moreover have "(1099511628211 :: u64) * 14886173955864302971 = 1" by (simp add: word_eq_iff_unsigned)
  ultimately show ?thesis by (simp only: mult_1_right)
qed

lemma xor_inj: "(g :: u64) XOR k = h XOR k \<Longrightarrow> g = h"
  by (metis bit.xor_self bit.xor_left_self xor.commute)

lemma fnv_step_inj_state: "fnv_step g c = fnv_step h c \<Longrightarrow> g = h"
proof -
  assume "fnv_step g c = fnv_step h c"
  then have "g XOR word_of_nat (of_char c) = h XOR word_of_nat (of_char c)" unfolding fnv_step_def by (rule fnv_prime_inj)
  then show ?thesis by (rule xor_inj)
qed

lemma unat_of_char: "unat (word_of_nat (of_char c) :: u64) = of_char c"
proof -
  have "(of_char c :: nat) < 256" by simp
  then have "(of_char c :: nat) < 2 ^ 64" by (rule less_trans) simp
  then show ?thesis by (simp add: unat_of_nat take_bit_eq_mod)
qed

lemma fnv_step_inj_char: "fnv_step h a = fnv_step h b \<Longrightarrow> a = b"
proof -
  assume "fnv_step h a = fnv_step h b"
  then have "h XOR word_of_nat (of_char a) = h XOR word_of_nat (of_char b)" unfolding fnv_step_def by (rule fnv_prime_inj)
  then have "word_of_nat (of_char a) XOR h = word_of_nat (of_char b) XOR h" by (simp only: xor.commute [of h])
  then have "(word_of_nat (of_char a) :: u64) = word_of_nat (of_char b)" by (rule xor_inj)
  then have "unat (word_of_nat (of_char a) :: u64) = unat (word_of_nat (of_char b) :: u64)" by (rule arg_cong)
  then show ?thesis by (simp only: unat_of_char of_char_eq_iff)
qed

lemma Fnv1a_state_inj: "foldl fnv_step g s = foldl fnv_step h s \<Longrightarrow> g = h"
  by (induction s arbitrary: g h) (auto dest: fnv_step_inj_state)

text \<open>Two texts that differ in exactly one character hash differently.\<close>

lemma Fnv1a_one_char: "a \<noteq> b \<Longrightarrow> Fnv1a (pre @ a # post) seed \<noteq> Fnv1a (pre @ b # post) seed"
  by (auto simp: Fnv1a_def dest!: Fnv1a_state_inj fnv_step_inj_char)

lemma hex_digit_inj: "m < 16 \<Longrightarrow> n < 16 \<Longrightarrow> ''0123456789abcdef'' ! m = ''0123456789abcdef'' ! n \<Longrightarrow> m = n"
proof -
  have "distinct ''0123456789abcdef''" "length ''0123456789abcdef'' = 16" by simp_all
  then show "m < 16 \<Longrightarrow> n < 16 \<Longrightarrow> ''0123456789abcdef'' ! m = ''0123456789abcdef'' ! n \<Longrightarrow> m = n"
    using nth_eq_iff_index_eq by metis
qed

lemma nibbles_inj: "(\<forall>i < n. x div 16 ^ i mod 16 = y div 16 ^ i mod (16 :: nat)) \<Longrightarrow> x < 16 ^ n \<Longrightarrow> y < 16 ^ n \<Longrightarrow> x = y"
proof (induction n arbitrary: x y)
  case 0
  then show ?case by simp
next
  case (Suc n)
  have "x div 16 div 16 ^ i mod 16 = y div 16 div 16 ^ i mod 16" if "i < n" for i
    using Suc.prems(1) that by (metis Suc_less_eq div_mult2_eq power_Suc)
  moreover have "x div 16 < 16 ^ n" "y div 16 < 16 ^ n" using Suc.prems(2,3) by (simp_all add: less_mult_imp_div_less mult.commute)
  ultimately have "x div 16 = y div 16" using Suc.IH by blast
  moreover have "x mod 16 = y mod 16" using Suc.prems(1) by (metis div_by_1 power_0 zero_less_Suc)
  ultimately show ?case by (metis mult_div_mod_eq)
qed

lemma hex16_inj: "hex16 v = hex16 w \<Longrightarrow> v = w"
proof -
  assume eq: "hex16 v = hex16 w"
  have "unat v div 16 ^ j mod 16 = unat w div 16 ^ j mod 16" if "j < 16" for j
  proof -
    have "hex16 v ! (15 - j) = hex16 w ! (15 - j)" using eq by simp
    with that show ?thesis by (simp add: hex16_def) (rule hex_digit_inj, simp_all)
  qed
  moreover have "unat v < 16 ^ 16" "unat w < 16 ^ 16" using unat_lt_numerals(4) by (simp_all)
  ultimately have "unat v = unat w" by (intro nibbles_inj [of 16]) auto
  then show ?thesis by (rule unsigned_word_eqI)
qed

lemma DeriveIdHex_form: "length (DeriveIdHex s) = 32 \<and> set (DeriveIdHex s) \<subseteq> set ''0123456789abcdef''"
proof -
  have "set (hex16 v) \<subseteq> set ''0123456789abcdef''" for v
  proof
    fix c
    assume "c \<in> set (hex16 v)"
    then obtain i where "c = ''0123456789abcdef'' ! (unat v div 16 ^ (15 - i) mod 16)"
      by (auto simp: hex16_def simp del: upt_rec_numeral)
    moreover have "unat v div 16 ^ (15 - i) mod 16 < 16" by simp
    moreover have "length ''0123456789abcdef'' = 16" by simp
    ultimately show "c \<in> set ''0123456789abcdef''" using nth_mem by metis
  qed
  then show ?thesis by (simp add: DeriveIdHex_def hex16_def del: upt_rec_numeral)
qed

lemma DeriveIdHex_one_char: "a \<noteq> b \<Longrightarrow> DeriveIdHex (pre @ a # post) \<noteq> DeriveIdHex (pre @ b # post)"
proof
  assume ab: "a \<noteq> b" and eq: "DeriveIdHex (pre @ a # post) = DeriveIdHex (pre @ b # post)"
  have "length (hex16 v) = 16" for v by (simp add: hex16_def del: upt_rec_numeral)
  with eq have "hex16 (Fnv1a (pre @ a # post) 14695981039346656037) = hex16 (Fnv1a (pre @ b # post) 14695981039346656037)"
    unfolding DeriveIdHex_def by (metis append_eq_append_conv)
  from hex16_inj [OF this] Fnv1a_one_char [OF ab] show False by blast
qed

end
