(* ===== verification/Presence.thy ===== *)
theory Presence
  imports Records Peers Common Sdk Effects
begin

text \<open>
  The presence interface, \<open>src/interfaces/Presence.h\<close> and \<open>src/interfaces/Presence.cpp\<close>: the
  local user's presence, its two-phase edit, and the reading of a peer's presence from the peer
  directory.

  What the interface reads of the platform is the record \<open>presence_env\<close>.  \<open>SetPresence\<close>
  hands the platform the whole local presence (\<open>Platform::SetLocalPresence\<close>); it is returned
  as an optional \<open>local_presence\<close>.  Api version stamps of the returned structures are left out.
\<close>

section \<open>State\<close>

record PresenceModificationObj =
  pmStatus :: "enum option"
  pmRichText :: "string option"
  pmJoinInfo :: "string option"
  pmSetData :: "(string \<times> string) list"
  pmDeleteData :: "string list"

definition PresenceMod_new :: PresenceModificationObj where
  "PresenceMod_new = \<lparr>pmStatus = None, pmRichText = None, pmJoinInfo = None, pmSetData = [], pmDeleteData = []\<rparr>"

record presence =
  prStatus :: enum
  prRichText :: string
  prJoinInfo :: string
  prData :: "(string, string) amap"
  prChanged :: "nentry list"
  prJoinAccepted :: "nentry list"

definition presence_init :: "sdk \<Rightarrow> presence" where
  "presence_init K =
     \<lparr>prStatus = EOS_PS_Online K, prRichText = [], prJoinInfo = [], prData = [], prChanged = [], prJoinAccepted = []\<rparr>"

text \<open>\<open>Platform::LocalPresenceState\<close>.\<close>

record local_presence =
  lpStatus :: byte
  lpRichText :: string
  lpJoinInfo :: string
  lpData :: "(string \<times> string) list"

record presence_env =
  neEpic :: "epic option"
  nePeers :: peer_dir
  neProductId :: string
  neInitVersion :: string
  neInitName :: string

datatype presence_task =
    PresenceChangedCb nat nat "epic option" "epic option"
  | SetPresenceDone nat nat "epic option"
  | QueryPresenceDone nat nat "epic option" "epic option"

section \<open>Queries\<close>

definition HasPresence :: "presence_env \<Rightarrow> epic option \<Rightarrow> bool" where
  "HasPresence E target =
     (case target of
        None \<Rightarrow> False
      | Some t \<Rightarrow> if neEpic E = Some t then True else FindByEpic (nePeers E) target \<noteq> None)"

record PresenceInfoOut =
  poStatus :: enum
  poUserId :: "epic option"
  poProductId :: string
  poProductVersion :: string
  poPlatform :: string
  poRichText :: string
  poRecords :: "(string \<times> string) list"
  poProductName :: string
  poIntegratedPlatform :: string

text \<open>The first of the candidates that is not empty.\<close>

definition or_else :: "string \<Rightarrow> string \<Rightarrow> string" where
  "or_else a b = (if a = [] then b else a)"

definition presence_out ::
  "presence_env \<Rightarrow> epic option \<Rightarrow> enum \<Rightarrow> string \<Rightarrow> (string \<times> string) list \<Rightarrow> string \<Rightarrow> string \<Rightarrow> string \<Rightarrow> PresenceInfoOut" where
  "presence_out E target status rich records pid version name =
     \<lparr>poStatus = status, poUserId = target,
      poProductId = c_str (or_else (or_else pid (neProductId E)) ''eosemu''),
      poProductVersion = c_str (or_else (or_else version (neInitVersion E)) ''1.0''),
      poPlatform = ''WIN'', poRichText = c_str rich,
      poRecords = map (\<lambda>(k, v). (c_str k, c_str v)) records,
      poProductName = c_str (or_else (or_else name (neInitName E)) ''EOSEmu''),
      poIntegratedPlatform = []\<rparr>"

definition CopyPresence ::
  "presence_env \<Rightarrow> sdk \<Rightarrow> epic option \<Rightarrow> bool \<Rightarrow> presence \<Rightarrow> eresult \<times> PresenceInfoOut option" where
  "CopyPresence E K target out s =
     (if \<not> out \<or> target = None then (EOS_InvalidParameters, None)
      else if target = neEpic E
      then (EOS_Success, Some (presence_out E target (prStatus s) (prRichText s) (prData s) [] [] []))
      else case FindByEpic (nePeers E) target of
             None \<Rightarrow> (EOS_NotFound, None)
           | Some i \<Rightarrow>
             let p = piPresence i in
             (EOS_Success, Some (presence_out E target
                (if piOnline i then byte_enum (ppStatus p) else EOS_PS_Offline K) (ppRichText p) (ppData p)
                (ppProductId p) (ppProductVersion p) (ppProductName p))))"

text \<open>The in/out length is an \<open>int32_t\<close>; \<open>None\<close> when its pointer is null.\<close>

definition GetJoinInfo ::
  "presence_env \<Rightarrow> epic option \<Rightarrow> bool \<Rightarrow> int option \<Rightarrow> presence \<Rightarrow> eresult \<times> int option \<times> string option" where
  "GetJoinInfo E target has_buffer len s =
     (case len of
        None \<Rightarrow> (EOS_InvalidParameters, None, None)
      | Some n \<Rightarrow>
        let join = (if target = neEpic E then prJoinInfo s
                    else case FindByEpic (nePeers E) target of Some i \<Rightarrow> ppJoinInfo (piPresence i) | None \<Rightarrow> [])
        in if join = [] then (EOS_NotFound, Some n, None)
           else case sized_copy join has_buffer n of (r, m, t) \<Rightarrow> (r, Some m, t))"

section \<open>Changes\<close>

definition presence_observers :: "presence \<Rightarrow> epic option \<Rightarrow> epic option \<Rightarrow> presence_task event list" where
  "presence_observers s me subject = map (\<lambda>e. EvPost (PresenceChangedCb (neFn e) (neCd e) me subject)) (prChanged s)"

definition apply_presence_mod :: "PresenceModificationObj \<Rightarrow> presence \<Rightarrow> presence" where
  "apply_presence_mod m s =
     s\<lparr>prStatus := set_opt (pmStatus m) (prStatus s), prRichText := set_opt (pmRichText m) (prRichText s),
       prJoinInfo := set_opt (pmJoinInfo m) (prJoinInfo s),
       prData := foldl (\<lambda>d k. AList.delete k d) (foldl (\<lambda>d (k, v). smap_put k v d) (prData s) (pmSetData m)) (pmDeleteData m)\<rparr>"

definition pushed_presence :: "presence \<Rightarrow> local_presence" where
  "pushed_presence s =
     \<lparr>lpStatus = enum_byte (prStatus s), lpRichText = prRichText s, lpJoinInfo = prJoinInfo s, lpData = prData s\<rparr>"

definition SetPresence ::
  "presence_env \<Rightarrow> epic option \<Rightarrow> PresenceModificationObj option \<Rightarrow> nat \<Rightarrow> nat option \<Rightarrow> presence \<Rightarrow>
   presence \<times> local_presence option \<times> presence_task event list" where
  "SetPresence E user handle cd cb s =
     (let s1 = (case handle of None \<Rightarrow> s | Some m \<Rightarrow> apply_presence_mod m s);
          me = (case user of None \<Rightarrow> neEpic E | Some u \<Rightarrow> Some u)
      in (s1, map_option (\<lambda>_. pushed_presence s1) handle,
          presence_observers s1 me me @ complete cb (\<lambda>f. SetPresenceDone f cd me)))"

definition NotifyPresenceChanged :: "presence_env \<Rightarrow> epic option \<Rightarrow> presence \<Rightarrow> presence_task event list" where
  "NotifyPresenceChanged E peer s =
     (case peer of None \<Rightarrow> [] | Some _ \<Rightarrow> presence_observers s (neEpic E) peer)"

definition OnRemotePresenceChanged :: "presence_env \<Rightarrow> string \<Rightarrow> presence \<Rightarrow> presence_task event list" where
  "OnRemotePresenceChanged E epic_id s = NotifyPresenceChanged E (intern epic_id) s"

definition QueryPresence :: "(epic option \<times> epic option) option \<Rightarrow> nat \<Rightarrow> nat option \<Rightarrow> presence_task event list" where
  "QueryPresence options cd cb =
     (case options of
        None \<Rightarrow> complete cb (\<lambda>f. QueryPresenceDone f cd None None)
      | Some (me, target) \<Rightarrow> complete cb (\<lambda>f. QueryPresenceDone f cd me target))"

section \<open>Registration and the modification builder\<close>

definition AddNotifyOnPresenceChanged :: "nat option \<Rightarrow> nat \<Rightarrow> nat \<Rightarrow> presence \<Rightarrow> nat \<times> nat \<times> presence" where
  "AddNotifyOnPresenceChanged fn cd c s =
     (case Notify_Add fn cd c (prChanged s) of (i, c', es) \<Rightarrow> (i, c', s\<lparr>prChanged := es\<rparr>))"

definition RemoveNotifyOnPresenceChanged :: "nat \<Rightarrow> presence \<Rightarrow> presence" where
  "RemoveNotifyOnPresenceChanged i s = s\<lparr>prChanged := Notify_Remove i (prChanged s)\<rparr>"

definition AddNotifyJoinGameAccepted :: "nat option \<Rightarrow> nat \<Rightarrow> nat \<Rightarrow> presence \<Rightarrow> nat \<times> nat \<times> presence" where
  "AddNotifyJoinGameAccepted fn cd c s =
     (case Notify_Add fn cd c (prJoinAccepted s) of (i, c', es) \<Rightarrow> (i, c', s\<lparr>prJoinAccepted := es\<rparr>))"

definition RemoveNotifyJoinGameAccepted :: "nat \<Rightarrow> presence \<Rightarrow> presence" where
  "RemoveNotifyJoinGameAccepted i s = s\<lparr>prJoinAccepted := Notify_Remove i (prJoinAccepted s)\<rparr>"

definition CreatePresenceModification :: "bool \<Rightarrow> bool \<Rightarrow> eresult \<times> PresenceModificationObj option" where
  "CreatePresenceModification handle out =
     (if \<not> handle \<or> \<not> out then (EOS_InvalidParameters, None) else (EOS_Success, Some PresenceMod_new))"

type_synonym pmod_result = "eresult \<times> PresenceModificationObj option"

definition PresenceModification_SetStatus :: "PresenceModificationObj option \<Rightarrow> enum option \<Rightarrow> pmod_result" where
  "PresenceModification_SetStatus h options = with_mod h options (\<lambda>v m. Some (m\<lparr>pmStatus := Some v\<rparr>))"

definition SetRawRichText :: "PresenceModificationObj option \<Rightarrow> string option option \<Rightarrow> pmod_result" where
  "SetRawRichText h options = with_mod h options (\<lambda>b m. map_option (\<lambda>v. m\<lparr>pmRichText := Some v\<rparr>) b)"

text \<open>A record array is nullable, with a signed count; a record's key and value are nullable.\<close>

definition given_records :: "'a list option \<Rightarrow> int \<Rightarrow> 'a list" where
  "given_records xs n = (case xs of None \<Rightarrow> [] | Some ys \<Rightarrow> take (nat n) ys)"

definition PresenceModification_SetData ::
  "PresenceModificationObj option \<Rightarrow> ((string option \<times> string option) list option \<times> int) option \<Rightarrow> pmod_result" where
  "PresenceModification_SetData h options = with_mod h options
     (\<lambda>(recs, n) m. Some (m\<lparr>pmSetData := pmSetData m @
        concat (map (\<lambda>(k, v). case k of None \<Rightarrow> [] | Some key \<Rightarrow> [(key, case v of None \<Rightarrow> [] | Some x \<Rightarrow> x)])
          (given_records recs n))\<rparr>))"

definition PresenceModification_DeleteData ::
  "PresenceModificationObj option \<Rightarrow> (string option list option \<times> int) option \<Rightarrow> pmod_result" where
  "PresenceModification_DeleteData h options = with_mod h options
     (\<lambda>(recs, n) m. Some (m\<lparr>pmDeleteData := pmDeleteData m @
        concat (map (\<lambda>k. case k of None \<Rightarrow> [] | Some key \<Rightarrow> [key]) (given_records recs n))\<rparr>))"

definition PresenceModification_SetJoinInfo :: "PresenceModificationObj option \<Rightarrow> string option option \<Rightarrow> pmod_result" where
  "PresenceModification_SetJoinInfo h options = with_mod h options
     (\<lambda>b m. Some (m\<lparr>pmJoinInfo := Some (case b of None \<Rightarrow> [] | Some v \<Rightarrow> v)\<rparr>))"

section \<open>Facts\<close>

text \<open>An edit of the data records is a map update followed by removals.\<close>

lemma map_of_fold_put:
  "map_of (foldl (\<lambda>d (k, v). smap_put k v d) d kvs) = map_of d ++ map_of (rev kvs)"
  by (induction kvs arbitrary: d) (auto simp: map_of_smap_put_any split: prod.splits)

lemma map_of_fold_delete: "map_of (foldl (\<lambda>d k. AList.delete k d) d ks) k = (if k \<in> set ks then None else map_of d k)"
  by (induction ks arbitrary: d) auto

lemma apply_presence_mod_data:
  "map_of (prData (apply_presence_mod m s)) k =
     (if k \<in> set (pmDeleteData m) then None else (map_of (prData s) ++ map_of (rev (pmSetData m))) k)"
  by (simp add: apply_presence_mod_def map_of_fold_put map_of_fold_delete)

end
