(* ===== verification/CustomInvites.thy ===== *)
theory CustomInvites
  imports Effects Peers Common Ids
begin

text \<open>
  The custom invites interface, \<open>src/interfaces/CustomInvites.h\<close> and
  \<open>src/interfaces/CustomInvites.cpp\<close>: an application payload the local user stores, sends to
  peers, and receives.  The fact at the end: a sent invitation reaches exactly the observers of the
  user it names, with the payload unchanged.
\<close>

section \<open>State\<close>

datatype custom_registry =
    CustomInviteReceived | CustomInviteAccepted | CustomInviteRejected
  | RequestToJoinReceived | RequestToJoinResponseReceived | RequestToJoinAccepted | RequestToJoinRejected

record custom_invites =
  ciOutgoing :: string
  ciNextInvite :: nat
  ciRegistry :: "custom_registry \<Rightarrow> nentry list"

definition custom_init :: custom_invites where
  "custom_init = \<lparr>ciOutgoing = [], ciNextInvite = 1, ciRegistry = (\<lambda>_. [])\<rparr>"

datatype custom_task =
    SendCustomInviteDone nat nat "puid option" "puid list"
  | CustomInviteReceivedCb nat nat "puid option" "puid option" string string
  | RequestDone nat nat "puid option" "puid option"

section \<open>Calls\<close>

definition SetCustomInvite :: "string option option \<Rightarrow> custom_invites \<Rightarrow> eresult \<times> custom_invites" where
  "SetCustomInvite options s =
     (case options of
        None \<Rightarrow> (EOS_InvalidParameters, s)
      | Some None \<Rightarrow> (EOS_InvalidParameters, s)
      | Some (Some p) \<Rightarrow> (EOS_Success, s\<lparr>ciOutgoing := p\<rparr>))"

definition invite_payload :: "string \<Rightarrow> string \<Rightarrow> string \<Rightarrow> bytes" where
  "invite_payload sender target payload = enc_str sender @ enc_str target @ enc_str payload"

definition sent_targets :: "puid option list option \<Rightarrow> nat \<Rightarrow> puid list" where
  "sent_targets targets n =
     (case targets of None \<Rightarrow> [] | Some ts \<Rightarrow> concat (map (\<lambda>t. case t of None \<Rightarrow> [] | Some p \<Rightarrow> [p]) (take n ts)))"

definition id_text :: "puid option \<Rightarrow> string" where
  "id_text p = (case p of None \<Rightarrow> [] | Some x \<Rightarrow> x)"

definition SendCustomInvite ::
  "peer_dir \<Rightarrow> (puid option \<times> puid option list option \<times> nat) option \<Rightarrow> nat \<Rightarrow> nat option \<Rightarrow> custom_invites \<Rightarrow>
   custom_task event list" where
  "SendCustomInvite peers options cd cb s =
     (case options of
        None \<Rightarrow> []
      | Some (user, targets, n) \<Rightarrow>
        let sent = sent_targets targets n in
        concat (map (\<lambda>t. let to = EndpointFor peers t in
            if ep_Valid to then [send_msg to CustomInvite (invite_payload (id_text user) t (ciOutgoing s))] else []) sent) @
        complete cb (\<lambda>f. SendCustomInviteDone f cd user sent))"

definition FinalizeInvite :: "custom_invites option \<Rightarrow> eresult" where
  "FinalizeInvite st = (if st = None then EOS_InvalidParameters else EOS_Success)"

text \<open>\<open>SendRequestToJoin\<close>, \<open>AcceptRequestToJoin\<close>, \<open>RejectRequestToJoin\<close>: a completion and
  nothing else.\<close>

definition RequestToJoin :: "(puid option \<times> puid option) option \<Rightarrow> nat \<Rightarrow> nat option \<Rightarrow> custom_task event list" where
  "RequestToJoin options cd cb =
     (case options of
        None \<Rightarrow> complete cb (\<lambda>f. RequestDone f cd None None)
      | Some (me, target) \<Rightarrow> complete cb (\<lambda>f. RequestDone f cd me target))"

definition Custom_AddNotify ::
  "custom_registry \<Rightarrow> nat option \<Rightarrow> nat \<Rightarrow> nat \<Rightarrow> custom_invites option \<Rightarrow> nat \<times> nat \<times> custom_invites option" where
  "Custom_AddNotify g fn cd c st =
     (case st of
        None \<Rightarrow> (EOS_INVALID_NOTIFICATIONID, c, None)
      | Some s \<Rightarrow> (case Notify_Add fn cd c (ciRegistry s g) of (i, c', es) \<Rightarrow>
          (i, c', Some (s\<lparr>ciRegistry := (ciRegistry s)(g := es)\<rparr>))))"

definition Custom_RemoveNotify :: "custom_registry \<Rightarrow> nat \<Rightarrow> custom_invites option \<Rightarrow> custom_invites option" where
  "Custom_RemoveNotify g i st =
     map_option (\<lambda>s. s\<lparr>ciRegistry := (ciRegistry s)(g := Notify_Remove i (ciRegistry s g))\<rparr>) st"

section \<open>Datagrams\<close>

definition custom_invite_id :: "nat \<Rightarrow> string" where
  "custom_invite_id n = ''custominvite_'' @ dec_str n"

definition Custom_OnDatagram ::
  "puid option \<Rightarrow> MessageType \<Rightarrow> bytes \<Rightarrow> custom_invites \<Rightarrow> custom_invites \<times> custom_task event list" where
  "Custom_OnDatagram me ty payload s =
     (if ty \<noteq> CustomInvite then (s, [])
      else case rd_str (reader_init payload) of (sender, r1) \<Rightarrow> case rd_str r1 of (target, r2) \<Rightarrow>
           case rd_str r2 of (body, r3) \<Rightarrow>
           if \<not> rdOk r3 \<or> target \<noteq> id_text me then (s, [])
           else (s\<lparr>ciNextInvite := Suc (ciNextInvite s)\<rparr>,
                 map (\<lambda>e. EvPost (CustomInviteReceivedCb (neFn e) (neCd e) me (intern sender)
                        (custom_invite_id (ciNextInvite s)) body)) (ciRegistry s CustomInviteReceived)))"

section \<open>Facts\<close>

lemma invite_received:
  assumes "short sender" "short target" "short body"
  shows "Custom_OnDatagram me CustomInvite (invite_payload sender target body) s =
    (if target = id_text me
     then (s\<lparr>ciNextInvite := Suc (ciNextInvite s)\<rparr>,
           map (\<lambda>e. EvPost (CustomInviteReceivedCb (neFn e) (neCd e) me (intern sender)
             (custom_invite_id (ciNextInvite s)) body)) (ciRegistry s CustomInviteReceived))
     else (s, []))"
  using assms str.run [of body _ "[]"]
  by (simp add: Custom_OnDatagram_def invite_payload_def reader_init_rdx prim_run)

text \<open>What \<open>SendCustomInvite\<close> puts on the network: one datagram per named peer with an address.\<close>

lemma net_calls_SendCustomInvite:
  "net_calls (SendCustomInvite peers (Some (user, targets, n)) cd cb s) =
     map (\<lambda>t. let w = invite_payload (id_text user) t (ciOutgoing s) in CallSendTo (EndpointFor peers t) CustomInvite w (W_Size w))
       (filter (\<lambda>t. ep_Valid (EndpointFor peers t)) (sent_targets targets n))"
proof -
  have "net_calls (concat (map (\<lambda>t. let to = EndpointFor peers t in
            if ep_Valid to then [send_msg to CustomInvite (f t) :: custom_task event] else []) ts)) =
      map (\<lambda>t. let w = f t in CallSendTo (EndpointFor peers t) CustomInvite w (W_Size w))
        (filter (\<lambda>t. ep_Valid (EndpointFor peers t)) ts)" for f ts
    by (induction ts) (auto simp: Let_def)
  then show ?thesis by (simp add: SendCustomInvite_def Let_def)
qed

end
