(* ===== verification/Stats.thy ===== *)
theory Stats
  imports Records Ids Effects
begin

text \<open>
  The statistics store, \<open>src/interfaces/Stats.cpp\<close>: a process-wide table of integers per user and
  name, filled by \<open>SeedStat\<close> (from the configuration) and \<open>EOS_Stats_IngestStat\<close>.

  A value is an \<open>int32_t\<close>, kept as its 32-bit pattern; \<open>+=\<close> on it wraps, which is what the
  compilers the repository targets do where the language leaves overflow undefined.  A call posts
  its completion only while a platform is live (\<open>live\<close>).  The facts at the end give a stored
  value as the sum of everything ingested and the indexed accessors as an enumeration of the table.
\<close>

type_synonym stat_table = "(string, u32) amap"
type_synonym stats = "(string, stat_table) amap"

datatype stats_task =
    IngestDone nat nat eresult "puid option" "puid option"
  | QueryStatsDone nat nat "puid option" "puid option"

text \<open>\<open>g_Stats[key]\<close>, which inserts an empty table when the key is new.\<close>

definition stat_table_of :: "string \<Rightarrow> stats \<Rightarrow> stat_table" where
  "stat_table_of key s = (case map_of s key of None \<Rightarrow> [] | Some t \<Rightarrow> t)"

definition SeedStat :: "string \<Rightarrow> string \<Rightarrow> u32 \<Rightarrow> stats \<Rightarrow> stats" where
  "SeedStat pid name v s =
     (if pid = [] \<or> name = [] then s else smap_put pid (smap_put name v (stat_table_of pid s)) s)"

text \<open>\<open>Table[name] += amount\<close>: a new entry starts at zero.\<close>

definition add_stat :: "string option \<times> u32 \<Rightarrow> stat_table \<Rightarrow> stat_table" where
  "add_stat e t =
     (case e of
        (None, _) \<Rightarrow> t
      | (Some name, amount) \<Rightarrow> smap_put name ((case map_of t name of None \<Rightarrow> 0 | Some v \<Rightarrow> v) + amount) t)"

record IngestStatOptions =
  igLocalUserId :: "puid option"
  igTargetUserId :: "puid option"
  igStats :: "(string option \<times> u32) list option"
  igStatsCount :: nat

definition ingest_target :: "puid option \<Rightarrow> puid option \<Rightarrow> puid option" where
  "ingest_target target user = (case target of None \<Rightarrow> user | Some t \<Rightarrow> Some t)"

definition given_stats :: "IngestStatOptions \<Rightarrow> (string option \<times> u32) list" where
  "given_stats opt = (case igStats opt of None \<Rightarrow> [] | Some xs \<Rightarrow> take (igStatsCount opt) xs)"

definition IngestStat ::
  "bool \<Rightarrow> IngestStatOptions option \<Rightarrow> nat \<Rightarrow> nat option \<Rightarrow> stats \<Rightarrow> stats \<times> stats_task event list" where
  "IngestStat live options cd cb s =
     (let (res, user, target, s1) =
        (case options of
           None \<Rightarrow> (EOS_InvalidParameters, None, None, s)
         | Some opt \<Rightarrow>
           let target = ingest_target (igTargetUserId opt) (igLocalUserId opt) in
           (case target of
              None \<Rightarrow> (EOS_InvalidParameters, igLocalUserId opt, None, s)
            | Some key \<Rightarrow> (EOS_Success, igLocalUserId opt, target,
                smap_put key (fold add_stat (given_stats opt) (stat_table_of key s)) s)))
      in (s1, if live then complete cb (\<lambda>f. IngestDone f cd res user target) else []))"

definition QueryStats ::
  "bool \<Rightarrow> (puid option \<times> puid option) option \<Rightarrow> nat \<Rightarrow> nat option \<Rightarrow> stats_task event list" where
  "QueryStats live options cd cb =
     (if live
      then (case options of
              None \<Rightarrow> complete cb (\<lambda>f. QueryStatsDone f cd None None)
            | Some (user, target) \<Rightarrow> complete cb (\<lambda>f. QueryStatsDone f cd user (ingest_target target user)))
      else [])"

definition GetStatsCount :: "puid option option \<Rightarrow> stats \<Rightarrow> nat" where
  "GetStatsCount options s =
     (case options of
        Some (Some target) \<Rightarrow> (case map_of s target of None \<Rightarrow> 0 | Some t \<Rightarrow> length t mod 2 ^ 32)
      | _ \<Rightarrow> 0)"

text \<open>A copied statistic is its name and value; the two times are always undefined.\<close>

definition MakeStat :: "string \<times> u32 \<Rightarrow> string \<times> u32" where
  "MakeStat e = (c_str (fst e), snd e)"

definition CopyStatByIndex :: "(puid option \<times> nat) option \<Rightarrow> bool \<Rightarrow> stats \<Rightarrow> eresult \<times> (string \<times> u32) option" where
  "CopyStatByIndex options out s =
     (case options of
        Some (Some target, i) \<Rightarrow>
          if \<not> out then (EOS_InvalidParameters, None)
          else (case map_of s target of
                  None \<Rightarrow> (EOS_NotFound, None)
                | Some t \<Rightarrow> if i \<ge> length t then (EOS_NotFound, None) else (EOS_Success, Some (MakeStat (t ! i))))
      | _ \<Rightarrow> (EOS_InvalidParameters, None))"

definition CopyStatByName ::
  "(puid option \<times> string option) option \<Rightarrow> bool \<Rightarrow> stats \<Rightarrow> eresult \<times> (string \<times> u32) option" where
  "CopyStatByName options out s =
     (case options of
        Some (Some target, Some name) \<Rightarrow>
          if \<not> out then (EOS_InvalidParameters, None)
          else (case map_of s target of
                  None \<Rightarrow> (EOS_NotFound, None)
                | Some t \<Rightarrow> (case map_of t name of
                      None \<Rightarrow> (EOS_NotFound, None)
                    | Some v \<Rightarrow> (EOS_Success, Some (MakeStat (name, v)))))
      | _ \<Rightarrow> (EOS_InvalidParameters, None))"

section \<open>Facts\<close>

text \<open>The value of a statistic, zero while it has none.\<close>

definition stat_value :: "string \<Rightarrow> string \<Rightarrow> stats \<Rightarrow> u32" where
  "stat_value key name s = (case map_of (stat_table_of key s) name of None \<Rightarrow> 0 | Some v \<Rightarrow> v)"

definition amounts :: "string \<Rightarrow> (string option \<times> u32) list \<Rightarrow> u32 list" where
  "amounts name es = map snd (filter (\<lambda>e. fst e = Some name) es)"

definition table_value :: "stat_table \<Rightarrow> string \<Rightarrow> u32" where
  "table_value t name = (case map_of t name of None \<Rightarrow> 0 | Some v \<Rightarrow> v)"

lemma table_value_add:
  "table_value (add_stat e t) name = table_value t name + (if fst e = Some name then snd e else 0)"
  by (cases e) (auto simp: add_stat_def table_value_def map_of_smap_put_any split: option.splits)

lemma table_value_fold: "table_value (fold add_stat es t) name = table_value t name + sum_list (amounts name es)"
  by (induction es arbitrary: t) (auto simp: amounts_def table_value_add)

lemma IngestStat_adds:
  assumes "ingest_target (igTargetUserId opt) (igLocalUserId opt) = Some key"
  shows "stat_value k name (fst (IngestStat live (Some opt) cd cb s)) =
    stat_value k name s + (if k = key then sum_list (amounts name (given_stats opt)) else 0)"
  using assms table_value_fold [of "given_stats opt" "stat_table_of key s" name]
  by (simp add: IngestStat_def stat_value_def stat_table_of_def map_of_smap_put_any table_value_def)

lemma SeedStat_sets:
  "pid \<noteq> [] \<Longrightarrow> name \<noteq> [] \<Longrightarrow>
   stat_value k n (SeedStat pid name v s) = (if k = pid \<and> n = name then v else stat_value k n s)"
  by (simp add: SeedStat_def stat_value_def stat_table_of_def map_of_smap_put_any)

text \<open>Both levels are ordered maps.\<close>

definition stats_inv :: "stats \<Rightarrow> bool" where
  "stats_inv s \<longleftrightarrow> smap_ok s \<and> (\<forall>(k, t) \<in> set s. smap_ok t)"

lemma smap_ok_add_stat: "smap_ok t \<Longrightarrow> smap_ok (add_stat e t)"
  by (auto simp: add_stat_def split: prod.splits option.splits)

lemma smap_ok_fold_add: "smap_ok t \<Longrightarrow> smap_ok (fold add_stat es t)"
  by (induction es arbitrary: t) (simp_all add: smap_ok_add_stat)

lemma stats_inv_put: "stats_inv s \<Longrightarrow> smap_ok t \<Longrightarrow> stats_inv (smap_put k t s)"
  using set_smap_put_subset [of k t s] by (fastforce simp: stats_inv_def)

lemma stats_inv_table: "stats_inv s \<Longrightarrow> smap_ok (stat_table_of k s)"
  by (auto simp: stats_inv_def stat_table_of_def smap_ok_def split: option.splits dest!: map_of_SomeD)

lemma stats_inv_SeedStat [inv_intros]: "stats_inv s \<Longrightarrow> stats_inv (SeedStat pid name v s)"
  by (simp add: SeedStat_def stats_inv_put stats_inv_table smap_ok_put)

lemma stats_inv_IngestStat [inv_intros]: "stats_inv s \<Longrightarrow> stats_inv (fst (IngestStat live options cd cb s))"
  by (auto simp: IngestStat_def Let_def stats_inv_put stats_inv_table smap_ok_fold_add split: option.splits)

text \<open>The indexed accessor enumerates the table: every name once, with the value the accessor by
  name gives.\<close>

lemma CopyStat_enumerates:
  assumes "stats_inv s" "map_of s target = Some t"
  shows "map (\<lambda>i. CopyStatByIndex (Some (Some target, i)) True s) [0..<length t] =
    map (\<lambda>n. CopyStatByName (Some (Some target, Some n)) True s) (map fst t)"
proof (rule nth_equalityI)
  fix i
  assume "i < length (map (\<lambda>i. CopyStatByIndex (Some (Some target, i)) True s) [0..<length t])"
  then have i: "i < length t" by simp
  have "smap_ok t" using stats_inv_table [OF assms(1), of target] assms(2) by (simp add: stat_table_of_def)
  then have "distinct (keys t)" by (simp add: smap_ok_def strict_sorted_iff)
  then have "map_of t (fst (t ! i)) = Some (snd (t ! i))" using i by (simp add: map_of_eq_Some_iff)
  with i assms(2) show "map (\<lambda>i. CopyStatByIndex (Some (Some target, i)) True s) [0..<length t] ! i =
      map (\<lambda>n. CopyStatByName (Some (Some target, Some n)) True s) (map fst t) ! i"
    by (simp add: CopyStatByIndex_def CopyStatByName_def)
qed simp

end
