(* ===== verification/Achievements.thy ===== *)
theory Achievements
  imports Records Ids Effects
begin

text \<open>
  The achievements store, \<open>src/interfaces/Achievements.cpp\<close>: per user the list of unlocked ids in
  unlock order, two registries of observers, and the accessors.  The achievement catalogue is empty,
  so the definition accessors are constant answers and are left out.

  A call posts only while a platform is live (\<open>live\<close>).  The facts at the end: the lists have no
  repetitions; an unlock call appends exactly the new ids, in the order given, and tells each
  observer of the current kind about each of them once.
\<close>

definition kUnlockTime :: int where "kUnlockTime = 1700000000"

record achievements =
  acUnlocked :: "(string, string list) amap"
  acNotifyV2 :: "nentry list"
  acNotifyV1 :: "nentry list"

definition achievements_init :: achievements where
  "achievements_init = \<lparr>acUnlocked = [], acNotifyV2 = [], acNotifyV1 = []\<rparr>"

datatype achievement_task =
    UnlockedV2Cb nat nat "puid option" string int
  | UnlockDone nat nat eresult "puid option" nat
  | QueryPlayerDone nat nat "puid option" "puid option"

definition unlocked_of :: "string \<Rightarrow> achievements \<Rightarrow> string list" where
  "unlocked_of pid s = (case map_of (acUnlocked s) pid of None \<Rightarrow> [] | Some v \<Rightarrow> v)"

definition SeedUnlockedAchievement :: "string \<Rightarrow> string \<Rightarrow> achievements \<Rightarrow> achievements" where
  "SeedUnlockedAchievement pid i s =
     (if pid = [] \<or> i = [] then s
      else let v = unlocked_of pid s in
        s\<lparr>acUnlocked := smap_put pid (if i \<in> set v then v else v @ [i]) (acUnlocked s)\<rparr>)"

text \<open>The unlock loop: the list and the new ids.\<close>

fun unlock_loop :: "string option list \<Rightarrow> string list \<Rightarrow> string list \<times> string list" where
  "unlock_loop [] v = (v, [])"
| "unlock_loop (None # ids) v = unlock_loop ids v"
| "unlock_loop (Some i # ids) v =
     (if i \<in> set v then unlock_loop ids v
      else (case unlock_loop ids (v @ [i]) of (v', new) \<Rightarrow> (v', i # new)))"

record UnlockOptions =
  uaUserId :: "puid option"
  uaIds :: "string option list option"
  uaCount :: nat

definition given_ids :: "UnlockOptions \<Rightarrow> string option list" where
  "given_ids opt = (case uaIds opt of None \<Rightarrow> [] | Some xs \<Rightarrow> take (uaCount opt) xs)"

definition unlocked_events :: "achievements \<Rightarrow> puid option \<Rightarrow> string list \<Rightarrow> achievement_task event list" where
  "unlocked_events s user new =
     concat (map (\<lambda>i. map (\<lambda>e. EvPost (UnlockedV2Cb (neFn e) (neCd e) user (c_str i) kUnlockTime)) (acNotifyV2 s)) new)"

definition UnlockAchievements ::
  "bool \<Rightarrow> UnlockOptions option \<Rightarrow> nat \<Rightarrow> nat option \<Rightarrow> achievements \<Rightarrow> achievements \<times> achievement_task event list" where
  "UnlockAchievements live options cd cb s =
     (let (res, user, count, new, s1) =
        (case options of
           None \<Rightarrow> (EOS_InvalidParameters, None, 0, [], s)
         | Some opt \<Rightarrow>
           (case uaUserId opt of
              None \<Rightarrow> (EOS_InvalidParameters, None, 0, [], s)
            | Some pid \<Rightarrow>
              (case unlock_loop (given_ids opt) (unlocked_of pid s) of (v, new) \<Rightarrow>
                (EOS_Success, Some pid, uaCount opt, new, s\<lparr>acUnlocked := smap_put pid v (acUnlocked s)\<rparr>))))
      in (s1, if live then unlocked_events s1 user new @ complete cb (\<lambda>f. UnlockDone f cd res user count) else []))"

definition QueryPlayerAchievements ::
  "bool \<Rightarrow> (puid option \<times> puid option) option \<Rightarrow> nat \<Rightarrow> nat option \<Rightarrow> achievement_task event list" where
  "QueryPlayerAchievements live options cd cb =
     (if live
      then (case options of
              None \<Rightarrow> complete cb (\<lambda>f. QueryPlayerDone f cd None None)
            | Some (target, user) \<Rightarrow> complete cb (\<lambda>f. QueryPlayerDone f cd target user))
      else [])"

text \<open>\<open>GetPlayerAchievementCount\<close> and \<open>GetUnlockedAchievementCount\<close>.\<close>

definition GetAchievementCount :: "puid option option \<Rightarrow> achievements \<Rightarrow> nat" where
  "GetAchievementCount options s =
     (case options of Some (Some user) \<Rightarrow> length (unlocked_of user s) mod 2 ^ 32 | _ \<Rightarrow> 0)"

text \<open>A copied achievement is its id and unlock time; a player achievement adds the progress, which is
  always complete, and shows the id as its name.\<close>

definition MakeUnlocked :: "string \<Rightarrow> string \<times> int" where
  "MakeUnlocked i = (c_str i, kUnlockTime)"

definition CopyAchievementByIndex :: "(puid option \<times> nat) option \<Rightarrow> bool \<Rightarrow> achievements \<Rightarrow> eresult \<times> (string \<times> int) option" where
  "CopyAchievementByIndex options out s =
     (case options of
        Some (Some user, i) \<Rightarrow>
          if \<not> out then (EOS_InvalidParameters, None)
          else if map_of (acUnlocked s) user = None \<or> i \<ge> length (unlocked_of user s) then (EOS_NotFound, None)
          else (EOS_Success, Some (MakeUnlocked (unlocked_of user s ! i)))
      | _ \<Rightarrow> (EOS_InvalidParameters, None))"

definition CopyAchievementById ::
  "(puid option \<times> string option) option \<Rightarrow> bool \<Rightarrow> achievements \<Rightarrow> eresult \<times> (string \<times> int) option" where
  "CopyAchievementById options out s =
     (case options of
        Some (Some user, Some name) \<Rightarrow>
          if \<not> out then (EOS_InvalidParameters, None)
          else if name \<in> set (unlocked_of user s) then (EOS_Success, Some (MakeUnlocked name))
          else (EOS_NotFound, None)
      | _ \<Rightarrow> (EOS_InvalidParameters, None))"

section \<open>Registration\<close>

definition AddNotifyAchievementsUnlockedV2 :: "nat option \<Rightarrow> nat \<Rightarrow> nat \<Rightarrow> achievements \<Rightarrow> nat \<times> nat \<times> achievements" where
  "AddNotifyAchievementsUnlockedV2 fn cd c s =
     (case Notify_Add fn cd c (acNotifyV2 s) of (i, c', es) \<Rightarrow> (i, c', s\<lparr>acNotifyV2 := es\<rparr>))"

definition AddNotifyAchievementsUnlocked :: "nat option \<Rightarrow> nat \<Rightarrow> nat \<Rightarrow> achievements \<Rightarrow> nat \<times> nat \<times> achievements" where
  "AddNotifyAchievementsUnlocked fn cd c s =
     (case Notify_Add fn cd c (acNotifyV1 s) of (i, c', es) \<Rightarrow> (i, c', s\<lparr>acNotifyV1 := es\<rparr>))"

definition RemoveNotifyAchievementsUnlocked :: "nat \<Rightarrow> achievements \<Rightarrow> achievements" where
  "RemoveNotifyAchievementsUnlocked i s =
     (if \<exists>e \<in> set (acNotifyV2 s). neId e = i
      then s\<lparr>acNotifyV2 := erase_first (\<lambda>e. neId e = i) (acNotifyV2 s)\<rparr>
      else s\<lparr>acNotifyV1 := erase_first (\<lambda>e. neId e = i) (acNotifyV1 s)\<rparr>)"

section \<open>Facts\<close>

definition achievements_inv :: "achievements \<Rightarrow> bool" where
  "achievements_inv s \<longleftrightarrow> (\<forall>pid. distinct (unlocked_of pid s))"

text \<open>The ids given, in order, without those already there and without repetitions.\<close>

definition fresh_ids :: "string option list \<Rightarrow> string list \<Rightarrow> string list" where
  "fresh_ids ids v = filter (\<lambda>i. i \<notin> set v) (rev (remdups (rev (concat (map (\<lambda>i. case i of None \<Rightarrow> [] | Some x \<Rightarrow> [x]) ids)))))"

lemma unlock_loop_appends: "fst (unlock_loop ids v) = v @ snd (unlock_loop ids v)"
  by (induction ids v rule: unlock_loop.induct) (auto split: prod.splits)

lemma unlock_loop_distinct: "distinct v \<Longrightarrow> distinct (fst (unlock_loop ids v))"
  by (induction ids v rule: unlock_loop.induct) (auto split: prod.splits)

lemma rev_remdups_snoc: "rev (remdups (rev (x # xs))) = x # filter (\<lambda>y. y \<noteq> x) (rev (remdups (rev xs)))"
proof -
  have "remdups (zs @ [x]) = filter (\<lambda>y. y \<noteq> x) (remdups zs) @ [x]" for zs
    by (induction zs) auto
  then show ?thesis by (simp add: rev_filter)
qed

lemma fresh_ids_simps [simp]:
  "fresh_ids [] v = []"
  "fresh_ids (None # ids) v = fresh_ids ids v"
  "fresh_ids (Some i # ids) v = (if i \<in> set v then fresh_ids ids v else i # fresh_ids ids (v @ [i]))"
proof -
  let ?xs = "concat (map (\<lambda>i. case i of None \<Rightarrow> [] | Some x \<Rightarrow> [x]) ids)"
  show "fresh_ids [] v = []" "fresh_ids (None # ids) v = fresh_ids ids v" by (simp_all add: fresh_ids_def)
  have "fresh_ids (Some i # ids) v = filter (\<lambda>y. y \<notin> set v) (i # filter (\<lambda>y. y \<noteq> i) (rev (remdups (rev ?xs))))"
    using rev_remdups_snoc [of i ?xs] by (simp add: fresh_ids_def del: rev.simps)
  also have "\<dots> = (if i \<in> set v then [] else [i]) @ filter (\<lambda>y. y \<noteq> i \<and> y \<notin> set v) (rev (remdups (rev ?xs)))"
    by (simp add: conj_commute)
  finally have eq: "fresh_ids (Some i # ids) v = \<dots>" .
  show "fresh_ids (Some i # ids) v = (if i \<in> set v then fresh_ids ids v else i # fresh_ids ids (v @ [i]))"
  proof (cases "i \<in> set v")
    case True
    then have "filter (\<lambda>y. y \<noteq> i \<and> y \<notin> set v) (rev (remdups (rev ?xs))) = fresh_ids ids v"
      unfolding fresh_ids_def by (intro filter_cong) auto
    then show ?thesis using True eq by (simp only: if_True append_Nil)
  next
    case False
    have "filter (\<lambda>y. y \<noteq> i \<and> y \<notin> set v) (rev (remdups (rev ?xs))) = fresh_ids ids (v @ [i])"
      unfolding fresh_ids_def by (intro filter_cong) auto
    then show ?thesis using False eq by (simp only: if_False append_Cons append_Nil)
  qed
qed

lemma unlock_loop_new: "snd (unlock_loop ids v) = fresh_ids ids v"
proof (induction ids v rule: unlock_loop.induct)
  case (3 i ids v)
  then show ?case by (cases "unlock_loop ids (v @ [i])") simp
qed simp_all

lemma achievements_inv_Seed [inv_intros]:
  "achievements_inv s \<Longrightarrow> achievements_inv (SeedUnlockedAchievement pid i s)"
  by (auto simp: achievements_inv_def SeedUnlockedAchievement_def Let_def unlocked_of_def map_of_smap_put_any split: option.splits)

lemma achievements_inv_Unlock [inv_intros]:
  "achievements_inv s \<Longrightarrow> achievements_inv (fst (UnlockAchievements live options cd cb s))"
proof -
  assume inv: "achievements_inv s"
  have "distinct (fst (unlock_loop ids (unlocked_of pid s)))" for ids pid
    using inv by (simp add: achievements_inv_def unlock_loop_distinct)
  then have v: "distinct v" if "unlock_loop ids (unlocked_of pid s) = (v, new)" for ids pid v new
    using that by (metis fst_conv)
  show ?thesis
  proof (cases "\<exists>opt pid. options = Some opt \<and> uaUserId opt = Some pid")
    case True
    then obtain opt pid where o: "options = Some opt" "uaUserId opt = Some pid" by blast
    obtain v new where l: "unlock_loop (given_ids opt) (unlocked_of pid s) = (v, new)"
      by (cases "unlock_loop (given_ids opt) (unlocked_of pid s)")
    have "unlocked_of q (s\<lparr>acUnlocked := smap_put pid v (acUnlocked s)\<rparr>) = (if q = pid then v else unlocked_of q s)" for q
      by (simp add: unlocked_of_def map_of_smap_put_any)
    then show ?thesis using inv o l v [OF l] by (simp add: achievements_inv_def UnlockAchievements_def)
  next
    case False
    then show ?thesis using inv by (auto simp: UnlockAchievements_def split: option.splits)
  qed
qed

text \<open>An unlock call: the user's list grows by the new ids, nobody else's changes, and each
  observer of the second kind hears of each new id once.\<close>

lemma UnlockAchievements_exact:
  assumes "uaUserId opt = Some pid" "UnlockAchievements True (Some opt) cd cb s = (s', ev)"
  shows "unlocked_of q s' = unlocked_of q s @ (if q = pid then fresh_ids (given_ids opt) (unlocked_of pid s) else []) \<and>
    ev = unlocked_events s (Some pid) (fresh_ids (given_ids opt) (unlocked_of pid s)) @
         complete cb (\<lambda>f. UnlockDone f cd EOS_Success (Some pid) (uaCount opt))"
proof -
  obtain v new where l: "unlock_loop (given_ids opt) (unlocked_of pid s) = (v, new)" by (cases "unlock_loop (given_ids opt) (unlocked_of pid s)")
  then have "new = fresh_ids (given_ids opt) (unlocked_of pid s)" "v = unlocked_of pid s @ new"
    using unlock_loop_new [of "given_ids opt" "unlocked_of pid s"] unlock_loop_appends [of "given_ids opt" "unlocked_of pid s"]
    by simp_all
  with assms l show ?thesis
    by (auto simp: UnlockAchievements_def unlocked_of_def map_of_smap_put_any unlocked_events_def)
qed

text \<open>The deprecated observers are copied and never called.\<close>

lemma UnlockAchievements_ignores_V1:
  assumes "UnlockAchievements live options cd cb s = (s', ev)"
  shows "UnlockAchievements live options cd cb (s\<lparr>acNotifyV1 := old\<rparr>) = (s'\<lparr>acNotifyV1 := old\<rparr>, ev)"
  using assms by (auto simp: UnlockAchievements_def unlocked_of_def unlocked_events_def split: option.splits prod.splits)

end
