(* ===== verification/Discovery.thy ===== *)
theory Discovery
  imports Presence
begin

text \<open>
  The discovery messages of \<open>src/core/Platform.cpp\<close>: the Hello a node broadcasts
  (\<open>Platform::BroadcastHello\<close>), with its presence extension, and how a receiver reads it
  (the \<open>Hello\<close> and \<open>Goodbye\<close> cases of \<open>Platform::OnDatagram\<close>).

  The facts: a Hello is read back exactly, whatever follows it is ignored, and a Hello without the
  extension (an older build) or with a damaged one is read with the default presence.
\<close>

section \<open>Writing\<close>

record hello =
  heProductId :: string
  heEpicId :: string
  heDisplayName :: string
  hePresence :: PeerPresence

definition enc_kv :: "string \<times> string \<Rightarrow> bytes" where
  "enc_kv kv = enc_str (fst kv) @ enc_str (snd kv)"

definition enc_ext :: "PeerPresence \<Rightarrow> bytes" where
  "enc_ext p =
     enc_u8 (ppStatus p) @ enc_str (ppJoinInfo p) @ enc_str (ppProductId p) @ enc_str (ppProductVersion p) @
     enc_str (ppProductName p) @ enc_list enc_kv (ppData p)"

definition enc_hello_head :: "hello \<Rightarrow> bytes" where
  "enc_hello_head h =
     enc_str (heProductId h) @ enc_str (heEpicId h) @ enc_str (heDisplayName h) @ enc_str (ppRichText (hePresence h))"

definition enc_hello :: "hello \<Rightarrow> bytes" where
  "enc_hello h = enc_hello_head h @ enc_ext (hePresence h)"

definition enc_goodbye :: "string \<Rightarrow> bytes" where
  "enc_goodbye pid = enc_str pid"

section \<open>Reading\<close>

definition read_kv :: "reader \<Rightarrow> (string \<times> string) \<times> reader" where
  "read_kv r = (case rd_str r of (k, r1) \<Rightarrow> case rd_str r1 of (v, r2) \<Rightarrow> ((k, v), r2))"

text \<open>The extension, read over the presence the head gave.\<close>

definition read_ext :: "PeerPresence \<Rightarrow> reader \<Rightarrow> PeerPresence \<times> reader" where
  "read_ext p r0 =
     (case rd_u8 r0 of (status, r1) \<Rightarrow> case rd_str r1 of (join, r2) \<Rightarrow> case rd_str r2 of (pid, r3) \<Rightarrow>
      case rd_str r3 of (version, r4) \<Rightarrow> case rd_str r4 of (name, r5) \<Rightarrow> case read_list read_kv r5 of (kvs, r6) \<Rightarrow>
        (p\<lparr>ppStatus := status, ppJoinInfo := join, ppProductId := pid, ppProductVersion := version,
           ppProductName := name, ppData := ppData p @ kvs\<rparr>, r6))"

definition read_hello :: "bytes \<Rightarrow> hello option" where
  "read_hello payload =
     (case rd_str (reader_init payload) of (pid, r1) \<Rightarrow> case rd_str r1 of (epic, r2) \<Rightarrow>
      case rd_str r2 of (name, r3) \<Rightarrow> case rd_str r3 of (rich, r4) \<Rightarrow>
        if \<not> rdOk r4 then None
        else let pres = presence_default\<lparr>ppRichText := rich\<rparr>;
                 pres' = (if Remaining r4 > 0
                          then (case read_ext pres r4 of (ext, r5) \<Rightarrow> if rdOk r5 then ext else pres)
                          else pres)
             in Some \<lparr>heProductId = pid, heEpicId = epic, heDisplayName = name, hePresence = pres'\<rparr>)"

definition read_goodbye :: "bytes \<Rightarrow> string option" where
  "read_goodbye payload =
     (case rd_str (reader_init payload) of (pid, r) \<Rightarrow> if \<not> rdOk r \<or> pid = [] then None else Some pid)"

section \<open>Round trip\<close>

interpretation kv: wire_codec enc_kv read_kv "\<lambda>kv. short (fst kv) \<and> short (snd kv)"
  by (rule wire_codecI) (simp add: read_kv_def enc_kv_def prim_run split: prod.splits)

interpretation kvs: wire_codec "enc_list enc_kv" "read_list read_kv" "list_wf (\<lambda>kv. short (fst kv) \<and> short (snd kv))"
  by (rule list_codec [OF kv.wire_codec_axioms])

definition presence_ok :: "PeerPresence \<Rightarrow> bool" where
  "presence_ok p \<longleftrightarrow> short (ppRichText p) \<and> short (ppJoinInfo p) \<and> short (ppProductId p) \<and>
     short (ppProductVersion p) \<and> short (ppProductName p) \<and> list_wf (\<lambda>kv. short (fst kv) \<and> short (snd kv)) (ppData p)"

definition hello_ok :: "hello \<Rightarrow> bool" where
  "hello_ok h \<longleftrightarrow> short (heProductId h) \<and> short (heEpicId h) \<and> short (heDisplayName h) \<and> presence_ok (hePresence h)"

lemma read_ext_enc:
  assumes "presence_ok p"
  shows "read_ext (presence_default\<lparr>ppRichText := ppRichText p\<rparr>) (rdx pre (enc_ext p @ bs)) = (p, rdx (pre @ enc_ext p) bs)"
  using assms
  by (simp add: read_ext_def enc_ext_def presence_ok_def presence_default_def prim_run kvs.run)

lemma Remaining_rdx [simp]: "Remaining (rdx pre bs) = length bs"
  using rd_at_Remaining [OF rd_at_rdx] .

lemma read_hello_after_head:
  assumes "short (heProductId h)" "short (heEpicId h)" "short (heDisplayName h)" "short (ppRichText (hePresence h))"
    and "pres = presence_default\<lparr>ppRichText := ppRichText (hePresence h)\<rparr>"
  shows "read_hello (enc_hello_head h @ tail) = Some (h\<lparr>hePresence :=
    (if tail = [] then pres
     else if rdOk (snd (read_ext pres (rdx (enc_hello_head h) tail)))
     then fst (read_ext pres (rdx (enc_hello_head h) tail)) else pres)\<rparr>)"
  using assms by (simp add: read_hello_def enc_hello_head_def reader_init_rdx prim_run Let_def case_prod_beta)

lemma read_hello_enc: "hello_ok h \<Longrightarrow> read_hello (enc_hello h @ rest) = Some h"
proof -
  assume ok: "hello_ok h"
  then have p: "presence_ok (hePresence h)" by (simp add: hello_ok_def)
  have "enc_ext (hePresence h) \<noteq> []" by (simp add: enc_ext_def enc_u8_def)
  with ok p read_ext_enc [OF p, of "enc_hello_head h" rest]
    read_hello_after_head [of h "presence_default\<lparr>ppRichText := ppRichText (hePresence h)\<rparr>" "enc_ext (hePresence h) @ rest"]
  show ?thesis by (simp add: enc_hello_def hello_ok_def presence_ok_def)
qed

lemma read_goodbye_enc: "short pid \<Longrightarrow> read_goodbye (enc_goodbye pid) = (if pid = [] then None else Some pid)"
  using str.run [of pid "[]" "[]"] by (simp add: read_goodbye_def enc_goodbye_def reader_init_rdx)

text \<open>A build that does not know the extension, and one whose extension is damaged: the peer keeps its
  identity, display name and rich text.\<close>

lemma read_hello_head:
  assumes "short (heProductId h)" "short (heEpicId h)" "short (heDisplayName h)" "short (ppRichText (hePresence h))"
  shows "read_hello (enc_hello_head h) = Some (h\<lparr>hePresence := presence_default\<lparr>ppRichText := ppRichText (hePresence h)\<rparr>\<rparr>)"
  using read_hello_after_head [OF assms refl, of "[]"] by simp

lemma read_hello_damaged:
  assumes "short (heProductId h)" "short (heEpicId h)" "short (heDisplayName h)" "short (ppRichText (hePresence h))"
  shows "\<exists>p. read_hello (enc_hello_head h @ junk) = Some (h\<lparr>hePresence := p\<rparr>) \<and> ppRichText p = ppRichText (hePresence h)"
proof -
  have rich: "ppRichText (fst (read_ext p r)) = ppRichText p" for p r
    by (simp add: read_ext_def case_prod_beta)
  show ?thesis unfolding read_hello_after_head [OF assms refl, of junk]
    by (rule exI, rule conjI, rule refl) (simp add: rich)
qed

end
