(* ===== verification/RTC.thy ===== *)
theory RTC
  imports Lobby Config Effects
begin

text \<open>
  Voice rooms, \<open>src/interfaces/RTC.h\<close>, \<open>RTC.cpp\<close>, \<open>RTCAudio.cpp\<close> and \<open>RTCData.cpp\<close>: the table of
  rooms, its reconciliation with the lobbies once per tick, the calls on custom rooms, and the audio and
  data calls, which check and echo their arguments and move no media.

  \<open>Rooms_\<close> is a \<open>std::map\<close>, hence a sorted association list.  The local product user id
  (\<open>LocalIdentity\<close>) is the parameter \<open>me\<close>, the latest version of an options structure the parameter
  \<open>latest\<close>, and a volume is the bit pattern of its \<open>float\<close>.  A handle is one of a live interface.
\<close>

section \<open>Registries scoped by room\<close>

record rentry = nentry +
  neRoom :: string

definition Room_Add :: "nat option \<Rightarrow> nat \<Rightarrow> string \<Rightarrow> nat \<Rightarrow> rentry list \<Rightarrow> nat \<times> nat \<times> rentry list" where
  "Room_Add fn cd room c es =
     (case fn of
        None \<Rightarrow> (EOS_INVALID_NOTIFICATIONID, c, es)
      | Some f \<Rightarrow>
          if room = [] then (EOS_INVALID_NOTIFICATIONID, c, es)
          else (case NextId c of (i, c') \<Rightarrow>
            (i, c', reg_add \<lparr>neId = i, neFn = f, neCd = cd, neRoom = room\<rparr> es)))"

definition Room_Remove :: "nat \<Rightarrow> rentry list \<Rightarrow> rentry list" where
  "Room_Remove = reg_remove"

definition Room_Snapshot :: "string \<Rightarrow> rentry list \<Rightarrow> rentry list" where
  "Room_Snapshot room es = filter (\<lambda>e. neRoom e = room) es"

datatype scoped_registry =
    OnDisconnected | OnParticipantStatusChanged | OnRoomStatisticsUpdated
  | OnAudioParticipantUpdated | OnAudioInputState | OnAudioOutputState | OnAudioBeforeSend | OnAudioBeforeRender
  | OnDataReceived | OnDataParticipantUpdated

section \<open>State\<close>

text \<open>\<open>EOS_ERTCAudioStatus\<close>: the code only names \<open>EOS_RTCAS_Disabled\<close> and compares.\<close>

datatype audio_status = EOS_RTCAS_Disabled | EOS_RTCAS_Other nat

record room =
  rmLobbyManaged :: bool
  rmLobbyId :: string
  rmParticipants :: "puid list"
  rmLocalAudioStatus :: audio_status

record rtc =
  rtRooms :: "(string, room) amap"
  rtRegistries :: "scoped_registry \<Rightarrow> rentry list"
  rtDevicesChanged :: "nentry list"

definition rtc_start :: rtc where
  "rtc_start = \<lparr>rtRooms = [], rtRegistries = (\<lambda>_. []), rtDevicesChanged = []\<rparr>"

section \<open>What the posted closures carry\<close>

datatype rtc_info =
    ParticipantStatusInfo puid string puid bool
  | AudioParticipantInfo puid string puid audio_status
  | DataParticipantInfo puid string puid
  | RoomConnectionInfo puid string bool
  | JoinRoomInfo eresult "puid option" "string option"
  | LeaveRoomInfo eresult "puid option" "string option"
  | BlockInfo eresult "puid option" "string option" "puid option" bool
  | AudioSendingInfo eresult "puid option" "string option" audio_status
  | AudioReceivingInfo eresult "puid option" "string option" "puid option" bool
  | VolumeInfo eresult "puid option" "string option" u32
  | ParticipantVolumeInfo eresult "puid option" "string option" "puid option" u32
  | DataSendingInfo eresult "puid option" "string option" bool
  | DataReceivingInfo eresult "puid option" "string option" "puid option" bool
  | EchoInfo eresult "string option"
  | QueryDevicesInfo eresult

datatype rtc_task = FireTask rtc_info | DoneTask nat nat rtc_info

text \<open>A registry is read when the closure runs, not when it is posted; \<open>conns\<close> is the registry
  \<open>RTCRoomConn_\<close> of the lobby interface.\<close>

fun listeners :: "nentry list \<Rightarrow> rtc \<Rightarrow> rtc_info \<Rightarrow> (nat \<times> nat) list" where
  "listeners conns s (ParticipantStatusInfo me room pid joined) =
     map (\<lambda>e. (neFn e, neCd e)) (Room_Snapshot room (rtRegistries s OnParticipantStatusChanged))"
| "listeners conns s (AudioParticipantInfo me room pid status) =
     map (\<lambda>e. (neFn e, neCd e)) (Room_Snapshot room (rtRegistries s OnAudioParticipantUpdated))"
| "listeners conns s (DataParticipantInfo me room pid) =
     map (\<lambda>e. (neFn e, neCd e)) (Room_Snapshot room (rtRegistries s OnDataParticipantUpdated))"
| "listeners conns s (RoomConnectionInfo me i up) = map (\<lambda>e. (neFn e, neCd e)) conns"
| "listeners conns s _ = []"

fun run_rtc_task :: "nentry list \<Rightarrow> rtc \<Rightarrow> rtc_task \<Rightarrow> (nat \<times> nat \<times> rtc_info) list" where
  "run_rtc_task conns s (FireTask i) = map (\<lambda>(f, cd). (f, cd, i)) (listeners conns s i)"
| "run_rtc_task conns s (DoneTask f cd i) = [(f, cd, i)]"

definition FireParticipantStatus :: "puid \<Rightarrow> string \<Rightarrow> puid \<Rightarrow> bool \<Rightarrow> rtc_task event" where
  "FireParticipantStatus me room pid joined = EvPost (FireTask (ParticipantStatusInfo me room pid joined))"

definition FireAudioParticipantUpdated :: "puid \<Rightarrow> string \<Rightarrow> puid \<Rightarrow> audio_status \<Rightarrow> rtc_task event" where
  "FireAudioParticipantUpdated me room pid status = EvPost (FireTask (AudioParticipantInfo me room pid status))"

definition FireDataParticipantUpdated :: "puid \<Rightarrow> string \<Rightarrow> puid \<Rightarrow> rtc_task event" where
  "FireDataParticipantUpdated me room pid = EvPost (FireTask (DataParticipantInfo me room pid))"

definition FireLobbyRoomConnection :: "puid \<Rightarrow> string \<Rightarrow> bool \<Rightarrow> rtc_task event" where
  "FireLobbyRoomConnection me i up = EvPost (FireTask (RoomConnectionInfo me i up))"

definition FireParticipantJoinedBundle :: "puid \<Rightarrow> string \<Rightarrow> puid \<Rightarrow> rtc_task event list" where
  "FireParticipantJoinedBundle me room pid =
     [FireParticipantStatus me room pid True, FireAudioParticipantUpdated me room pid EOS_RTCAS_Disabled,
      FireDataParticipantUpdated me room pid]"

section \<open>Reconciliation with the lobbies\<close>

definition reconcile_view ::
  "puid \<Rightarrow> LobbyRTCRoomView \<Rightarrow> (string, room) amap \<Rightarrow> (string, room) amap \<times> rtc_task event list" where
  "reconcile_view me v rooms =
     (let name = rvRoomName v; members = rvMemberPids v in
      case map_of rooms name of
        None \<Rightarrow>
          (smap_put name \<lparr>rmLobbyManaged = True, rmLobbyId = rvLobbyId v, rmParticipants = members,
                          rmLocalAudioStatus = EOS_RTCAS_Disabled\<rparr> rooms,
           FireLobbyRoomConnection me (rvLobbyId v) True # concat (map (FireParticipantJoinedBundle me name) members))
      | Some r \<Rightarrow>
          (smap_put name (r\<lparr>rmParticipants := members\<rparr>) rooms,
           concat (map (FireParticipantJoinedBundle me name) (filter (\<lambda>p. p \<notin> set (rmParticipants r)) members)) @
           map (\<lambda>p. FireParticipantStatus me name p False) (filter (\<lambda>p. p \<notin> set members) (rmParticipants r))))"

fun reconcile_views ::
  "puid \<Rightarrow> LobbyRTCRoomView list \<Rightarrow> (string, room) amap \<Rightarrow> (string, room) amap \<times> rtc_task event list" where
  "reconcile_views me [] rooms = (rooms, [])"
| "reconcile_views me (v # vs) rooms =
     (case reconcile_view me v rooms of (rooms1, e1) \<Rightarrow>
        (case reconcile_views me vs rooms1 of (rooms2, e2) \<Rightarrow> (rooms2, e1 @ e2)))"

definition keep_room :: "LobbyRTCRoomView list \<Rightarrow> string \<times> room \<Rightarrow> bool" where
  "keep_room views e \<longleftrightarrow> \<not> rmLobbyManaged (snd e) \<or> list_ex (\<lambda>v. rvRoomName v = fst e) views"

fun sweep_rooms ::
  "puid \<Rightarrow> LobbyRTCRoomView list \<Rightarrow> (string, room) amap \<Rightarrow> (string, room) amap \<times> rtc_task event list" where
  "sweep_rooms me views [] = ([], [])"
| "sweep_rooms me views (e # rooms) =
     (case sweep_rooms me views rooms of (kept, evs) \<Rightarrow>
        if keep_room views e then (e # kept, evs)
        else (kept, FireLobbyRoomConnection me (rmLobbyId (snd e)) False # evs))"

definition RTC_PumpTick :: "puid \<Rightarrow> LobbyRTCRoomView list \<Rightarrow> rtc \<Rightarrow> rtc \<times> rtc_task event list" where
  "RTC_PumpTick me views s =
     (case reconcile_views me views (rtRooms s) of (rooms1, e1) \<Rightarrow>
        (case sweep_rooms me views rooms1 of (rooms2, e2) \<Rightarrow> (s\<lparr>rtRooms := rooms2\<rparr>, e1 @ e2)))"

section \<open>Rooms\<close>

definition IsInRoom :: "string \<Rightarrow> rtc \<Rightarrow> bool" where
  "IsInRoom name s \<longleftrightarrow> map_of (rtRooms s) name \<noteq> None"

text \<open>\<open>EOS_Lobby_IsRTCRoomConnected\<close>: the options' lobby id, and what is written through the out pointer.\<close>

definition IsRTCRoomConnected :: "string option option \<Rightarrow> bool \<Rightarrow> rtc \<Rightarrow> eresult \<times> bool option" where
  "IsRTCRoomConnected options has_out s =
     (case options of
        Some (Some lobby) \<Rightarrow>
          if has_out then (EOS_Success, Some (IsInRoom (''rtc_'' @ lobby) s)) else (EOS_InvalidParameters, None)
      | _ \<Rightarrow> (EOS_InvalidParameters, None))"

definition IsLobbyManagedRoom :: "string \<Rightarrow> rtc \<Rightarrow> bool" where
  "IsLobbyManagedRoom name s \<longleftrightarrow> (case map_of (rtRooms s) name of None \<Rightarrow> False | Some r \<Rightarrow> rmLobbyManaged r)"

definition RoomHasParticipant :: "string \<Rightarrow> puid \<Rightarrow> rtc \<Rightarrow> bool" where
  "RoomHasParticipant name pid s \<longleftrightarrow>
     (case map_of (rtRooms s) name of None \<Rightarrow> False | Some r \<Rightarrow> pid \<in> set (rmParticipants r))"

definition JoinCustomRoom :: "puid \<Rightarrow> string \<Rightarrow> rtc \<Rightarrow> eresult \<times> rtc \<times> rtc_task event list" where
  "JoinCustomRoom me name s =
     (case map_of (rtRooms s) name of
        Some r \<Rightarrow> (if rmLobbyManaged r then EOS_AccessDenied else EOS_Success, s, [])
      | None \<Rightarrow>
          (EOS_Success,
           s\<lparr>rtRooms := smap_put name \<lparr>rmLobbyManaged = False, rmLobbyId = [], rmParticipants = [me],
                                       rmLocalAudioStatus = EOS_RTCAS_Disabled\<rparr> (rtRooms s)\<rparr>,
           FireParticipantJoinedBundle me name me))"

definition LeaveCustomRoom :: "string \<Rightarrow> rtc \<Rightarrow> eresult \<times> rtc" where
  "LeaveCustomRoom name s =
     (case map_of (rtRooms s) name of
        None \<Rightarrow> (EOS_NotFound, s)
      | Some r \<Rightarrow> if rmLobbyManaged r then (EOS_AccessDenied, s)
                  else (EOS_Success, s\<lparr>rtRooms := AList.delete name (rtRooms s)\<rparr>))"

definition SetLocalAudioStatus :: "puid \<Rightarrow> string \<Rightarrow> audio_status \<Rightarrow> rtc \<Rightarrow> bool \<times> rtc \<times> rtc_task event list" where
  "SetLocalAudioStatus me name status s =
     (case map_of (rtRooms s) name of
        None \<Rightarrow> (False, s, [])
      | Some r \<Rightarrow>
          (True, s\<lparr>rtRooms := smap_put name (r\<lparr>rmLocalAudioStatus := status\<rparr>) (rtRooms s)\<rparr>,
           if rmLocalAudioStatus r \<noteq> status then [FireAudioParticipantUpdated me name me status] else []))"

section \<open>Settings\<close>

fun EqualsNoCase :: "string \<Rightarrow> string \<Rightarrow> bool" where
  "EqualsNoCase (a # as) (b # bs) \<longleftrightarrow> to_lower a = to_lower b \<and> EqualsNoCase as bs"
| "EqualsNoCase as bs \<longleftrightarrow> as = [] \<and> bs = []"

definition setting_names :: "string list" where
  "setting_names = [''DisableEchoCancelation'', ''DisableNoiseSupression'', ''DisableAutoGainControl'', ''DisableDtx'']"

definition ValidateSetting :: "string option \<Rightarrow> string option \<Rightarrow> eresult" where
  "ValidateSetting name val =
     (case (name, val) of
        (Some n, Some v) \<Rightarrow>
          if n \<notin> set setting_names then EOS_NotFound
          else if \<not> EqualsNoCase v ''true'' \<and> \<not> EqualsNoCase v ''false'' then EOS_InvalidParameters
          else EOS_Success
      | _ \<Rightarrow> EOS_InvalidParameters)"

text \<open>Options: version, name, value.\<close>

definition RTC_SetSetting :: "int \<Rightarrow> (int \<times> string option \<times> string option) option \<Rightarrow> eresult" where
  "RTC_SetSetting latest options =
     (case options of
        None \<Rightarrow> EOS_InvalidParameters
      | Some (v, name, val) \<Rightarrow>
          if \<not> VersionInRange v latest then EOS_IncompatibleVersion else ValidateSetting name val)"

text \<open>Options: version, local user, room, name, value.\<close>

definition RTC_SetRoomSetting ::
  "int \<Rightarrow> (int \<times> puid option \<times> string option \<times> string option \<times> string option) option \<Rightarrow> eresult" where
  "RTC_SetRoomSetting latest options =
     (case options of
        None \<Rightarrow> EOS_InvalidParameters
      | Some (v, me, room, name, val) \<Rightarrow>
          if \<not> VersionInRange v latest then EOS_IncompatibleVersion
          else if me = None \<or> room = None then EOS_InvalidParameters
          else ValidateSetting name val)"

section \<open>Calls on rooms\<close>

record 'v rtc_options =
  rxApiVersion :: int
  rxLocalUserId :: "puid option"
  rxRoomName :: "string option"
  rxParticipantId :: "puid option"
  rxValue :: 'v

definition room_of :: "'v rtc_options option \<Rightarrow> string" where
  "room_of options = (case options of None \<Rightarrow> [] | Some opt \<Rightarrow> (case rxRoomName opt of None \<Rightarrow> [] | Some n \<Rightarrow> n))"

definition user_of :: "'v rtc_options option \<Rightarrow> puid option" where
  "user_of options = (case options of None \<Rightarrow> None | Some opt \<Rightarrow> rxLocalUserId opt)"

definition participant_of :: "'v rtc_options option \<Rightarrow> puid option" where
  "participant_of options = (case options of None \<Rightarrow> None | Some opt \<Rightarrow> rxParticipantId opt)"

definition value_of :: "'v \<Rightarrow> 'v rtc_options option \<Rightarrow> 'v" where
  "value_of dflt options = (case options of None \<Rightarrow> dflt | Some opt \<Rightarrow> rxValue opt)"

definition echo :: "string \<Rightarrow> string option" where
  "echo t = (if t = [] then None else Some t)"

text \<open>The guards the calls share: options, room and local user present (for \<open>BlockParticipant\<close> also the
  participant), then the version, then the call's own action.\<close>

definition room_call ::
  "bool \<Rightarrow> int \<Rightarrow> 'v rtc_options option \<Rightarrow> (string \<Rightarrow> 'v rtc_options \<Rightarrow> rtc \<Rightarrow> eresult \<times> rtc \<times> rtc_task event list) \<Rightarrow>
   rtc \<Rightarrow> eresult \<times> rtc \<times> rtc_task event list" where
  "room_call needs_participant latest options act s =
     (case options of
        None \<Rightarrow> (EOS_InvalidParameters, s, [])
      | Some opt \<Rightarrow>
          if room_of options = [] \<or> rxLocalUserId opt = None \<or> (needs_participant \<and> rxParticipantId opt = None)
          then (EOS_InvalidParameters, s, [])
          else if \<not> VersionInRange (rxApiVersion opt) latest then (EOS_IncompatibleVersion, s, [])
          else act (room_of options) opt s)"

text \<open>The completion is posted after whatever the action posted; a null delegate makes the whole call a
  no-op.\<close>

definition complete_call ::
  "nat option \<Rightarrow> nat \<Rightarrow> (eresult \<Rightarrow> rtc_info) \<Rightarrow> (rtc \<Rightarrow> eresult \<times> rtc \<times> rtc_task event list) \<Rightarrow> rtc \<Rightarrow>
   rtc \<times> rtc_task event list" where
  "complete_call cb cd info act s =
     (case cb of
        None \<Rightarrow> (s, [])
      | Some f \<Rightarrow> (case act s of (res, s1, evs) \<Rightarrow> (s1, evs @ [EvPost (DoneTask f cd (info res))])))"

definition JoinRoom ::
  "puid \<Rightarrow> int \<Rightarrow> unit rtc_options option \<Rightarrow> nat \<Rightarrow> nat option \<Rightarrow> rtc \<Rightarrow> rtc \<times> rtc_task event list" where
  "JoinRoom me latest options cd cb =
     complete_call cb cd (\<lambda>res. JoinRoomInfo res (user_of options) (echo (room_of options)))
       (room_call False latest options
          (\<lambda>room opt s. if IsLobbyManagedRoom room s then (EOS_AccessDenied, s, []) else JoinCustomRoom me room s))"

definition LeaveRoom ::
  "int \<Rightarrow> unit rtc_options option \<Rightarrow> nat \<Rightarrow> nat option \<Rightarrow> rtc \<Rightarrow> rtc \<times> rtc_task event list" where
  "LeaveRoom latest options cd cb =
     complete_call cb cd (\<lambda>res. LeaveRoomInfo res (user_of options) (echo (room_of options)))
       (room_call False latest options
          (\<lambda>room opt s. case LeaveCustomRoom room s of (res, s1) \<Rightarrow> (res, s1, [])))"

definition BlockParticipant ::
  "int \<Rightarrow> bool rtc_options option \<Rightarrow> nat \<Rightarrow> nat option \<Rightarrow> rtc \<Rightarrow> rtc \<times> rtc_task event list" where
  "BlockParticipant latest options cd cb =
     complete_call cb cd
       (\<lambda>res. BlockInfo res (user_of options) (echo (room_of options)) (participant_of options) (value_of False options))
       (room_call True latest options
          (\<lambda>room opt s.
             (case rxParticipantId opt of
                None \<Rightarrow> EOS_InvalidParameters
              | Some p \<Rightarrow> if RoomHasParticipant room p s then EOS_Success else EOS_NotFound, s, [])))"

section \<open>Audio and data calls\<close>

text \<open>\<open>NotFound\<close> unless in the room and, when a participant is named, that participant is in it.\<close>

definition in_room :: "string \<Rightarrow> puid option \<Rightarrow> rtc \<Rightarrow> eresult" where
  "in_room room participant s =
     (if \<not> IsInRoom room s \<or> (case participant of None \<Rightarrow> False | Some p \<Rightarrow> \<not> RoomHasParticipant room p s)
      then EOS_NotFound else EOS_Success)"

definition Audio_UpdateSending ::
  "puid \<Rightarrow> int \<Rightarrow> audio_status rtc_options option \<Rightarrow> nat \<Rightarrow> nat option \<Rightarrow> rtc \<Rightarrow> rtc \<times> rtc_task event list" where
  "Audio_UpdateSending me latest options cd cb =
     complete_call cb cd
       (\<lambda>res. AudioSendingInfo res (user_of options) (echo (room_of options)) (value_of EOS_RTCAS_Disabled options))
       (room_call False latest options
          (\<lambda>room opt s. case SetLocalAudioStatus me room (rxValue opt) s of
             (ok, s1, evs) \<Rightarrow> (if ok then EOS_Success else EOS_NotFound, s1, evs)))"

definition Audio_UpdateReceiving ::
  "int \<Rightarrow> bool rtc_options option \<Rightarrow> nat \<Rightarrow> nat option \<Rightarrow> rtc \<Rightarrow> rtc \<times> rtc_task event list" where
  "Audio_UpdateReceiving latest options cd cb =
     complete_call cb cd
       (\<lambda>res. AudioReceivingInfo res (user_of options) (echo (room_of options)) (participant_of options)
                (value_of False options))
       (room_call False latest options (\<lambda>room opt s. (in_room room (rxParticipantId opt) s, s, [])))"

text \<open>\<open>UpdateSendingVolume\<close> and \<open>UpdateReceivingVolume\<close>.\<close>

definition Audio_UpdateVolume ::
  "int \<Rightarrow> u32 rtc_options option \<Rightarrow> nat \<Rightarrow> nat option \<Rightarrow> rtc \<Rightarrow> rtc \<times> rtc_task event list" where
  "Audio_UpdateVolume latest options cd cb =
     complete_call cb cd
       (\<lambda>res. VolumeInfo res (user_of options) (echo (room_of options)) (value_of 0 options))
       (room_call False latest options (\<lambda>room opt s. (in_room room None s, s, [])))"

definition Audio_UpdateParticipantVolume ::
  "int \<Rightarrow> u32 rtc_options option \<Rightarrow> nat \<Rightarrow> nat option \<Rightarrow> rtc \<Rightarrow> rtc \<times> rtc_task event list" where
  "Audio_UpdateParticipantVolume latest options cd cb =
     complete_call cb cd
       (\<lambda>res. ParticipantVolumeInfo res (user_of options) (echo (room_of options)) (participant_of options)
                (value_of 0 options))
       (room_call False latest options (\<lambda>room opt s. (in_room room (rxParticipantId opt) s, s, [])))"

definition Data_UpdateSending ::
  "int \<Rightarrow> bool rtc_options option \<Rightarrow> nat \<Rightarrow> nat option \<Rightarrow> rtc \<Rightarrow> rtc \<times> rtc_task event list" where
  "Data_UpdateSending latest options cd cb =
     complete_call cb cd
       (\<lambda>res. DataSendingInfo res (user_of options) (echo (room_of options)) (value_of False options))
       (room_call False latest options (\<lambda>room opt s. (in_room room None s, s, [])))"

definition Data_UpdateReceiving ::
  "int \<Rightarrow> bool rtc_options option \<Rightarrow> nat \<Rightarrow> nat option \<Rightarrow> rtc \<Rightarrow> rtc \<times> rtc_task event list" where
  "Data_UpdateReceiving latest options cd cb =
     complete_call cb cd
       (\<lambda>res. DataReceivingInfo res (user_of options) (echo (room_of options)) (participant_of options)
                (value_of False options))
       (room_call False latest options (\<lambda>room opt s. (in_room room (rxParticipantId opt) s, s, [])))"

text \<open>Options: version, room, whether there is a buffer.\<close>

definition Audio_SendAudio :: "int \<Rightarrow> (int \<times> string option \<times> bool) option \<Rightarrow> rtc \<Rightarrow> eresult" where
  "Audio_SendAudio latest options s =
     (case options of
        Some (v, Some room, True) \<Rightarrow>
          if \<not> VersionInRange v latest then EOS_IncompatibleVersion else in_room room None s
      | _ \<Rightarrow> EOS_InvalidParameters)"

text \<open>Options: version, room, data (if any) and its stated length; \<open>max_packet\<close> is
  \<open>EOS_RTCDATA_MAX_PACKET_SIZE\<close>.\<close>

definition Data_SendData :: "int \<Rightarrow> u32 \<Rightarrow> (int \<times> string option \<times> bool \<times> u32) option \<Rightarrow> rtc \<Rightarrow> eresult" where
  "Data_SendData latest max_packet options s =
     (case options of
        Some (v, Some room, True, len) \<Rightarrow>
          if len = 0 \<or> len > max_packet then EOS_InvalidParameters
          else if \<not> VersionInRange v latest then EOS_IncompatibleVersion
          else in_room room None s
      | _ \<Rightarrow> EOS_InvalidParameters)"

section \<open>Notifications\<close>

definition Scoped_AddNotify ::
  "scoped_registry \<Rightarrow> string option option \<Rightarrow> nat \<Rightarrow> nat option \<Rightarrow> nat \<Rightarrow> rtc \<Rightarrow> nat \<times> nat \<times> rtc" where
  "Scoped_AddNotify g options cd fn c s =
     (case options of
        Some (Some room) \<Rightarrow>
          (case Room_Add fn cd room c (rtRegistries s g) of (i, c', es) \<Rightarrow>
             (i, c', s\<lparr>rtRegistries := (rtRegistries s)(g := es)\<rparr>))
      | _ \<Rightarrow> (EOS_INVALID_NOTIFICATIONID, c, s))"

definition Scoped_RemoveNotify :: "scoped_registry \<Rightarrow> nat \<Rightarrow> rtc \<Rightarrow> rtc" where
  "Scoped_RemoveNotify g i s = s\<lparr>rtRegistries := (rtRegistries s)(g := Room_Remove i (rtRegistries s g))\<rparr>"

definition AddNotifyDisconnected ::
  "string option option \<Rightarrow> nat \<Rightarrow> nat option \<Rightarrow> nat \<Rightarrow> rtc \<Rightarrow> nat \<times> nat \<times> rtc" where
  "AddNotifyDisconnected options cd fn c s =
     (case options of
        Some (Some room) \<Rightarrow>
          if IsLobbyManagedRoom room s then (EOS_INVALID_NOTIFICATIONID, c, s)
          else Scoped_AddNotify OnDisconnected options cd fn c s
      | _ \<Rightarrow> (EOS_INVALID_NOTIFICATIONID, c, s))"

definition AddNotifyAudioDevicesChanged :: "nat option \<Rightarrow> nat \<Rightarrow> nat \<Rightarrow> rtc \<Rightarrow> nat \<times> nat \<times> rtc" where
  "AddNotifyAudioDevicesChanged fn cd c s =
     (case Notify_Add fn cd c (rtDevicesChanged s) of (i, c', es) \<Rightarrow> (i, c', s\<lparr>rtDevicesChanged := es\<rparr>))"

definition RemoveNotifyAudioDevicesChanged :: "nat \<Rightarrow> rtc \<Rightarrow> rtc" where
  "RemoveNotifyAudioDevicesChanged i s = s\<lparr>rtDevicesChanged := Notify_Remove i (rtDevicesChanged s)\<rparr>"

section \<open>Platform users and devices\<close>

text \<open>\<open>RegisterPlatformUser\<close> and \<open>UnregisterPlatformUser\<close>: the user must be given, and is echoed.\<close>

definition Audio_PlatformUser :: "string option option \<Rightarrow> nat \<Rightarrow> nat option \<Rightarrow> rtc_task event list" where
  "Audio_PlatformUser options cd cb =
     (let user = (case options of Some (Some u) \<Rightarrow> u | _ \<Rightarrow> []);
          res = (case options of Some (Some u) \<Rightarrow> EOS_Success | _ \<Rightarrow> EOS_InvalidParameters) in
      complete cb (\<lambda>f. DoneTask f cd (EchoInfo res (echo user))))"

text \<open>\<open>SetInputDeviceSettings\<close> and \<open>SetOutputDeviceSettings\<close>: the local user must be given, the device
  is echoed.\<close>

definition Audio_SetDeviceSettings :: "(puid option \<times> string option) option \<Rightarrow> nat \<Rightarrow> nat option \<Rightarrow> rtc_task event list" where
  "Audio_SetDeviceSettings options cd cb =
     (let res = (case options of Some (Some me, d) \<Rightarrow> EOS_Success | _ \<Rightarrow> EOS_InvalidParameters);
          device = (case options of Some (me, Some d) \<Rightarrow> d | _ \<Rightarrow> []) in
      complete cb (\<lambda>f. DoneTask f cd (EchoInfo res (echo device))))"

definition Audio_QueryDevices :: "nat \<Rightarrow> nat option \<Rightarrow> rtc_task event list" where
  "Audio_QueryDevices cd cb = complete cb (\<lambda>f. DoneTask f cd (QueryDevicesInfo EOS_Success))"

definition Audio_GetDevicesCount :: nat where
  "Audio_GetDevicesCount = 1"

record audio_device =
  adDefault :: bool
  adDeviceId :: string
  adDeviceName :: string

definition input_device :: audio_device where
  "input_device = \<lparr>adDefault = True, adDeviceId = ''eosemu_default_input'', adDeviceName = ''EOSEmu Default Input''\<rparr>"

definition output_device :: audio_device where
  "output_device = \<lparr>adDefault = True, adDeviceId = ''eosemu_default_output'', adDeviceName = ''EOSEmu Default Output''\<rparr>"

definition CopyDeviceInformationByIndex ::
  "audio_device \<Rightarrow> int \<Rightarrow> (int \<times> u32) option \<Rightarrow> bool \<Rightarrow> eresult \<times> audio_device option" where
  "CopyDeviceInformationByIndex dev latest options out =
     (case options of
        None \<Rightarrow> (EOS_InvalidParameters, None)
      | Some (v, i) \<Rightarrow>
          if \<not> out then (EOS_InvalidParameters, None)
          else if \<not> VersionInRange v latest then (EOS_IncompatibleVersion, None)
          else if i \<noteq> 0 then (EOS_NotFound, None)
          else (EOS_Success, Some dev))"

end
