(* ===== verification/RTCFacts.thy ===== *)
theory RTCFacts
  imports RTC LobbyFacts
begin

text \<open>
  What the voice rooms of theory RTC guarantee.  A game that keeps a roster per room from the events it
  is sent (\<open>hear\<close>) knows the participants of every room after any sequence of ticks and calls
  (\<open>roster_is_exact\<close>); one tick makes the lobby rooms equal to the lobbies (\<open>pump_rooms\<close>,
  \<open>pump_sweeps\<close>) and a second tick on the same lobbies announces nothing (\<open>pump_quiet\<close>).
\<close>

section \<open>Maps\<close>

lemma smap_put_same: "smap_ok m \<Longrightarrow> map_of m k = Some v \<Longrightarrow> smap_put k v m = m"
proof (induction m)
  case (Cons p m)
  obtain j w where p: "p = (j, w)" by (cases p)
  show ?case
  proof (cases "j = k")
    case False
    then have "map_of m k = Some v" using Cons.prems(2) p by simp
    then have "k \<in> set (keys m)" by (force dest: map_of_SomeD)
    then have "\<not> k < j" using Cons.prems(1) p by (auto simp: smap_ok_Cons simp del: set_map dest: less_asym)
    then show ?thesis using False p Cons by (auto simp: smap_ok_Cons)
  qed (use Cons.prems p in auto)
qed simp

lemma map_of_filter_key: "distinct (keys m) \<Longrightarrow>
    map_of (filter P m) k = (case map_of m k of None \<Rightarrow> None | Some v \<Rightarrow> if P (k, v) then Some v else None)"
  by (induction m) (auto split: option.splits simp: map_of_eq_None_iff)

lemma sorted_rooms_filter: "smap_ok m \<Longrightarrow> smap_ok (filter P m)"
  by (induction m) (auto simp: smap_ok_def)

section \<open>What a game hears\<close>

fun hear_info :: "rtc_info \<Rightarrow> (string \<Rightarrow> puid set) \<Rightarrow> string \<Rightarrow> puid set" where
  "hear_info (ParticipantStatusInfo me room p joined) R =
     R(room := if joined then insert p (R room) else R room - {p})"
| "hear_info (RoomConnectionInfo me i up) R = (if up then R else R(''rtc_'' @ i := {}))"
| "hear_info (LeaveRoomInfo EOS_Success u (Some room)) R = R(room := {})"
| "hear_info _ R = R"

fun hear :: "rtc_task \<Rightarrow> (string \<Rightarrow> puid set) \<Rightarrow> string \<Rightarrow> puid set" where
  "hear (FireTask i) R = hear_info i R"
| "hear (DoneTask f cd i) R = hear_info i R"

definition heard :: "rtc_task event list \<Rightarrow> (string \<Rightarrow> puid set) \<Rightarrow> string \<Rightarrow> puid set" where
  "heard evs = fold hear (posts evs)"

definition roster :: "(string, room) amap \<Rightarrow> string \<Rightarrow> puid set" where
  "roster rooms n = (case map_of rooms n of None \<Rightarrow> {} | Some r \<Rightarrow> set (rmParticipants r))"

lemma heard_simps [simp]:
  "heard [] R = R" "heard (a @ b) R = heard b (heard a R)" "heard (EvPost t # evs) R = heard evs (hear t R)"
  by (simp_all add: heard_def)

lemmas fire_defs = FireParticipantStatus_def FireAudioParticipantUpdated_def FireDataParticipantUpdated_def
  FireLobbyRoomConnection_def FireParticipantJoinedBundle_def

lemma heard_bundles: "heard (concat (map (FireParticipantJoinedBundle me n) ps)) R = R(n := R n \<union> set ps)"
  by (induction ps arbitrary: R) (auto simp: fire_defs)

lemma heard_bundle: "heard (FireParticipantJoinedBundle me n p) R = R(n := insert p (R n))"
  by (simp add: fire_defs)

lemma heard_lefts: "heard (map (\<lambda>p. FireParticipantStatus me n p False) ps) R = R(n := R n - set ps)"
  by (induction ps arbitrary: R) (simp_all add: fire_defs fun_eq_iff, blast)

section \<open>The room table\<close>

definition rooms_ok :: "(string, room) amap \<Rightarrow> bool" where
  "rooms_ok rooms \<longleftrightarrow> smap_ok rooms \<and> (\<forall>(n, r) \<in> set rooms. rmLobbyManaged r \<longrightarrow> n = ''rtc_'' @ rmLobbyId r)"

definition views_ok :: "LobbyRTCRoomView list \<Rightarrow> bool" where
  "views_ok views \<longleftrightarrow> (\<forall>v \<in> set views. rvRoomName v = ''rtc_'' @ rvLobbyId v)"

lemma rooms_ok_get: "rooms_ok rooms \<Longrightarrow> map_of rooms n = Some r \<Longrightarrow> rmLobbyManaged r \<Longrightarrow> n = ''rtc_'' @ rmLobbyId r"
  by (force simp: rooms_ok_def dest: map_of_SomeD)

lemma rooms_ok_put: "rooms_ok rooms \<Longrightarrow> (rmLobbyManaged r \<Longrightarrow> n = ''rtc_'' @ rmLobbyId r) \<Longrightarrow> rooms_ok (smap_put n r rooms)"
proof -
  assume ok: "rooms_ok rooms" and r: "rmLobbyManaged r \<Longrightarrow> n = ''rtc_'' @ rmLobbyId r"
  have "rmLobbyManaged q \<longrightarrow> m = ''rtc_'' @ rmLobbyId q" if "(m, q) \<in> set (smap_put n r rooms)" for m q
    using that set_smap_put_subset [of n r rooms] ok r unfolding rooms_ok_def by blast
  moreover have "smap_ok (smap_put n r rooms)" using ok by (auto simp: rooms_ok_def)
  ultimately show ?thesis by (auto simp: rooms_ok_def)
qed

lemma rooms_ok_delete: "rooms_ok rooms \<Longrightarrow> rooms_ok (AList.delete n rooms)"
  using smap_ok_delete [of rooms n] by (auto simp: rooms_ok_def AList.delete_eq)

lemma rooms_ok_filter: "rooms_ok rooms \<Longrightarrow> rooms_ok (filter P rooms)"
  by (auto simp: rooms_ok_def sorted_rooms_filter)

section \<open>One tick\<close>

lemma reconcile_view_ok:
  assumes "rooms_ok rooms" "rvRoomName v = ''rtc_'' @ rvLobbyId v"
  shows "rooms_ok (fst (reconcile_view me v rooms))"
  using assms by (auto simp: reconcile_view_def Let_def split: option.split intro!: rooms_ok_put dest: rooms_ok_get)

lemma reconcile_view_heard:
  "heard (snd (reconcile_view me v rooms)) (roster rooms) = roster (fst (reconcile_view me v rooms))"
  by (auto simp: reconcile_view_def Let_def roster_def fun_eq_iff map_of_smap_put_any heard_bundles heard_lefts
      FireLobbyRoomConnection_def split: option.split)

lemma reconcile_views_ok:
  "rooms_ok rooms \<Longrightarrow> views_ok views \<Longrightarrow> rooms_ok (fst (reconcile_views me views rooms))"
proof (induction views arbitrary: rooms)
  case (Cons v vs)
  then have "rooms_ok (fst (reconcile_views me vs (fst (reconcile_view me v rooms))))"
    by (simp add: views_ok_def reconcile_view_ok)
  then show ?case by (simp add: case_prod_unfold)
qed simp

lemma reconcile_views_heard:
  "heard (snd (reconcile_views me views rooms)) (roster rooms) = roster (fst (reconcile_views me views rooms))"
  by (induction views arbitrary: rooms) (simp_all add: case_prod_unfold reconcile_view_heard)

lemma reconcile_view_map_of: "map_of (fst (reconcile_view me v rooms)) n =
    (if n = rvRoomName v
     then Some (case map_of rooms n of None \<Rightarrow>
             \<lparr>rmLobbyManaged = True, rmLobbyId = rvLobbyId v, rmParticipants = rvMemberPids v,
              rmLocalAudioStatus = EOS_RTCAS_Disabled\<rparr>
           | Some r \<Rightarrow> r\<lparr>rmParticipants := rvMemberPids v\<rparr>)
     else map_of rooms n)"
  by (auto simp: reconcile_view_def Let_def map_of_smap_put_any split: option.split)

lemma reconcile_views_other:
  "n \<notin> rvRoomName ` set views \<Longrightarrow> map_of (fst (reconcile_views me views rooms)) n = map_of rooms n"
  by (induction views arbitrary: rooms) (auto simp: case_prod_unfold reconcile_view_map_of)

lemma reconcile_views_rooms:
  assumes "distinct (map rvRoomName views)" "v \<in> set views"
  shows "\<exists>r. map_of (fst (reconcile_views me views rooms)) (rvRoomName v) = Some r \<and> rmParticipants r = rvMemberPids v"
  using assms
proof (induction views arbitrary: rooms)
  case (Cons w vs)
  show ?case
  proof (cases "v = w")
    case True
    with Cons.prems have "rvRoomName v \<notin> rvRoomName ` set vs" by simp
    with True show ?thesis
      by (auto simp: case_prod_unfold reconcile_views_other reconcile_view_map_of split: option.split)
  qed (use Cons in \<open>auto simp: case_prod_unfold\<close>)
qed simp

lemma fst_sweep_rooms: "fst (sweep_rooms me views rooms) = filter (keep_room views) rooms"
  by (induction rooms) (auto simp: case_prod_unfold)

lemma sweep_rooms_heard:
  "(\<forall>(n, r) \<in> set rooms. rmLobbyManaged r \<longrightarrow> n = ''rtc_'' @ rmLobbyId r) \<Longrightarrow>
   heard (snd (sweep_rooms me views rooms)) R n = (if \<exists>r. (n, r) \<in> set rooms \<and> \<not> keep_room views (n, r) then {} else R n)"
proof (induction rooms arbitrary: R)
  case (Cons e rooms)
  obtain m r where e: "e = (m, r)" by (cases e)
  have "\<forall>(n, r) \<in> set rooms. rmLobbyManaged r \<longrightarrow> n = ''rtc_'' @ rmLobbyId r"
    using Cons.prems by simp
  note IH = Cons.IH [OF this]
  have m: "\<not> keep_room views (m, r) \<Longrightarrow> m = ''rtc_'' @ rmLobbyId r"
    using Cons.prems e by (auto simp: keep_room_def)
  then show ?case
    by (auto simp: e case_prod_unfold IH FireLobbyRoomConnection_def)
qed simp

lemma RTC_PumpTick_fields:
  "rtRooms (fst (RTC_PumpTick me views s)) = filter (keep_room views) (fst (reconcile_views me views (rtRooms s)))"
  "rtRegistries (fst (RTC_PumpTick me views s)) = rtRegistries s"
  "snd (RTC_PumpTick me views s) = snd (reconcile_views me views (rtRooms s)) @
     snd (sweep_rooms me views (fst (reconcile_views me views (rtRooms s))))"
  by (simp_all add: RTC_PumpTick_def case_prod_unfold fst_sweep_rooms)

lemma sweep_roster:
  assumes "rooms_ok rooms"
  shows "heard (snd (sweep_rooms me views rooms)) (roster rooms) = roster (filter (keep_room views) rooms)"
proof
  fix n
  have d: "distinct (keys rooms)" and k: "\<forall>(n, r) \<in> set rooms. rmLobbyManaged r \<longrightarrow> n = ''rtc_'' @ rmLobbyId r"
    using assms smap_ok_distinct by (auto simp: rooms_ok_def)
  have "(n, r) \<in> set rooms \<longleftrightarrow> map_of rooms n = Some r" for r
    using d by simp
  then show "heard (snd (sweep_rooms me views rooms)) (roster rooms) n = roster (filter (keep_room views) rooms) n"
    by (auto simp: sweep_rooms_heard [OF k] roster_def map_of_filter_key [OF d] split: option.split)
qed

lemma pump_heard:
  assumes "rooms_ok (rtRooms s)" "views_ok views"
  shows "heard (snd (RTC_PumpTick me views s)) (roster (rtRooms s)) = roster (rtRooms (fst (RTC_PumpTick me views s)))"
  by (simp add: RTC_PumpTick_fields reconcile_views_heard sweep_roster reconcile_views_ok assms)

lemma pump_ok: "rooms_ok (rtRooms s) \<Longrightarrow> views_ok views \<Longrightarrow> rooms_ok (rtRooms (fst (RTC_PumpTick me views s)))"
  by (simp add: RTC_PumpTick_fields rooms_ok_filter reconcile_views_ok)

lemma pump_rooms:
  assumes "rooms_ok (rtRooms s)" "views_ok views" "distinct (map rvRoomName views)" "v \<in> set views"
  shows "\<exists>r. map_of (rtRooms (fst (RTC_PumpTick me views s))) (rvRoomName v) = Some r \<and> rmParticipants r = rvMemberPids v"
proof -
  have "rooms_ok (fst (reconcile_views me views (rtRooms s)))" by (rule reconcile_views_ok) fact+
  then have "distinct (keys (fst (reconcile_views me views (rtRooms s))))"
    by (simp add: rooms_ok_def smap_ok_distinct)
  with reconcile_views_rooms [OF assms(3,4), of me "rtRooms s"] show ?thesis
    using assms(4) by (auto simp: RTC_PumpTick_fields map_of_filter_key keep_room_def list_ex_iff)
qed

lemma pump_sweeps:
  "map_of (rtRooms (fst (RTC_PumpTick me views s))) n = Some r \<Longrightarrow> rmLobbyManaged r \<Longrightarrow> n \<in> rvRoomName ` set views"
  by (auto simp: RTC_PumpTick_fields keep_room_def list_ex_iff dest!: map_of_SomeD)

lemma reconcile_views_quiet:
  assumes "smap_ok rooms"
    "\<And>v. v \<in> set views \<Longrightarrow> \<exists>r. map_of rooms (rvRoomName v) = Some r \<and> rmParticipants r = rvMemberPids v"
  shows "reconcile_views me views rooms = (rooms, [])"
  using assms(2)
proof (induction views)
  case (Cons v vs)
  then obtain r where r: "map_of rooms (rvRoomName v) = Some r" "rmParticipants r = rvMemberPids v" by auto
  have "reconcile_view me v rooms = (rooms, [])"
    using r smap_put_same [OF assms(1) r(1)] by (simp add: reconcile_view_def Let_def flip: r(2))
  with Cons show ?case by simp
qed simp

lemma sweep_quiet: "(\<And>e. e \<in> set rooms \<Longrightarrow> keep_room views e) \<Longrightarrow> sweep_rooms me views rooms = (rooms, [])"
  by (induction rooms) auto

lemma pump_quiet:
  assumes "rooms_ok (rtRooms s)" "views_ok views" "distinct (map rvRoomName views)"
  shows "RTC_PumpTick me views (fst (RTC_PumpTick me views s)) = (fst (RTC_PumpTick me views s), [])"
proof -
  let ?s = "fst (RTC_PumpTick me views s)"
  have "rooms_ok (rtRooms ?s)" by (rule pump_ok) fact+
  then have "reconcile_views me views (rtRooms ?s) = (rtRooms ?s, [])"
    using pump_rooms [OF assms] by (intro reconcile_views_quiet) (auto simp: rooms_ok_def)
  moreover have "sweep_rooms me views (rtRooms ?s) = (rtRooms ?s, [])"
    by (rule sweep_quiet) (auto simp: RTC_PumpTick_fields)
  ultimately show ?thesis by (simp add: RTC_PumpTick_def)
qed

section \<open>Any sequence of ticks and calls\<close>

inductive rtc_step :: "puid \<Rightarrow> rtc \<Rightarrow> rtc_task event list \<Rightarrow> rtc \<Rightarrow> bool" for me where
  pump: "views_ok views \<Longrightarrow> rtc_step me s (snd (RTC_PumpTick me views s)) (fst (RTC_PumpTick me views s))"
| joins: "rtc_step me s (snd (JoinRoom me latest options cd cb s)) (fst (JoinRoom me latest options cd cb s))"
| leaves: "rtc_step me s (snd (LeaveRoom latest options' cd cb s)) (fst (LeaveRoom latest options' cd cb s))"
| blocks: "rtc_step me s (snd (BlockParticipant latest blocked cd cb s)) (fst (BlockParticipant latest blocked cd cb s))"
| mutes: "rtc_step me s (snd (Audio_UpdateSending me latest status cd cb s)) (fst (Audio_UpdateSending me latest status cd cb s))"
| receives: "rtc_step me s (snd (Audio_UpdateReceiving latest enabled cd cb s)) (fst (Audio_UpdateReceiving latest enabled cd cb s))"
| listens: "rtc_step me s [] (snd (snd (Scoped_AddNotify g room cd fn c s)))"
| unlistens: "rtc_step me s [] (Scoped_RemoveNotify g i s)"

text \<open>The state reached, with what a game has heard so far.\<close>

inductive rtc_reach :: "puid \<Rightarrow> rtc \<Rightarrow> (string \<Rightarrow> puid set) \<Rightarrow> bool" for me where
  start: "rtc_reach me rtc_start (\<lambda>_. {})"
| step: "rtc_reach me s R \<Longrightarrow> rtc_step me s evs t \<Longrightarrow> rtc_reach me t (heard evs R)"

text \<open>What a call must do for a game's roster to stay right.\<close>

definition roster_step :: "rtc \<Rightarrow> rtc_task event list \<Rightarrow> rtc \<Rightarrow> bool" where
  "roster_step s evs t \<longleftrightarrow>
     (rooms_ok (rtRooms s) \<longrightarrow> rooms_ok (rtRooms t) \<and> heard evs (roster (rtRooms s)) = roster (rtRooms t))"

lemma roster_step_call:
  assumes "\<And>opt f res s1 evs. options = Some opt \<Longrightarrow> room_of options \<noteq> [] \<Longrightarrow> act (room_of options) opt s = (res, s1, evs) \<Longrightarrow>
      roster_step s (evs @ [EvPost (DoneTask f cd (info res))]) s1"
    and "\<And>res R. res \<noteq> EOS_Success \<Longrightarrow> hear_info (info res) R = R"
  shows "roster_step s (snd (complete_call cb cd info (room_call need latest options act) s))
    (fst (complete_call cb cd info (room_call need latest options act) s))"
proof (cases "\<exists>opt g. options = Some opt \<and> cb = Some g")
  case True
  then show ?thesis
    using assms by (auto simp: complete_call_def room_call_def roster_step_def split: prod.splits)
qed (use assms in \<open>auto simp: complete_call_def room_call_def roster_step_def split: option.splits prod.splits\<close>)

lemma smap_put_roster: "map_of rooms n = Some r \<Longrightarrow> rmParticipants q = rmParticipants r \<Longrightarrow>
    roster (smap_put n q rooms) = roster rooms"
  by (auto simp: roster_def map_of_smap_put_any fun_eq_iff)

lemma rooms_ok_status: "rooms_ok rooms \<Longrightarrow> map_of rooms n = Some r \<Longrightarrow>
    rooms_ok (smap_put n (r\<lparr>rmLocalAudioStatus := st\<rparr>) rooms)"
  using rooms_ok_get [of rooms n r] by (intro rooms_ok_put) simp_all

lemma roster_step_pump: "views_ok views \<Longrightarrow> roster_step s (snd (RTC_PumpTick me views s)) (fst (RTC_PumpTick me views s))"
  by (simp add: roster_step_def pump_heard pump_ok)

lemma roster_step_JoinRoom: "roster_step s (snd (JoinRoom me latest options cd cb s)) (fst (JoinRoom me latest options cd cb s))"
  unfolding JoinRoom_def
proof (rule roster_step_call, goal_cases)
  case (1 opt f res s1 evs)
  then show ?case
    by (auto simp: roster_step_def JoinCustomRoom_def heard_bundle roster_def map_of_smap_put_any fun_eq_iff
        intro!: rooms_ok_put split: if_splits option.splits)
qed simp

lemma roster_step_LeaveRoom: "roster_step s (snd (LeaveRoom latest options cd cb s)) (fst (LeaveRoom latest options cd cb s))"
  unfolding LeaveRoom_def
proof (rule roster_step_call, goal_cases)
  case (1 opt f res s1 evs)
  then show ?case
    by (auto simp: roster_step_def LeaveCustomRoom_def roster_def fun_eq_iff echo_def
        intro!: rooms_ok_delete split: if_splits option.splits prod.splits)
next
  case (2 res R)
  then show ?case by (cases res) simp_all
qed

lemma roster_step_UpdateSending:
  "roster_step s (snd (Audio_UpdateSending me latest options cd cb s)) (fst (Audio_UpdateSending me latest options cd cb s))"
  unfolding Audio_UpdateSending_def
proof (rule roster_step_call, goal_cases)
  case (1 opt f res s1 evs)
  then show ?case
    by (auto simp: roster_step_def SetLocalAudioStatus_def smap_put_roster FireAudioParticipantUpdated_def
        intro!: rooms_ok_status split: if_splits option.splits prod.splits)
qed simp

lemma roster_step_echo:
  assumes "\<And>res R. hear_info (info res) R = R"
  shows "roster_step s (snd (complete_call cb cd info (room_call need latest options (\<lambda>room opt s. (g room opt s, s, []))) s))
    (fst (complete_call cb cd info (room_call need latest options (\<lambda>room opt s. (g room opt s, s, []))) s))"
  by (rule roster_step_call) (auto simp: roster_step_def assms)

lemma roster_step_all: "rtc_step me s evs t \<Longrightarrow> roster_step s evs t"
proof (induction rule: rtc_step.induct)
  case (listens s g room cd fn c)
  then show ?case
    by (auto simp: roster_step_def Scoped_AddNotify_def split: option.split prod.split)
next
  case (unlistens s g i)
  then show ?case by (simp add: roster_step_def Scoped_RemoveNotify_def)
qed (auto intro: roster_step_pump roster_step_JoinRoom roster_step_LeaveRoom roster_step_UpdateSending
    simp: BlockParticipant_def Audio_UpdateReceiving_def roster_step_echo)

lemma roster_is_exact: "rtc_reach me s R \<Longrightarrow> rooms_ok (rtRooms s) \<and> R = roster (rtRooms s)"
proof (induction rule: rtc_reach.induct)
  case start
  then show ?case by (simp add: rtc_start_def rooms_ok_def roster_def)
next
  case (step s R evs t)
  then show ?case using roster_step_all [of me s evs t] by (simp add: roster_step_def)
qed

section \<open>The rooms of the lobbies\<close>

lemma views_ok_lobbies: "views_ok (SnapshotRTCRooms l)"
  by (auto simp: views_ok_def SnapshotRTCRooms_def split: option.splits if_splits)

lemma concat_map_sub:
  "(\<And>i. i \<in> set xs \<Longrightarrow> map f (g i) = [] \<or> map f (g i) = [h i]) \<Longrightarrow> inj_on h (set xs) \<Longrightarrow> distinct xs \<Longrightarrow>
   distinct (map f (concat (map g xs))) \<and> set (map f (concat (map g xs))) \<subseteq> h ` set xs"
proof (induction xs)
  case (Cons x xs)
  have IH: "distinct (map f (concat (map g xs))) \<and> set (map f (concat (map g xs))) \<subseteq> h ` set xs"
    using Cons.prems by (intro Cons.IH) auto
  moreover have "h x \<notin> h ` set xs" using Cons.prems by auto
  moreover have "map f (g x) = [] \<or> map f (g x) = [h x]" using Cons.prems(1) by simp
  ultimately show ?case by (auto simp del: set_map set_concat)
qed simp

lemma distinct_views: "distinct (lbMemberOf l) \<Longrightarrow> distinct (map rvRoomName (SnapshotRTCRooms l))"
  unfolding SnapshotRTCRooms_def
  by (rule concat_map_sub [where h = "\<lambda>i. ''rtc_'' @ i", THEN conjunct1]) (auto split: option.split simp: inj_on_def)

lemma SnapshotRTCRooms_mem: "i \<in> set (lbMemberOf l) \<Longrightarrow> map_of (lbKnown l) i = Some r \<Longrightarrow> lrRTCRoomEnabled r \<noteq> EOS_FALSE \<Longrightarrow>
    \<lparr>rvLobbyId = i, rvRoomName = ''rtc_'' @ i, rvMemberPids = map lmProductId (lrMembers r)\<rparr> \<in> set (SnapshotRTCRooms l)"
  by (force simp: SnapshotRTCRooms_def)

lemma SnapshotRTCRooms_memD: "v \<in> set (SnapshotRTCRooms l) \<Longrightarrow> \<exists>i r. i \<in> set (lbMemberOf l) \<and> map_of (lbKnown l) i = Some r \<and>
    lrRTCRoomEnabled r \<noteq> EOS_FALSE \<and> rvRoomName v = ''rtc_'' @ i \<and> rvMemberPids v = map lmProductId (lrMembers r)"
  unfolding SnapshotRTCRooms_def by (clarsimp split: option.splits if_splits) (metis append_Cons append_Nil)

text \<open>After a tick the rooms are those of the lobbies the node is a member of that ask for voice, with their
  members; nothing else is managed by the lobby system.\<close>

lemma voice_follows_lobbies:
  assumes "lobby_inv me l" "rooms_ok (rtRooms s)"
  shows "\<forall>i \<in> set (lbMemberOf l). \<forall>r. map_of (lbKnown l) i = Some r \<and> lrRTCRoomEnabled r \<noteq> EOS_FALSE \<longrightarrow>
      roster (rtRooms (fst (RTC_PumpTick me (SnapshotRTCRooms l) s))) (''rtc_'' @ i) = lmProductId ` set (lrMembers r)"
    and "\<forall>n. IsLobbyManagedRoom n (fst (RTC_PumpTick me (SnapshotRTCRooms l) s)) \<longrightarrow>
      (\<exists>i \<in> set (lbMemberOf l). n = ''rtc_'' @ i)"
proof -
  have d: "distinct (map rvRoomName (SnapshotRTCRooms l))"
    using assms(1) by (intro distinct_views) (auto simp: lobby_inv_def sset_ok_def strict_sorted_iff)
  note R = pump_rooms [OF assms(2) views_ok_lobbies d]
  show "\<forall>i \<in> set (lbMemberOf l). \<forall>r. map_of (lbKnown l) i = Some r \<and> lrRTCRoomEnabled r \<noteq> EOS_FALSE \<longrightarrow>
      roster (rtRooms (fst (RTC_PumpTick me (SnapshotRTCRooms l) s))) (''rtc_'' @ i) = lmProductId ` set (lrMembers r)"
  proof (intro ballI allI impI)
    fix i r assume i: "i \<in> set (lbMemberOf l)" and r: "map_of (lbKnown l) i = Some r \<and> lrRTCRoomEnabled r \<noteq> EOS_FALSE"
    show "roster (rtRooms (fst (RTC_PumpTick me (SnapshotRTCRooms l) s))) (''rtc_'' @ i) = lmProductId ` set (lrMembers r)"
      using R [OF SnapshotRTCRooms_mem [OF i conjunct1 [OF r] conjunct2 [OF r]], of me] by (auto simp: roster_def)
  qed
  show "\<forall>n. IsLobbyManagedRoom n (fst (RTC_PumpTick me (SnapshotRTCRooms l) s)) \<longrightarrow>
      (\<exists>i \<in> set (lbMemberOf l). n = ''rtc_'' @ i)"
    using pump_sweeps [of me "SnapshotRTCRooms l" s] SnapshotRTCRooms_memD [of _ l]
    by (fastforce simp: IsLobbyManagedRoom_def split: option.splits)
qed

text \<open>After a tick the lobby's room is connected for every lobby the node is a member of that asks for voice.\<close>

lemma lobby_room_connected:
  assumes "lobby_inv me l" "rooms_ok (rtRooms s)" "i \<in> set (lbMemberOf l)" "map_of (lbKnown l) i = Some r"
    "lrRTCRoomEnabled r \<noteq> EOS_FALSE"
  shows "IsRTCRoomConnected (Some (Some i)) True (fst (RTC_PumpTick me (SnapshotRTCRooms l) s)) = (EOS_Success, Some True)"
proof -
  have d: "distinct (map rvRoomName (SnapshotRTCRooms l))"
    using assms(1) by (intro distinct_views) (auto simp: lobby_inv_def sset_ok_def strict_sorted_iff)
  from pump_rooms [OF assms(2) views_ok_lobbies d SnapshotRTCRooms_mem [OF assms(3-5)], of me] show ?thesis
    by (auto simp: IsRTCRoomConnected_def IsInRoom_def)
qed

text \<open>A handler registered before the closures run hears the events posted before it was registered.\<close>

lemma late_listener_hears:
  assumes "room \<noteq> []" "Scoped_AddNotify OnParticipantStatusChanged (Some (Some room)) cd (Some f) c s = (i, c', t)"
  shows "(f, cd, ParticipantStatusInfo me room p joined) \<in>
    set (run_rtc_task conns t (FireTask (ParticipantStatusInfo me room p joined)))"
  using assms by (force simp: Scoped_AddNotify_def Room_Add_def NextId_def reg_add_def Room_Snapshot_def)

lemma EqualsNoCase_iff: "EqualsNoCase a b \<longleftrightarrow> Lower a = Lower b"
  by (induction a b rule: EqualsNoCase.induct) (auto simp: Lower_def)

lemma ValidateSetting_iff: "ValidateSetting (Some n) (Some v) = EOS_Success \<longleftrightarrow>
    n \<in> set setting_names \<and> (Lower v = Lower ''true'' \<or> Lower v = Lower ''false'')"
  by (simp add: ValidateSetting_def EqualsNoCase_iff)

end
