(* ===== verification/Overlay.thy ===== *)
theory Overlay
  imports Common Effects Lobby
begin

unbundle bit_operations_syntax

text \<open>
  The social overlay apart from the platform: the facade of \<open>src/overlay/Overlay.h\<close> with the state of
  \<open>OverlayInternal.h\<close> and the methods at the end of \<open>Overlay.cpp\<close>, and the state and calls of
  \<open>src/interfaces/UI.h\<close> and \<open>src/interfaces/UI.cpp\<close> that only drive it.  Windows, rendering and the
  swapchain hook are outside: what the render thread does to the shared state are the operations
  \<open>RequestToggle\<close>, \<open>RequestHide\<close>, \<open>QueueAction\<close>, \<open>PollHotkey\<close> and setting the exclusive flag.

  The key codes of the SDK are a parameter.  A call returns the closures it posts.
\<close>

section \<open>The overlay facade\<close>

datatype social_kind = OvLobbyInvite | OvSessionInvite | OvLobbyJoin | OvSessionJoin
datatype action_kind = ActAccept | ActReject | ActJoin

record social_item =
  oiKind :: social_kind
  oiId :: string
  oiLabel :: string

type_synonym social_action = "social_kind \<times> action_kind \<times> string"

text \<open>\<open>ovPresent\<close>: the facade has an implementation; \<open>ovUp\<close>: a backend is live.\<close>

record overlay =
  ovPresent :: bool
  ovUp :: bool
  ovWantVisible :: bool
  ovExclusive :: bool
  ovShortcut :: "int \<times> bool \<times> bool \<times> bool"
  ovHotkeyWasDown :: bool
  ovHasRequest :: bool
  ovRequestVisible :: bool
  ovToasts :: "(string \<times> time_ns) list"
  ovSocialItems :: "social_item list"
  ovSocialActions :: "social_action list"

definition overlay_init :: "bool \<Rightarrow> overlay" where
  "overlay_init present =
     \<lparr>ovPresent = present, ovUp = False, ovWantVisible = False, ovExclusive = False, ovShortcut = (0, False, False, False),
      ovHotkeyWasDown = False, ovHasRequest = False, ovRequestVisible = False, ovToasts = [], ovSocialItems = [],
      ovSocialActions = []\<rparr>"

definition Available :: "overlay \<Rightarrow> bool" where
  "Available o1 \<longleftrightarrow> ovPresent o1 \<and> ovUp o1"

text \<open>\<open>Start\<close> and \<open>Stop\<close>; whether a backend comes up is the environment's.\<close>

definition Overlay_Start :: "bool \<Rightarrow> bool \<Rightarrow> overlay \<Rightarrow> overlay" where
  "Overlay_Start enabled comes_up o1 =
     (if \<not> ovPresent o1 \<or> \<not> enabled \<or> ovUp o1 then o1 else o1\<lparr>ovUp := comes_up\<rparr>)"

definition Overlay_Stop :: "overlay \<Rightarrow> overlay" where
  "Overlay_Stop o1 = (if ovPresent o1 then o1\<lparr>ovUp := False\<rparr> else o1)"

definition Overlay_SetVisible :: "bool \<Rightarrow> overlay \<Rightarrow> overlay" where
  "Overlay_SetVisible v o1 = (if ovPresent o1 then o1\<lparr>ovWantVisible := v\<rparr> else o1)"

definition IsExclusiveInput :: "overlay \<Rightarrow> bool" where
  "IsExclusiveInput o1 \<longleftrightarrow> ovPresent o1 \<and> ovExclusive o1"

definition SetToggleShortcut :: "int \<Rightarrow> bool \<Rightarrow> bool \<Rightarrow> bool \<Rightarrow> overlay \<Rightarrow> overlay" where
  "SetToggleShortcut vk shift ctrl alt o1 =
     (if ovPresent o1 then o1\<lparr>ovShortcut := (vk, shift, ctrl, alt)\<rparr> else o1)"

definition ConsumeUserVisibilityRequest :: "overlay \<Rightarrow> bool option \<times> overlay" where
  "ConsumeUserVisibilityRequest o1 =
     (if \<not> ovPresent o1 \<or> \<not> ovHasRequest o1 then (None, o1)
      else (Some (ovRequestVisible o1), o1\<lparr>ovHasRequest := False\<rparr>))"

definition PushToast :: "time_ns \<Rightarrow> string \<Rightarrow> overlay \<Rightarrow> overlay" where
  "PushToast now text o1 = (if ovPresent o1 then o1\<lparr>ovToasts := ovToasts o1 @ [(text, now + secs 4)]\<rparr> else o1)"

definition SetSocialItems :: "social_item list \<Rightarrow> overlay \<Rightarrow> overlay" where
  "SetSocialItems items o1 = (if ovPresent o1 then o1\<lparr>ovSocialItems := items\<rparr> else o1)"

definition ConsumeSocialActions :: "overlay \<Rightarrow> social_action list \<times> overlay" where
  "ConsumeSocialActions o1 =
     (if ovPresent o1 then (ovSocialActions o1, o1\<lparr>ovSocialActions := []\<rparr>) else ([], o1))"

text \<open>What the render thread does.\<close>

definition RequestToggle :: "overlay \<Rightarrow> overlay" where
  "RequestToggle o1 = o1\<lparr>ovHasRequest := True, ovRequestVisible := \<not> ovWantVisible o1\<rparr>"

definition RequestHide :: "overlay \<Rightarrow> overlay" where
  "RequestHide o1 = o1\<lparr>ovHasRequest := True, ovRequestVisible := False, ovWantVisible := False\<rparr>"

definition QueueAction :: "social_action \<Rightarrow> overlay \<Rightarrow> overlay" where
  "QueueAction a o1 = o1\<lparr>ovSocialActions := ovSocialActions o1 @ [a]\<rparr>"

text \<open>The keys held down are arguments: the shortcut key and the three modifiers.\<close>

definition PollHotkey :: "bool \<Rightarrow> bool \<Rightarrow> bool \<Rightarrow> bool \<Rightarrow> overlay \<Rightarrow> overlay" where
  "PollHotkey key shift ctrl alt o1 =
     (case ovShortcut o1 of (vk, xs, xc, xa) \<Rightarrow>
        if vk = 0 then o1\<lparr>ovHotkeyWasDown := False\<rparr>
        else let ok = key \<and> (xs \<longrightarrow> shift) \<and> (xc \<longrightarrow> ctrl) \<and> (xa \<longrightarrow> alt);
                 o2 = (if ok \<and> \<not> ovHotkeyWasDown o1 then RequestToggle o1 else o1)
             in o2\<lparr>ovHotkeyWasDown := ok\<rparr>)"

section \<open>State of the interface\<close>

record key_codes =
  kEosShift :: int
  kEosCtrl :: int
  kEosAlt :: int
  kEosMeta :: int
  kEosKeyMask :: int
  kEosF1 :: int
  kEosF3 :: int
  kEosF12 :: int
  kEosSpace :: int
  kEosBackspace :: int
  kEosEscape :: int
  kEosTab :: int

record ui =
  uiVisible :: bool
  uiPaused :: bool
  uiWasVisibleBeforePause :: bool
  uiLastVisible :: bool
  uiLastExclusive :: bool
  uiPendingInitialNotify :: bool
  uiDisplayNotifies :: "nentry list"
  uiMemoryNotifies :: "nentry list"
  uiAutoAccept :: bool
  uiAutoJoin :: bool
  uiHandledInvites :: "string set"
  uiHandledJoins :: "string set"
  uiToggleKey :: int
  uiToggleButton :: int
  uiNotifyLocation :: int

definition kDefaultToggle :: "key_codes \<Rightarrow> int" where
  "kDefaultToggle C = (kEosShift C OR kEosF3 C)"

definition EosKeyToVk :: "key_codes \<Rightarrow> int \<Rightarrow> int" where
  "EosKeyToVk C k =
     (if k \<ge> kEosF1 C \<and> k \<le> kEosF12 C then 0x70 + (k - kEosF1 C)
      else if k = kEosSpace C then 0x20
      else if k = kEosBackspace C then 0x08
      else if k = kEosEscape C then 0x1B
      else if k = kEosTab C then 0x09
      else 0)"

definition ApplyToggleShortcut :: "key_codes \<Rightarrow> ui \<Rightarrow> overlay \<Rightarrow> overlay" where
  "ApplyToggleShortcut C u o1 =
     (let combo = uiToggleKey u in
      SetToggleShortcut (EosKeyToVk C (combo AND kEosKeyMask C))
        (combo AND kEosShift C \<noteq> 0) (combo AND kEosCtrl C \<noteq> 0) (combo AND kEosAlt C \<noteq> 0) o1)"

text \<open>The environment flags: set, and not starting with a zero.\<close>

definition EnvFlag :: "string option \<Rightarrow> bool" where
  "EnvFlag v = (case v of None \<Rightarrow> False | Some s \<Rightarrow> s = [] \<or> hd s \<noteq> CHR ''0'')"

definition ui_new ::
  "key_codes \<Rightarrow> int \<Rightarrow> int \<Rightarrow> string option \<Rightarrow> string option \<Rightarrow> overlay \<Rightarrow> ui \<times> overlay" where
  "ui_new C no_button bottom_right accept join o1 =
     (let u = \<lparr>uiVisible = False, uiPaused = False, uiWasVisibleBeforePause = False, uiLastVisible = False,
                uiLastExclusive = False, uiPendingInitialNotify = False, uiDisplayNotifies = [], uiMemoryNotifies = [],
                uiAutoAccept = EnvFlag accept, uiAutoJoin = EnvFlag join, uiHandledInvites = {}, uiHandledJoins = {},
                uiToggleKey = kDefaultToggle C, uiToggleButton = no_button, uiNotifyLocation = bottom_right\<rparr>
      in (u, ApplyToggleShortcut C u o1))"

definition SetVisibleInternal :: "bool \<Rightarrow> ui \<times> overlay \<Rightarrow> ui \<times> overlay" where
  "SetVisibleInternal v uo =
     (case uo of (u, o1) \<Rightarrow>
        if uiVisible u = v then (u, o1) else (u\<lparr>uiVisible := v\<rparr>, Overlay_SetVisible v o1))"

definition IsValidKeyCombination :: "key_codes \<Rightarrow> int \<Rightarrow> bool" where
  "IsValidKeyCombination C combo \<longleftrightarrow>
     (let k = combo AND kEosKeyMask C in
      combo AND (kEosShift C OR kEosCtrl C OR kEosAlt C OR kEosMeta C) \<noteq> 0 \<and>
      (k \<ge> kEosF1 C \<and> k \<le> kEosF12 C \<or> k = kEosSpace C \<or> k = kEosBackspace C \<or> k = kEosEscape C \<or> k = kEosTab C))"

definition SetToggleKey :: "key_codes \<Rightarrow> int \<Rightarrow> ui \<times> overlay \<Rightarrow> eresult \<times> ui \<times> overlay" where
  "SetToggleKey C k uo =
     (case uo of (u, o1) \<Rightarrow>
        if k \<noteq> 0 \<and> \<not> IsValidKeyCombination C k then (EOS_InvalidParameters, u, o1)
        else let k' = (if k = 0 then kDefaultToggle C else k) in
          if k' = uiToggleKey u then (EOS_NoChange, u, o1)
          else let u' = u\<lparr>uiToggleKey := k'\<rparr> in (EOS_Success, u', ApplyToggleShortcut C u' o1))"

definition SetToggleButton :: "int \<Rightarrow> ui \<Rightarrow> eresult \<times> ui" where
  "SetToggleButton b u = (if b = uiToggleButton u then (EOS_NoChange, u) else (EOS_Success, u\<lparr>uiToggleButton := b\<rparr>))"

definition SetDisplayPreference :: "int \<Rightarrow> ui \<Rightarrow> eresult \<times> ui" where
  "SetDisplayPreference l u =
     (if l = uiNotifyLocation u then (EOS_NoChange, u) else (EOS_Success, u\<lparr>uiNotifyLocation := l\<rparr>))"

definition PauseSocialOverlay :: "bool \<Rightarrow> ui \<times> overlay \<Rightarrow> eresult \<times> ui \<times> overlay" where
  "PauseSocialOverlay paused uo =
     (case uo of (u, o1) \<Rightarrow>
        (EOS_Success,
         if paused \<and> \<not> uiPaused u then
           (case (let u1 = u\<lparr>uiWasVisibleBeforePause := uiVisible u\<rparr> in
                  if uiVisible u1 then SetVisibleInternal False (u1, o1) else (u1, o1))
            of (u2, o2) \<Rightarrow> (u2\<lparr>uiPaused := True\<rparr>, o2))
         else if \<not> paused \<and> uiPaused u then
           (case (let u1 = u\<lparr>uiPaused := False\<rparr> in
                  if uiWasVisibleBeforePause u1 then SetVisibleInternal True (u1, o1) else (u1, o1))
            of (u2, o2) \<Rightarrow> (u2\<lparr>uiPendingInitialNotify := True\<rparr>, o2))
         else (u, o1)))"

datatype ui_task =
    ShowFriendsDone nat nat eresult "epic option"
  | HideFriendsDone nat nat eresult "epic option"
  | DisplaySettingsCb nat nat bool bool
  | PlayerModalDone nat nat "epic option" "epic option"

definition ShowFriends ::
  "epic option \<Rightarrow> nat \<Rightarrow> nat option \<Rightarrow> ui \<times> overlay \<Rightarrow> (ui \<times> overlay) \<times> ui_task event list" where
  "ShowFriends local cd cb uo =
     (case uo of (u, o1) \<Rightarrow>
        if \<not> Available o1 then (uo, complete cb (\<lambda>f. ShowFriendsDone f cd EOS_NotConfigured local))
        else ((if \<not> uiPaused u then SetVisibleInternal True (u, o1) else (u\<lparr>uiWasVisibleBeforePause := True\<rparr>, o1)),
              complete cb (\<lambda>f. ShowFriendsDone f cd (if uiVisible u then EOS_NoChange else EOS_Success) local)))"

definition HideFriends ::
  "epic option \<Rightarrow> nat \<Rightarrow> nat option \<Rightarrow> ui \<times> overlay \<Rightarrow> (ui \<times> overlay) \<times> ui_task event list" where
  "HideFriends local cd cb uo =
     (SetVisibleInternal False uo,
      complete cb (\<lambda>f. HideFriendsDone f cd (if uiVisible (fst uo) then EOS_Success else EOS_NoChange) local))"

text \<open>The modal flows: block, report, profile; \<open>name\<close> is the target's display name.\<close>

definition ShowPlayerModal :: "time_ns \<Rightarrow> string \<Rightarrow> string \<Rightarrow> ui \<times> overlay \<Rightarrow> ui \<times> overlay" where
  "ShowPlayerModal now kind name uo =
     (case uo of (u, o1) \<Rightarrow>
        let o2 = PushToast now (kind @ '': '' @ (if name = [] then ''player'' else name)) o1 in
        if \<not> uiPaused u then SetVisibleInternal True (u, o2) else (u, o2))"

definition FireDisplaySettings :: "bool \<Rightarrow> bool \<Rightarrow> ui \<Rightarrow> ui_task event list" where
  "FireDisplaySettings v x u = map (\<lambda>e. EvPost (DisplaySettingsCb (neFn e) (neCd e) v x)) (uiDisplayNotifies u)"

definition AddNotifyDisplaySettingsUpdated :: "nat option \<Rightarrow> nat \<Rightarrow> nat \<Rightarrow> ui \<Rightarrow> nat \<times> nat \<times> ui" where
  "AddNotifyDisplaySettingsUpdated fn cd c u =
     (case Notify_Add fn cd c (uiDisplayNotifies u) of (i, c', es) \<Rightarrow>
        let u1 = u\<lparr>uiDisplayNotifies := es\<rparr> in
        (i, c', if i \<noteq> EOS_INVALID_NOTIFICATIONID then u1\<lparr>uiPendingInitialNotify := True\<rparr> else u1))"

definition RemoveNotifyDisplaySettingsUpdated :: "nat \<Rightarrow> ui \<Rightarrow> ui" where
  "RemoveNotifyDisplaySettingsUpdated i u = u\<lparr>uiDisplayNotifies := Notify_Remove i (uiDisplayNotifies u)\<rparr>"

definition AddNotifyMemoryMonitor :: "nat option \<Rightarrow> nat \<Rightarrow> nat \<Rightarrow> ui \<Rightarrow> nat \<times> nat \<times> ui" where
  "AddNotifyMemoryMonitor fn cd c u =
     (case Notify_Add fn cd c (uiMemoryNotifies u) of (i, c', es) \<Rightarrow> (i, c', u\<lparr>uiMemoryNotifies := es\<rparr>))"

definition RemoveNotifyMemoryMonitor :: "nat \<Rightarrow> ui \<Rightarrow> ui" where
  "RemoveNotifyMemoryMonitor i u = u\<lparr>uiMemoryNotifies := Notify_Remove i (uiMemoryNotifies u)\<rparr>"

section \<open>Requests of the render thread\<close>

text \<open>The loop that drains visibility requests: a request is taken out, so it ends.\<close>

function drain_requests :: "ui \<times> overlay \<Rightarrow> ui \<times> overlay" where
  "drain_requests (u, o1) =
     (case ConsumeUserVisibilityRequest o1 of
        (None, o2) \<Rightarrow> (u, o2)
      | (Some v, o2) \<Rightarrow> drain_requests (if \<not> uiPaused u then SetVisibleInternal v (u, o2) else (u, o2)))"
  by pat_completeness auto
termination
  by (relation "measure (\<lambda>(u, o1). if ovHasRequest o1 then 1 else 0)")
    (auto simp: ConsumeUserVisibilityRequest_def SetVisibleInternal_def Overlay_SetVisible_def split: if_splits)

declare drain_requests.simps [simp del]

end
