(* ===== verification/Platform.thy ===== *)
theory Platform
  imports Discovery CustomInvites Dispatch Config SteamId Identity P2POps LobbyNet SessionExports Stats Achievements
    RTC Overlay
begin

text \<open>
  The platform, \<open>src/core/Platform.h\<close> and \<open>src/core/Platform.cpp\<close>: one object that owns
  every component, routes received datagrams to them and drives them from \<open>EOS_Platform_Tick\<close>;
  and the process-wide lifecycle around it.

  The components are the theories imported here; each returns its new state and a list of events,
  which \<open>perform\<close> carries out in order: a transport call becomes datagrams through the node, a
  posted closure enters the dispatcher.  Datagrams handed to the operating system are the output of
  every operation.  Clock readings, the network adapters, files and environment variables, and the
  answer of a loaded Steam module are arguments.

  The state of the overlay and of its interface is kept beside the platform: the calls that need both, and
  the whole tick, are in theory UI.  The log sink is not modelled.
\<close>

section \<open>State\<close>

datatype platform_task =
    TaskP2P p2p_task | TaskLobby lobby_task | TaskSession session_task
  | TaskPresence presence_task | TaskCustom custom_task | TaskRTC rtc_task | TaskUI ui_task

record platform =
  plConfig :: config
  plIdentity :: identity
  plNode :: node
  plPeers :: peer_dir
  plDispatch :: "platform_task dispatcher"
  plTickCount :: u64
  plLastHello :: time_ns
  plPeerTimeout :: time_ns
  plLocalPresence :: local_presence
  plHelloDirty :: bool
  plP2P :: p2p
  plLobby :: lobbies
  plSessions :: sessions
  plPresence :: presence
  plCustom :: custom_invites
  plRTC :: rtc
  plCacheDirectory :: string
  plProductId :: string
  plFlags :: u64
  plSteamId :: u64
  plLocale :: string
  plOverrideLocale :: string
  plCountry :: string
  plOverrideCountry :: string

text \<open>\<open>g_ProductName\<close> and \<open>g_ProductVersion\<close>.\<close>

record init_names =
  inName :: string
  inVersion :: string

text \<open>What the components read of the platform.\<close>

definition local_pid :: "platform \<Rightarrow> string" where
  "local_pid p = id_text (idProduct (plIdentity p))"

definition p2p_env_of :: "platform \<Rightarrow> p2p_env" where
  "p2p_env_of p = \<lparr>peNode = plNode p, peLocal = local_pid p, pePeers = plPeers p\<rparr>"

definition lobby_env_of :: "platform \<Rightarrow> lobby_env" where
  "lobby_env_of p = \<lparr>leLocal = local_pid p, lePeers = plPeers p, leTick = plTickCount p\<rparr>"

definition session_env_of :: "platform \<Rightarrow> session_env" where
  "session_env_of p = \<lparr>veLocal = local_pid p, vePeers = plPeers p, veTick = plTickCount p, vePort = ndUnicastPort (plNode p)\<rparr>"

definition presence_env_of :: "init_names \<Rightarrow> platform \<Rightarrow> presence_env" where
  "presence_env_of G p =
     \<lparr>neEpic = idEpic (plIdentity p), nePeers = plPeers p, neProductId = plProductId p,
      neInitVersion = inVersion G, neInitName = inName G\<rparr>"

section \<open>Carrying out events\<close>

record world =
  wdNow :: time_ns
  wdAdapters :: "(u32 \<times> u32) list"

definition net_out :: "world \<Rightarrow> net_call \<Rightarrow> node \<Rightarrow> dgram list \<times> node" where
  "net_out w c nd =
     (case c of
        CallSendTo to ty payload n \<Rightarrow> (SendTo nd to ty payload n, nd)
      | CallBroadcast ty payload n \<Rightarrow> Broadcast (wdNow w) (wdAdapters w) nd ty payload n)"

definition post_task :: "platform_task \<Rightarrow> platform \<Rightarrow> platform" where
  "post_task t p = p\<lparr>plDispatch := Post t (plDispatch p)\<rparr>"

fun perform :: "world \<Rightarrow> ('a \<Rightarrow> platform_task) \<Rightarrow> 'a event list \<Rightarrow> platform \<Rightarrow> dgram list \<times> platform" where
  "perform w f [] p = ([], p)"
| "perform w f (EvPost t # evs) p = perform w f evs (post_task (f t) p)"
| "perform w f (EvNet c # evs) p =
     (case net_out w c (plNode p) of (ds, nd) \<Rightarrow>
      case perform w f evs (p\<lparr>plNode := nd\<rparr>) of (ds', p') \<Rightarrow> (ds @ ds', p'))"

text \<open>The peer-to-peer interface hands its datagrams to the node itself.\<close>

fun perform_p2p :: "p2p_event list \<Rightarrow> platform \<Rightarrow> dgram list \<times> platform" where
  "perform_p2p [] p = ([], p)"
| "perform_p2p (Posted t # evs) p = perform_p2p evs (post_task (TaskP2P t) p)"
| "perform_p2p (Sent d # evs) p = (case perform_p2p evs p of (ds, p') \<Rightarrow> (d # ds, p'))"

section \<open>Received datagrams\<close>

definition notify_presence :: "init_names \<Rightarrow> world \<Rightarrow> epic option \<Rightarrow> platform \<Rightarrow> platform" where
  "notify_presence G w peer p = snd (perform w TaskPresence (NotifyPresenceChanged (presence_env_of G p) peer (plPresence p)) p)"

definition NotifyPeerOffline :: "init_names \<Rightarrow> world \<Rightarrow> PeerInfo \<Rightarrow> platform \<Rightarrow> platform" where
  "NotifyPeerOffline G w i p = (case piEpic i of None \<Rightarrow> p | Some e \<Rightarrow> notify_presence G w (Some e) p)"

definition on_hello :: "init_names \<Rightarrow> world \<Rightarrow> Endpoint \<Rightarrow> bytes \<Rightarrow> platform \<Rightarrow> platform" where
  "on_hello G w from payload p =
     (case read_hello payload of
        None \<Rightarrow> p
      | Some h \<Rightarrow>
        (case Observe (wdNow w) (heProductId h) (heEpicId h) (heDisplayName h) (hePresence h) from (plPeers p) of
           (changed, peers) \<Rightarrow>
             let p1 = p\<lparr>plPeers := peers\<rparr> in
             if changed \<and> heEpicId h \<noteq> [] then notify_presence G w (intern (heEpicId h)) p1 else p1))"

definition on_goodbye :: "init_names \<Rightarrow> world \<Rightarrow> bytes \<Rightarrow> platform \<Rightarrow> platform" where
  "on_goodbye G w payload p =
     (case read_goodbye payload of
        None \<Rightarrow> p
      | Some pid \<Rightarrow>
        (case MarkOffline pid (plPeers p) of
           (None, peers) \<Rightarrow> p\<lparr>plPeers := peers\<rparr>
         | (Some i, peers) \<Rightarrow> NotifyPeerOffline G w i (p\<lparr>plPeers := peers\<rparr>)))"

definition route_p2p :: "sdk \<Rightarrow> world \<Rightarrow> Endpoint \<Rightarrow> MessageType \<Rightarrow> bytes \<Rightarrow> platform \<Rightarrow> dgram list \<times> platform" where
  "route_p2p K w from ty payload p =
     (case OnDatagram (p2p_env_of p) K (wdNow w) from ty payload (plP2P p) of (s, ev) \<Rightarrow>
        perform_p2p ev (p\<lparr>plP2P := s\<rparr>))"

definition route_lobby :: "sdk \<Rightarrow> world \<Rightarrow> Endpoint \<Rightarrow> MessageType \<Rightarrow> bytes \<Rightarrow> platform \<Rightarrow> dgram list \<times> platform" where
  "route_lobby K w from ty payload p =
     (case Lobby_OnDatagram (lobby_env_of p) K from ty payload (plLobby p) of (s, ev) \<Rightarrow>
        perform w TaskLobby ev (p\<lparr>plLobby := s\<rparr>))"

definition route_session :: "sdk \<Rightarrow> world \<Rightarrow> Endpoint \<Rightarrow> MessageType \<Rightarrow> bytes \<Rightarrow> platform \<Rightarrow> dgram list \<times> platform" where
  "route_session K w from ty payload p =
     (case Sessions_OnDatagram (session_env_of p) K from ty payload (plSessions p) of (s, ev) \<Rightarrow>
        perform w TaskSession ev (p\<lparr>plSessions := s\<rparr>))"

definition route_custom :: "world \<Rightarrow> MessageType \<Rightarrow> bytes \<Rightarrow> platform \<Rightarrow> dgram list \<times> platform" where
  "route_custom w ty payload p =
     (case Custom_OnDatagram (idProduct (plIdentity p)) ty payload (plCustom p) of (s, ev) \<Rightarrow>
        perform w TaskCustom ev (p\<lparr>plCustom := s\<rparr>))"

definition Platform_OnDatagram ::
  "init_names \<Rightarrow> sdk \<Rightarrow> world \<Rightarrow> Endpoint \<Rightarrow> WireHeader \<Rightarrow> bytes \<Rightarrow> platform \<Rightarrow> dgram list \<times> platform" where
  "Platform_OnDatagram G K w from h payload p =
     (case mt_of_code (whType h) of
        None \<Rightarrow> ([], p)
      | Some Hello \<Rightarrow> ([], on_hello G w from payload p)
      | Some Goodbye \<Rightarrow> ([], on_goodbye G w payload p)
      | Some ty \<Rightarrow>
        if ty \<in> {P2PData, P2PConnectRequest, P2PConnectAccept, P2PConnectClose, P2PAck, P2PConnectIgnored}
        then route_p2p K w from ty payload p
        else if ty \<in> {LobbyAnnounce, LobbyUpdate, LobbyJoinRequest, LobbyJoinResponse, LobbyLeave, LobbyInvite}
        then route_lobby K w from ty payload p
        else if ty \<in> {SessionAnnounce, SessionWithdraw, SessionInvite}
        then route_session K w from ty payload p
        else route_custom w ty payload p)"

text \<open>One datagram off the socket: the receive loop of the node, then the router.\<close>

definition platform_receive ::
  "init_names \<Rightarrow> sdk \<Rightarrow> world \<Rightarrow> u32 \<Rightarrow> bytes \<Rightarrow> platform \<Rightarrow> dgram list \<times> platform" where
  "platform_receive G K w src d p =
     (case receive_datagram (plNode p) src d of
        None \<Rightarrow> ([], p)
      | Some (from, h, payload) \<Rightarrow> Platform_OnDatagram G K w from h payload p)"

section \<open>Announcing\<close>

definition hello_of :: "init_names \<Rightarrow> platform \<Rightarrow> hello" where
  "hello_of G p =
     \<lparr>heProductId = idProductStr (plIdentity p), heEpicId = idEpicStr (plIdentity p),
      heDisplayName = idDisplayName (plIdentity p),
      hePresence = \<lparr>ppStatus = lpStatus (plLocalPresence p), ppRichText = lpRichText (plLocalPresence p),
        ppJoinInfo = lpJoinInfo (plLocalPresence p), ppProductId = plProductId p,
        ppProductVersion = inVersion G, ppProductName = inName G, ppData = lpData (plLocalPresence p)\<rparr>\<rparr>"

definition broadcast :: "world \<Rightarrow> MessageType \<Rightarrow> bytes \<Rightarrow> platform \<Rightarrow> dgram list \<times> platform" where
  "broadcast w ty payload p =
     (case Broadcast (wdNow w) (wdAdapters w) (plNode p) ty payload (W_Size payload) of (ds, nd) \<Rightarrow> (ds, p\<lparr>plNode := nd\<rparr>))"

definition BroadcastHello :: "init_names \<Rightarrow> world \<Rightarrow> platform \<Rightarrow> dgram list \<times> platform" where
  "BroadcastHello G w p = broadcast w Hello (enc_hello (hello_of G p)) p"

definition BroadcastGoodbye :: "world \<Rightarrow> platform \<Rightarrow> dgram list \<times> platform" where
  "BroadcastGoodbye w p = broadcast w Goodbye (enc_goodbye (idProductStr (plIdentity p))) p"

text \<open>\<open>EOS_Presence_SetPresence\<close> through \<open>Platform::SetLocalPresence\<close>.\<close>

definition SetLocalPresence :: "local_presence \<Rightarrow> platform \<Rightarrow> platform" where
  "SetLocalPresence lp p = p\<lparr>plLocalPresence := lp, plHelloDirty := True\<rparr>"

definition Platform_SetPresence ::
  "init_names \<Rightarrow> world \<Rightarrow> epic option \<Rightarrow> PresenceModificationObj option \<Rightarrow> nat \<Rightarrow> nat option \<Rightarrow> platform \<Rightarrow> platform" where
  "Platform_SetPresence G w user handle cd cb p =
     (case SetPresence (presence_env_of G p) user handle cd cb (plPresence p) of (s, lp, ev) \<Rightarrow>
        let p1 = p\<lparr>plPresence := s\<rparr>; p2 = (case lp of None \<Rightarrow> p1 | Some x \<Rightarrow> SetLocalPresence x p1)
        in snd (perform w TaskPresence ev p2))"

section \<open>Tick\<close>

definition then_do :: "dgram list \<times> platform \<Rightarrow> (platform \<Rightarrow> dgram list \<times> platform) \<Rightarrow> dgram list \<times> platform" where
  "then_do x f = (case x of (ds, p) \<Rightarrow> case f p of (ds', p') \<Rightarrow> (ds @ ds', p'))"

definition hello_due :: "time_ns \<Rightarrow> platform \<Rightarrow> bool" where
  "hello_due now p \<longleftrightarrow> now - plLastHello p \<ge> secs 2"

definition tick_announce :: "init_names \<Rightarrow> sdk \<Rightarrow> world \<Rightarrow> platform \<Rightarrow> dgram list \<times> platform" where
  "tick_announce G K w p =
     (let due = hello_due (wdNow w) p;
          step1 = (if plHelloDirty p \<or> due then BroadcastHello G w (p\<lparr>plHelloDirty := False\<rparr>) else ([], p))
      in if due
         then then_do (then_do step1
                (\<lambda>q. perform w TaskLobby (PeriodicAnnounce K (plLobby q)) (q\<lparr>plLastHello := wdNow w\<rparr>)))
                (\<lambda>q. perform w TaskSession (Session_PeriodicAnnounce K (plSessions q)) q)
         else step1)"

definition tick_stale :: "init_names \<Rightarrow> world \<Rightarrow> platform \<Rightarrow> platform" where
  "tick_stale G w p =
     (case MarkStale (wdNow w) (plPeerTimeout p) (plPeers p) of (gone, peers) \<Rightarrow>
        fold (NotifyPeerOffline G w) gone (p\<lparr>plPeers := peers\<rparr>))"

definition tick_pump :: "sdk \<Rightarrow> world \<Rightarrow> platform \<Rightarrow> dgram list \<times> platform" where
  "tick_pump K w p =
     (case Pump (p2p_env_of p) K (wdNow w) (plP2P p) of (s, ev) \<Rightarrow> perform_p2p ev (p\<lparr>plP2P := s\<rparr>))"

definition tick_rtc :: "world \<Rightarrow> platform \<Rightarrow> dgram list \<times> platform" where
  "tick_rtc w p =
     (case RTC_PumpTick (local_pid p) (SnapshotRTCRooms (plLobby p)) (plRTC p) of (s, ev) \<Rightarrow>
        perform w TaskRTC ev (p\<lparr>plRTC := s\<rparr>))"

text \<open>\<open>Tick\<close> up to the UI pump and the drain (theory UI).\<close>

definition tick_work :: "init_names \<Rightarrow> sdk \<Rightarrow> world \<Rightarrow> platform \<Rightarrow> dgram list \<times> platform" where
  "tick_work G K w p =
     then_do
       (then_do (tick_announce G K w (p\<lparr>plTickCount := plTickCount p + 1\<rparr>)) (\<lambda>q. tick_pump K w (tick_stale G w q)))
       (tick_rtc w)"

section \<open>Locale, country and account\<close>

definition SetOverrideLocaleCode :: "string option \<Rightarrow> platform \<Rightarrow> platform" where
  "SetOverrideLocaleCode code p =
     (let c = (case code of None \<Rightarrow> [] | Some x \<Rightarrow> x) in
      p\<lparr>plOverrideLocale := c, plLocale := (if c = [] then ''en'' else c)\<rparr>)"

definition SetOverrideCountryCode :: "string option \<Rightarrow> platform \<Rightarrow> platform" where
  "SetOverrideCountryCode code p =
     (let c = (case code of None \<Rightarrow> [] | Some x \<Rightarrow> x) in p\<lparr>plOverrideCountry := c, plCountry := c\<rparr>)"

text \<open>The copy of a string getter; both pointers are checked first.\<close>

definition CopyFixedString :: "string \<Rightarrow> bool \<Rightarrow> int option \<Rightarrow> eresult \<times> int option \<times> string option" where
  "CopyFixedString v has_buffer len =
     (case len of
        None \<Rightarrow> (EOS_InvalidParameters, None, None)
      | Some n \<Rightarrow>
        if \<not> has_buffer then (EOS_InvalidParameters, Some n, None)
        else (case sized_copy (c_str v) True n of (r, m, t) \<Rightarrow> (r, Some m, t)))"

definition LocalSteamId :: "u64 \<Rightarrow> platform \<Rightarrow> u64 \<times> platform" where
  "LocalSteamId query p =
     (if plSteamId p = 0 then (if query \<noteq> 0 then (query, p\<lparr>plSteamId := query\<rparr>) else (0, p)) else (plSteamId p, p))"

definition NoteSteamSessionTicket :: "u64 \<Rightarrow> string option \<Rightarrow> platform \<Rightarrow> platform" where
  "NoteSteamSessionTicket query token p =
     (case LocalSteamId query p of (i, p1) \<Rightarrow>
        if i \<noteq> 0 then p1
        else let t = FromSessionTicketHex token in if t \<noteq> 0 then p1\<lparr>plSteamId := t\<rparr> else p1)"

end
