(* ===== verification/Friends.thy ===== *)
theory Friends
  imports Peers Records Common Effects
begin

text \<open>
  Friends and user info, \<open>src/interfaces/Friends.h\<close>, \<open>Friends.cpp\<close>, \<open>UserInfo.h\<close> and
  \<open>UserInfo.cpp\<close>: both answer from the peer directory (theory Peers) and the local identity.
  Everyone ever seen on the network is a friend, online or not; a display name is that of the local
  user or of the peer with the account.

  The facts: the friend list is the sorted list of the accounts of the directory, the index accessor
  enumerates it, and the status query agrees with it.
\<close>

section \<open>Friends\<close>

record friends =
  frFriendsUpdate :: "nentry list"
  frBlockedUpdate :: "nentry list"

datatype friends_task =
    QueryFriendsDone nat nat "epic option"
  | FriendResult nat nat "epic option" "epic option"

definition known_epics :: "PeerInfo list \<Rightarrow> epic list" where
  "known_epics is = concat (map (\<lambda>i. case piEpic i of None \<Rightarrow> [] | Some e \<Rightarrow> [e]) is)"

definition FriendSnapshot :: "peer_dir \<Rightarrow> epic list" where
  "FriendSnapshot d = sort (known_epics (Snapshot d))"

text \<open>The counts are \<open>int32_t\<close>.\<close>

definition to_int32 :: "nat \<Rightarrow> int" where
  "to_int32 n = sint (word_of_nat n :: u32)"

definition GetFriendsCount :: "peer_dir \<Rightarrow> int" where
  "GetFriendsCount d = to_int32 (length (FriendSnapshot d))"

definition GetFriendAtIndex :: "int \<Rightarrow> peer_dir \<Rightarrow> epic option" where
  "GetFriendAtIndex i d =
     (let fs = FriendSnapshot d in if i < 0 \<or> i \<ge> to_int32 (length fs) then None else Some (fs ! nat i))"

datatype friends_status = EOS_FS_NotFriends | EOS_FS_Friends

definition GetFriendStatus :: "epic option \<Rightarrow> peer_dir \<Rightarrow> friends_status" where
  "GetFriendStatus target d =
     (if target = None then EOS_FS_NotFriends
      else if FindByEpic d target \<noteq> None then EOS_FS_Friends else EOS_FS_NotFriends)"

text \<open>\<open>SendInvite\<close>, \<open>AcceptInvite\<close>, \<open>RejectInvite\<close>.\<close>

definition PostFriendResult :: "(epic option \<times> epic option) option \<Rightarrow> nat \<Rightarrow> nat option \<Rightarrow> friends_task event list" where
  "PostFriendResult options cd cb =
     (case options of
        None \<Rightarrow> complete cb (\<lambda>f. FriendResult f cd None None)
      | Some (me, target) \<Rightarrow> complete cb (\<lambda>f. FriendResult f cd me target))"

definition QueryFriends :: "epic option option \<Rightarrow> nat \<Rightarrow> nat option \<Rightarrow> friends_task event list" where
  "QueryFriends options cd cb =
     (let me = (case options of None \<Rightarrow> None | Some u \<Rightarrow> u) in complete cb (\<lambda>f. QueryFriendsDone f cd me))"

definition AddNotifyFriendsUpdate :: "nat option \<Rightarrow> nat \<Rightarrow> nat \<Rightarrow> friends \<Rightarrow> nat \<times> nat \<times> friends" where
  "AddNotifyFriendsUpdate fn cd c s =
     (case Notify_Add fn cd c (frFriendsUpdate s) of (i, c', es) \<Rightarrow> (i, c', s\<lparr>frFriendsUpdate := es\<rparr>))"

definition RemoveNotifyFriendsUpdate :: "nat \<Rightarrow> friends \<Rightarrow> friends" where
  "RemoveNotifyFriendsUpdate i s = s\<lparr>frFriendsUpdate := Notify_Remove i (frFriendsUpdate s)\<rparr>"

definition AddNotifyBlockedUsersUpdate :: "nat option \<Rightarrow> nat \<Rightarrow> nat \<Rightarrow> friends \<Rightarrow> nat \<times> nat \<times> friends" where
  "AddNotifyBlockedUsersUpdate fn cd c s =
     (case Notify_Add fn cd c (frBlockedUpdate s) of (i, c', es) \<Rightarrow> (i, c', s\<lparr>frBlockedUpdate := es\<rparr>))"

definition RemoveNotifyBlockedUsersUpdate :: "nat \<Rightarrow> friends \<Rightarrow> friends" where
  "RemoveNotifyBlockedUsersUpdate i s = s\<lparr>frBlockedUpdate := Notify_Remove i (frBlockedUpdate s)\<rparr>"

section \<open>User info\<close>

text \<open>The local user is an account and a name.\<close>

definition DisplayNameFor :: "epic option \<times> string \<Rightarrow> peer_dir \<Rightarrow> epic option \<Rightarrow> string" where
  "DisplayNameFor me d account =
     (if account = None then []
      else if account = fst me then snd me
      else (case FindByEpic d account of None \<Rightarrow> [] | Some i \<Rightarrow> piDisplayName i))"

datatype user_info_task =
    QueryUserInfoDone nat nat "epic option" "epic option"
  | QueryByNameDone nat nat eresult "epic option" string
  | QueryByExternalDone nat nat eresult

definition QueryUserInfo :: "(epic option \<times> epic option) option \<Rightarrow> nat \<Rightarrow> nat option \<Rightarrow> user_info_task event list" where
  "QueryUserInfo options cd cb =
     (case options of
        None \<Rightarrow> complete cb (\<lambda>f. QueryUserInfoDone f cd None None)
      | Some (local, target) \<Rightarrow> complete cb (\<lambda>f. QueryUserInfoDone f cd local target))"

definition QueryUserInfoByDisplayName ::
  "(epic option \<times> string option) option \<Rightarrow> nat \<Rightarrow> nat option \<Rightarrow> user_info_task event list" where
  "QueryUserInfoByDisplayName options cd cb =
     (case options of
        None \<Rightarrow> complete cb (\<lambda>f. QueryByNameDone f cd EOS_NotFound None [])
      | Some (local, name) \<Rightarrow>
          complete cb (\<lambda>f. QueryByNameDone f cd EOS_NotFound local (case name of None \<Rightarrow> [] | Some n \<Rightarrow> c_str n)))"

definition QueryUserInfoByExternalAccount :: "nat \<Rightarrow> nat option \<Rightarrow> user_info_task event list" where
  "QueryUserInfoByExternalAccount cd cb = complete cb (\<lambda>f. QueryByExternalDone f cd EOS_NotFound)"

record user_info =
  uiUserId :: epic
  uiDisplayName :: string
  uiDisplayNameSanitized :: string
  uiPreferredLanguage :: "string option"

text \<open>\<open>CopyUserInfo\<close> and \<open>CopyBestDisplayName\<close>: the second has no language.\<close>

definition copy_name ::
  "string option \<Rightarrow> epic option \<times> string \<Rightarrow> peer_dir \<Rightarrow> epic option \<Rightarrow> bool \<Rightarrow> eresult \<times> user_info option" where
  "copy_name lang me d target out =
     (case target of
        None \<Rightarrow> (EOS_InvalidParameters, None)
      | Some e \<Rightarrow>
          if \<not> out then (EOS_InvalidParameters, None)
          else let name = DisplayNameFor me d target in
            if name = [] then (EOS_NotFound, None)
            else (EOS_Success, Some \<lparr>uiUserId = e, uiDisplayName = c_str name, uiDisplayNameSanitized = c_str name,
                    uiPreferredLanguage = lang\<rparr>))"

definition CopyUserInfo ::
  "epic option \<times> string \<Rightarrow> peer_dir \<Rightarrow> epic option option \<Rightarrow> bool \<Rightarrow> eresult \<times> user_info option" where
  "CopyUserInfo me d options out =
     (case options of None \<Rightarrow> (EOS_InvalidParameters, None) | Some target \<Rightarrow> copy_name (Some ''en'') me d target out)"

definition CopyBestDisplayName ::
  "epic option \<times> string \<Rightarrow> peer_dir \<Rightarrow> epic option option \<Rightarrow> bool \<Rightarrow> eresult \<times> user_info option" where
  "CopyBestDisplayName me d options out =
     (case options of None \<Rightarrow> (EOS_InvalidParameters, None) | Some target \<Rightarrow> copy_name None me d target out)"

section \<open>Facts\<close>

lemma set_known_epics: "set (known_epics is) = {e. \<exists>i \<in> set is. piEpic i = Some e}"
  by (force simp: known_epics_def split: option.splits)

lemma to_int32_small: "n < 2 ^ 31 \<Longrightarrow> to_int32 n = int n"
  by (simp add: to_int32_def signed_of_nat signed_take_bit_int_eq_self)

lemma FriendStatus_iff: "GetFriendStatus (Some e) d = EOS_FS_Friends \<longleftrightarrow> e \<in> set (FriendSnapshot d)"
  by (auto simp: GetFriendStatus_def FriendSnapshot_def set_known_epics FindByEpic_def Snapshot_def find_None_iff)

text \<open>Walking the index accessor up to the count yields the whole list, in order.\<close>

lemma friends_enumerated:
  assumes "length (FriendSnapshot d) < 2 ^ 31"
  shows "map (\<lambda>i. GetFriendAtIndex (int i) d) [0..<nat (GetFriendsCount d)] = map Some (FriendSnapshot d)"
    and "i < 0 \<or> i \<ge> GetFriendsCount d \<Longrightarrow> GetFriendAtIndex i d = None"
    and "sorted (FriendSnapshot d)"
proof -
  have c: "GetFriendsCount d = int (length (FriendSnapshot d))"
    using assms by (simp add: GetFriendsCount_def to_int32_small)
  show "map (\<lambda>i. GetFriendAtIndex (int i) d) [0..<nat (GetFriendsCount d)] = map Some (FriendSnapshot d)"
    unfolding c using assms by (intro nth_equalityI) (simp_all add: GetFriendAtIndex_def to_int32_small)
  show "i < 0 \<or> i \<ge> GetFriendsCount d \<Longrightarrow> GetFriendAtIndex i d = None"
    unfolding c using assms by (auto simp: GetFriendAtIndex_def to_int32_small)
  show "sorted (FriendSnapshot d)" by (simp add: FriendSnapshot_def)
qed

text \<open>The name of a friend other than the local user is the one its Hello announced.\<close>

lemma DisplayNameFor_peer:
  assumes "FindByEpic d (Some e) = Some i" "fst me \<noteq> Some e"
  shows "DisplayNameFor me d (Some e) = piDisplayName i"
  using assms by (auto simp: DisplayNameFor_def)

end
