(* ===== verification/UI.thy ===== *)
theory UI
  imports Friends Platform
begin

text \<open>
  The calls and the tick of \<open>src/interfaces/UI.cpp\<close> that touch the rest of the platform, and with them
  the whole of \<open>Platform::Tick\<close>.  The overlay and the state of the interface are those of theory
  Overlay; the counter of UI events is process-wide and passed along.

  The facts are in theory UIFacts: a paused overlay is hidden and silent; a tick announces the display
  settings exactly when they changed and then rests; the automation hooks act on every invitation once; two
  departures from the documented behaviour, a player modal without an overlay and hiding while paused.
\<close>

definition ShowPlayerFlow ::
  "time_ns \<Rightarrow> string \<Rightarrow> platform \<Rightarrow> (epic option \<times> epic option) option \<Rightarrow> nat \<Rightarrow> nat option \<Rightarrow> ui \<times> overlay \<Rightarrow>
   (ui \<times> overlay) \<times> ui_task event list" where
  "ShowPlayerFlow now kind p options cd cb uo =
     (let (local, target) = (case options of None \<Rightarrow> (None, None) | Some lt \<Rightarrow> lt);
          name = DisplayNameFor (idEpic (plIdentity p), idDisplayName (plIdentity p)) (plPeers p) target
      in (ShowPlayerModal now kind name uo, complete cb (\<lambda>f. PlayerModalDone f cd local target)))"

definition AcknowledgeEventId :: "nat \<Rightarrow> platform \<Rightarrow> platform" where
  "AcknowledgeEventId ev p =
     p\<lparr>plLobby := AcknowledgeUiEvent ev (plLobby p), plSessions := Sessions_AcknowledgeUiEvent ev (plSessions p)\<rparr>"

section \<open>The tick\<close>

definition NameForPid :: "peer_dir \<Rightarrow> string \<Rightarrow> string" where
  "NameForPid d pid =
     (case Find d pid of
        None \<Rightarrow> take 8 pid
      | Some i \<Rightarrow> if piDisplayName i \<noteq> [] then piDisplayName i else take 8 pid)"

definition social_items :: "platform \<Rightarrow> social_item list" where
  "social_items p =
     (let name = NameForPid (plPeers p) in
      map (\<lambda>v. \<lparr>oiKind = OvLobbyInvite, oiId = ivInviteId v, oiLabel = name (ivFromProduct v) @ '' invited you to a lobby''\<rparr>)
        (SnapshotInvites (plLobby p)) @
      map (\<lambda>v. \<lparr>oiKind = OvSessionInvite, oiId = siInviteId v, oiLabel = name (siFromProduct v) @ '' invited you to a session''\<rparr>)
        (Sessions_SnapshotInvites (plSessions p)) @
      map (\<lambda>(i, pid). \<lparr>oiKind = OvLobbyJoin, oiId = i, oiLabel = ''Join '' @ name pid @ [CHR 0x27] @ ''s lobby''\<rparr>)
        (SnapshotJoinable (plLobby p)) @
      map (\<lambda>(i, pid). \<lparr>oiKind = OvSessionJoin, oiId = i, oiLabel = ''Join '' @ name pid @ [CHR 0x27] @ ''s session''\<rparr>)
        (Sessions_SnapshotJoinable (plSessions p)))"

text \<open>One automation loop: the ids not handled before, in order, and the ids handled after.\<close>

fun auto_loop :: "(string \<Rightarrow> string) \<Rightarrow> (string \<Rightarrow> social_action) \<Rightarrow> string list \<Rightarrow> string set \<Rightarrow> social_action list \<times> string set" where
  "auto_loop key act [] done = ([], done)"
| "auto_loop key act (i # is) done =
     (if key i \<in> done then auto_loop key act is done
      else (case auto_loop key act is (insert (key i) done) of (as, done') \<Rightarrow> (act i # as, done')))"

definition auto_actions :: "platform \<Rightarrow> ui \<Rightarrow> social_action list \<times> ui" where
  "auto_actions p u =
     (let (a1, h1) = (if uiAutoAccept u
            then auto_loop ((@) ''L:'') (\<lambda>i. (OvLobbyInvite, ActAccept, i)) (map ivInviteId (SnapshotInvites (plLobby p))) (uiHandledInvites u)
            else ([], uiHandledInvites u));
          (a2, h2) = (if uiAutoAccept u
            then auto_loop ((@) ''S:'') (\<lambda>i. (OvSessionInvite, ActAccept, i)) (map siInviteId (Sessions_SnapshotInvites (plSessions p))) h1
            else ([], h1));
          (a3, j1) = (if uiAutoJoin u
            then auto_loop ((@) ''L:'') (\<lambda>i. (OvLobbyJoin, ActJoin, i)) (map fst (SnapshotJoinable (plLobby p))) (uiHandledJoins u)
            else ([], uiHandledJoins u));
          (a4, j2) = (if uiAutoJoin u
            then auto_loop ((@) ''S:'') (\<lambda>i. (OvSessionJoin, ActJoin, i)) (map fst (Sessions_SnapshotJoinable (plSessions p))) j1
            else ([], j1))
      in (a1 @ a2 @ a3 @ a4, u\<lparr>uiHandledInvites := h2, uiHandledJoins := j2\<rparr>))"

text \<open>Routing one action; the counter of UI events is process-wide.\<close>

fun route_action :: "world \<Rightarrow> social_action \<Rightarrow> nat \<times> platform \<Rightarrow> nat \<times> platform" where
  "route_action w (OvLobbyInvite, a, i) (c, p) =
     (if a = ActReject
      then (case RejectInviteFromOverlay (lobby_env_of p) i (plLobby p) of (s, ev) \<Rightarrow>
              (c, snd (perform w TaskLobby ev (p\<lparr>plLobby := s\<rparr>))))
      else (c, snd (perform w TaskLobby (AcceptInviteFromOverlay (lobby_env_of p) i (plLobby p)) p)))"
| "route_action w (OvSessionInvite, a, i) (c, p) =
     (if a = ActReject
      then (case Sessions_RejectInviteFromOverlay (session_env_of p) i (plSessions p) of (s, ev) \<Rightarrow>
              (c, snd (perform w TaskSession ev (p\<lparr>plSessions := s\<rparr>))))
      else (c, snd (perform w TaskSession (Sessions_AcceptInviteFromOverlay (session_env_of p) i (plSessions p)) p)))"
| "route_action w (OvLobbyJoin, a, i) (c, p) =
     (case BeginJoinFromOverlay (lobby_env_of p) i c (plLobby p) of (c', s, ev) \<Rightarrow>
        (c', snd (perform w TaskLobby ev (p\<lparr>plLobby := s\<rparr>))))"
| "route_action w (OvSessionJoin, a, i) (c, p) =
     (case Sessions_BeginJoinFromOverlay (session_env_of p) i c (plSessions p) of (c', s, ev) \<Rightarrow>
        (c', snd (perform w TaskSession ev (p\<lparr>plSessions := s\<rparr>))))"

definition PumpSocial :: "world \<Rightarrow> ui \<Rightarrow> overlay \<Rightarrow> nat \<times> platform \<Rightarrow> ui \<times> overlay \<times> nat \<times> platform" where
  "PumpSocial w u o1 cp =
     (let o2 = (if Available o1 then SetSocialItems (social_items (snd cp)) o1 else o1);
          (clicked, o3) = (if Available o2 then ConsumeSocialActions o2 else ([], o2));
          (auto, u1) = auto_actions (snd cp) u
      in (u1, o3, fold (route_action w) (clicked @ auto) cp))"

definition PumpTick ::
  "world \<Rightarrow> ui \<times> overlay \<Rightarrow> nat \<times> platform \<Rightarrow> (ui \<times> overlay) \<times> (nat \<times> platform) \<times> ui_task event list" where
  "PumpTick w uo cp =
     (case PumpSocial w (fst uo) (snd uo) cp of (u1, o1, cp1) \<Rightarrow>
      case drain_requests (u1, o1) of (u2, o2) \<Rightarrow>
        if uiPaused u2 then ((u2, o2), cp1, [])
        else let x = IsExclusiveInput o2 in
          if uiPendingInitialNotify u2 \<or> uiVisible u2 \<noteq> uiLastVisible u2 \<or> x \<noteq> uiLastExclusive u2
          then ((u2\<lparr>uiLastVisible := uiVisible u2, uiLastExclusive := x, uiPendingInitialNotify := False\<rparr>, o2), cp1,
                FireDisplaySettings (uiVisible u2) x u2)
          else ((u2, o2), cp1, []))"

text \<open>\<open>Platform::Tick\<close> as a whole: what the platform does by itself, the UI pump, and the drain.  The
  drain runs consumer callbacks (\<open>run\<close>), which may call anything; what they post waits for the next
  tick.\<close>

type_synonym tick_state = "(ui \<times> overlay) \<times> nat \<times> platform"

definition tick_drain ::
  "(platform_task \<Rightarrow> tick_state \<Rightarrow> (platform_task, tick_state) task_effect) \<Rightarrow> world \<Rightarrow> tick_state \<Rightarrow> tick_state" where
  "tick_drain run w st =
     (case Drain (wdNow w) run st (plDispatch (snd (snd st))) of ((uo, c, p), d) \<Rightarrow> (uo, c, p\<lparr>plDispatch := d\<rparr>))"

definition tick_ui :: "world \<Rightarrow> tick_state \<Rightarrow> tick_state" where
  "tick_ui w st =
     (case PumpTick w (fst st) (snd st) of (uo, (c, p), evs) \<Rightarrow> (uo, c, snd (perform w TaskUI evs p)))"

definition Tick ::
  "(platform_task \<Rightarrow> tick_state \<Rightarrow> (platform_task, tick_state) task_effect) \<Rightarrow> init_names \<Rightarrow> sdk \<Rightarrow> world \<Rightarrow>
   tick_state \<Rightarrow> dgram list \<times> tick_state" where
  "Tick run G K w st =
     (case st of (uo, c, p) \<Rightarrow>
      case tick_work G K w p of (ds, p1) \<Rightarrow> (ds, tick_drain run w (tick_ui w (uo, c, p1))))"

end
