(* ===== verification/UIFacts.thy ===== *)
theory UIFacts
  imports UI
begin

text \<open>
  Facts about the overlay surface of theory UI.
\<close>

section \<open>Pausing\<close>

text \<open>While paused the overlay is hidden, and stays so whatever is called.\<close>

definition ui_inv :: "ui \<times> overlay \<Rightarrow> bool" where
  "ui_inv uo \<longleftrightarrow> (uiPaused (fst uo) \<longrightarrow> \<not> uiVisible (fst uo))"

lemma SetVisibleInternal_fields [simp]:
  "uiVisible (fst (SetVisibleInternal v uo)) = v" "uiPaused (fst (SetVisibleInternal v uo)) = uiPaused (fst uo)"
  "uiPendingInitialNotify (fst (SetVisibleInternal v uo)) = uiPendingInitialNotify (fst uo)"
  "uiLastVisible (fst (SetVisibleInternal v uo)) = uiLastVisible (fst uo)"
  "uiLastExclusive (fst (SetVisibleInternal v uo)) = uiLastExclusive (fst uo)"
  "uiDisplayNotifies (fst (SetVisibleInternal v uo)) = uiDisplayNotifies (fst uo)"
  "uiWasVisibleBeforePause (fst (SetVisibleInternal v uo)) = uiWasVisibleBeforePause (fst uo)"
  by (simp_all add: SetVisibleInternal_def split: prod.split)

lemma auto_actions_fields [simp]:
  "uiVisible (snd (auto_actions p u)) = uiVisible u" "uiPaused (snd (auto_actions p u)) = uiPaused u"
  "uiPendingInitialNotify (snd (auto_actions p u)) = uiPendingInitialNotify u"
  "uiLastVisible (snd (auto_actions p u)) = uiLastVisible u" "uiLastExclusive (snd (auto_actions p u)) = uiLastExclusive u"
  "uiDisplayNotifies (snd (auto_actions p u)) = uiDisplayNotifies u"
  by (simp_all add: auto_actions_def Let_def split: prod.split)

lemma PumpSocial_fields [simp]:
  "uiVisible (fst (PumpSocial w u o1 cp)) = uiVisible u" "uiPaused (fst (PumpSocial w u o1 cp)) = uiPaused u"
  "uiPendingInitialNotify (fst (PumpSocial w u o1 cp)) = uiPendingInitialNotify u"
  "uiLastVisible (fst (PumpSocial w u o1 cp)) = uiLastVisible u"
  "uiLastExclusive (fst (PumpSocial w u o1 cp)) = uiLastExclusive u"
  "uiDisplayNotifies (fst (PumpSocial w u o1 cp)) = uiDisplayNotifies u"
  by (simp_all add: PumpSocial_def Let_def split_beta)

text \<open>Draining takes the one pending request: a paused interface drops it, another follows it.\<close>

lemma drain_requests_eq:
  "drain_requests (u, o1) =
     (if ovPresent o1 \<and> ovHasRequest o1
      then (let o2 = o1\<lparr>ovHasRequest := False\<rparr>
            in if uiPaused u then (u, o2) else SetVisibleInternal (ovRequestVisible o1) (u, o2))
      else (u, o1))"
proof -
  have rest: "drain_requests (v, q) = (v, q)" if "\<not> ovHasRequest q" for v q
    using that by (simp add: drain_requests.simps [of v q] ConsumeUserVisibilityRequest_def)
  have gone: "\<not> ovHasRequest (snd (SetVisibleInternal b (v, q)))" if "\<not> ovHasRequest q" for b v q
    using that by (simp add: SetVisibleInternal_def Overlay_SetVisible_def)
  show ?thesis
    using rest gone [of "o1\<lparr>ovHasRequest := False\<rparr>" "ovRequestVisible o1" u]
    by (cases "SetVisibleInternal (ovRequestVisible o1) (u, o1\<lparr>ovHasRequest := False\<rparr>)")
      (simp add: drain_requests.simps [of u o1] ConsumeUserVisibilityRequest_def Let_def)
qed

lemma drain_requests_fields [simp]:
  "uiPaused (fst (drain_requests uo)) = uiPaused (fst uo)"
  "uiPendingInitialNotify (fst (drain_requests uo)) = uiPendingInitialNotify (fst uo)"
  "uiLastVisible (fst (drain_requests uo)) = uiLastVisible (fst uo)"
  "uiLastExclusive (fst (drain_requests uo)) = uiLastExclusive (fst uo)"
  "uiDisplayNotifies (fst (drain_requests uo)) = uiDisplayNotifies (fst uo)"
  by (cases uo; simp add: drain_requests_eq Let_def)+

lemma drain_requests_paused: "uiPaused (fst uo) \<Longrightarrow> fst (drain_requests uo) = fst uo"
  by (cases uo) (simp add: drain_requests_eq Let_def)

text \<open>A paused tick says nothing and shows nothing.\<close>

lemma paused_tick:
  assumes "uiPaused (fst uo)"
  shows "snd (snd (PumpTick w uo cp)) = []"
    and "uiVisible (fst (fst (PumpTick w uo cp))) = uiVisible (fst uo)"
    and "uiPaused (fst (fst (PumpTick w uo cp)))"
proof -
  obtain u1 o1 cp1 where s: "PumpSocial w (fst uo) (snd uo) cp = (u1, o1, cp1)" by (metis prod_cases3)
  obtain u2 o2 where d: "drain_requests (u1, o1) = (u2, o2)" by force
  have "uiPaused u1" "uiVisible u1 = uiVisible (fst uo)"
    using assms PumpSocial_fields(1,2) [of w "fst uo" "snd uo" cp] unfolding s by simp_all
  moreover from this have "u2 = u1" using drain_requests_paused [of "(u1, o1)"] d by simp
  ultimately show "snd (snd (PumpTick w uo cp)) = []" "uiVisible (fst (fst (PumpTick w uo cp))) = uiVisible (fst uo)"
    "uiPaused (fst (fst (PumpTick w uo cp)))"
    by (simp_all add: PumpTick_def s d)
qed

section \<open>Announcing\<close>

definition settings_changed :: "ui \<times> overlay \<Rightarrow> bool" where
  "settings_changed uo \<longleftrightarrow>
     uiPendingInitialNotify (fst uo) \<or> uiVisible (fst uo) \<noteq> uiLastVisible (fst uo) \<or>
     IsExclusiveInput (snd uo) \<noteq> uiLastExclusive (fst uo)"

text \<open>After an unpaused tick nothing is left to announce, and every observer has heard the settings the
  interface now has if they were news.\<close>

lemma unpaused_tick:
  assumes "\<not> uiPaused (fst uo)"
  shows "\<not> settings_changed (fst (PumpTick w uo cp))"
    and "snd (snd (PumpTick w uo cp)) =
      (let uo' = fst (PumpTick w uo cp) in
       if uiPendingInitialNotify (fst uo) \<or> uiVisible (fst uo') \<noteq> uiLastVisible (fst uo) \<or>
          IsExclusiveInput (snd uo') \<noteq> uiLastExclusive (fst uo)
       then map (\<lambda>e. EvPost (DisplaySettingsCb (neFn e) (neCd e) (uiVisible (fst uo')) (IsExclusiveInput (snd uo'))))
              (uiDisplayNotifies (fst uo))
       else [])"
proof -
  obtain u1 o1 cp1 where s: "PumpSocial w (fst uo) (snd uo) cp = (u1, o1, cp1)" by (metis prod_cases3)
  obtain u2 o2 where d: "drain_requests (u1, o1) = (u2, o2)" by force
  note u1 = PumpSocial_fields [of w "fst uo" "snd uo" cp, unfolded s fst_conv]
  note u2 = drain_requests_fields [of "(u1, o1)", unfolded d fst_conv u1]
  show "\<not> settings_changed (fst (PumpTick w uo cp))"
    using u2 assms by (auto simp: PumpTick_def s d settings_changed_def Let_def IsExclusiveInput_def)
  show "snd (snd (PumpTick w uo cp)) =
      (let uo' = fst (PumpTick w uo cp) in
       if uiPendingInitialNotify (fst uo) \<or> uiVisible (fst uo') \<noteq> uiLastVisible (fst uo) \<or>
          IsExclusiveInput (snd uo') \<noteq> uiLastExclusive (fst uo)
       then map (\<lambda>e. EvPost (DisplaySettingsCb (neFn e) (neCd e) (uiVisible (fst uo')) (IsExclusiveInput (snd uo'))))
              (uiDisplayNotifies (fst uo))
       else [])"
    using u2 assms by (simp add: PumpTick_def s d FireDisplaySettings_def Let_def)
qed

section \<open>Automation\<close>

text \<open>One action for each id not handled before, however often it is listed; all are handled after.\<close>

lemma auto_loop_spec:
  assumes "inj key"
  shows "\<exists>ids. auto_loop key act is handled = (map act ids, handled \<union> key ` set is) \<and> distinct ids \<and>
    set ids = {i \<in> set is. key i \<notin> handled}"
proof (induction "is" arbitrary: handled)
  case Nil
  then show ?case by (intro exI [of _ "[]"]) simp
next
  case (Cons i "is")
  show ?case
  proof (cases "key i \<in> handled")
    case True
    with Cons.IH [of handled] show ?thesis by (auto simp: insert_absorb)
  next
    case False
    from Cons.IH [of "insert (key i) handled"] obtain ids where
      ids: "auto_loop key act is (insert (key i) handled) = (map act ids, insert (key i) handled \<union> key ` set is)"
        "distinct ids" "set ids = {j \<in> set is. key j \<notin> insert (key i) handled}" by blast
    have "distinct (i # ids)" "set (i # ids) = {j \<in> set (i # is). key j \<notin> handled}"
      using ids(2,3) False assms by (auto simp: inj_eq)
    moreover have "auto_loop key act (i # is) handled = (map act (i # ids), handled \<union> key ` set (i # is))"
      using False ids(1) by simp
    ultimately show ?thesis by blast
  qed
qed

text \<open>Acting on a list twice: the second time there is nothing to do.\<close>

lemma auto_loop_again:
  assumes "inj key"
  shows "fst (auto_loop key act is (snd (auto_loop key act is handled))) = []"
proof -
  have "snd (auto_loop key act is handled) = handled \<union> key ` set is" using auto_loop_spec [OF assms, of act "is" handled] by auto
  moreover obtain ids where "auto_loop key act is (handled \<union> key ` set is) = (map act ids, handled \<union> key ` set is \<union> key ` set is)"
      and e: "set ids = {i \<in> set is. key i \<notin> handled \<union> key ` set is}"
    using auto_loop_spec [OF assms, of act "is" "handled \<union> key ` set is"] by auto
  moreover have "set ids = {}" unfolding e by auto
  ultimately show ?thesis by simp
qed

lemma tag_inj: "inj ((@) (t :: string))"
  by (simp add: inj_def)

section \<open>Two departures\<close>

text \<open>\<open>ShowFriends\<close> refuses when there is no overlay, because an overlay that claims to be visible and can
  never be hidden locks up a game that pauses for it.  The player modals do not refuse.\<close>

lemma modal_without_overlay:
  assumes "\<not> ovPresent o1" "\<not> uiPaused u" "\<not> uiLastVisible u" "uiDisplayNotifies u = [e]"
    and "fst (ShowPlayerFlow now kind p options cd cb (u, o1)) = uo"
  shows "snd (snd (PumpTick w uo cp)) = [EvPost (DisplaySettingsCb (neFn e) (neCd e) True False)]"
proof -
  have o: "snd uo = o1" and v: "uiVisible (fst uo)" "\<not> uiPaused (fst uo)" "\<not> uiLastVisible (fst uo)"
      "uiDisplayNotifies (fst uo) = [e]"
    using assms by (auto simp: ShowPlayerFlow_def ShowPlayerModal_def PushToast_def SetVisibleInternal_def
        Overlay_SetVisible_def Let_def split: prod.splits if_splits)
  obtain u1 o2 cp1 where s: "PumpSocial w (fst uo) (snd uo) cp = (u1, o2, cp1)" by (metis prod_cases3)
  have o2: "o2 = o1" using s assms(1) o by (auto simp: PumpSocial_def Available_def Let_def split: prod.splits)
  have f: "uiVisible u1" "\<not> uiPaused u1" "\<not> uiLastVisible u1" "uiDisplayNotifies u1 = [e]"
    using v PumpSocial_fields(1,2,4,6) [of w "fst uo" "snd uo" cp] unfolding s by simp_all
  have "drain_requests (u1, o1) = (u1, o1)" using assms(1) by (simp add: drain_requests_eq)
  then show ?thesis using f assms(1)
    by (simp add: PumpTick_def s o2 FireDisplaySettings_def IsExclusiveInput_def Let_def)
qed

text \<open>Hiding the overlay while it is paused is forgotten: it comes back when the pause ends.\<close>

lemma hide_while_paused_is_forgotten:
  assumes "uiVisible u" "\<not> uiPaused u"
    and "snd (PauseSocialOverlay True (u, o1)) = uo1" and "fst (HideFriends local cd cb uo1) = uo2"
  shows "uiVisible (fst (snd (PauseSocialOverlay False uo2)))"
  using assms by (auto simp: PauseSocialOverlay_def HideFriends_def SetVisibleInternal_def Let_def split: prod.splits)

section \<open>Reachable states\<close>

inductive ui_step :: "key_codes \<Rightarrow> ui \<times> overlay \<Rightarrow> ui \<times> overlay \<Rightarrow> bool" for C where
  show_friends: "ui_step C uo (fst (ShowFriends local cd cb uo))"
| hide_friends: "ui_step C uo (fst (HideFriends local cd cb uo))"
| pause: "ui_step C uo (snd (PauseSocialOverlay b uo))"
| toggle_key: "ui_step C uo (snd (SetToggleKey C k uo))"
| toggle_button: "ui_step C (u, o1) (snd (SetToggleButton b u), o1)"
| preference: "ui_step C (u, o1) (snd (SetDisplayPreference l u), o1)"
| player_flow: "ui_step C uo (fst (ShowPlayerFlow now kind p options cd cb uo))"
| add_display: "AddNotifyDisplaySettingsUpdated fn cd c u = (i, c', u') \<Longrightarrow> ui_step C (u, o1) (u', o1)"
| remove_display: "ui_step C (u, o1) (RemoveNotifyDisplaySettingsUpdated i u, o1)"
| add_memory: "AddNotifyMemoryMonitor fn cd c u = (i, c', u') \<Longrightarrow> ui_step C (u, o1) (u', o1)"
| remove_memory: "ui_step C (u, o1) (RemoveNotifyMemoryMonitor i u, o1)"
| tick: "ui_step C uo (fst (PumpTick w uo cp))"
| render: "o2 \<in> {RequestToggle o1, RequestHide o1, QueueAction a o1, PollHotkey k s ct al o1, o1\<lparr>ovExclusive := x\<rparr>,
      Overlay_Start en up o1, Overlay_Stop o1} \<Longrightarrow> ui_step C (u, o1) (u, o2)"

lemma ui_inv_tick: "ui_inv uo \<Longrightarrow> ui_inv (fst (PumpTick w uo cp))"
proof (cases "uiPaused (fst uo)")
  case True
  then show "ui_inv uo \<Longrightarrow> ?thesis" by (simp add: ui_inv_def paused_tick)
next
  case False
  obtain u1 o1 cp1 where s: "PumpSocial w (fst uo) (snd uo) cp = (u1, o1, cp1)" by (metis prod_cases3)
  obtain u2 o2 where d: "drain_requests (u1, o1) = (u2, o2)" by force
  have "\<not> uiPaused u1" using False PumpSocial_fields(2) [of w "fst uo" "snd uo" cp] unfolding s by simp
  then have "\<not> uiPaused u2" using drain_requests_fields(1) [of "(u1, o1)"] unfolding d by simp
  then show ?thesis by (simp add: PumpTick_def s d ui_inv_def Let_def)
qed

lemma ui_inv_step: "ui_step C uo uo' \<Longrightarrow> ui_inv uo \<Longrightarrow> ui_inv uo'"
proof (induction rule: ui_step.induct)
  case (show_friends uo local cd cb)
  then show ?case by (auto simp: ShowFriends_def ui_inv_def split: prod.splits)
next
  case (hide_friends uo local cd cb)
  then show ?case by (simp add: HideFriends_def ui_inv_def)
next
  case (pause uo b)
  then show ?case
    by (auto simp: PauseSocialOverlay_def ui_inv_def SetVisibleInternal_def Let_def split: prod.splits)
next
  case (toggle_key uo k)
  then show ?case by (auto simp: SetToggleKey_def ui_inv_def Let_def split: prod.splits)
next
  case (player_flow uo now kind p options cd cb)
  then show ?case by (auto simp: ShowPlayerFlow_def ShowPlayerModal_def ui_inv_def Let_def split: prod.splits)
next
  case (tick uo w cp)
  then show ?case by (rule ui_inv_tick)
next
  case (add_display fn cd c u i c' u' o1)
  then show ?case by (auto simp: AddNotifyDisplaySettingsUpdated_def ui_inv_def Let_def split: prod.splits if_splits)
next
  case (add_memory fn cd c u i c' u' o1)
  then show ?case by (auto simp: AddNotifyMemoryMonitor_def ui_inv_def split: prod.splits)
qed (auto simp: ui_inv_def SetToggleButton_def SetDisplayPreference_def RemoveNotifyDisplaySettingsUpdated_def
    RemoveNotifyMemoryMonitor_def)

inductive ui_reach :: "key_codes \<Rightarrow> ui \<times> overlay \<Rightarrow> bool" for C where
  fresh: "ui_reach C (ui_new C nb br accept join (overlay_init present))"
| step: "ui_reach C uo \<Longrightarrow> ui_step C uo uo' \<Longrightarrow> ui_reach C uo'"

lemma ui_reach_inv: "ui_reach C uo \<Longrightarrow> ui_inv uo"
proof (induction rule: ui_reach.induct)
  case (fresh nb br accept join present)
  then show ?case by (simp add: ui_new_def ui_inv_def Let_def)
next
  case (step uo uo')
  then show ?case by (blast intro: ui_inv_step)
qed

end
