(* ===== verification/Lifecycle.thy ===== *)
theory Lifecycle
  imports UI
begin

text \<open>
  The life of a platform: its constructor, \<open>Configure\<close> and destructor, and the process-wide
  \<open>EOS_Initialize\<close>, \<open>EOS_Shutdown\<close>, \<open>EOS_Platform_Create\<close> and
  \<open>EOS_Platform_Release\<close> of \<open>src/core/Platform.cpp\<close>.

  What the operating system answers while a platform starts (files, environment, names, sockets) is
  the record \<open>host\<close>.  A platform handle is the address of the object, chosen by the
  allocator.  The facts: Initialize and Shutdown each succeed at most once in a process, and only in
  that order, whatever is called in between; a platform is only created while the process is
  initialised, and there is never a second one.
\<close>

section \<open>Construction\<close>

record host =
  hoFiles :: "string \<Rightarrow> string option"
  hoCanon :: "string \<Rightarrow> string"
  hoEnvConfig :: string
  hoDllConfig :: string
  hoMachine :: string
  hoUser :: string
  hoSalt :: string
  hoLoss :: "int option"
  hoSockets :: os_start

definition Platform_new :: "host \<Rightarrow> sdk \<Rightarrow> enum \<Rightarrow> platform" where
  "Platform_new H K relays =
     (let c0 = snd (LoadFile (hoFiles H) (hoCanon H) (hoEnvConfig H) Env config_init);
          c1 = snd (LoadFile (hoFiles H) (hoCanon H) (hoDllConfig H) DllAdjacent c0)
      in \<lparr>plConfig = c1, plIdentity = Identity_new (hoMachine H) (hoUser H) (hoSalt H) (Some c1),
          plNode = node_init, plPeers = [], plDispatch = dispatcher_init, plTickCount = 0, plLastHello = 0,
          plPeerTimeout = secs 10,
          plLocalPresence = \<lparr>lpStatus = 1, lpRichText = [], lpJoinInfo = [], lpData = []\<rparr>,
          plHelloDirty = False, plP2P = P2PInterface (hoLoss H) relays, plLobby = lobbies_init,
          plSessions = sessions_init, plPresence = presence_init K, plCustom = custom_init, plRTC = rtc_start,
          plCacheDirectory = [], plProductId = [], plFlags = 0, plSteamId = 0, plLocale = ''en'',
          plOverrideLocale = [], plCountry = [], plOverrideCountry = []\<rparr>)"

record platform_options =
  pfApiVersion :: int
  pfProductId :: "string option"
  pfFlags :: u64
  pfCacheDirectory :: "string option"

text \<open>\<open>std::strtoull(s, nullptr, 10)\<close>: zero without digits, the largest value on overflow, and a
  negative number wraps.\<close>

definition strtoull10 :: "string \<Rightarrow> u64" where
  "strtoull10 s =
     (let s1 = dropWhile is_space s;
          neg = (s1 \<noteq> [] \<and> hd s1 = CHR ''-'');
          s2 = (if s1 \<noteq> [] \<and> (hd s1 = CHR ''-'' \<or> hd s1 = CHR ''+'') then tl s1 else s1);
          n = digits_value (takeWhile is_digit s2)
      in if n \<ge> 2 ^ 64 then - 1 else if neg then - word_of_nat n else word_of_nat n)"

definition sender_tag :: "string \<Rightarrow> u32" where
  "sender_tag pid = foldl (\<lambda>t c. t * 131 + word_of_nat (of_char c)) 0 pid"

definition peer_timeout :: "int \<Rightarrow> time_ns \<Rightarrow> time_ns" where
  "peer_timeout cfg old = (if cfg > 0 then secs (if cfg < 4 then 4 else cfg) else old)"

definition load_cache_config :: "host \<Rightarrow> platform \<Rightarrow> platform" where
  "load_cache_config H p =
     (if plCacheDirectory p = [] then p
      else let dir = plCacheDirectory p;
               sep = (if last dir \<noteq> CHR 0x5C \<and> last dir \<noteq> CHR ''/'' then dir @ ''/'' else dir)
           in p\<lparr>plConfig := snd (LoadFile (hoFiles H) (hoCanon H) (sep @ ''eosemu.ini'') CacheDir (plConfig p))\<rparr>)"

definition apply_options :: "platform_options \<Rightarrow> platform \<Rightarrow> platform" where
  "apply_options opt p =
     p\<lparr>plProductId := set_opt (pfProductId opt) (plProductId p),
       plFlags := (if pfApiVersion opt \<ge> 5 then pfFlags opt else plFlags p),
       plCacheDirectory := (if pfApiVersion opt \<ge> 6 then set_opt (pfCacheDirectory opt) (plCacheDirectory p)
                            else plCacheDirectory p)\<rparr>"

definition apply_identity_config :: "platform \<Rightarrow> platform" where
  "apply_identity_config p =
     (let c = plConfig p;
          lang = GetString ''Identity'' ''Language'' [] c;
          country = GetString ''Identity'' ''Country'' [] c;
          pin = GetString ''Identity'' ''SteamId'' [] c;
          rich = GetString ''Presence'' ''RichText'' (GetString ''Presence'' ''Status'' [] c) c
      in p\<lparr>plOverrideLocale := lang, plLocale := (if lang = [] then ''en'' else lang),
           plOverrideCountry := country, plCountry := country,
           plSteamId := (if pin \<noteq> [] \<and> strtoull10 pin \<noteq> 0 then strtoull10 pin else plSteamId p),
           plLocalPresence := (if rich = [] then plLocalPresence p else (plLocalPresence p)\<lparr>lpRichText := rich\<rparr>)\<rparr>)"

definition seed_stats :: "config \<Rightarrow> string \<Rightarrow> stats \<Rightarrow> stats" where
  "seed_stats c pid s = foldl (\<lambda>s n. SeedStat pid n (word_of_int (GetInt ''Stats'' n 0 c)) s) s (GetSectionKeys ''Stats'' c)"

definition seed_achievements :: "config \<Rightarrow> string \<Rightarrow> achievements \<Rightarrow> achievements" where
  "seed_achievements c pid s = foldl (\<lambda>s i. SeedUnlockedAchievement pid i s) s (GetList ''Achievements'' ''Unlocked'' c)"

definition start_network :: "host \<Rightarrow> time_ns \<Rightarrow> platform \<Rightarrow> platform" where
  "start_network H now p =
     (let c = plConfig p in
      p\<lparr>plPeerTimeout := peer_timeout (GetInt ''Network'' ''PeerTimeoutSeconds'' 0 c) (plPeerTimeout p),
        plLastHello := now,
        plNode := snd (Node_Start (hoSockets H) (sender_tag (idProductStr (plIdentity p)))
                    (word_of_int (GetInt ''Network'' ''DiscoveryPort'' 0 c)) (plNode p))\<rparr>)"

definition Configure ::
  "host \<Rightarrow> time_ns \<Rightarrow> platform_options option \<Rightarrow> platform \<Rightarrow> stats \<Rightarrow> achievements \<Rightarrow> platform \<times> stats \<times> achievements" where
  "Configure H now options p st ac =
     (case options of
        None \<Rightarrow> (p, st, ac)
      | Some opt \<Rightarrow>
        let p1 = apply_identity_config (load_cache_config H (apply_options opt p));
            pid = idProductStr (plIdentity p1)
        in (start_network H now p1, seed_stats (plConfig p1) pid st, seed_achievements (plConfig p1) pid ac))"

text \<open>The destructor: say goodbye while the transport is up, then stop it.\<close>

definition Platform_delete :: "world \<Rightarrow> platform \<Rightarrow> dgram list" where
  "Platform_delete w p = (if ndRunning (plNode p) then fst (BroadcastGoodbye w p) else [])"

section \<open>The process\<close>

type_synonym allocators = "nat option \<times> nat option \<times> nat option"

record process =
  psInitialized :: bool
  psHasShutdown :: bool
  psPlatform :: "(nat \<times> platform) option"
  psNames :: init_names
  psAllocators :: allocators
  psStats :: stats
  psAchievements :: achievements

definition process_init :: process where
  "process_init =
     \<lparr>psInitialized = False, psHasShutdown = False, psPlatform = None, psNames = \<lparr>inName = [], inVersion = []\<rparr>,
      psAllocators = (None, None, None), psStats = [], psAchievements = achievements_init\<rparr>"

definition any_alloc :: "allocators \<Rightarrow> bool" where
  "any_alloc a = (case a of (x, y, z) \<Rightarrow> x \<noteq> None \<or> y \<noteq> None \<or> z \<noteq> None)"

definition all_alloc :: "allocators \<Rightarrow> bool" where
  "all_alloc a = (case a of (x, y, z) \<Rightarrow> x \<noteq> None \<and> y \<noteq> None \<and> z \<noteq> None)"

definition EOS_Initialize :: "allocators option \<Rightarrow> process \<Rightarrow> eresult \<times> process" where
  "EOS_Initialize options s =
     (if psInitialized s \<or> psHasShutdown s then (EOS_AlreadyConfigured, s)
      else case options of
        None \<Rightarrow> (EOS_InvalidParameters, s)
      | Some a \<Rightarrow>
        if any_alloc a \<and> \<not> all_alloc a then (EOS_InvalidParameters, s)
        else (EOS_Success, s\<lparr>psInitialized := True, psAllocators := (if all_alloc a then a else psAllocators s)\<rparr>))"

definition EOS_Shutdown :: "process \<Rightarrow> eresult \<times> process" where
  "EOS_Shutdown s =
     (if \<not> psInitialized s then (if psHasShutdown s then EOS_UnexpectedError else EOS_NotConfigured, s)
      else (EOS_Success, s\<lparr>psInitialized := False, psHasShutdown := True, psAllocators := (None, None, None)\<rparr>))"

definition EOS_Platform_Create ::
  "host \<Rightarrow> sdk \<Rightarrow> enum \<Rightarrow> time_ns \<Rightarrow> nat \<Rightarrow> platform_options option \<Rightarrow> process \<Rightarrow> nat option \<times> process" where
  "EOS_Platform_Create H K relays now addr options s =
     (if \<not> psInitialized s \<or> psPlatform s \<noteq> None then (None, s)
      else if options = None then (None, s)
      else case Configure H now options (Platform_new H K relays) (psStats s) (psAchievements s) of
        (p, st, ac) \<Rightarrow> (Some addr, s\<lparr>psPlatform := Some (addr, p), psStats := st, psAchievements := ac\<rparr>))"

definition EOS_Platform_Release :: "world \<Rightarrow> nat option \<Rightarrow> process \<Rightarrow> dgram list \<times> process" where
  "EOS_Platform_Release w h s =
     (case (h, psPlatform s) of
        (Some a, Some (b, p)) \<Rightarrow> if a = b then (Platform_delete w p, s\<lparr>psPlatform := None\<rparr>) else ([], s)
      | _ \<Rightarrow> ([], s))"

text \<open>The live platform behind a handle, if it is that one.\<close>

definition AsPlatform :: "nat option \<Rightarrow> process \<Rightarrow> platform option" where
  "AsPlatform h s = (case (h, psPlatform s) of (Some a, Some (b, p)) \<Rightarrow> if a = b then Some p else None | _ \<Rightarrow> None)"

definition EOS_Platform_Tick ::
  "(platform_task \<Rightarrow> tick_state \<Rightarrow> (platform_task, tick_state) task_effect) \<Rightarrow> sdk \<Rightarrow> world \<Rightarrow> nat option \<Rightarrow>
   (ui \<times> overlay) \<times> nat \<Rightarrow> process \<Rightarrow> dgram list \<times> ((ui \<times> overlay) \<times> nat) \<times> process" where
  "EOS_Platform_Tick run K w h uc s =
     (case AsPlatform h s of
        None \<Rightarrow> ([], uc, s)
      | Some p \<Rightarrow> (case Tick run (psNames s) K w (fst uc, snd uc, p) of (ds, uo, c, p') \<Rightarrow>
          (ds, (uo, c), s\<lparr>psPlatform := map_option (\<lambda>(a, _). (a, p')) (psPlatform s)\<rparr>)))"

text \<open>\<open>CheckForLauncherAndRestart\<close>, \<open>SetApplicationStatus\<close> and \<open>SetNetworkStatus\<close>.\<close>

definition CheckForLauncherAndRestart :: "nat option \<Rightarrow> process \<Rightarrow> eresult" where
  "CheckForLauncherAndRestart h s = (if AsPlatform h s \<noteq> None then EOS_NoChange else EOS_InvalidParameters)"

definition SetStatus_result :: "nat option \<Rightarrow> process \<Rightarrow> eresult" where
  "SetStatus_result h s = (if AsPlatform h s \<noteq> None then EOS_Success else EOS_InvalidParameters)"

text \<open>\<open>GetActiveLocaleCode\<close> and its three siblings, for the field each reads; the two setters.\<close>

definition get_code :: "(platform \<Rightarrow> string) \<Rightarrow> nat option \<Rightarrow> bool \<Rightarrow> int option \<Rightarrow> process \<Rightarrow> eresult \<times> int option \<times> string option" where
  "get_code field h has_buffer len s =
     (case AsPlatform h s of None \<Rightarrow> (EOS_InvalidParameters, len, None) | Some p \<Rightarrow> CopyFixedString (field p) has_buffer len)"

definition set_code :: "(string option \<Rightarrow> platform \<Rightarrow> platform) \<Rightarrow> nat option \<Rightarrow> string option \<Rightarrow> process \<Rightarrow> eresult \<times> process" where
  "set_code f h code s =
     (case AsPlatform h s of
        None \<Rightarrow> (EOS_InvalidParameters, s)
      | Some _ \<Rightarrow> (EOS_Success, s\<lparr>psPlatform := map_option (\<lambda>(a, p). (a, f code p)) (psPlatform s)\<rparr>))"

section \<open>The lifecycle as a state machine\<close>

text \<open>What one call shows the game; \<open>Other\<close> is anything that happens to the live platform.\<close>

datatype lifecycle_event = Initialized eresult | ShutDown eresult | Created "nat option" | Released "nat option" | Other

inductive process_step :: "process \<Rightarrow> lifecycle_event \<Rightarrow> process \<Rightarrow> bool" where
  p_init: "EOS_Initialize options s = (r, s') \<Longrightarrow> process_step s (Initialized r) s'"
| p_shutdown: "EOS_Shutdown s = (r, s') \<Longrightarrow> process_step s (ShutDown r) s'"
| p_create: "EOS_Platform_Create H K relays now addr options s = (h, s') \<Longrightarrow> process_step s (Created h) s'"
| p_release: "EOS_Platform_Release w h s = (ds, s') \<Longrightarrow> process_step s (Released h) s'"
| p_tick: "EOS_Platform_Tick run K w h uc s = (ds, uc', s') \<Longrightarrow> process_step s Other s'"
| p_datagram: "psPlatform s = Some (a, p) \<Longrightarrow> platform_receive (psNames s) K w src d p = (ds, p') \<Longrightarrow>
    process_step s Other (s\<lparr>psPlatform := Some (a, p')\<rparr>)"
| p_locale: "set_code f h code s = (r, s') \<Longrightarrow> process_step s Other s'"

inductive process_run :: "lifecycle_event list \<Rightarrow> process \<Rightarrow> bool" where
  run_start: "process_run [] process_init"
| run_step: "process_run es s \<Longrightarrow> process_step s e s' \<Longrightarrow> process_run (es @ [e]) s'"

inductive_cases process_stepE: "process_step s e s'"

lemma process_step_flags:
  assumes "process_step s e s'"
  shows "psInitialized s' = (if e = Initialized EOS_Success then True else if e = ShutDown EOS_Success then False else psInitialized s) \<and>
    psHasShutdown s' = (psHasShutdown s \<or> e = ShutDown EOS_Success) \<and>
    (e = Initialized EOS_Success \<longrightarrow> \<not> psInitialized s \<and> \<not> psHasShutdown s) \<and>
    (e = ShutDown EOS_Success \<longrightarrow> psInitialized s) \<and>
    (\<forall>a. e = Created (Some a) \<longrightarrow> psInitialized s \<and> psPlatform s = None) \<and> psNames s' = psNames s"
  using assms
proof cases
  case (p_init options r)
  then show ?thesis by (auto simp: EOS_Initialize_def split: if_splits option.splits)
next
  case (p_shutdown r)
  then show ?thesis by (auto simp: EOS_Shutdown_def split: if_splits)
next
  case (p_create H K relays now addr options h)
  then show ?thesis by (cases "psPlatform s") (auto simp: EOS_Platform_Create_def split: if_splits prod.splits)
next
  case (p_release w h ds)
  then show ?thesis by (auto simp: EOS_Platform_Release_def split: if_splits option.splits)
next
  case (p_tick run K w h uc ds uc')
  then show ?thesis by (auto simp: EOS_Platform_Tick_def split: option.splits prod.splits)
next
  case (p_datagram a p K w src d ds p')
  then show ?thesis by simp
next
  case (p_locale f h code r)
  then show ?thesis by (auto simp: set_code_def split: option.splits)
qed

text \<open>The history of a process: how often each call succeeded.\<close>

definition inits :: "lifecycle_event list \<Rightarrow> nat" where
  "inits es = length (filter (\<lambda>e. e = Initialized EOS_Success) es)"

definition shutdowns :: "lifecycle_event list \<Rightarrow> nat" where
  "shutdowns es = length (filter (\<lambda>e. e = ShutDown EOS_Success) es)"

lemma inits_shutdowns_simps [simp]:
  "inits [] = 0" "shutdowns [] = 0"
  "inits (es @ [e]) = inits es + (if e = Initialized EOS_Success then 1 else 0)"
  "shutdowns (es @ [e]) = shutdowns es + (if e = ShutDown EOS_Success then 1 else 0)"
  by (simp_all add: inits_def shutdowns_def)

lemma process_history:
  "process_run es s \<Longrightarrow>
   inits es \<le> 1 \<and> shutdowns es \<le> inits es \<and>
   psInitialized s = (inits es = 1 \<and> shutdowns es = 0) \<and> psHasShutdown s = (shutdowns es = 1) \<and>
   psNames s = \<lparr>inName = [], inVersion = []\<rparr>"
proof (induction rule: process_run.induct)
  case run_start
  then show ?case by (simp add: process_init_def)
next
  case (run_step es s e s')
  from process_step_flags [OF run_step(2)] run_step.IH show ?case by auto
qed

end
