(* ===== verification/PlatformFacts.thy ===== *)
theory PlatformFacts
  imports Lifecycle UIFacts RTCFacts LobbyFacts SessionFacts P2PReach
begin

text \<open>
  What the platform promises: carrying out events touches only the node and the dispatcher; a received
  datagram reaches the one component its type names; whatever arrives, and at every tick, the state of
  all components stays consistent (\<open>platform_inv\<close>); a Hello makes the sender known; presence
  is replicated; a peer that leaves is announced once and reads as offline.
\<close>

section \<open>Carrying out events\<close>

text \<open>The platform after some datagrams went out and some closures were posted.\<close>

definition outputs_only :: "platform \<Rightarrow> platform \<Rightarrow> bool" where
  "outputs_only p q \<longleftrightarrow> q = p\<lparr>plNode := plNode q, plDispatch := plDispatch q\<rparr>"

lemma outputs_only_refl [simp]: "outputs_only p p"
  by (simp add: outputs_only_def)

lemma outputs_only_trans [trans]: "outputs_only p q \<Longrightarrow> outputs_only q r \<Longrightarrow> outputs_only p r"
proof -
  assume a: "outputs_only p q" and b: "outputs_only q r"
  have "r = q\<lparr>plNode := plNode r, plDispatch := plDispatch r\<rparr>" using b by (simp add: outputs_only_def)
  also have "\<dots> = p\<lparr>plNode := plNode r, plDispatch := plDispatch r\<rparr>" by (subst a [unfolded outputs_only_def]) simp
  finally show ?thesis by (simp add: outputs_only_def)
qed

lemma outputs_only_fields:
  assumes "outputs_only p q"
  shows "plPeers q = plPeers p" "plP2P q = plP2P p" "plLobby q = plLobby p" "plSessions q = plSessions p"
    "plPresence q = plPresence p" "plCustom q = plCustom p" "plIdentity q = plIdentity p" "plConfig q = plConfig p"
    "plLocalPresence q = plLocalPresence p" "plHelloDirty q = plHelloDirty p" "plLastHello q = plLastHello p"
    "plTickCount q = plTickCount p" "plProductId q = plProductId p" "plPeerTimeout q = plPeerTimeout p"
    "local_pid q = local_pid p" "plRTC q = plRTC p"
  by (subst assms [unfolded outputs_only_def], simp add: local_pid_def)+

lemma outputs_only_node: "outputs_only (p\<lparr>plNode := nd\<rparr>) q \<Longrightarrow> outputs_only p q"
  by (auto simp: outputs_only_def)

lemma outputs_only_post: "outputs_only (post_task t p) q \<Longrightarrow> outputs_only p q"
  by (auto simp: outputs_only_def post_task_def)

lemma perform_outputs_only: "outputs_only p (snd (perform w f evs p))"
proof (induction w f evs p rule: perform.induct)
  case (2 w f t evs p)
  then show ?case by (auto dest: outputs_only_post)
next
  case (3 w f c evs p)
  obtain ds nd where n: "net_out w c (plNode p) = (ds, nd)" by (cases "net_out w c (plNode p)")
  from "3.IH" [OF n [symmetric]] n show ?case by (auto simp: case_prod_beta dest: outputs_only_node)
qed simp

lemma perform_p2p_outputs_only: "outputs_only p (snd (perform_p2p evs p))"
  by (induction evs p rule: perform_p2p.induct) (auto simp: outputs_only_post case_prod_beta)

lemmas perform_fields [simp] = outputs_only_fields [OF perform_outputs_only]
lemmas perform_p2p_fields [simp] = outputs_only_fields [OF perform_p2p_outputs_only]

lemma perform_posts:
  "plDispatch (snd (perform w f evs p)) = (plDispatch p)\<lparr>dPending := dPending (plDispatch p) @ map f (posts evs)\<rparr>"
proof (induction w f evs p rule: perform.induct)
  case (2 w f t evs p)
  then show ?case by (simp add: post_task_def Post_def)
next
  case (3 w f c evs p)
  obtain ds nd where n: "net_out w c (plNode p) = (ds, nd)" by (cases "net_out w c (plNode p)")
  from "3.IH" [OF n [symmetric]] n show ?case by (simp add: case_prod_beta)
qed simp

text \<open>With nothing for the network, only the dispatcher changes.\<close>

definition queue_tasks :: "platform_task list \<Rightarrow> platform \<Rightarrow> platform" where
  "queue_tasks ts p = p\<lparr>plDispatch := (plDispatch p)\<lparr>dPending := dPending (plDispatch p) @ ts\<rparr>\<rparr>"

lemma queue_tasks_simps [simp]:
  "queue_tasks [] p = p" "queue_tasks us (queue_tasks ts p) = queue_tasks (ts @ us) p"
  by (simp_all add: queue_tasks_def)

lemma perform_posts_only: "perform w f (map EvPost ts) p = ([], queue_tasks (map f ts) p)"
proof (induction ts arbitrary: p)
  case (Cons t ts)
  have "queue_tasks (map f ts) (post_task (f t) p) = queue_tasks (f t # map f ts) p"
    by (simp add: queue_tasks_def post_task_def Post_def)
  with Cons show ?case by simp
qed simp

definition presence_tasks :: "platform \<Rightarrow> epic option \<Rightarrow> epic option \<Rightarrow> platform_task list" where
  "presence_tasks p me subject = map (\<lambda>e. TaskPresence (PresenceChangedCb (neFn e) (neCd e) me subject)) (prChanged (plPresence p))"

lemma notify_presence_eq:
  "notify_presence G w (Some e) p = queue_tasks (presence_tasks p (idEpic (plIdentity p)) (Some e)) p"
  using perform_posts_only [of w TaskPresence "map (\<lambda>x. PresenceChangedCb (neFn x) (neCd x) (idEpic (plIdentity p)) (Some e)) (prChanged (plPresence p))" p]
  by (simp add: notify_presence_def NotifyPresenceChanged_def presence_observers_def presence_env_of_def presence_tasks_def comp_def)

section \<open>Routing\<close>

text \<open>What one datagram may change, by its type.\<close>

lemma route_fields:
  "outputs_only (p\<lparr>plP2P := plP2P (snd (route_p2p K w from ty pl p))\<rparr>) (snd (route_p2p K w from ty pl p))"
  "outputs_only (p\<lparr>plLobby := plLobby (snd (route_lobby K w from ty pl p))\<rparr>) (snd (route_lobby K w from ty pl p))"
  "outputs_only (p\<lparr>plSessions := plSessions (snd (route_session K w from ty pl p))\<rparr>) (snd (route_session K w from ty pl p))"
  "outputs_only (p\<lparr>plCustom := plCustom (snd (route_custom w ty pl p))\<rparr>) (snd (route_custom w ty pl p))"
  by (simp_all add: route_p2p_def route_lobby_def route_session_def route_custom_def case_prod_beta
      perform_outputs_only perform_p2p_outputs_only)

lemma notify_outputs_only: "outputs_only p (notify_presence G w e p)"
  by (simp add: notify_presence_def perform_outputs_only)

lemma hello_goodbye_fields:
  "outputs_only (p\<lparr>plPeers := plPeers (on_hello G w from pl p)\<rparr>) (on_hello G w from pl p)"
  "outputs_only (p\<lparr>plPeers := plPeers (on_goodbye G w pl p)\<rparr>) (on_goodbye G w pl p)"
proof -
  have n: "outputs_only (p\<lparr>plPeers := d\<rparr>) (notify_presence G w e (p\<lparr>plPeers := d\<rparr>)) \<and>
      plPeers (notify_presence G w e (p\<lparr>plPeers := d\<rparr>)) = d" for d e
    using outputs_only_fields(1) [OF notify_outputs_only [of "p\<lparr>plPeers := d\<rparr>" G w e]] notify_outputs_only by simp
  have same: "outputs_only (p\<lparr>plPeers := plPeers p\<rparr>) p" by (simp add: outputs_only_def)
  show "outputs_only (p\<lparr>plPeers := plPeers (on_hello G w from pl p)\<rparr>) (on_hello G w from pl p)"
    using n same by (auto simp: on_hello_def Let_def split: option.split prod.split)
  show "outputs_only (p\<lparr>plPeers := plPeers (on_goodbye G w pl p)\<rparr>) (on_goodbye G w pl p)"
    using n same by (auto simp: on_goodbye_def NotifyPeerOffline_def split: option.split prod.split)
qed

fun concerns_p2p :: "MessageType \<Rightarrow> bool" where
  "concerns_p2p ty = (ty \<in> {P2PData, P2PConnectRequest, P2PConnectAccept, P2PConnectClose, P2PAck, P2PConnectIgnored})"

fun concerns_lobby :: "MessageType \<Rightarrow> bool" where
  "concerns_lobby ty = (ty \<in> {LobbyAnnounce, LobbyUpdate, LobbyJoinRequest, LobbyJoinResponse, LobbyLeave, LobbyInvite})"

fun concerns_session :: "MessageType \<Rightarrow> bool" where
  "concerns_session ty = (ty \<in> {SessionAnnounce, SessionWithdraw, SessionInvite})"

lemma Platform_OnDatagram_cases:
  assumes "snd (Platform_OnDatagram G K w from h payload p) = q"
  shows "q = p \<or> outputs_only (p\<lparr>plPeers := plPeers q\<rparr>) q \<and> mt_of_code (whType h) \<in> {Some Hello, Some Goodbye} \<or>
    outputs_only (p\<lparr>plP2P := plP2P q\<rparr>) q \<and> (\<exists>ty. mt_of_code (whType h) = Some ty \<and> concerns_p2p ty) \<or>
    outputs_only (p\<lparr>plLobby := plLobby q\<rparr>) q \<and> (\<exists>ty. mt_of_code (whType h) = Some ty \<and> concerns_lobby ty) \<or>
    outputs_only (p\<lparr>plSessions := plSessions q\<rparr>) q \<and> (\<exists>ty. mt_of_code (whType h) = Some ty \<and> concerns_session ty) \<or>
    outputs_only (p\<lparr>plCustom := plCustom q\<rparr>) q \<and> mt_of_code (whType h) = Some CustomInvite"
proof (cases "mt_of_code (whType h)")
  case None
  with assms show ?thesis by (simp add: Platform_OnDatagram_def)
next
  case (Some ty)
  with assms route_fields hello_goodbye_fields show ?thesis
    by (cases ty) (auto simp: Platform_OnDatagram_def)
qed

section \<open>The state of the whole node\<close>

definition platform_inv :: "nat \<Rightarrow> platform \<Rightarrow> bool" where
  "platform_inv c p \<longleftrightarrow> p2p_inv c (plP2P p) \<and> lobby_inv (local_pid p) (plLobby p) \<and> session_inv (plSessions p) \<and>
     peers_inv (plPeers p) \<and> rooms_ok (rtRooms (plRTC p))"

lemma platform_inv_outputs: "outputs_only p q \<Longrightarrow> platform_inv c p \<Longrightarrow> platform_inv c q"
  by (simp add: platform_inv_def outputs_only_fields)

lemma platform_inv_perform [inv_intros]:
  "platform_inv c p \<Longrightarrow> platform_inv c (snd (perform w f evs p))"
  "platform_inv c p \<Longrightarrow> platform_inv c (snd (perform_p2p pevs p))"
  using platform_inv_outputs [OF perform_outputs_only] platform_inv_outputs [OF perform_p2p_outputs_only] by blast+

lemma platform_inv_notify [inv_intros]:
  "platform_inv c p \<Longrightarrow> platform_inv c (NotifyPeerOffline G w i p)"
  "platform_inv c p \<Longrightarrow> platform_inv c (notify_presence G w e p)"
  by (simp_all add: NotifyPeerOffline_def notify_presence_def platform_inv_perform split: option.split)

lemma platform_inv_peers: "platform_inv c p \<Longrightarrow> peers_inv d \<Longrightarrow> platform_inv c (p\<lparr>plPeers := d\<rparr>)"
  by (simp add: platform_inv_def local_pid_def)

lemma platform_inv_on_hello: "platform_inv c p \<Longrightarrow> platform_inv c (on_hello G w from pl p)"
proof -
  assume inv: "platform_inv c p"
  then have "peers_inv (snd (Observe now a b d e from (plPeers p)))" for now a b d e
    by (simp add: platform_inv_def peers_inv_Observe)
  then have "platform_inv c (p\<lparr>plPeers := q\<rparr>)" if "Observe now a b d e from (plPeers p) = (ch, q)" for now a b d e ch q
    using platform_inv_peers [OF inv] that by (metis snd_conv)
  then show ?thesis using inv by (auto simp: on_hello_def Let_def split: option.split prod.split intro: platform_inv_notify)
qed

lemma platform_inv_on_goodbye: "platform_inv c p \<Longrightarrow> platform_inv c (on_goodbye G w pl p)"
proof -
  assume inv: "platform_inv c p"
  then have "peers_inv (snd (MarkOffline a (plPeers p)))" for a
    by (simp add: platform_inv_def peers_inv_MarkOffline)
  then have "platform_inv c (p\<lparr>plPeers := q\<rparr>)" if "MarkOffline a (plPeers p) = (i, q)" for a i q
    using platform_inv_peers [OF inv] that by (metis snd_conv)
  then show ?thesis
    using inv by (auto simp: on_goodbye_def split: option.split prod.split intro: platform_inv_notify)
qed

lemma platform_inv_routes:
  assumes "platform_inv c p"
  shows "platform_inv c (snd (route_p2p K w from ty pl p))" "platform_inv c (snd (route_lobby K w from ty pl p))"
    "platform_inv c (snd (route_session K w from ty pl p))" "platform_inv c (snd (route_custom w ty pl p))"
proof -
  have "lobby_inv (leLocal (lobby_env_of p)) (plLobby p)" using assms by (simp add: platform_inv_def lobby_env_of_def)
  from lobby_inv_OnDatagram [OF this, of K "from" ty pl]
  have "lobby_inv (local_pid p) (fst (Lobby_OnDatagram (lobby_env_of p) K from ty pl (plLobby p)))"
    by (simp add: lobby_env_of_def)
  then show "platform_inv c (snd (route_lobby K w from ty pl p))"
    using assms unfolding route_lobby_def case_prod_beta
    by (intro platform_inv_perform) (simp add: platform_inv_def local_pid_def)
  show "platform_inv c (snd (route_p2p K w from ty pl p))" "platform_inv c (snd (route_session K w from ty pl p))"
    "platform_inv c (snd (route_custom w ty pl p))"
    using assms unfolding route_p2p_def route_session_def route_custom_def case_prod_beta
    by (intro platform_inv_perform; simp add: platform_inv_def local_pid_def p2p_inv_OnDatagram session_inv_OnDatagram)+
qed

lemma platform_inv_OnDatagram: "platform_inv c p \<Longrightarrow> platform_inv c (snd (Platform_OnDatagram G K w from h pl p))"
proof (cases "mt_of_code (whType h)")
  case (Some ty)
  assume "platform_inv c p"
  with Some show ?thesis
    by (cases ty) (simp_all add: Platform_OnDatagram_def platform_inv_routes platform_inv_on_hello platform_inv_on_goodbye)
qed (simp add: Platform_OnDatagram_def)

lemma platform_inv_receive [inv_intros]:
  "platform_inv c p \<Longrightarrow> platform_inv c (snd (platform_receive G K w src d p))"
  by (auto simp: platform_receive_def platform_inv_OnDatagram split: option.split)

lemma platform_inv_fold_notify:
  "platform_inv c p \<Longrightarrow> platform_inv c (fold (NotifyPeerOffline G w) gone p)"
  by (induction gone arbitrary: p) (auto intro: platform_inv_notify)

lemma platform_inv_stale [inv_intros]: "platform_inv c p \<Longrightarrow> platform_inv c (tick_stale G w p)"
proof -
  assume inv: "platform_inv c p"
  then have "peers_inv (snd (MarkStale (wdNow w) (plPeerTimeout p) (plPeers p)))"
    by (simp add: platform_inv_def peers_inv_MarkStale)
  from platform_inv_peers [OF inv this] show ?thesis
    by (simp add: tick_stale_def case_prod_beta platform_inv_fold_notify)
qed

lemma platform_inv_pump [inv_intros]: "platform_inv c p \<Longrightarrow> platform_inv c (snd (tick_pump K w p))"
  unfolding tick_pump_def case_prod_beta
  by (intro platform_inv_perform) (simp add: platform_inv_def local_pid_def p2p_inv_Pump)

lemma platform_inv_same:
  "platform_inv c p \<Longrightarrow> plP2P q = plP2P p \<Longrightarrow> plLobby q = plLobby p \<Longrightarrow> plSessions q = plSessions p \<Longrightarrow>
   plPeers q = plPeers p \<Longrightarrow> plRTC q = plRTC p \<Longrightarrow> plIdentity q = plIdentity p \<Longrightarrow> platform_inv c q"
  by (simp add: platform_inv_def local_pid_def)

lemma platform_inv_then_do:
  "platform_inv c (snd x) \<Longrightarrow> (\<And>q. platform_inv c q \<Longrightarrow> platform_inv c (snd (f q))) \<Longrightarrow> platform_inv c (snd (then_do x f))"
  by (cases x) (simp add: then_do_def case_prod_beta)

lemma platform_inv_broadcast [inv_intros]: "platform_inv c p \<Longrightarrow> platform_inv c (snd (broadcast w ty pl p))"
  by (erule platform_inv_same) (simp_all add: broadcast_def case_prod_beta)

lemma platform_inv_announce [inv_intros]: "platform_inv c p \<Longrightarrow> platform_inv c (snd (tick_announce G K w p))"
proof -
  assume inv: "platform_inv c p"
  then have "platform_inv c (p\<lparr>plHelloDirty := False\<rparr>)" by (rule platform_inv_same) simp_all
  then have one: "platform_inv c (snd (if plHelloDirty p \<or> hello_due (wdNow w) p
      then BroadcastHello G w (p\<lparr>plHelloDirty := False\<rparr>) else ([], p)))"
    using inv by (simp add: BroadcastHello_def platform_inv_broadcast)
  have two: "platform_inv c (q\<lparr>plLastHello := now\<rparr>)" if "platform_inv c q" for q now
    using that by (rule platform_inv_same) simp_all
  show ?thesis
    unfolding tick_announce_def Let_def using one two
    by (auto intro!: platform_inv_then_do platform_inv_perform)
qed

text \<open>A tick keeps the invariant when the consumer callbacks it runs do.\<close>

lemma platform_inv_run_ready:
  assumes run: "\<And>t st. platform_inv c (snd (snd st)) \<Longrightarrow> platform_inv c (snd (snd (teState (run t st))))"
  shows "platform_inv c (snd (snd st)) \<Longrightarrow> platform_inv c (snd (snd (fst (run_ready run ts st d))))"
  by (induction ts arbitrary: st d) (simp_all add: Let_def run)

lemma platform_inv_tick_drain:
  assumes run: "\<And>t st. platform_inv c (snd (snd st)) \<Longrightarrow> platform_inv c (snd (snd (teState (run t st))))"
    and inv: "platform_inv c (snd (snd st))"
  shows "platform_inv c (snd (snd (tick_drain run w st)))"
proof -
  have "platform_inv c (snd (snd (fst (Drain (wdNow w) run st (plDispatch (snd (snd st)))))))"
    using platform_inv_run_ready [of c run st, OF run inv] by (simp add: Drain_def case_prod_beta)
  then show ?thesis by (auto simp: tick_drain_def platform_inv_def local_pid_def split: prod.split)
qed

lemma platform_inv_rtc: "platform_inv c p \<Longrightarrow> platform_inv c (snd (tick_rtc w p))"
  unfolding tick_rtc_def case_prod_beta
  by (intro platform_inv_perform) (simp add: platform_inv_def local_pid_def pump_ok views_ok_lobbies)

lemma platform_inv_route_action: "platform_inv c (snd cp) \<Longrightarrow> platform_inv c (snd (route_action w a cp))"
proof (induction w a cp rule: route_action.induct)
  case (1 w a i k p)
  then show ?case
    unfolding route_action.simps case_prod_beta
    by (auto intro!: platform_inv_perform simp: platform_inv_def local_pid_def lobby_inv_RejectInviteFromOverlay)
next
  case (2 w a i k p)
  then show ?case
    unfolding route_action.simps case_prod_beta
    by (auto intro!: platform_inv_perform simp: platform_inv_def local_pid_def session_inv_overlay session_inv_invites)
next
  case (3 w a i k p)
  then show ?case
    unfolding route_action.simps case_prod_beta
    by (auto intro!: platform_inv_perform simp: platform_inv_def local_pid_def lobby_inv_BeginJoin)
next
  case (4 w a i k p)
  then show ?case
    unfolding route_action.simps case_prod_beta
    by (auto intro!: platform_inv_perform simp: platform_inv_def local_pid_def session_inv_overlay session_inv_invites)
qed

lemma platform_inv_tick_ui: "platform_inv c p \<Longrightarrow> platform_inv c (snd (snd (tick_ui w (uo, k, p))))"
proof -
  assume inv: "platform_inv c p"
  have fold: "platform_inv c (snd (fold (route_action w) as kp))" if "platform_inv c (snd kp)" for as kp
    using that by (induction as arbitrary: kp) (simp_all add: platform_inv_route_action)
  have "platform_inv c (snd (fst (snd (PumpTick w uo (k, p)))))"
    using inv by (simp add: PumpTick_def PumpSocial_def Let_def case_prod_beta fold)
  then show ?thesis by (auto simp: tick_ui_def case_prod_beta intro: platform_inv_perform)
qed

lemma platform_inv_tick_work: "platform_inv c p \<Longrightarrow> platform_inv c (snd (tick_work G K w p))"
proof -
  assume inv: "platform_inv c p"
  have "platform_inv c (p\<lparr>plTickCount := plTickCount p + 1\<rparr>)" using inv by (rule platform_inv_same) simp_all
  then show ?thesis
    unfolding tick_work_def
    by (intro platform_inv_then_do platform_inv_announce platform_inv_pump platform_inv_stale platform_inv_rtc)
qed

lemma platform_inv_Tick:
  assumes run: "\<And>t st. platform_inv c (snd (snd st)) \<Longrightarrow> platform_inv c (snd (snd (teState (run t st))))"
    and inv: "platform_inv c p"
  shows "platform_inv c (snd (snd (snd (Tick run G K w (uo, k, p)))))"
  using platform_inv_tick_work [OF inv, of G K w]
  by (auto simp: Tick_def case_prod_beta intro!: platform_inv_tick_drain run platform_inv_tick_ui)

lemma platform_inv_new: "platform_inv 1 (Platform_new H K relays)"
  by (simp add: platform_inv_def Platform_new_def Let_def p2p_inv_init lobby_inv_init session_inv_init rtc_start_def rooms_ok_def del: One_nat_def)

lemma platform_inv_Configure:
  assumes "platform_inv c p"
  shows "platform_inv c (fst (Configure H now options p st ac))"
proof (cases options)
  case None
  with assms show ?thesis by (simp add: Configure_def)
next
  case (Some opt)
  have "platform_inv c (start_network H now (apply_identity_config (load_cache_config H (apply_options opt p))))"
    using assms by (rule platform_inv_same)
      (simp_all add: start_network_def apply_identity_config_def load_cache_config_def apply_options_def Let_def)
  then show ?thesis by (simp add: Configure_def Some Let_def)
qed

section \<open>Discovery\<close>

text \<open>The frame of a broadcast, as every other node receives it.\<close>

definition carries :: "platform \<Rightarrow> MessageType \<Rightarrow> bytes \<Rightarrow> dgram list \<Rightarrow> bool" where
  "carries p ty payload ds \<longleftrightarrow>
     (\<exists>ip port. (ip, port, Frame (plNode p) ty payload (W_Size payload)) \<in> set ds)"

definition fits :: "bytes \<Rightarrow> bool" where
  "fits payload \<longleftrightarrow> length payload \<le> kMaxDatagram - kHeaderSize"

lemma fits_W_Size: "fits payload \<Longrightarrow> unat (W_Size payload) = length payload"
  by (simp add: fits_def unat_W_Size wire_consts)

lemma node_refresh [simp]:
  "ndRunning (RefreshBroadcastTargets now ad nd) = ndRunning nd"
  "Frame (RefreshBroadcastTargets now ad nd) ty pl n = Frame nd ty pl n"
  "ndSenderTag (RefreshBroadcastTargets now ad nd) = ndSenderTag nd"
  "ndUnicastPort (RefreshBroadcastTargets now ad nd) = ndUnicastPort nd"
  by (simp_all add: RefreshBroadcastTargets_def Frame_def)

lemma broadcast_carries:
  assumes "ndRunning (plNode p)" "fits payload"
  shows "carries p ty payload (fst (broadcast w ty payload p))"
  using assms fits_W_Size [of payload]
  by (auto simp: carries_def broadcast_def Broadcast_def Let_def fits_def)

lemma receive_frame:
  assumes "fits payload" "ndSenderTag (plNode p) \<noteq> ndSenderTag (plNode q)"
  shows "\<exists>h. whType h = mt_code ty \<and> platform_receive G K w src (Frame (plNode p) ty payload (W_Size payload)) q =
    Platform_OnDatagram G K w \<lparr>epIp = src, epPort = ndUnicastPort (plNode p)\<rparr> h payload q"
proof -
  let ?h = "\<lparr>whMagic = kMagic, whVersion = kProtocolVersion, whType = mt_code ty, whSenderTag = ndSenderTag (plNode p),
    whUnicastPort = ndUnicastPort (plNode p), whPayloadLen = W_Size payload\<rparr>"
  have "platform_receive G K w src (Frame (plNode p) ty payload (W_Size payload)) q =
      Platform_OnDatagram G K w \<lparr>epIp = src, epPort = ndUnicastPort (plNode p)\<rparr> ?h payload q"
    using receive_Frame [of "W_Size payload" payload "plNode q" src "plNode p" ty] assms fits_W_Size [OF assms(1)]
    by (simp add: platform_receive_def fits_def)
  moreover have "whType ?h = mt_code ty" by simp
  ultimately show ?thesis by blast
qed

text \<open>A Hello makes the sender known, online, at the source address and the announced port, with the
  presence it announced.\<close>

definition met :: "init_names \<Rightarrow> platform \<Rightarrow> time_ns \<Rightarrow> u32 \<Rightarrow> PeerInfo" where
  "met G p now src =
     \<lparr>piProduct = heProductId (hello_of G p), piEpic = intern (heEpicId (hello_of G p)),
      piDisplayName = heDisplayName (hello_of G p), piEndpoint = \<lparr>epIp = src, epPort = ndUnicastPort (plNode p)\<rparr>,
      piPresence = hePresence (hello_of G p), piLastSeen = now, piOnline = True\<rparr>"

lemma on_hello_peers:
  assumes "read_hello payload = Some h" "heProductId h \<noteq> []"
  shows "plPeers (on_hello G w from payload p) = AList.update (heProductId h)
    \<lparr>piProduct = heProductId h, piEpic = intern (heEpicId h), piDisplayName = heDisplayName h, piEndpoint = from,
     piPresence = hePresence h, piLastSeen = wdNow w, piOnline = True\<rparr> (plPeers p)"
proof -
  have n: "plPeers (notify_presence G w e q) = plPeers q" for e q
    using outputs_only_fields(1) [OF notify_outputs_only] .
  show ?thesis using assms by (simp add: on_hello_def Let_def case_prod_beta n) (simp add: Observe_def Let_def)
qed

lemma hello_meets:
  assumes ok: "hello_ok (hello_of G p)" "fits (enc_hello (hello_of G p))" "idProductStr (plIdentity p) \<noteq> []"
    and tags: "ndSenderTag (plNode p) \<noteq> ndSenderTag (plNode q)"
    and rec: "platform_receive G K w src (Frame (plNode p) Hello (enc_hello (hello_of G p)) (W_Size (enc_hello (hello_of G p)))) q = (out, q')"
  shows "plPeers q' = AList.update (idProductStr (plIdentity p)) (met G p (wdNow w) src) (plPeers q) \<and>
    out = [] \<and> outputs_only (q\<lparr>plPeers := plPeers q'\<rparr>) q'"
proof -
  obtain h where h: "whType h = mt_code Hello"
    "(out, q') = Platform_OnDatagram G K w \<lparr>epIp = src, epPort = ndUnicastPort (plNode p)\<rparr> h (enc_hello (hello_of G p)) q"
    using receive_frame [OF ok(2) tags, of Hello G K w src] rec by auto
  then have q': "out = []" "q' = on_hello G w \<lparr>epIp = src, epPort = ndUnicastPort (plNode p)\<rparr> (enc_hello (hello_of G p)) q"
    by (simp_all add: Platform_OnDatagram_def del: mt_code.simps)
  have r: "read_hello (enc_hello (hello_of G p)) = Some (hello_of G p)" using read_hello_enc [OF ok(1), of "[]"] by simp
  have "heProductId (hello_of G p) = idProductStr (plIdentity p)" by (simp add: hello_of_def)
  with on_hello_peers [OF r, of G w "\<lparr>epIp = src, epPort = ndUnicastPort (plNode p)\<rparr>" q] ok(3)
  have "plPeers q' = AList.update (idProductStr (plIdentity p)) (met G p (wdNow w) src) (plPeers q)"
    by (simp add: q' met_def)
  moreover have "outputs_only (q\<lparr>plPeers := plPeers q'\<rparr>) q'" unfolding q'(2) by (rule hello_goodbye_fields)
  ultimately show ?thesis using q'(1) by blast
qed

section \<open>Presence replication\<close>

text \<open>What a game commits is what it reads of itself and what the next announcement carries.\<close>

lemma SetPresence_pushes:
  assumes "Platform_SetPresence G w user (Some m) cd cb p = p'"
  shows "plHelloDirty p' \<and> plLocalPresence p' = pushed_presence (plPresence p') \<and>
    plPresence p' = apply_presence_mod m (plPresence p) \<and> plIdentity p' = plIdentity p \<and> plPeers p' = plPeers p \<and>
    plProductId p' = plProductId p \<and> plNode p' = plNode p"
proof -
  obtain s lp ev where d: "SetPresence (presence_env_of G p) user (Some m) cd cb (plPresence p) = (s, lp, ev)"
    by (cases "SetPresence (presence_env_of G p) user (Some m) cd cb (plPresence p)")
  then have s: "s = apply_presence_mod m (plPresence p)" "lp = Some (pushed_presence s)" and ev: "net_calls ev = []"
    by (auto simp: SetPresence_def Let_def presence_observers_def)
  have "ev = map EvPost (posts ev)"
    using ev by (induction ev) (auto simp: posts_def net_calls_def split: event.splits)
  then have "snd (perform w TaskPresence ev x) = queue_tasks (map TaskPresence (posts ev)) x" for x
    using perform_posts_only [of w TaskPresence "posts ev" x] by simp
  then have "p' = queue_tasks (map TaskPresence (posts ev)) (SetLocalPresence (pushed_presence s) (p\<lparr>plPresence := s\<rparr>))"
    using assms d s(2) by (simp add: Platform_SetPresence_def Let_def)
  then show ?thesis by (simp add: queue_tasks_def SetLocalPresence_def s(1))
qed

lemma FindByEpic_update:
  assumes "piEpic i = Some e" "\<forall>(k', j) \<in> set d. k' \<noteq> k \<longrightarrow> piEpic j \<noteq> Some e" "distinct (keys d)"
  shows "FindByEpic (AList.update k i d) (Some e) = Some i"
  using assms
proof (induction d)
  case Nil
  then show ?case by (simp add: FindByEpic_def)
next
  case (Cons x d)
  obtain k' j where x: "x = (k', j)" by (cases x)
  show ?case
  proof (cases "k' = k")
    case True
    with Cons.prems x show ?thesis by (simp add: FindByEpic_def)
  next
    case False
    with Cons x show ?thesis by (auto simp: FindByEpic_def)
  qed
qed

text \<open>A peer that receives the announcement reads exactly what the announcing user reads of itself.\<close>

lemma presence_seen_by_peer:
  assumes p: "hello_ok (hello_of G p)" "fits (enc_hello (hello_of G p))" "idProductStr (plIdentity p) \<noteq> []"
      "idEpicStr (plIdentity p) = e" "e \<noteq> []" "idEpic (plIdentity p) = Some e"
    and pushed: "plLocalPresence p = pushed_presence (plPresence p)" "plProductId p \<noteq> []"
      "0 \<le> prStatus (plPresence p) \<and> prStatus (plPresence p) < 256"
    and q: "ndSenderTag (plNode p) \<noteq> ndSenderTag (plNode q)" "idEpic (plIdentity q) \<noteq> Some e"
      "peers_inv (plPeers q)" "\<forall>(k, i) \<in> set (plPeers q). k \<noteq> idProductStr (plIdentity p) \<longrightarrow> piEpic i \<noteq> Some e"
    and rec: "platform_receive G K w src (Frame (plNode p) Hello (enc_hello (hello_of G p)) (W_Size (enc_hello (hello_of G p)))) q = (out, q')"
  shows "CopyPresence (presence_env_of G q') K (Some e) True (plPresence q') =
      CopyPresence (presence_env_of G p) K (Some e) True (plPresence p) \<and>
    fst (CopyPresence (presence_env_of G p) K (Some e) True (plPresence p)) = EOS_Success"
proof -
  from hello_meets [OF p(1,2,3) q(1) rec]
  have peers: "plPeers q' = AList.update (idProductStr (plIdentity p)) (met G p (wdNow w) src) (plPeers q)"
    and only: "outputs_only (q\<lparr>plPeers := plPeers q'\<rparr>) q'" by blast+
  have id: "plIdentity q' = plIdentity q" "plProductId q' = plProductId q"
    using outputs_only_fields(7,13) [OF only] by simp_all
  have "piEpic (met G p (wdNow w) src) = Some e" using p(4,5) by (simp add: met_def hello_of_def intern_def)
  from FindByEpic_update [OF this q(4)] q(3)
  have "FindByEpic (plPeers q') (Some e) = Some (met G p (wdNow w) src)" by (simp add: peers peers_inv_def)
  moreover have "piPresence (met G p (wdNow w) src) = hePresence (hello_of G p)" "piOnline (met G p (wdNow w) src)"
    by (simp_all add: met_def)
  ultimately show ?thesis
    using p(6) q(2) pushed id
    by (simp add: CopyPresence_def presence_env_of_def Let_def hello_of_def pushed_presence_def presence_out_def or_else_def)
qed

section \<open>Departure\<close>

text \<open>What one peer's loss posts.\<close>

definition offline_tasks :: "platform \<Rightarrow> PeerInfo \<Rightarrow> platform_task list" where
  "offline_tasks p i = (case piEpic i of None \<Rightarrow> [] | Some e \<Rightarrow> presence_tasks p (idEpic (plIdentity p)) (Some e))"

lemma NotifyPeerOffline_eq: "NotifyPeerOffline G w i p = queue_tasks (offline_tasks p i) p"
  by (simp add: NotifyPeerOffline_def offline_tasks_def notify_presence_eq split: option.split)

lemma offline_tasks_queue [simp]: "offline_tasks (queue_tasks ts p) = offline_tasks p"
  by (rule ext) (simp add: offline_tasks_def presence_tasks_def queue_tasks_def cong: option.case_cong)

lemma fold_NotifyPeerOffline:
  "fold (NotifyPeerOffline G w) gone p = queue_tasks (concat (map (offline_tasks p) gone)) p"
  by (induction gone arbitrary: p) (simp_all add: NotifyPeerOffline_eq)

text \<open>A sweep: every peer overdue is marked offline and told to each observer once, in directory
  order; nothing else changes.\<close>

lemma tick_stale_eq:
  "tick_stale G w p = queue_tasks
     (concat (map (offline_tasks p) (filter (stale (wdNow w) (plPeerTimeout p)) (map snd (plPeers p)))))
     (p\<lparr>plPeers := map (apsnd (sweep (wdNow w) (plPeerTimeout p))) (plPeers p)\<rparr>)"
proof -
  have o: "offline_tasks (p\<lparr>plPeers := d\<rparr>) = offline_tasks p" for d
    by (rule ext) (simp add: offline_tasks_def presence_tasks_def cong: option.case_cong)
  have "offline_tasks p (sweep now t i) = offline_tasks p i" for now t i
    by (simp add: offline_tasks_def sweep_def)
  then show ?thesis by (simp add: tick_stale_def MarkStale_eq fold_NotifyPeerOffline o comp_def)
qed

lemma on_goodbye_eq:
  assumes "short pid" "pid \<noteq> []"
  shows "on_goodbye G w (enc_goodbye pid) p =
    (case map_of (plPeers p) pid of
       Some i \<Rightarrow> if piOnline i then queue_tasks (offline_tasks p i) (p\<lparr>plPeers := AList.update pid (i\<lparr>piOnline := False\<rparr>) (plPeers p)\<rparr>)
                 else p
     | None \<Rightarrow> p)"
proof -
  have o: "offline_tasks (p\<lparr>plPeers := d\<rparr>) (i\<lparr>piOnline := False\<rparr>) = offline_tasks p i" for d i
    by (simp add: offline_tasks_def presence_tasks_def cong: option.case_cong)
  show ?thesis
    using assms by (simp add: on_goodbye_def read_goodbye_enc MarkOffline_def Let_def NotifyPeerOffline_eq o split: option.split)
qed

section \<open>The rhythm of announcements\<close>

lemma tick_announce_quiet:
  "\<not> plHelloDirty p \<Longrightarrow> \<not> hello_due (wdNow w) p \<Longrightarrow> tick_announce G K w p = ([], p)"
  by (simp add: tick_announce_def)

lemma tick_announce_resets:
  "\<not> plHelloDirty (snd (tick_announce G K w p)) \<and>
   plLastHello (snd (tick_announce G K w p)) = (if hello_due (wdNow w) p then wdNow w else plLastHello p)"
proof -
  have b: "plHelloDirty (snd (BroadcastHello G w q)) = plHelloDirty q" "plLastHello (snd (BroadcastHello G w q)) = plLastHello q" for q
    by (simp_all add: BroadcastHello_def broadcast_def case_prod_beta)
  show ?thesis by (auto simp: tick_announce_def Let_def then_do_def case_prod_beta b)
qed

lemma tick_announce_carries:
  assumes "plHelloDirty p \<or> hello_due (wdNow w) p" "ndRunning (plNode p)" "fits (enc_hello (hello_of G p))"
  shows "carries p Hello (enc_hello (hello_of G p)) (fst (tick_announce G K w p))"
proof -
  have h: "hello_of G (p\<lparr>plHelloDirty := False\<rparr>) = hello_of G p" by (simp add: hello_of_def)
  have "carries p Hello (enc_hello (hello_of G p)) (fst (BroadcastHello G w (p\<lparr>plHelloDirty := False\<rparr>)))"
    using broadcast_carries [of "p\<lparr>plHelloDirty := False\<rparr>" "enc_hello (hello_of G p)" Hello w] assms(2,3)
    by (simp add: BroadcastHello_def h carries_def)
  then show ?thesis
    using assms(1) by (auto simp: tick_announce_def Let_def then_do_def case_prod_beta carries_def)
qed

end
