(* ===== verification/Memory.thy ===== *)
theory Memory
  imports Serialize "HOL-Library.Monad_Syntax"
begin

text \<open>
  The allocator front end and the API blocks of \<open>src/core/Memory.h\<close> and \<open>Memory.cpp\<close>, at the level of
  bytes and addresses: a block that a \<open>Copy\<close> call hands out carries a hidden header just before
  it, which chains every allocation attached to it, so that \<open>FreeApiBlock\<close> can release them all.

  Memory is a function from 64-bit addresses to bytes together with the list of live allocations.
  What the code may not do has no result (\<open>None\<close>): reading or writing outside every live allocation,
  releasing an address that is not live.  The functions that provide memory, the consumer's or the
  platform's, are the parameter \<open>source\<close>: which function is asked (\<open>None\<close> the platform's), size, alignment
  and heap give an address or a null pointer.  Pointers have eight bytes and \<open>std::max_align_t\<close> is aligned
  to sixteen, as on the 64-bit targets the library is built for.
\<close>

unbundle bit_operations_syntax

section \<open>Allocators\<close>

type_synonym addr = u64

text \<open>The three function pointers; null is the platform's allocator.\<close>

record triple =
  tpAllocate :: "nat option"
  tpReallocate :: "nat option"
  tpRelease :: "nat option"

definition SetAllocators :: "nat option \<Rightarrow> nat option \<Rightarrow> nat option \<Rightarrow> triple" where
  "SetAllocators a re f = \<lparr>tpAllocate = a, tpReallocate = re, tpRelease = f\<rparr>"

definition ClearAllocators :: triple where
  "ClearAllocators = \<lparr>tpAllocate = None, tpReallocate = None, tpRelease = None\<rparr>"

text \<open>The bytes; the live allocations with the function that made them and their size; and what has been
  released so far, with the function it was released to.\<close>

record heap =
  hpBytes :: "addr \<Rightarrow> byte"
  hpLive :: "(addr, nat option \<times> nat) amap"
  hpFreed :: "(addr \<times> nat option) list"

type_synonym source = "nat option \<Rightarrow> nat \<Rightarrow> nat \<Rightarrow> heap \<Rightarrow> addr option"

definition RoundUpPow2 :: "u64 \<Rightarrow> u64" where
  "RoundUpPow2 align = (if align < 16 then 16 else align)"

text \<open>\<open>PlatformAlloc\<close> and \<open>g_Allocate\<close>: both register what they return.\<close>

definition take_from :: "source \<Rightarrow> nat option \<Rightarrow> u64 \<Rightarrow> u64 \<Rightarrow> heap \<Rightarrow> addr \<times> heap" where
  "take_from A f len align h =
     (case A f (unat len) (unat align) h of
        None \<Rightarrow> (0, h)
      | Some p \<Rightarrow> (p, h\<lparr>hpLive := (p, (f, unat len)) # hpLive h\<rparr>))"

definition PlatformAlloc :: "source \<Rightarrow> u64 \<Rightarrow> u64 \<Rightarrow> heap \<Rightarrow> addr \<times> heap" where
  "PlatformAlloc A len align = take_from A None len (if align < 8 then 8 else align)"

definition Alloc :: "source \<Rightarrow> triple \<Rightarrow> u64 \<Rightarrow> u64 \<Rightarrow> heap \<Rightarrow> addr \<times> heap" where
  "Alloc A T len align h =
     (let al = RoundUpPow2 align in
      case tpAllocate T of
        Some f \<Rightarrow> take_from A (Some f) len al h
      | None \<Rightarrow> PlatformAlloc A len al h)"

definition release :: "nat option \<Rightarrow> addr \<Rightarrow> heap \<Rightarrow> heap option" where
  "release f p h =
     (if map_of (hpLive h) p = None then None
      else Some (h\<lparr>hpLive := AList.delete p (hpLive h), hpFreed := hpFreed h @ [(p, f)]\<rparr>))"

definition Free :: "triple \<Rightarrow> addr \<Rightarrow> heap \<Rightarrow> heap option" where
  "Free T p h = (if p = 0 then Some h else release (tpRelease T) p h)"

section \<open>Bytes\<close>

definition inside :: "addr \<Rightarrow> nat \<Rightarrow> addr \<Rightarrow> nat \<Rightarrow> bool" where
  "inside a n p m \<longleftrightarrow> unat p \<le> unat a \<and> unat a + n \<le> unat p + m"

definition in_live :: "heap \<Rightarrow> addr \<Rightarrow> nat \<Rightarrow> bool" where
  "in_live h a n \<longleftrightarrow> list_ex (\<lambda>(p, (f, m)). inside a n p m) (hpLive h)"

definition bytes_at :: "addr \<Rightarrow> nat \<Rightarrow> heap \<Rightarrow> bytes" where
  "bytes_at a n h = map (\<lambda>i. hpBytes h (a + word_of_nat i)) [0..<n]"

definition read_bytes :: "addr \<Rightarrow> nat \<Rightarrow> heap \<Rightarrow> bytes option" where
  "read_bytes a n h = (if in_live h a n then Some (bytes_at a n h) else None)"

definition write_bytes :: "addr \<Rightarrow> bytes \<Rightarrow> heap \<Rightarrow> heap option" where
  "write_bytes a bs h =
     (if in_live h a (length bs)
      then Some (h\<lparr>hpBytes := (\<lambda>x. if unat (x - a) < length bs then bs ! unat (x - a) else hpBytes h x)\<rparr>)
      else None)"

definition load64 :: "addr \<Rightarrow> heap \<Rightarrow> u64 option" where
  "load64 a h = map_option (\<lambda>bs. word_of_nat (of_le bs)) (read_bytes a 8 h)"

definition store64 :: "addr \<Rightarrow> u64 \<Rightarrow> heap \<Rightarrow> heap option" where
  "store64 a v = write_bytes a (le_bytes 8 (unat v))"

text \<open>\<open>memset(p, 0, n)\<close>.\<close>

definition clear_bytes :: "addr \<Rightarrow> nat \<Rightarrow> heap \<Rightarrow> heap option" where
  "clear_bytes a n = write_bytes a (replicate n 0)"

section \<open>Reallocation\<close>

text \<open>Without an aligned reallocation in POSIX the code copies as many bytes as the new block has.\<close>

definition PlatformRealloc :: "source \<Rightarrow> addr \<Rightarrow> u64 \<Rightarrow> u64 \<Rightarrow> heap \<Rightarrow> (addr \<times> heap) option" where
  "PlatformRealloc A p len align h =
     (if p = 0 then Some (PlatformAlloc A len align h)
      else case PlatformAlloc A len align h of
        (fresh, h1) \<Rightarrow>
          if fresh = 0 then Some (0, h1)
          else do { bs \<leftarrow> read_bytes p (unat len) h1;
                    h2 \<leftarrow> write_bytes fresh bs h1;
                    h3 \<leftarrow> release None p h2;
                    Some (fresh, h3) })"

definition Realloc ::
  "source \<Rightarrow> (nat \<Rightarrow> addr \<Rightarrow> nat \<Rightarrow> nat \<Rightarrow> heap \<Rightarrow> (addr \<times> heap) option) \<Rightarrow> triple \<Rightarrow> addr \<Rightarrow> u64 \<Rightarrow> u64 \<Rightarrow>
   heap \<Rightarrow> (addr \<times> heap) option" where
  "Realloc A consumer T p len align h =
     (let al = RoundUpPow2 align in
      case tpReallocate T of
        Some f \<Rightarrow> consumer f p (unat len) (unat al) h
      | None \<Rightarrow> PlatformRealloc A p len al h)"

section \<open>API blocks\<close>

text \<open>\<open>BlockHeader\<close>: the base at offset 0, the chain at offset 8; \<open>AttachNode\<close>: the next node at offset 0.\<close>

definition kHeaderBytes :: u64 where "kHeaderBytes = 16"
definition kNodeBytes :: u64 where "kNodeBytes = 8"

definition HeaderOf :: "addr \<Rightarrow> addr" where
  "HeaderOf block = block - kHeaderBytes"

definition chain_of :: "addr \<Rightarrow> addr" where
  "chain_of block = HeaderOf block + 8"

definition align_up :: "addr \<Rightarrow> u64 \<Rightarrow> addr" where
  "align_up raw al = (raw + (al - 1)) AND NOT (al - 1)"

definition AllocApiBlock :: "source \<Rightarrow> triple \<Rightarrow> u64 \<Rightarrow> u64 \<Rightarrow> heap \<Rightarrow> (addr \<times> heap) option" where
  "AllocApiBlock A T len align h =
     (let al = RoundUpPow2 align in
      case Alloc A T (kHeaderBytes + al + len) 16 h of
        (base, h1) \<Rightarrow>
          if base = 0 then Some (0, h1)
          else let block = align_up (base + kHeaderBytes) al in
            do { h2 \<leftarrow> store64 (HeaderOf block) base h1;
                 h3 \<leftarrow> store64 (chain_of block) 0 h2;
                 h4 \<leftarrow> clear_bytes block (unat len) h3;
                 Some (block, h4) })"

definition AttachBytes :: "source \<Rightarrow> triple \<Rightarrow> addr \<Rightarrow> u64 \<Rightarrow> u64 \<Rightarrow> heap \<Rightarrow> (addr \<times> heap) option" where
  "AttachBytes A T block len align h =
     (if block = 0 then Some (0, h)
      else let al = RoundUpPow2 align in
        case Alloc A T (kNodeBytes + al + len) 16 h of
          (node, h1) \<Rightarrow>
            if node = 0 then Some (0, h1)
            else let payload = align_up (node + kNodeBytes) al in
              do { chain \<leftarrow> load64 (chain_of block) h1;
                   h2 \<leftarrow> store64 node chain h1;
                   h3 \<leftarrow> store64 (chain_of block) node h2;
                   h4 \<leftarrow> clear_bytes payload (unat len) h3;
                   Some (payload, h4) })"

text \<open>A string of its length: null in, null out.\<close>

definition AttachString :: "source \<Rightarrow> triple \<Rightarrow> addr \<Rightarrow> string option \<Rightarrow> heap \<Rightarrow> (addr \<times> heap) option" where
  "AttachString A T block s h =
     (case s of
        None \<Rightarrow> Some (0, h)
      | Some t \<Rightarrow>
          do { (copy, h1) \<leftarrow> AttachBytes A T block (word_of_nat (length t) + 1) 1 h;
               if copy = 0 then Some (0, h1)
               else do { h2 \<leftarrow> write_bytes copy (str_bytes t) h1;
                         h3 \<leftarrow> write_bytes (copy + word_of_nat (length t)) [0] h2;
                         Some (copy, h3) } })"

definition AttachArray :: "source \<Rightarrow> triple \<Rightarrow> u64 \<Rightarrow> u64 \<Rightarrow> addr \<Rightarrow> u64 \<Rightarrow> heap \<Rightarrow> (addr \<times> heap) option" where
  "AttachArray A T elem_size elem_align block count h =
     (if count = 0 then Some (0, h) else AttachBytes A T block (elem_size * count) elem_align h)"

text \<open>The loop over the chain reads the next node before it releases the one it is at.  Every round takes
  an allocation away, so it ends.\<close>

function free_nodes :: "triple \<Rightarrow> addr \<Rightarrow> heap \<Rightarrow> heap option" where
  "free_nodes T node h =
     (if node = 0 then Some h
      else case load64 node h of
        None \<Rightarrow> None
      | Some next_node \<Rightarrow> (case Free T node h of None \<Rightarrow> None | Some h1 \<Rightarrow> free_nodes T next_node h1))"
  by pat_completeness auto
termination
proof (relation "measure (\<lambda>(T, node, h). length (hpLive h))")
  fix T node h next_node h1
  assume "node \<noteq> 0" "Free T node h = Some h1"
  then obtain x where "map_of (hpLive h) node = Some x" "hpLive h1 = AList.delete node (hpLive h)"
    by (auto simp: Free_def release_def split: if_splits)
  then show "((T, next_node, h1), (T, node, h)) \<in> measure (\<lambda>(T, node, h). length (hpLive h))"
    using length_delete_less [of "hpLive h" node x] by simp
qed simp

declare free_nodes.simps [simp del]

definition FreeApiBlock :: "triple \<Rightarrow> addr \<Rightarrow> heap \<Rightarrow> heap option" where
  "FreeApiBlock T block h =
     (if block = 0 then Some h
      else do { node \<leftarrow> load64 (chain_of block) h;
                h1 \<leftarrow> free_nodes T node h;
                base \<leftarrow> load64 (HeaderOf block) h1;
                Free T base h1 })"

end
