(* ===== verification/MemoryFacts.thy ===== *)
theory MemoryFacts
  imports Memory
begin

text \<open>
  What the allocator and the API blocks promise.  A heap is well formed when its live allocations are apart;
  a source of memory is trusted (\<open>source_ok\<close>) to hand out addresses apart from everything live.  The
  ghost record \<open>api_block\<close> lists what belongs to a block, \<open>block_rep\<close> says how it is laid out in memory,
  the \<open>_cases\<close> rules give the result of every operation with what it leaves alone (\<open>same_on\<close>),
  and \<open>mem_step\<close> runs them in any order beside a game that writes into what it was given and other code
  that uses memory of its own; \<open>mem_reach_inv\<close> is the invariant of that machine.
\<close>

section \<open>Addresses\<close>

text \<open>Two ranges of addresses that have no byte in common.\<close>

definition apart :: "addr \<Rightarrow> nat \<Rightarrow> addr \<Rightarrow> nat \<Rightarrow> bool" where
  "apart a n b m \<longleftrightarrow> unat a + n \<le> unat b \<or> unat b + m \<le> unat a"

lemma apart_sym: "apart a n b m = apart b m a n"
  by (auto simp: apart_def)

lemma apart_inside: "apart p m q k \<Longrightarrow> inside a n p m \<Longrightarrow> inside b l q k \<Longrightarrow> apart a n b l"
  by (auto simp: apart_def inside_def)

lemma unat_add64: "unat (a :: u64) + n < 2 ^ 64 \<Longrightarrow> unat (a + word_of_nat n) = unat a + n"
  by (simp add: unat_word_ariths unat_of_nat take_bit_eq_mod mod_add_right_eq)

lemma unat_sub64: "unat b \<le> unat (a :: u64) \<Longrightarrow> unat (a - b) = unat a - unat b"
  by (simp add: word_le_nat_alt unat_sub)

lemma unat_exp64: "k < 64 \<Longrightarrow> unat (2 ^ k :: u64) = 2 ^ k"
proof -
  assume "k < 64"
  then have "(2 :: nat) ^ k < 2 ^ 64" by (rule power_strict_increasing) simp
  then have "unat (word_of_nat (2 ^ k) :: u64) = 2 ^ k" by (simp add: unat_of_nat take_bit_eq_mod del: of_nat_power)
  then show ?thesis by simp
qed

lemma unat_mask64: "k < 64 \<Longrightarrow> unat (mask k :: u64) = 2 ^ k - 1"
  using unat_exp64 [of k] unat_sub64 [of 1 "2 ^ k"] by (simp add: mask_eq_exp_minus_1)

text \<open>Rounding up to a power of two.\<close>

lemma align_up_unat:
  assumes k: "k < 64" and fits: "unat raw + 2 ^ k - 1 < 2 ^ 64"
  shows "unat (align_up raw (2 ^ k)) = (unat raw + 2 ^ k - 1) div 2 ^ k * 2 ^ k"
proof -
  let ?x = "raw + mask k"
  have m: "2 ^ k - 1 = (mask k :: u64)" by (simp add: mask_eq_exp_minus_1)
  have "unat (mask k :: u64) = 2 ^ k - 1" by (rule unat_mask64 [OF k])
  then have x: "unat ?x = unat raw + (2 ^ k - 1)"
    using fits by (simp add: unat_word_ariths)
  have "?x = (?x AND mask k) + (?x AND NOT (mask k))"
    by (subst disjunctive_add) (auto simp: bit_simps intro!: bit_eqI)
  then have s: "?x AND NOT (mask k) = ?x - take_bit k ?x" by (simp add: take_bit_eq_mask algebra_simps)
  have t: "unat (take_bit k ?x) = unat ?x mod 2 ^ k" unfolding unsigned_take_bit_eq by (rule take_bit_eq_mod)
  then have "unat (take_bit k ?x) \<le> unat ?x" by simp
  then have "unat (?x - take_bit k ?x) = unat ?x - unat ?x mod 2 ^ k" using unat_sub64 t by metis
  moreover have "\<dots> = unat ?x div 2 ^ k * 2 ^ k" by (metis minus_mod_eq_div_mult)
  ultimately show ?thesis unfolding align_up_def m s using x by (simp add: s)
qed

lemma align_up_range:
  assumes "k < 64" "unat raw + 2 ^ k - 1 < 2 ^ 64"
  shows "unat raw \<le> unat (align_up raw (2 ^ k))" "unat (align_up raw (2 ^ k)) \<le> unat raw + 2 ^ k - 1"
    "2 ^ k dvd unat (align_up raw (2 ^ k))"
proof -
  define n where "n = unat raw + 2 ^ k - 1"
  have n: "n div 2 ^ k * 2 ^ k + n mod 2 ^ k = n" by (rule div_mult_mod_eq)
  have "n mod 2 ^ k < 2 ^ k" by simp
  with n have "unat raw \<le> n div 2 ^ k * 2 ^ k" unfolding n_def by linarith
  then show "unat raw \<le> unat (align_up raw (2 ^ k))"
    using align_up_unat [OF assms] by (simp add: n_def)
  show "unat (align_up raw (2 ^ k)) \<le> unat raw + 2 ^ k - 1"
    using align_up_unat [OF assms] n by (simp add: n_def) 
  show "2 ^ k dvd unat (align_up raw (2 ^ k))" using align_up_unat [OF assms] by simp
qed

section \<open>Reading what was written\<close>

lemma length_bytes_at [simp]: "length (bytes_at a n h) = n"
  by (simp add: bytes_at_def)

lemma bytes_at_cong:
  assumes "unat a + n \<le> 2 ^ 64" "\<And>x. unat a \<le> unat x \<Longrightarrow> unat x < unat a + n \<Longrightarrow> hpBytes h' x = hpBytes h x"
  shows "bytes_at a n h' = bytes_at a n h"
  unfolding bytes_at_def
proof (rule map_cong [OF refl])
  fix i assume "i \<in> set [0..<n]"
  then have "unat (a + word_of_nat i) = unat a + i" "i < n" using assms(1) by (auto intro!: unat_add64)
  then show "hpBytes h' (a + word_of_nat i) = hpBytes h (a + word_of_nat i)" by (intro assms(2)) simp_all
qed

lemma write_bytes_live: "write_bytes a bs h = Some h' \<Longrightarrow> in_live h a (length bs)"
  by (simp add: write_bytes_def split: if_splits)

lemma write_bytes_fields: "write_bytes a bs h = Some h' \<Longrightarrow> hpLive h' = hpLive h \<and> hpFreed h' = hpFreed h"
  by (auto simp: write_bytes_def split: if_splits)

lemma write_bytes_byte:
  assumes w: "write_bytes a bs h = Some h'" and fits: "unat a + length bs \<le> 2 ^ 64"
    and x: "\<not> (unat a \<le> unat x \<and> unat x < unat a + length bs)"
  shows "hpBytes h' x = hpBytes h x"
proof -
  have "\<not> unat (x - a) < length bs"
  proof
    assume l: "unat (x - a) < length bs"
    then have "unat (a + word_of_nat (unat (x - a))) = unat a + unat (x - a)" using fits by (intro unat_add64) simp
    with l x show False by simp
  qed
  with w show ?thesis by (auto simp: write_bytes_def split: if_splits)
qed

lemma write_bytes_apart:
  assumes "write_bytes a bs h = Some h'" "unat a + length bs \<le> 2 ^ 64" "unat b + n \<le> 2 ^ 64" "apart b n a (length bs)"
  shows "bytes_at b n h' = bytes_at b n h"
  by (rule bytes_at_cong [OF assms(3)], rule write_bytes_byte [OF assms(1,2)])
    (use assms(4) in \<open>auto simp: apart_def\<close>)

lemma write_bytes_same:
  assumes "write_bytes a bs h = Some h'" "unat a + length bs \<le> 2 ^ 64"
  shows "bytes_at a (length bs) h' = bs"
proof (rule nth_equalityI)
  fix i assume "i < length (bytes_at a (length bs) h')"
  then have i: "i < length bs" by simp
  then have "unat (word_of_nat i :: addr) = i" using assms(2) by (simp add: unat_of_nat take_bit_eq_mod)
  then have "unat (a + word_of_nat i - a) = i" by simp
  with i assms(1) show "bytes_at a (length bs) h' ! i = bs ! i"
    by (auto simp: bytes_at_def write_bytes_def split: if_splits)
qed simp

text \<open>A pointer held at an address.\<close>

definition cell :: "heap \<Rightarrow> addr \<Rightarrow> addr \<Rightarrow> bool" where
  "cell h a v \<longleftrightarrow> bytes_at a 8 h = le_bytes 8 (unat v)"

lemma cell_load: "in_live h a 8 \<Longrightarrow> cell h a v \<Longrightarrow> load64 a h = Some v"
proof -
  assume "in_live h a 8" "cell h a v"
  moreover have "unat v < 256 ^ 8" using unsigned_less [of v] by simp
  ultimately show ?thesis by (simp add: load64_def read_bytes_def cell_def of_le_le_bytes)
qed

lemma store64_cell:
  assumes "store64 a v h = Some h'" "unat a + 8 \<le> 2 ^ 64"
  shows "cell h' a v"
  using write_bytes_same [of a "le_bytes 8 (unat v)" h h'] assms by (simp add: store64_def cell_def)

section \<open>Well-formed heaps\<close>

definition heap_wf :: "heap \<Rightarrow> bool" where
  "heap_wf h \<longleftrightarrow> distinct (keys (hpLive h)) \<and>
     (\<forall>(p, f, m) \<in> set (hpLive h). p \<noteq> 0 \<and> 0 < m \<and> unat p + m \<le> 2 ^ 64) \<and>
     (\<forall>(p, f, m) \<in> set (hpLive h). \<forall>(q, g, k) \<in> set (hpLive h). p \<noteq> q \<longrightarrow> apart p m q k)"

lemma heap_wf_distinct: "heap_wf h \<Longrightarrow> distinct (keys (hpLive h))"
  by (simp add: heap_wf_def)

lemma heap_wf_mem: "heap_wf h \<Longrightarrow> (p, f, m) \<in> set (hpLive h) \<Longrightarrow> p \<noteq> 0 \<and> 0 < m \<and> unat p + m \<le> 2 ^ 64"
  by (auto simp: heap_wf_def)

lemma heap_wf_mem2: "heap_wf h \<Longrightarrow> (p, f, m) \<in> set (hpLive h) \<Longrightarrow> (q, g, k) \<in> set (hpLive h) \<Longrightarrow> p \<noteq> q \<Longrightarrow> apart p m q k"
  by (fastforce simp: heap_wf_def)

lemma heap_wfI:
  assumes "distinct (keys (hpLive h))"
    and "\<And>p f m. (p, f, m) \<in> set (hpLive h) \<Longrightarrow> p \<noteq> 0 \<and> 0 < m \<and> unat p + m \<le> 2 ^ 64"
    and "\<And>p f m q g k. (p, f, m) \<in> set (hpLive h) \<Longrightarrow> (q, g, k) \<in> set (hpLive h) \<Longrightarrow> p \<noteq> q \<Longrightarrow> apart p m q k"
  shows "heap_wf h"
  unfolding heap_wf_def by (intro conjI ballI assms(1); clarify; (intro impI)?; (rule assms(2,3) | assumption)+)

lemma heap_wf_sub:
  assumes "heap_wf h" "distinct (keys (hpLive h'))" "set (hpLive h') \<subseteq> set (hpLive h)"
  shows "heap_wf h'"
  by (rule heap_wfI [OF assms(2)]) (use heap_wf_mem [OF assms(1)] heap_wf_mem2 [OF assms(1)] assms(3) in blast)+

text \<open>What the code relies on of the functions that provide memory.\<close>

definition source_ok :: "source \<Rightarrow> bool" where
  "source_ok A \<longleftrightarrow>
     (\<forall>f n al h p. heap_wf h \<longrightarrow> 0 < n \<longrightarrow> A f n al h = Some p \<longrightarrow>
        p \<noteq> 0 \<and> unat p + n \<le> 2 ^ 64 \<and> (\<forall>(q, g, k) \<in> set (hpLive h). apart p n q k))"

definition live :: "heap \<Rightarrow> addr \<Rightarrow> nat option" where
  "live h p = map_option snd (map_of (hpLive h) p)"

lemma live_mem: "heap_wf h \<Longrightarrow> live h p = Some m \<longleftrightarrow> (\<exists>f. (p, f, m) \<in> set (hpLive h))"
  by (auto simp: live_def heap_wf_def)

lemma heap_wf_live:
  assumes "heap_wf h" "live h p = Some m"
  shows "p \<noteq> 0" "0 < m" "unat p + m \<le> 2 ^ 64"
  using assms by (auto simp: live_mem heap_wf_def)

lemma heap_wf_apart: "heap_wf h \<Longrightarrow> live h p = Some m \<Longrightarrow> live h q = Some k \<Longrightarrow> p \<noteq> q \<Longrightarrow> apart p m q k"
  by (fastforce simp: live_mem heap_wf_def)

lemma in_live_iff: "heap_wf h \<Longrightarrow> in_live h a n \<longleftrightarrow> (\<exists>p m. live h p = Some m \<and> inside a n p m)"
  by (auto simp: in_live_def list_ex_iff live_mem)

lemma take_from_wf:
  assumes "heap_wf h" "source_ok A" "0 < len" "take_from A f len al h = (p, h')"
  shows "heap_wf h'" "hpBytes h' = hpBytes h" "hpFreed h' = hpFreed h"
    "p = 0 \<Longrightarrow> h' = h"
    "p \<noteq> 0 \<Longrightarrow> hpLive h' = (p, f, unat len) # hpLive h"
    "p \<noteq> 0 \<Longrightarrow> live h p = None"
proof -
  have n: "0 < unat len" using assms(3) by (simp add: word_less_nat_alt)
  show "hpBytes h' = hpBytes h" "hpFreed h' = hpFreed h" using assms(4) by (auto simp: take_from_def split: option.splits)
  show "p = 0 \<Longrightarrow> h' = h"
    using assms n by (auto simp: take_from_def source_ok_def split: option.splits)
  show "p \<noteq> 0 \<Longrightarrow> hpLive h' = (p, f, unat len) # hpLive h"
    using assms(4) by (auto simp: take_from_def split: option.splits)
  have new: "A f (unat len) (unat al) h = Some p \<Longrightarrow> p \<noteq> 0 \<and> unat p + unat len \<le> 2 ^ 64 \<and>
      (\<forall>(q, g, k) \<in> set (hpLive h). apart p (unat len) q k)"
    using assms(1,2) n unfolding source_ok_def by blast
  have fresh: "live h p = None" if "A f (unat len) (unat al) h = Some p"
  proof (rule ccontr)
    assume "live h p \<noteq> None"
    then obtain g k where "(p, g, k) \<in> set (hpLive h)" using live_mem [OF assms(1)] by blast
    with new [OF that] assms(1) n show False by (fastforce simp: heap_wf_def apart_def)
  qed
  then show "p \<noteq> 0 \<Longrightarrow> live h p = None" using assms(4) by (auto simp: take_from_def split: option.splits)
  show "heap_wf h'"
  proof (cases "A f (unat len) (unat al) h")
    case (Some q)
    with assms(4) have q: "q = p" "hpLive h' = (p, f, unat len) # hpLive h" by (auto simp: take_from_def)
    have "p \<notin> set (keys (hpLive h))" using fresh Some q(1) by (simp add: live_def map_of_eq_None_iff)
    with q new assms(1) n Some show ?thesis
      unfolding heap_wf_def by (auto simp: apart_sym)
  qed (use assms in \<open>simp add: take_from_def\<close>)
qed

section \<open>Writing inside an allocation\<close>

definition put_bytes :: "addr \<Rightarrow> bytes \<Rightarrow> heap \<Rightarrow> heap" where
  "put_bytes a bs h = h\<lparr>hpBytes := (\<lambda>x. if unat (x - a) < length bs then bs ! unat (x - a) else hpBytes h x)\<rparr>"

lemma put_bytes_fields [simp]:
  "hpLive (put_bytes a bs h) = hpLive h" "hpFreed (put_bytes a bs h) = hpFreed h"
  "live (put_bytes a bs h) p = live h p" "heap_wf (put_bytes a bs h) = heap_wf h"
  by (simp_all add: put_bytes_def live_def heap_wf_def)

lemma write_bytes_put:
  assumes "heap_wf h" "live h p = Some m" "inside a (length bs) p m"
  shows "write_bytes a bs h = Some (put_bytes a bs h)"
  using assms by (auto simp: write_bytes_def put_bytes_def in_live_iff)

lemma inside_fits: "heap_wf h \<Longrightarrow> live h p = Some m \<Longrightarrow> inside a n p m \<Longrightarrow> unat a + n \<le> 2 ^ 64"
  using heap_wf_live(3) [of h p m] by (simp add: inside_def)

text \<open>An allocation that is as it was: still live or not, with the same bytes.\<close>

definition same_on :: "heap \<Rightarrow> heap \<Rightarrow> addr \<Rightarrow> bool" where
  "same_on h h' p \<longleftrightarrow> live h' p = live h p \<and>
     (\<forall>m x. live h p = Some m \<longrightarrow> unat p \<le> unat x \<longrightarrow> unat x < unat p + m \<longrightarrow> hpBytes h' x = hpBytes h x)"

lemma same_on_refl [simp]: "same_on h h p"
  by (simp add: same_on_def)

lemma same_on_trans [trans]: "same_on h h1 p \<Longrightarrow> same_on h1 h2 p \<Longrightarrow> same_on h h2 p"
  by (auto simp: same_on_def)

lemma same_on_bytes:
  assumes "heap_wf h" "same_on h h' p" "live h p = Some m" "inside a n p m"
  shows "bytes_at a n h' = bytes_at a n h"
  by (rule bytes_at_cong [OF inside_fits [OF assms(1,3,4)]]) (use assms in \<open>auto simp: same_on_def inside_def\<close>)

lemma put_same_on:
  assumes "heap_wf h" "live h p = Some m" "inside a (length bs) p m" "q \<noteq> p"
  shows "same_on h (put_bytes a bs h) q"
proof -
  have "hpBytes (put_bytes a bs h) x = hpBytes h x"
    if "live h q = Some k" "unat q \<le> unat x" "unat x < unat q + k" for k x
    using heap_wf_apart [OF assms(1,2) that(1)] that(2,3) assms(3,4)
    by (intro write_bytes_byte [OF write_bytes_put [OF assms(1-3)] inside_fits [OF assms(1-3)]]) (auto simp: apart_def inside_def)
  then show ?thesis by (simp add: same_on_def)
qed

lemma put_there:
  "heap_wf h \<Longrightarrow> live h p = Some m \<Longrightarrow> inside a (length bs) p m \<Longrightarrow> bytes_at a (length bs) (put_bytes a bs h) = bs"
  by (rule write_bytes_same [OF write_bytes_put inside_fits])

lemma put_elsewhere:
  "heap_wf h \<Longrightarrow> live h p = Some m \<Longrightarrow> inside a (length bs) p m \<Longrightarrow> inside b n p m \<Longrightarrow> apart b n a (length bs) \<Longrightarrow>
   bytes_at b n (put_bytes a bs h) = bytes_at b n h"
  by (rule write_bytes_apart [OF write_bytes_put inside_fits inside_fits])

section \<open>What a block is\<close>

text \<open>A block as its user sees it: the address handed out, the allocation that holds it, its size, and its
  attachments, newest first: node, payload, size.\<close>

record api_block =
  abBlock :: addr
  abBase :: addr
  abSize :: nat
  abNodes :: "(addr \<times> addr \<times> nat) list"

definition owned :: "api_block \<Rightarrow> addr list" where
  "owned b = map fst (abNodes b) @ [abBase b]"

fun head_of :: "(addr \<times> addr \<times> nat) list \<Rightarrow> addr" where
  "head_of [] = 0"
| "head_of (n # ns) = fst n"

fun nodes_rep :: "heap \<Rightarrow> (addr \<times> addr \<times> nat) list \<Rightarrow> bool" where
  "nodes_rep h [] \<longleftrightarrow> True"
| "nodes_rep h ((n, p, k) # ns) \<longleftrightarrow>
     (\<exists>m. live h n = Some m \<and> unat n + 8 \<le> unat p \<and> unat p + k \<le> unat n + m) \<and> cell h n (head_of ns) \<and> nodes_rep h ns"

definition block_rep :: "heap \<Rightarrow> api_block \<Rightarrow> bool" where
  "block_rep h b \<longleftrightarrow>
     (\<exists>m. live h (abBase b) = Some m \<and> unat (abBase b) + 16 \<le> unat (abBlock b) \<and>
        unat (abBlock b) + abSize b \<le> unat (abBase b) + m) \<and>
     cell h (HeaderOf (abBlock b)) (abBase b) \<and> cell h (chain_of (abBlock b)) (head_of (abNodes b)) \<and>
     nodes_rep h (abNodes b)"

lemma header_unat:
  assumes "16 \<le> unat block"
  shows "unat (HeaderOf block) = unat block - 16" "unat (chain_of block) = unat block - 8"
proof -
  show h: "unat (HeaderOf block) = unat block - 16"
    using unat_sub64 [of 16 block] assms by (simp add: HeaderOf_def kHeaderBytes_def)
  have "unat block < 2 ^ 64" using unsigned_less [of block] by simp
  then have "unat block - 16 + 8 < 2 ^ 64" using assms by linarith
  then have "unat (HeaderOf block + word_of_nat 8) = unat (HeaderOf block) + 8" by (intro unat_add64) (simp add: h)
  then show "unat (chain_of block) = unat block - 8" using assms h by (simp add: chain_of_def)
qed

lemma header_inside:
  assumes "unat base + 16 \<le> unat block" "unat block + n \<le> unat base + m"
  shows "inside (HeaderOf block) 8 base m" "inside (chain_of block) 8 base m" "inside block n base m"
    "apart (HeaderOf block) 8 (chain_of block) 8" "apart (HeaderOf block) 8 block n" "apart (chain_of block) 8 block n"
proof -
  have "16 \<le> unat block" using assms(1) by linarith
  note u = header_unat [OF this]
  show "inside (HeaderOf block) 8 base m" "inside (chain_of block) 8 base m" "inside block n base m"
    "apart (HeaderOf block) 8 (chain_of block) 8" "apart (HeaderOf block) 8 block n" "apart (chain_of block) 8 block n"
    unfolding inside_def apart_def u using assms by linarith+
qed

lemma same_on_cell:
  "heap_wf h \<Longrightarrow> same_on h h' p \<Longrightarrow> live h p = Some m \<Longrightarrow> inside a 8 p m \<Longrightarrow> cell h' a v = cell h a v"
  unfolding cell_def by (simp add: same_on_bytes [of h h' p m])

lemma same_on_live: "same_on h h' p \<Longrightarrow> live h' p = live h p"
  by (simp add: same_on_def)

lemma nodes_rep_frame:
  "heap_wf h \<Longrightarrow> nodes_rep h ns \<Longrightarrow> (\<And>p. p \<in> fst ` set ns \<Longrightarrow> same_on h h' p) \<Longrightarrow> nodes_rep h' ns"
proof (induction ns)
  case (Cons x ns)
  obtain n p k where x: "x = (n, p, k)" by (cases x)
  then obtain m where m: "live h n = Some m" "unat n + 8 \<le> unat p" "unat p + k \<le> unat n + m" using Cons.prems(2) by auto
  have s: "same_on h h' n" using Cons.prems(3) x by simp
  have "inside n 8 n m" using m by (simp add: inside_def)
  then have "cell h' n (head_of ns)" using same_on_cell [OF Cons.prems(1) s m(1)] Cons.prems(2) x by simp
  moreover have "nodes_rep h' ns" using Cons.prems x by (intro Cons.IH) auto
  ultimately show ?case using m same_on_live [OF s] by (simp add: x)
qed simp

lemma block_rep_frame:
  assumes "heap_wf h" "block_rep h b" "\<And>p. p \<in> set (owned b) \<Longrightarrow> same_on h h' p"
  shows "block_rep h' b"
proof -
  obtain m where m: "live h (abBase b) = Some m" "unat (abBase b) + 16 \<le> unat (abBlock b)"
      "unat (abBlock b) + abSize b \<le> unat (abBase b) + m" using assms(2) unfolding block_rep_def by blast
  have s: "same_on h h' (abBase b)" using assms(3) by (simp add: owned_def)
  note i = header_inside [OF m(2,3)]
  have "nodes_rep h' (abNodes b)" by (rule nodes_rep_frame [OF assms(1)]) (use assms(2,3) in \<open>simp_all add: block_rep_def owned_def\<close>)
  moreover have "cell h' (HeaderOf (abBlock b)) (abBase b)" "cell h' (chain_of (abBlock b)) (head_of (abNodes b))"
    using same_on_cell [OF assms(1) s m(1) i(1)] same_on_cell [OF assms(1) s m(1) i(2)] assms(2) by (simp_all add: block_rep_def)
  ultimately show ?thesis unfolding block_rep_def using m same_on_live [OF s] by simp
qed

section \<open>Allocating\<close>

lemma Alloc_cases:
  assumes "heap_wf h" "source_ok A" "0 < len"
  obtains (refused) "Alloc A T len 16 h = (0, h)"
  | (given) p h' where "Alloc A T len 16 h = (p, h')" "p \<noteq> 0" "heap_wf h'" "live h p = None" "live h' p = Some (unat len)"
      "\<And>q. q \<noteq> p \<Longrightarrow> same_on h h' q" "hpLive h' = (p, tpAllocate T, unat len) # hpLive h" "hpFreed h' = hpFreed h"
      "hpBytes h' = hpBytes h"
proof -
  have eq: "Alloc A T len 16 h = take_from A (tpAllocate T) len 16 h"
    by (simp add: Alloc_def RoundUpPow2_def PlatformAlloc_def Let_def split: option.split)
  obtain p h' where t: "take_from A (tpAllocate T) len 16 h = (p, h')" by force
  note w = take_from_wf [OF assms t]
  show thesis
  proof (cases "p = 0")
    case True
    with eq t w(4) show thesis by (intro refused) simp
  next
    case False
    have "same_on h h' q" if "q \<noteq> p" for q
      using that w(2) w(5) [OF False] by (simp add: same_on_def live_def)
    then show thesis using given [of p h'] eq t w False by (simp add: live_def)
  qed
qed

lemma prefix_pos: "unat (x :: u64) + unat y < 2 ^ 64 \<Longrightarrow> 0 < x \<Longrightarrow> 0 < x + y \<and> unat (x + y) = unat x + unat y"
  using unat_add64 [of x "unat y"] by (simp add: word_less_nat_alt)

text \<open>Where the aligned address lies in the allocation, behind a prefix of \<open>s\<close> bytes.\<close>

lemma aligned_inside:
  assumes "k < 64" "unat s + 2 ^ k + n < 2 ^ 64" "unat base + (unat s + 2 ^ k + n) \<le> 2 ^ 64"
  shows "unat base + unat s \<le> unat (align_up (base + s) (2 ^ k))"
    "unat (align_up (base + s) (2 ^ k)) + n \<le> unat base + (unat s + 2 ^ k + n)"
    "2 ^ k dvd unat (align_up (base + s) (2 ^ k))"
proof -
  have p: "(1 :: nat) \<le> 2 ^ k" by simp
  have u: "unat (base + s) = unat base + unat s"
  proof -
    have "unat base + unat s < 2 ^ 64" using assms(3) p by linarith
    then show ?thesis using unat_add64 [of base "unat s"] by simp
  qed
  have f: "unat (base + s) + 2 ^ k - 1 < 2 ^ 64" unfolding u using assms(3) p by linarith
  note r = align_up_range [OF assms(1) f]
  show "unat base + unat s \<le> unat (align_up (base + s) (2 ^ k))" using r(1) by (simp add: u)
  show "unat (align_up (base + s) (2 ^ k)) + n \<le> unat base + (unat s + 2 ^ k + n)" using r(2) p unfolding u by linarith
  show "2 ^ k dvd unat (align_up (base + s) (2 ^ k))" by (rule r(3))
qed

lemma AllocApiBlock_cases:
  assumes wf: "heap_wf h" and A: "source_ok A" and k: "k < 64" "RoundUpPow2 align = 2 ^ k"
    and fits: "16 + 2 ^ k + unat len < 2 ^ 64"
  obtains (refused) "AllocApiBlock A T len align h = Some (0, h)"
  | (given) block base h' where "AllocApiBlock A T len align h = Some (block, h')" "block \<noteq> 0" "base \<noteq> 0" "live h base = None"
      "heap_wf h'" "\<And>q. q \<noteq> base \<Longrightarrow> same_on h h' q"
      "block_rep h' \<lparr>abBlock = block, abBase = base, abSize = unat len, abNodes = []\<rparr>"
      "2 ^ k dvd unat block" "bytes_at block (unat len) h' = replicate (unat len) 0"
      "hpLive h' = (base, tpAllocate T, 16 + 2 ^ k + unat len) # hpLive h" "hpFreed h' = hpFreed h"
proof -
  define n where "n = kHeaderBytes + RoundUpPow2 align + len"
  have "unat (16 + 2 ^ k :: u64) = 16 + 2 ^ k" using unat_add64 [of "16 :: u64" "2 ^ k"] fits by simp
  then have n: "unat n = 16 + 2 ^ k + unat len" "0 < n"
    using prefix_pos [of "16 + 2 ^ k" len] fits by (simp_all add: n_def kHeaderBytes_def k(2) word_less_nat_alt)
  from wf A n(2) show thesis
  proof (cases rule: Alloc_cases [where T = T])
    case refused
    then have "AllocApiBlock A T len align h = Some (0, h)" by (simp add: AllocApiBlock_def Let_def n_def)
    then show thesis by (rule that(1))
  next
    case (given base h1)
    define block where "block = align_up (base + kHeaderBytes) (2 ^ k)"
    have hb: "unat kHeaderBytes = 16" by (simp add: kHeaderBytes_def)
    have b: "unat base + 16 \<le> unat block" "unat block + unat len \<le> unat base + unat n" "2 ^ k dvd unat block"
      using aligned_inside [OF k(1), of kHeaderBytes "unat len" base] fits heap_wf_live(3) [OF given(3,5)]
      unfolding block_def hb n(1) by simp_all
    note i = header_inside [OF b(1,2)]
    define h2 where "h2 = put_bytes (HeaderOf block) (le_bytes 8 (unat base)) h1"
    define h3 where "h3 = put_bytes (chain_of block) (le_bytes 8 0) h2"
    define h4 where "h4 = put_bytes block (replicate (unat len) 0) h3"
    have l: "live h1 base = Some (unat n)" "live h2 base = Some (unat n)" "live h3 base = Some (unat n)" "live h4 base = Some (unat n)"
      and w: "heap_wf h1" "heap_wf h2" "heap_wf h3" "heap_wf h4"
      using given(3,5) by (simp_all add: h2_def h3_def h4_def)
    have "store64 (HeaderOf block) base h1 = Some h2" "store64 (chain_of block) 0 h2 = Some h3"
      "clear_bytes block (unat len) h3 = Some h4"
      unfolding store64_def clear_bytes_def h2_def h3_def h4_def
      by (rule write_bytes_put [where p = base and m = "unat n"], use i l w in \<open>simp_all add: h2_def h3_def\<close>)+
    then have eq: "AllocApiBlock A T len align h = Some (block, h4)"
      using given(1,2) by (simp add: AllocApiBlock_def Let_def n_def k(2) block_def)
    have s: "same_on h h4 q" if "q \<noteq> base" for q
    proof -
      note put_same_on [OF _ _ _ that]
      from given(6) [OF that] have "same_on h h1 q" .
      also have "same_on h1 h2 q" unfolding h2_def using i l w that by (intro put_same_on) simp_all
      also have "same_on h2 h3 q" unfolding h3_def using i l w that by (intro put_same_on) simp_all
      also have "same_on h3 h4 q" unfolding h4_def using i l w that by (intro put_same_on) simp_all
      finally show ?thesis .
    qed
    have c: "cell h4 (HeaderOf block) base" "cell h4 (chain_of block) 0"
      unfolding cell_def h4_def h3_def h2_def
      using i l w put_there [of h1 base "unat n" "HeaderOf block" "le_bytes 8 (unat base)"]
        put_there [of h2 base "unat n" "chain_of block" "le_bytes 8 0"]
      by (simp_all add: put_elsewhere [where p = base and m = "unat n"] h2_def)
    have z: "bytes_at block (unat len) h4 = replicate (unat len) 0"
      using put_there [OF w(3) l(3), of block "replicate (unat len) 0"] i by (simp add: h4_def)
    have "block_rep h4 \<lparr>abBlock = block, abBase = base, abSize = unat len, abNodes = []\<rparr>"
      unfolding block_rep_def using b l(4) c by simp
    moreover have "block \<noteq> 0" using b(1) by auto
    ultimately show thesis using that(2) [OF eq _ given(2,4) w(4) s] b(3) z given(7,8) n(1)
      by (simp add: h4_def h3_def h2_def)
  qed
qed

section \<open>Attaching\<close>

lemma block_rep_base:
  assumes "block_rep h b"
  obtains m where "live h (abBase b) = Some m" "unat (abBase b) + 16 \<le> unat (abBlock b)"
    "unat (abBlock b) + abSize b \<le> unat (abBase b) + m"
    "cell h (HeaderOf (abBlock b)) (abBase b)" "cell h (chain_of (abBlock b)) (head_of (abNodes b))" "nodes_rep h (abNodes b)"
  using assms unfolding block_rep_def by blast

lemma nodes_rep_live: "nodes_rep h ns \<Longrightarrow> n \<in> fst ` set ns \<Longrightarrow> live h n \<noteq> None"
  by (induction h ns rule: nodes_rep.induct) (auto simp del: not_None_eq)

lemma AttachBytes_cases:
  assumes wf: "heap_wf h" and A: "source_ok A" and k: "k < 64" "RoundUpPow2 align = 2 ^ k"
    and fits: "8 + 2 ^ k + unat len < 2 ^ 64" and b: "block_rep h b" "distinct (owned b)"
  obtains (refused) "AttachBytes A T (abBlock b) len align h = Some (0, h)"
  | (given) payload node h' where "AttachBytes A T (abBlock b) len align h = Some (payload, h')" "payload \<noteq> 0" "node \<noteq> 0"
      "live h node = None" "heap_wf h'" "\<And>q. q \<noteq> node \<Longrightarrow> q \<noteq> abBase b \<Longrightarrow> same_on h h' q"
      "block_rep h' (b\<lparr>abNodes := (node, payload, unat len) # abNodes b\<rparr>)"
      "2 ^ k dvd unat payload" "bytes_at payload (unat len) h' = replicate (unat len) 0"
      "bytes_at (abBlock b) (abSize b) h' = bytes_at (abBlock b) (abSize b) h"
      "hpLive h' = (node, tpAllocate T, 8 + 2 ^ k + unat len) # hpLive h" "hpFreed h' = hpFreed h"
proof -
  define n where "n = kNodeBytes + RoundUpPow2 align + len"
  define block where "block = abBlock b"
  obtain mb where mb: "live h (abBase b) = Some mb" "unat (abBase b) + 16 \<le> unat block" "unat block + abSize b \<le> unat (abBase b) + mb"
      "cell h (HeaderOf block) (abBase b)" "cell h (chain_of block) (head_of (abNodes b))" "nodes_rep h (abNodes b)"
    using block_rep_base [OF b(1)] unfolding block_def by metis
  note ib = header_inside [OF mb(2,3)]
  have nz: "block \<noteq> 0" using mb(2) by auto
  have "unat (8 + 2 ^ k :: u64) = 8 + 2 ^ k" using unat_add64 [of "8 :: u64" "2 ^ k"] fits by simp
  then have n: "unat n = 8 + 2 ^ k + unat len" "0 < n"
    using prefix_pos [of "8 + 2 ^ k" len] fits by (simp_all add: n_def kNodeBytes_def k(2) word_less_nat_alt)
  from wf A n(2) show thesis
  proof (cases rule: Alloc_cases [where T = T])
    case refused
    then have "AttachBytes A T block len align h = Some (0, h)" using nz by (simp add: AttachBytes_def Let_def n_def)
    then show thesis unfolding block_def by (rule that(1))
  next
    case (given node h1)
    have ne: "node \<noteq> abBase b" using given(4) mb(1) by auto
    define payload where "payload = align_up (node + kNodeBytes) (2 ^ k)"
    have hb: "unat kNodeBytes = 8" by (simp add: kNodeBytes_def)
    have p: "unat node + 8 \<le> unat payload" "unat payload + unat len \<le> unat node + unat n" "2 ^ k dvd unat payload"
      using aligned_inside [OF k(1), of kNodeBytes "unat len" node] fits heap_wf_live(3) [OF given(3,5)]
      unfolding payload_def hb n(1) by simp_all
    have i: "inside node 8 node (unat n)" "inside payload (unat len) node (unat n)" "apart node 8 payload (unat len)"
      using p unfolding inside_def apart_def by linarith+
    define c where "c = head_of (abNodes b)"
    define h2 where "h2 = put_bytes node (le_bytes 8 (unat c)) h1"
    define h3 where "h3 = put_bytes (chain_of block) (le_bytes 8 (unat node)) h2"
    define h4 where "h4 = put_bytes payload (replicate (unat len) 0) h3"
    have s1: "same_on h h1 (abBase b)" using given(6) ne by simp
    have lb: "live h1 (abBase b) = Some mb" "live h2 (abBase b) = Some mb" "live h3 (abBase b) = Some mb" "live h4 (abBase b) = Some mb"
      using same_on_live [OF s1] mb(1) by (simp_all add: h2_def h3_def h4_def)
    have l: "live h1 node = Some (unat n)" "live h2 node = Some (unat n)" "live h3 node = Some (unat n)" "live h4 node = Some (unat n)"
      and w: "heap_wf h1" "heap_wf h2" "heap_wf h3" "heap_wf h4"
      using given(3,5) by (simp_all add: h2_def h3_def h4_def)
    have "cell h1 (chain_of block) c" using same_on_cell [OF wf s1 mb(1) ib(2)] mb(5) by (simp add: c_def)
    moreover have "in_live h1 (chain_of block) 8" using in_live_iff [OF w(1)] lb(1) ib(2) by blast
    ultimately have ld: "load64 (chain_of block) h1 = Some c" by (intro cell_load)
    have wr: "store64 node c h1 = Some h2" "store64 (chain_of block) node h2 = Some h3" "clear_bytes payload (unat len) h3 = Some h4"
      unfolding store64_def clear_bytes_def h2_def h3_def h4_def
      using write_bytes_put [OF w(1) l(1), of node "le_bytes 8 (unat c)"] write_bytes_put [OF w(2) lb(2), of "chain_of block" "le_bytes 8 (unat node)"]
        write_bytes_put [OF w(3) l(3), of payload "replicate (unat len) 0"] i ib by (simp_all add: h2_def h3_def)
    then have eq: "AttachBytes A T block len align h = Some (payload, h4)"
      using given(1,2) nz ld by (simp add: AttachBytes_def Let_def n_def k(2) payload_def)
    have s12: "q \<noteq> node \<Longrightarrow> same_on h1 h2 q" for q
      unfolding h2_def using i by (intro put_same_on [OF w(1) l(1)]) simp_all
    have s23: "q \<noteq> abBase b \<Longrightarrow> same_on h2 h3 q" for q
      unfolding h3_def using ib by (intro put_same_on [OF w(2) lb(2)]) simp_all
    have s34: "q \<noteq> node \<Longrightarrow> same_on h3 h4 q" for q
      unfolding h4_def using i by (intro put_same_on [OF w(3) l(3)]) simp_all
    have s: "same_on h h4 q" if "q \<noteq> node" "q \<noteq> abBase b" for q
      using that same_on_trans [OF same_on_trans [OF given(6) s12] same_on_trans [OF s23 s34]] by blast
    have sb: "same_on h h2 (abBase b)" using same_on_trans [OF s1 s12] ne by metis
    have keep: "bytes_at a j h4 = bytes_at a j h" if "inside a j (abBase b) mb" "apart a j (chain_of block) 8" for a j
    proof -
      have "bytes_at a j h4 = bytes_at a j h3" using s34 [of "abBase b"] ne lb(3) that(1) by (intro same_on_bytes [OF w(3)]) auto
      also have "\<dots> = bytes_at a j h2" unfolding h3_def using that ib by (intro put_elsewhere [OF w(2) lb(2)]) simp_all
      also have "\<dots> = bytes_at a j h" by (rule same_on_bytes [OF wf sb mb(1) that(1)])
      finally show ?thesis .
    qed
    have c1: "cell h4 (HeaderOf block) (abBase b)" using keep [OF ib(1,4)] mb(4) by (simp add: cell_def)
    have "cell h3 (chain_of block) node"
      using put_there [OF w(2) lb(2), of "chain_of block" "le_bytes 8 (unat node)"] ib by (simp add: cell_def h3_def)
    then have c2: "cell h4 (chain_of block) node"
      using same_on_cell [OF w(3) s34 lb(3) ib(2)] ne by auto
    have "cell h2 node c" using put_there [OF w(1) l(1), of node "le_bytes 8 (unat c)"] i by (simp add: cell_def h2_def)
    then have "cell h3 node c" using same_on_cell [OF w(2) s23 l(2) i(1)] ne by auto
    then have c3: "cell h4 node c"
      unfolding cell_def h4_def using put_elsewhere [OF w(3) l(3) _ i(1), of payload "replicate (unat len) 0"] i by simp
    have z: "bytes_at payload (unat len) h4 = replicate (unat len) 0"
      using put_there [OF w(3) l(3), of payload "replicate (unat len) 0"] i by (simp add: h4_def)
    have nr: "nodes_rep h4 (abNodes b)"
    proof (rule nodes_rep_frame [OF wf mb(6)])
      fix q assume q: "q \<in> fst ` set (abNodes b)"
      then have "q \<noteq> node" using nodes_rep_live [OF mb(6) q] given(4) by auto
      moreover have "q \<noteq> abBase b" using q b(2) by (metis Un_Int_eq(3) distinct_append disjoint_insert(1) list.set(2) list.set_map owned_def)
      ultimately show "same_on h h4 q" by (rule s)
    qed
    have "block_rep h4 (b\<lparr>abNodes := (node, payload, unat len) # abNodes b\<rparr>)"
      unfolding block_rep_def using mb(2,3) lb(4) c1 c2 c3 l(4) p nr by (simp add: block_def [symmetric] c_def [symmetric])
    moreover have "payload \<noteq> 0" using p(1) by auto
    moreover have "bytes_at block (abSize b) h4 = bytes_at block (abSize b) h" using ib by (intro keep) (auto simp: apart_sym)
    ultimately show thesis using that(2) [OF eq [unfolded block_def] _ given(2,4) w(4) s] p(3) z given(7,8) n(1)
      by (simp add: h4_def h3_def h2_def block_def)
  qed
qed

section \<open>Releasing\<close>

lemma delete_filter: "AList.delete p m = filter (\<lambda>e. fst e \<noteq> p) m"
  by (induction m) auto

text \<open>Releasing an allocation takes it from the live ones and touches nothing else.\<close>

lemma Free_live:
  assumes "heap_wf h" "live h p \<noteq> None"
  shows "\<exists>h'. Free T p h = Some h' \<and> heap_wf h' \<and> hpLive h' = AList.delete p (hpLive h) \<and> hpBytes h' = hpBytes h \<and>
    hpFreed h' = hpFreed h @ [(p, tpRelease T)] \<and> (\<forall>q. q \<noteq> p \<longrightarrow> same_on h h' q)"
proof -
  obtain m where m: "live h p = Some m" using assms(2) by blast
  then have "p \<noteq> 0" "map_of (hpLive h) p \<noteq> None" using heap_wf_live(1) [OF assms(1)] by (auto simp: live_def)
  then have eq: "Free T p h = Some (h\<lparr>hpLive := AList.delete p (hpLive h), hpFreed := hpFreed h @ [(p, tpRelease T)]\<rparr>)"
    by (simp add: Free_def release_def)
  have "set (AList.delete p (hpLive h)) \<subseteq> set (hpLive h)" by (auto simp: delete_filter)
  then have "heap_wf (h\<lparr>hpLive := AList.delete p (hpLive h), hpFreed := hpFreed h @ [(p, tpRelease T)]\<rparr>)"
    by (intro heap_wf_sub [OF assms(1)]) (simp_all add: distinct_keys_delete heap_wf_distinct [OF assms(1)])
  with eq show ?thesis by (simp add: same_on_def live_def)
qed

lemma free_nodes_chain:
  assumes "heap_wf h" "nodes_rep h ns" "distinct (map fst ns)"
  shows "\<exists>h'. free_nodes T (head_of ns) h = Some h' \<and> heap_wf h' \<and> hpBytes h' = hpBytes h \<and>
    hpLive h' = filter (\<lambda>e. fst e \<notin> fst ` set ns) (hpLive h) \<and>
    hpFreed h' = hpFreed h @ map (\<lambda>n. (fst n, tpRelease T)) ns \<and> (\<forall>q. q \<notin> fst ` set ns \<longrightarrow> same_on h h' q)"
  using assms
proof (induction ns arbitrary: h)
  case Nil
  then show ?case by (auto simp: free_nodes.simps [of T 0 h])
next
  case (Cons x ns)
  obtain n p k where x: "x = (n, p, k)" by (cases x)
  with Cons.prems obtain m where m: "live h n = Some m" "unat n + 8 \<le> unat p" "unat p + k \<le> unat n + m"
      "cell h n (head_of ns)" "nodes_rep h ns" "n \<notin> fst ` set ns" "distinct (map fst ns)" by auto
  have "inside n 8 n m" using m(2,3) unfolding inside_def by linarith
  then have "in_live h n 8" using in_live_iff [OF Cons.prems(1)] m(1) by blast
  then have ld: "load64 n h = Some (head_of ns)" using m(4) by (rule cell_load)
  have n0: "n \<noteq> 0" by (rule heap_wf_live(1) [OF Cons.prems(1) m(1)])
  obtain h1 where h1: "Free T n h = Some h1" "heap_wf h1" "hpLive h1 = AList.delete n (hpLive h)" "hpBytes h1 = hpBytes h"
      "hpFreed h1 = hpFreed h @ [(n, tpRelease T)]" "\<And>q. q \<noteq> n \<Longrightarrow> same_on h h1 q"
    using Free_live [OF Cons.prems(1), of n T] m(1) by auto
  have "nodes_rep h1 ns" using m(6) by (intro nodes_rep_frame [OF Cons.prems(1) m(5)] h1(6)) auto
  from Cons.IH [OF h1(2) this m(7)] obtain h' where h': "free_nodes T (head_of ns) h1 = Some h'" "heap_wf h'" "hpBytes h' = hpBytes h1"
      "hpLive h' = filter (\<lambda>e. fst e \<notin> fst ` set ns) (hpLive h1)"
      "hpFreed h' = hpFreed h1 @ map (\<lambda>n. (fst n, tpRelease T)) ns" "\<forall>q. q \<notin> fst ` set ns \<longrightarrow> same_on h1 h' q" by blast
  have "free_nodes T (head_of (x # ns)) h = Some h'"
    using n0 ld h1(1) h'(1) by (simp add: x free_nodes.simps [of T n h])
  moreover have "hpLive h' = filter (\<lambda>e. fst e \<notin> fst ` set (x # ns)) (hpLive h)"
    unfolding h'(4) h1(3) delete_filter by (auto simp: x intro: filter_cong)
  moreover have "\<forall>q. q \<notin> fst ` set (x # ns) \<longrightarrow> same_on h h' q"
    using h'(6) h1(6) same_on_trans x by auto blast
  ultimately show ?case using h' h1 by (intro exI [of _ h']) (simp add: x)
qed

lemma FreeApiBlock_exact:
  assumes wf: "heap_wf h" and b: "block_rep h b" "distinct (owned b)"
  shows "\<exists>h'. FreeApiBlock T (abBlock b) h = Some h' \<and> heap_wf h' \<and> hpBytes h' = hpBytes h \<and>
    hpLive h' = filter (\<lambda>e. fst e \<notin> set (owned b)) (hpLive h) \<and>
    hpFreed h' = hpFreed h @ map (\<lambda>p. (p, tpRelease T)) (owned b) \<and> (\<forall>q. q \<notin> set (owned b) \<longrightarrow> same_on h h' q)"
proof -
  define block where "block = abBlock b"
  obtain mb where mb: "live h (abBase b) = Some mb" "unat (abBase b) + 16 \<le> unat block" "unat block + abSize b \<le> unat (abBase b) + mb"
      "cell h (HeaderOf block) (abBase b)" "cell h (chain_of block) (head_of (abNodes b))" "nodes_rep h (abNodes b)"
    using block_rep_base [OF b(1)] unfolding block_def by metis
  note ib = header_inside [OF mb(2,3)]
  have nz: "block \<noteq> 0" using mb(2) by auto
  have d: "distinct (map fst (abNodes b))" "abBase b \<notin> fst ` set (abNodes b)" using b(2) by (auto simp: owned_def)
  have "in_live h (chain_of block) 8" using in_live_iff [OF wf] mb(1) ib(2) by blast
  then have l1: "load64 (chain_of block) h = Some (head_of (abNodes b))" using mb(5) by (rule cell_load)
  obtain h1 where h1: "free_nodes T (head_of (abNodes b)) h = Some h1" "heap_wf h1" "hpBytes h1 = hpBytes h"
      "hpLive h1 = filter (\<lambda>e. fst e \<notin> fst ` set (abNodes b)) (hpLive h)"
      "hpFreed h1 = hpFreed h @ map (\<lambda>n. (fst n, tpRelease T)) (abNodes b)" "\<forall>q. q \<notin> fst ` set (abNodes b) \<longrightarrow> same_on h h1 q"
    using free_nodes_chain [OF wf mb(6) d(1)] by blast
  have s: "same_on h h1 (abBase b)" using h1(6) d(2) by blast
  have l: "live h1 (abBase b) = Some mb" using same_on_live [OF s] mb(1) by simp
  have "in_live h1 (HeaderOf block) 8" using in_live_iff [OF h1(2)] l ib(1) by blast
  moreover have "cell h1 (HeaderOf block) (abBase b)" using same_on_cell [OF wf s mb(1) ib(1)] mb(4) by simp
  ultimately have l2: "load64 (HeaderOf block) h1 = Some (abBase b)" by (rule cell_load)
  obtain h' where h': "Free T (abBase b) h1 = Some h'" "heap_wf h'" "hpLive h' = AList.delete (abBase b) (hpLive h1)"
      "hpBytes h' = hpBytes h1" "hpFreed h' = hpFreed h1 @ [(abBase b, tpRelease T)]" "\<forall>q. q \<noteq> abBase b \<longrightarrow> same_on h1 h' q"
    using Free_live [OF h1(2), of "abBase b" T] l by auto
  have "FreeApiBlock T block h = Some h'" using nz l1 h1(1) l2 h'(1) by (simp add: FreeApiBlock_def)
  moreover have "hpLive h' = filter (\<lambda>e. fst e \<notin> set (owned b)) (hpLive h)"
    unfolding h'(3) h1(4) delete_filter by (auto simp: owned_def intro: filter_cong)
  moreover have "\<forall>q. q \<notin> set (owned b) \<longrightarrow> same_on h h' q"
  proof (intro allI impI)
    fix q assume "q \<notin> set (owned b)"
    then have "same_on h h1 q" "same_on h1 h' q" using h1(6) h'(6) by (auto simp: owned_def)
    then show "same_on h h' q" by (rule same_on_trans)
  qed
  ultimately show ?thesis using h' h1 unfolding block_def by (intro exI [of _ h']) (simp add: owned_def)
qed

section \<open>Any use of the blocks\<close>

text \<open>An alignment the caller may ask for, and a size that leaves room for prefix and padding.\<close>

definition request_ok :: "u64 \<Rightarrow> u64 \<Rightarrow> bool" where
  "request_ok len align \<longleftrightarrow> (\<exists>k < 64. RoundUpPow2 align = 2 ^ k) \<and> unat (RoundUpPow2 align) + unat len + 16 < 2 ^ 64"

lemma request_okE:
  assumes "request_ok len align"
  obtains k where "k < 64" "RoundUpPow2 align = 2 ^ k" "16 + 2 ^ k + unat len < 2 ^ 64" "8 + 2 ^ k + unat len < 2 ^ 64"
proof -
  from assms obtain k where k: "k < 64" "RoundUpPow2 align = 2 ^ k" "unat (2 ^ k :: u64) + unat len + 16 < 2 ^ 64"
    by (auto simp: request_ok_def)
  from k(3) have f: "2 ^ k + unat len + 16 < (2 :: nat) ^ 64" unfolding unat_exp64 [OF k(1)] .
  have "16 + 2 ^ k + unat len < 2 ^ 64" "8 + 2 ^ k + unat len < 2 ^ 64" using f by linarith+
  with k show thesis by (intro that)
qed

text \<open>The blocks handed out and not yet released.  A game uses its blocks in any order: it allocates, attaches,
  writes inside what it was given, releases; and everything else in the process allocates, writes and
  releases memory of its own.\<close>

definition writable :: "api_block \<Rightarrow> addr \<Rightarrow> nat \<Rightarrow> bool" where
  "writable b a n \<longleftrightarrow> inside a n (abBlock b) (abSize b) \<or> (\<exists>(node, p, k) \<in> set (abNodes b). inside a n p k)"

inductive mem_step :: "source \<Rightarrow> heap \<times> api_block list \<Rightarrow> heap \<times> api_block list \<Rightarrow> bool" for A where
  allocate: "request_ok len align \<Longrightarrow> AllocApiBlock A T len align h = Some (block, h') \<Longrightarrow> block \<noteq> 0 \<Longrightarrow>
    mem_step A (h, B) (h', \<lparr>abBlock = block, abBase = fst (hd (hpLive h')), abSize = unat len, abNodes = []\<rparr> # B)"
| attach: "request_ok len align \<Longrightarrow> b \<in> set B \<Longrightarrow> AttachBytes A T (abBlock b) len align h = Some (payload, h') \<Longrightarrow> payload \<noteq> 0 \<Longrightarrow>
    mem_step A (h, B)
      (h', b\<lparr>abNodes := (fst (hd (hpLive h')), payload, unat len) # abNodes b\<rparr> # remove1 b B)"
| user_write: "b \<in> set B \<Longrightarrow> writable b a (length bs) \<Longrightarrow> write_bytes a bs h = Some h' \<Longrightarrow> mem_step A (h, B) (h', B)"
| give_back: "b \<in> set B \<Longrightarrow> FreeApiBlock T (abBlock b) h = Some h' \<Longrightarrow> mem_step A (h, B) (h', remove1 b B)"
| elsewhere: "heap_wf h' \<Longrightarrow> (\<And>p. p \<in> set (concat (map owned B)) \<Longrightarrow> same_on h h' p) \<Longrightarrow> mem_step A (h, B) (h', B)"

inductive mem_reach :: "source \<Rightarrow> heap \<times> api_block list \<Rightarrow> bool" for A where
  start: "heap_wf h \<Longrightarrow> mem_reach A (h, [])"
| step: "mem_reach A s \<Longrightarrow> mem_step A s s' \<Longrightarrow> mem_reach A s'"

definition mem_inv :: "heap \<times> api_block list \<Rightarrow> bool" where
  "mem_inv s \<longleftrightarrow> (case s of (h, B) \<Rightarrow>
     heap_wf h \<and> distinct (concat (map owned B)) \<and> (\<forall>b \<in> set B. block_rep h b))"

lemma owned_live: "block_rep h b \<Longrightarrow> p \<in> set (owned b) \<Longrightarrow> live h p \<noteq> None"
  by (auto simp: owned_def simp del: not_None_eq dest: nodes_rep_live elim!: block_rep_base)

lemma owned_nonempty [simp]: "owned b \<noteq> []"
  by (simp add: owned_def)

lemma distinct_owned: "distinct (concat (map owned B)) \<Longrightarrow> b \<in> set B \<Longrightarrow> distinct (owned b)"
  by (induction B) auto

lemma owned_split:
  assumes "distinct (concat (map owned B))" "b \<in> set B"
  shows "set (concat (map owned (remove1 b B))) = set (concat (map owned B)) - set (owned b)"
    and "distinct (concat (map owned (remove1 b B)))"
    and "set (remove1 b B) = set B - {b}"
proof -
  obtain xs ys where B: "B = xs @ b # ys" "b \<notin> set xs" using split_list_first [OF assms(2)] by blast
  then have r: "remove1 b B = xs @ ys" by (simp add: remove1_append)
  define P where "P = concat (map owned xs)"
  define Q where "Q = concat (map owned ys)"
  have d: "distinct (P @ owned b @ Q)" using assms(1) by (simp add: B(1) P_def Q_def del: set_concat)
  have s: "concat (map owned B) = P @ owned b @ Q" "concat (map owned (remove1 b B)) = P @ Q"
    by (simp_all add: B(1) r [unfolded B(1)] P_def Q_def)
  show "set (concat (map owned (remove1 b B))) = set (concat (map owned B)) - set (owned b)"
    unfolding s using d by auto
  show "distinct (concat (map owned (remove1 b B)))" unfolding s using d by auto
  have "b \<notin> set ys"
  proof
    assume "b \<in> set ys"
    then have "set (owned b) \<subseteq> set Q" unfolding Q_def by auto
    with d owned_nonempty [of b] show False by (cases "owned b") auto
  qed
  then show "set (remove1 b B) = set B - {b}" using B r by auto
qed

lemma others_unowned:
  assumes "distinct (concat (map owned B))" "b \<in> set B" "c \<in> set (remove1 b B)"
  shows "set (owned c) \<inter> set (owned b) = {}"
  using owned_split(1) [OF assms(1,2)] assms(3) by auto

lemma nodes_rep_cells:
  "nodes_rep h ns \<Longrightarrow> (\<And>n. n \<in> fst ` set ns \<Longrightarrow> live h' n = live h n \<and> bytes_at n 8 h' = bytes_at n 8 h) \<Longrightarrow> nodes_rep h' ns"
proof (induction ns)
  case (Cons x ns)
  obtain n p k where x: "x = (n, p, k)" by (cases x)
  have "live h' n = live h n" "bytes_at n 8 h' = bytes_at n 8 h" using Cons.prems(2) [of n] x by simp_all
  moreover have "nodes_rep h' ns" using Cons.prems by (intro Cons.IH) (auto simp: x)
  ultimately show ?case using Cons.prems(1) by (simp add: x cell_def)
qed simp

lemma nodes_rep_mem: "nodes_rep h ns \<Longrightarrow> (n, p, k) \<in> set ns \<Longrightarrow> \<exists>m. live h n = Some m \<and> unat n + 8 \<le> unat p \<and> unat p + k \<le> unat n + m"
  by (induction h ns rule: nodes_rep.induct) auto

text \<open>A write inside what the user was given keeps the hidden header and the chain.\<close>

lemma block_rep_write:
  assumes wf: "heap_wf h" and b: "block_rep h b" "distinct (owned b)" and w: "writable b a (length bs)"
  shows "write_bytes a bs h = Some (put_bytes a bs h)" "block_rep (put_bytes a bs h) b"
    "q \<notin> set (owned b) \<Longrightarrow> same_on h (put_bytes a bs h) q"
proof -
  define block where "block = abBlock b"
  obtain mb where mb: "live h (abBase b) = Some mb" "unat (abBase b) + 16 \<le> unat block" "unat block + abSize b \<le> unat (abBase b) + mb"
      "cell h (HeaderOf block) (abBase b)" "cell h (chain_of block) (head_of (abNodes b))" "nodes_rep h (abNodes b)"
    using block_rep_base [OF b(1)] unfolding block_def by metis
  note ib = header_inside [OF mb(2,3)]
  have base: "abBase b \<notin> fst ` set (abNodes b)" using b(2) by (simp add: owned_def)
  let ?h = "put_bytes a bs h"
  have "write_bytes a bs h = Some ?h \<and> block_rep ?h b \<and> (\<forall>q. q \<notin> set (owned b) \<longrightarrow> same_on h ?h q)"
    using w unfolding writable_def
  proof
    assume i: "inside a (length bs) (abBlock b) (abSize b)"
    then have ia: "inside a (length bs) (abBase b) mb" using mb(2,3) unfolding block_def inside_def by linarith
    note so = put_same_on [OF wf mb(1) ia]
    have ap: "apart (HeaderOf block) 8 a (length bs)" "apart (chain_of block) 8 a (length bs)"
      using ib(5,6) i mb(2) unfolding apart_def inside_def block_def by linarith+
    have "cell ?h (HeaderOf block) (abBase b)" "cell ?h (chain_of block) (head_of (abNodes b))"
      using mb(4,5) put_elsewhere [OF wf mb(1) ia ib(1) ap(1)] put_elsewhere [OF wf mb(1) ia ib(2) ap(2)] by (simp_all add: cell_def)
    moreover have "nodes_rep ?h (abNodes b)"
    proof (rule nodes_rep_frame [OF wf mb(6)])
      fix q assume "q \<in> fst ` set (abNodes b)"
      then have "q \<noteq> abBase b" using base by blast
      then show "same_on h ?h q" by (rule so)
    qed
    ultimately have "block_rep ?h b" unfolding block_rep_def using mb(1-3) by (simp add: block_def)
    moreover have "\<forall>q. q \<notin> set (owned b) \<longrightarrow> same_on h ?h q" using so by (simp add: owned_def)
    ultimately show ?thesis using write_bytes_put [OF wf mb(1) ia] by blast
  next
    assume "\<exists>(node, p, k) \<in> set (abNodes b). inside a (length bs) p k"
    then obtain node p k where n: "(node, p, k) \<in> set (abNodes b)" "inside a (length bs) p k" by blast
    obtain m where m: "live h node = Some m" "unat node + 8 \<le> unat p" "unat p + k \<le> unat node + m"
      using nodes_rep_mem [OF mb(6) n(1)] by blast
    have ia: "inside a (length bs) node m" using n(2) m unfolding inside_def by linarith
    note so = put_same_on [OF wf m(1) ia]
    have nn: "node \<in> fst ` set (abNodes b)" using n(1) by force
    then have ne: "abBase b \<noteq> node" using base by blast
    have "cell ?h (HeaderOf block) (abBase b)" "cell ?h (chain_of block) (head_of (abNodes b))"
      using mb(4,5) same_on_cell [OF wf so [OF ne] mb(1) ib(1)] same_on_cell [OF wf so [OF ne] mb(1) ib(2)] by simp_all
    moreover have "nodes_rep ?h (abNodes b)"
    proof (rule nodes_rep_cells [OF mb(6)])
      fix l assume l: "l \<in> fst ` set (abNodes b)"
      then obtain lp lk where "(l, lp, lk) \<in> set (abNodes b)" by force
      from nodes_rep_mem [OF mb(6) this] obtain ml where ml: "live h l = Some ml" "unat l + 8 \<le> unat l + ml" by force
      have il: "inside l 8 l ml" using ml(2) unfolding inside_def by linarith
      have "bytes_at l 8 ?h = bytes_at l 8 h"
      proof (cases "l = node")
        case True
        have "inside node 8 node m" "apart node 8 a (length bs)" using m n(2) unfolding inside_def apart_def by linarith+
        then show ?thesis using put_elsewhere [OF wf m(1) ia] True by blast
      next
        case False
        show ?thesis by (rule same_on_bytes [OF wf so [OF False] ml(1) il])
      qed
      then show "live ?h l = live h l \<and> bytes_at l 8 ?h = bytes_at l 8 h" by simp
    qed
    ultimately have "block_rep ?h b" unfolding block_rep_def using mb(1-3) by (simp add: block_def)
    moreover have "\<forall>q. q \<notin> set (owned b) \<longrightarrow> same_on h ?h q"
    proof (intro allI impI)
      fix q assume "q \<notin> set (owned b)"
      then have "q \<noteq> node" using nn by (auto simp: owned_def)
      then show "same_on h ?h q" by (rule so)
    qed
    ultimately show ?thesis using write_bytes_put [OF wf m(1) ia] by blast
  qed
  then show "write_bytes a bs h = Some ?h" "block_rep ?h b" "q \<notin> set (owned b) \<Longrightarrow> same_on h ?h q" by blast+
qed

text \<open>What the user may write to lies in an allocation of the block.\<close>

lemma writable_owned:
  assumes "block_rep h b" "writable b a n"
  obtains p m where "p \<in> set (owned b)" "live h p = Some m" "inside a n p m"
  using assms(2) unfolding writable_def
proof
  assume i: "inside a n (abBlock b) (abSize b)"
  obtain m where m: "live h (abBase b) = Some m" "unat (abBase b) + 16 \<le> unat (abBlock b)"
      "unat (abBlock b) + abSize b \<le> unat (abBase b) + m"
    using block_rep_base [OF assms(1)] by metis
  have "inside a n (abBase b) m" using i m(2,3) unfolding inside_def by linarith
  with m(1) show thesis by (intro that [of "abBase b" m]) (simp_all add: owned_def)
next
  assume "\<exists>(node, p, k) \<in> set (abNodes b). inside a n p k"
  then obtain node p k where n: "(node, p, k) \<in> set (abNodes b)" "inside a n p k" by blast
  have "nodes_rep h (abNodes b)" using assms(1) by (simp add: block_rep_def)
  from nodes_rep_mem [OF this n(1)] obtain m where m: "live h node = Some m" "unat node + 8 \<le> unat p" "unat p + k \<le> unat node + m"
    by blast
  have "inside a n node m" using n(2) m(2,3) unfolding inside_def by linarith
  moreover have "node \<in> set (owned b)" using n(1) by (force simp: owned_def)
  ultimately show thesis using m(1) by (intro that)
qed

lemma RoundUpPow2_least: "RoundUpPow2 align = 2 ^ k \<Longrightarrow> k < 64 \<Longrightarrow> 16 dvd (2 :: nat) ^ k"
proof -
  assume e: "RoundUpPow2 align = 2 ^ k" and k: "k < 64"
  have "16 \<le> unat (RoundUpPow2 align)" by (simp add: RoundUpPow2_def word_less_nat_alt)
  then have "(2 :: nat) ^ 4 \<le> 2 ^ k" using e unat_exp64 [OF k] by simp
  then have "4 \<le> k" by (rule power_le_imp_le_exp [rotated]) simp
  then have "(2 :: nat) ^ 4 dvd 2 ^ k" by (rule le_imp_power_dvd)
  then show ?thesis by simp
qed

text \<open>The blocks of the others keep their meaning when nothing they own changes.\<close>

lemma blocks_frame:
  assumes "mem_inv (h, B)" "heap_wf h'" "\<And>p. p \<in> set (concat (map owned B)) \<Longrightarrow> same_on h h' p" "c \<in> set B"
  shows "block_rep h' c"
proof (rule block_rep_frame)
  show "heap_wf h" "block_rep h c" using assms(1,4) by (auto simp: mem_inv_def)
  show "same_on h h' p" if "p \<in> set (owned c)" for p using assms(3) [of p] assms(4) that by auto
qed

lemma mem_inv_step:
  assumes A: "source_ok A" and st: "mem_step A s s'" and inv: "mem_inv s"
  shows "mem_inv s'"
  using st inv
proof (induction rule: mem_step.induct)
  case (allocate len align T h block h' B)
  have wf: "heap_wf h" and d: "distinct (concat (map owned B))" and r: "\<forall>b \<in> set B. block_rep h b"
    using allocate(4) by (simp_all add: mem_inv_def)
  obtain k where k: "k < 64" "RoundUpPow2 align = 2 ^ k" "16 + 2 ^ k + unat len < 2 ^ 64" using request_okE [OF allocate(1)] by metis
  from wf A k show ?case
  proof (cases rule: AllocApiBlock_cases [where T = T])
    case refused
    with allocate(2,3) show ?thesis by simp
  next
    case (given block1 base h1)
    with allocate(2) have e: "block1 = block" "h1 = h'" by simp_all
    have base: "fst (hd (hpLive h')) = base" using given(10) e by simp
    have fresh: "p \<noteq> base" if "p \<in> set (concat (map owned B))" for p
    proof -
      from that obtain c where c: "c \<in> set B" "p \<in> set (owned c)" by auto
      then have "block_rep h c" using r by blast
      from owned_live [OF this c(2)] given(4) show ?thesis by metis
    qed
    have "\<forall>c \<in> set B. block_rep h' c" using blocks_frame [OF allocate(4) given(5)] given(6) fresh e by blast
    moreover have "distinct (concat (map owned (\<lparr>abBlock = block, abBase = base, abSize = unat len, abNodes = []\<rparr> # B)))"
      using d fresh by (auto simp: owned_def)
    ultimately show ?thesis using given(5,7) e by (simp add: mem_inv_def base del: set_concat)
  qed
next
  case (attach len align b B T h payload h')
  have wf: "heap_wf h" and d: "distinct (concat (map owned B))" and r: "\<forall>b \<in> set B. block_rep h b"
    using attach(5) by (simp_all add: mem_inv_def)
  note sp = owned_split [OF d attach(2)]
  have db: "distinct (owned b)" by (rule distinct_owned [OF d attach(2)])
  obtain k where k: "k < 64" "RoundUpPow2 align = 2 ^ k" "8 + 2 ^ k + unat len < 2 ^ 64" using request_okE [OF attach(1)] by metis
  have rb: "block_rep h b" using r attach(2) by blast
  from wf A k rb db show ?case
  proof (cases rule: AttachBytes_cases [where T = T])
    case refused
    with attach(3,4) show ?thesis by simp
  next
    case (given payload1 node h1)
    with attach(3) have e: "payload1 = payload" "h1 = h'" by simp_all
    have node: "fst (hd (hpLive h')) = node" using given(11) e by simp
    have fresh: "p \<noteq> node" if "p \<in> set (concat (map owned B))" for p
    proof -
      from that obtain c where c: "c \<in> set B" "p \<in> set (owned c)" by auto
      then have "block_rep h c" using r by blast
      from owned_live [OF this c(2)] given(4) show ?thesis by metis
    qed
    have base: "abBase b \<in> set (owned b)" by (simp add: owned_def)
    have "block_rep h' c" if "c \<in> set (remove1 b B)" for c
    proof (rule block_rep_frame [OF wf])
      show "block_rep h c" using r that sp(3) by blast
      fix p assume p: "p \<in> set (owned c)"
      then have "p \<in> set (concat (map owned (remove1 b B)))" using that by auto
      then have "p \<noteq> abBase b" "p \<noteq> node" using sp(1) base fresh [of p] by blast+
      with given(6) e show "same_on h h' p" by blast
    qed
    moreover have "distinct (concat (map owned (b\<lparr>abNodes := (node, payload, unat len) # abNodes b\<rparr> # remove1 b B)))"
    proof -
      have o: "owned (b\<lparr>abNodes := (node, payload, unat len) # abNodes b\<rparr>) = node # owned b" by (simp add: owned_def)
      have "node \<notin> set (concat (map owned B))" using fresh by blast
      moreover have "set (owned b) \<subseteq> set (concat (map owned B))" using attach(2) by auto
      ultimately show ?thesis using sp(1,2) db unfolding list.map concat.simps o by (simp del: set_concat) blast
    qed
    ultimately show ?thesis using given(5,7) e by (simp add: mem_inv_def node del: set_concat)
  qed
next
  case (user_write b B a bs h h')
  have wf: "heap_wf h" and d: "distinct (concat (map owned B))" and r: "\<forall>b \<in> set B. block_rep h b"
    using user_write(4) by (simp_all add: mem_inv_def)
  have rb: "block_rep h b" using r user_write(1) by blast
  note w = block_rep_write [OF wf rb distinct_owned [OF d user_write(1)] user_write(2)]
  have h': "h' = put_bytes a bs h" using w(1) user_write(3) by simp
  have "block_rep h' c" if c: "c \<in> set B" for c
  proof (cases "c = b")
    case False
    then have "c \<in> set (remove1 b B)" using owned_split(3) [OF d user_write(1)] c by blast
    from others_unowned [OF d user_write(1) this] show ?thesis
    proof -
      assume u: "set (owned c) \<inter> set (owned b) = {}"
      have "block_rep h c" using r c by blast
      then show ?thesis unfolding h' by (rule block_rep_frame [OF wf]) (rule w(3), use u in blast)
    qed
  next
    case True
    then show ?thesis using w(2) h' by simp
  qed
  then show ?case using wf d by (simp add: mem_inv_def h' del: set_concat)
next
  case (give_back b B T h h')
  have wf: "heap_wf h" and d: "distinct (concat (map owned B))" and r: "\<forall>b \<in> set B. block_rep h b"
    using give_back(3) by (simp_all add: mem_inv_def)
  have rb: "block_rep h b" using r give_back(1) by blast
  note sp = owned_split [OF d give_back(1)]
  from FreeApiBlock_exact [OF wf rb distinct_owned [OF d give_back(1)], of T] give_back(2)
  have f: "heap_wf h'" "\<And>q. q \<notin> set (owned b) \<Longrightarrow> same_on h h' q" by auto
  have "block_rep h' c" if c: "c \<in> set (remove1 b B)" for c
  proof (rule block_rep_frame [OF wf])
    show "block_rep h c" using r c sp(3) by blast
    show "same_on h h' p" if "p \<in> set (owned c)" for p using others_unowned [OF d give_back(1) c] that by (intro f(2)) auto
  qed
  then show ?case using f(1) sp(2) by (simp add: mem_inv_def del: set_concat)
next
  case (elsewhere h' B h)
  then show ?case using blocks_frame [OF elsewhere(3,1)] by (auto simp: mem_inv_def)
qed

lemma mem_reach_inv: "mem_reach A s \<Longrightarrow> source_ok A \<Longrightarrow> mem_inv s"
proof (induction rule: mem_reach.induct)
  case (start h)
  then show ?case by (simp add: mem_inv_def)
next
  case (step s s')
  then show ?case by (blast intro: mem_inv_step)
qed

section \<open>Strings\<close>

lemma bytes_at_append: "bytes_at a (m + n) h = bytes_at a m h @ bytes_at (a + word_of_nat m) n h"
proof -
  have "map f [m..<m + n] = map (\<lambda>i. f (m + i)) [0..<n]" for f :: "nat \<Rightarrow> byte"
    by (rule nth_equalityI) simp_all
  then show ?thesis unfolding bytes_at_def by (simp add: upt_add_eq_append [of 0 m n, simplified] add.assoc)
qed

text \<open>An attached string is there, with its terminator, and the block is one with one attachment more.\<close>

lemma AttachString_cases:
  assumes wf: "heap_wf h" and A: "source_ok A" and b: "block_rep h b" "distinct (owned b)"
    and fits: "length t + 41 < 2 ^ 64"
  obtains (refused) "AttachString A T (abBlock b) (Some t) h = Some (0, h)"
  | (given) copy node h' where "AttachString A T (abBlock b) (Some t) h = Some (copy, h')" "copy \<noteq> 0"
      "bytes_at copy (length t + 1) h' = str_bytes t @ [0]" "heap_wf h'"
      "block_rep h' (b\<lparr>abNodes := (node, copy, length t + 1) # abNodes b\<rparr>)" "live h node = None"
      "\<And>q. q \<notin> set (node # owned b) \<Longrightarrow> same_on h h' q"
proof -
  define len :: u64 where "len = word_of_nat (length t) + 1"
  have ut: "unat (word_of_nat (length t) :: u64) = length t" using fits by (simp add: unat_of_nat take_bit_eq_mod)
  then have len: "unat len = length t + 1"
    using unat_add64 [of "word_of_nat (length t) :: u64" 1] fits by (simp add: len_def)
  have al: "RoundUpPow2 1 = 2 ^ 4" by (simp add: RoundUpPow2_def)
  have f: "8 + 2 ^ 4 + unat len < 2 ^ 64" using fits len by simp
  have k4: "(4 :: nat) < 64" by simp
  from wf A k4 al f b show thesis
  proof (cases rule: AttachBytes_cases [where T = T])
    case refused
    then have "AttachString A T (abBlock b) (Some t) h = Some (0, h)" by (simp add: AttachString_def flip: len_def)
    then show thesis by (rule that(1))
  next
    case (given copy node h1)
    let ?b = "b\<lparr>abNodes := (node, copy, unat len) # abNodes b\<rparr>"
    have o: "owned ?b = node # owned b" by (simp add: owned_def)
    have "node \<notin> set (owned b)" using owned_live [OF b(1)] given(4) by blast
    then have d: "distinct (owned ?b)" using b(2) by (simp add: o)
    obtain m where m: "live h1 node = Some m" "unat node + 8 \<le> unat copy" "unat copy + unat len \<le> unat node + m"
      using given(7) by (auto simp: block_rep_def)
    have "unat copy + length t < 2 ^ 64" using m(3) heap_wf_live(3) [OF given(5) m(1)] len by linarith
    then have uc: "unat (copy + word_of_nat (length t)) = unat copy + length t" by (rule unat_add64)
    define e where "e = copy + word_of_nat (length t)"
    have wr: "writable ?b copy (length (str_bytes t))" "writable ?b e (length [0 :: byte])"
      unfolding writable_def inside_def e_def uc using len by auto
    define h2 where "h2 = put_bytes copy (str_bytes t) h1"
    define h3 where "h3 = put_bytes e [0] h2"
    note w1 = block_rep_write [OF given(5,7) d wr(1), folded h2_def]
    have wf2: "heap_wf h2" "live h2 node = Some m" using given(5) m(1) by (simp_all add: h2_def)
    note w2 = block_rep_write [OF wf2(1) w1(2) d wr(2), folded h3_def]
    have eq: "AttachString A T (abBlock b) (Some t) h = Some (copy, h3)"
      using given(1,2) w1(1) w2(1) by (simp add: AttachString_def e_def flip: len_def)
    have i: "inside copy (length (str_bytes t)) node m" "inside e (length [0 :: byte]) node m"
        "apart copy (length (str_bytes t)) e (length [0 :: byte])"
      unfolding inside_def apart_def e_def uc using m(2,3) len by simp_all
    have "bytes_at copy (length t) h2 = str_bytes t" using put_there [OF given(5) m(1) i(1)] by (simp add: h2_def)
    then have r1: "bytes_at copy (length t) h3 = str_bytes t"
      using put_elsewhere [OF wf2 i(2) i(1,3)] by (simp add: h3_def)
    have r2: "bytes_at e 1 h3 = [0]" using put_there [OF wf2 i(2)] by (simp add: h3_def)
    have "bytes_at copy (length t + 1) h3 = str_bytes t @ [0]"
      unfolding bytes_at_append e_def [symmetric] r1 r2 by simp
    moreover have "heap_wf h3" using given(5) by (simp add: h3_def h2_def)
    moreover have "same_on h h3 q" if q: "q \<notin> set (node # owned b)" for q
    proof -
      have "same_on h h1 q" using q by (intro given(6)) (auto simp: owned_def)
      also have "same_on h1 h2 q" using w1(3) [of q] q unfolding o by blast
      also have "same_on h2 h3 q" using w2(3) [of q] q unfolding o by blast
      finally show ?thesis .
    qed
    ultimately show thesis using that(2) [OF eq given(2)] w2(2) given(4) len by simp
  qed
qed

section \<open>Reallocation\<close>

text \<open>Growing an allocation with the platform's allocator reads past the end of the old one.\<close>

lemma PlatformRealloc_grow:
  assumes wf: "heap_wf h" and A: "source_ok A" and p: "live h p = Some m" and grow: "m < unat len"
    and fresh: "PlatformAlloc A len align h = (f, h1)" "f \<noteq> 0"
  shows "PlatformRealloc A p len align h = None"
proof -
  have p0: "p \<noteq> 0" "0 < m" using heap_wf_live [OF wf p] by simp_all
  have l0: "0 < len" using grow by (simp add: word_less_nat_alt)
  note t = take_from_wf [OF wf A l0 fresh(1) [unfolded PlatformAlloc_def]]
  have "p \<noteq> f" using t(6) [OF fresh(2)] p by auto
  then have pl: "live h1 p = Some m" using t(5) [OF fresh(2)] p by (simp add: live_def)
  have "\<not> in_live h1 p (unat len)"
  proof
    assume "in_live h1 p (unat len)"
    then obtain q k where q: "live h1 q = Some k" "inside p (unat len) q k" using in_live_iff [OF t(1)] by blast
    show False
    proof (cases "q = p")
      case True
      then have "k = m" using q(1) pl by simp
      with q(2) True grow show False unfolding inside_def by linarith
    next
      case False
      from heap_wf_apart [OF t(1) q(1) pl False] q(2) p0(2) grow show False unfolding inside_def apart_def by linarith
    qed
  qed
  then show ?thesis using p0 fresh by (simp add: PlatformRealloc_def read_bytes_def)
qed

text \<open>A provider that hands out memory upwards, past everything live, as long as there is room.\<close>

definition bump_source :: source where
  "bump_source f n al h =
     (let top = fold max (map (\<lambda>(p, g, m). unat p + m) (hpLive h)) 4096; a = (top + 15) div 16 * 16 in
      if a + n < 2 ^ 64 then Some (word_of_nat a) else None)"

lemma fold_max_start: "(b :: nat) \<le> fold max xs b"
  by (induction xs arbitrary: b) (auto intro: order_trans [OF max.cobounded2])

lemma fold_max_mem: "x \<in> set xs \<Longrightarrow> x \<le> fold max xs (b :: nat)"
proof (induction xs arbitrary: b)
  case (Cons y ys)
  have "max y b \<le> fold max ys (max y b)" by (rule fold_max_start)
  then show ?case using Cons by auto
qed simp

lemma bump_source_ok: "source_ok bump_source"
  unfolding source_ok_def
proof (intro allI impI)
  fix f n al h p
  assume n: "0 < n" and b: "bump_source f n al h = Some p"
  define top where "top = fold max (map (\<lambda>(p, g, m). unat p + m) (hpLive h)) 4096"
  define a where "a = (top + 15) div 16 * 16"
  have a: "a + n < 2 ^ 64" "p = word_of_nat a" using b by (auto simp: bump_source_def Let_def top_def a_def split: if_splits)
  then have u: "unat p = a" by (simp add: unat_of_nat take_bit_eq_mod)
  have t: "4096 \<le> top" unfolding top_def by (rule fold_max_start)
  have at: "top \<le> a" unfolding a_def by presburger
  have "apart p n q k" if "(q, g, k) \<in> set (hpLive h)" for q g k
  proof -
    have "unat q + k \<le> top" unfolding top_def using that by (intro fold_max_mem) force
    then show ?thesis using at u by (simp add: apart_def)
  qed
  then show "p \<noteq> 0 \<and> unat p + n \<le> 2 ^ 64 \<and> (\<forall>(q, g, k) \<in> set (hpLive h). apart p n q k)"
    using a(1) u t at by auto
qed

end
