(* ===== verification/Logging.thy ===== *)
theory Logging
  imports Config "HOL-Library.Sublist"
begin

text \<open>
  The log, \<open>src/core/Logging.h\<close> and \<open>Logging.cpp\<close>, and the trace of unimplemented entry points,
  \<open>src/core/Stub.cpp\<close>: one message goes to the game's callback, filtered by the level the game set for the
  message's category, and to the library's own file and console, filtered by the configured level.

  The numbers of levels and categories come from the SDK headers (\<open>log_sdk\<close>).  A message is modelled
  after the expansion of its format; the time stamp, the process id and which paths can be opened are
  parameters.  What is written is a list of outputs; the copy that a debugger sees on Windows is left out.
\<close>

section \<open>Levels and categories\<close>

datatype category =
    LC_Core | LC_Auth | LC_Friends | LC_Presence | LC_UserInfo | LC_HttpSerialization | LC_Ecom | LC_P2P
  | LC_Sessions | LC_RateLimiter | LC_PlayerDataStorage | LC_Analytics | LC_Messaging | LC_Connect | LC_Overlay
  | LC_Achievements | LC_Stats | LC_UI | LC_Lobby | LC_Leaderboards | LC_Keychain | LC_IntegratedPlatform
  | LC_TitleStorage | LC_Mods | LC_AntiCheat | LC_Reports | LC_Sanctions | LC_ProgressionSnapshots | LC_KWS
  | LC_RTC | LC_RTCAdmin | LC_CustomInvites

record log_sdk =
  LOG_Off :: int
  LOG_Fatal :: int
  LOG_Error :: int
  LOG_Warning :: int
  LOG_Info :: int
  LOG_Verbose :: int
  LOG_VeryVerbose :: int
  lc :: "category \<Rightarrow> int"
  LC_ALL_CATEGORIES :: int

text \<open>A \<open>switch\<close> over enumerators, the first match winning.\<close>

definition switch :: "(int \<times> 'a) list \<Rightarrow> 'a \<Rightarrow> int \<Rightarrow> 'a" where
  "switch cases dflt n = (case map_of cases n of None \<Rightarrow> dflt | Some a \<Rightarrow> a)"

definition LevelName :: "log_sdk \<Rightarrow> int \<Rightarrow> string" where
  "LevelName K =
     switch [(LOG_Off K, ''Off''), (LOG_Fatal K, ''Fatal''), (LOG_Error K, ''Error''), (LOG_Warning K, ''Warning''),
             (LOG_Info K, ''Info''), (LOG_Verbose K, ''Verbose''), (LOG_VeryVerbose K, ''VeryVerbose'')] ''?''"

definition ParseLevel :: "log_sdk \<Rightarrow> string \<Rightarrow> int \<Rightarrow> int" where
  "ParseLevel K name dflt =
     (let l = Lower name in
      if l = [] then dflt
      else if l = ''off'' then LOG_Off K
      else if l = ''fatal'' then LOG_Fatal K
      else if l = ''error'' then LOG_Error K
      else if l = ''warning'' \<or> l = ''warn'' then LOG_Warning K
      else if l = ''info'' then LOG_Info K
      else if l = ''verbose'' then LOG_Verbose K
      else if l = ''veryverbose'' then LOG_VeryVerbose K
      else dflt)"

definition category_names :: "(category \<times> string) list" where
  "category_names =
     [(LC_Core, ''LogEOS''), (LC_Auth, ''LogEOSAuth''), (LC_Friends, ''LogEOSFriends''), (LC_Presence, ''LogEOSPresence''),
      (LC_UserInfo, ''LogEOSUserInfo''), (LC_HttpSerialization, ''LogHttp''), (LC_Ecom, ''LogEOSEcom''), (LC_P2P, ''LogEOSP2P''),
      (LC_Sessions, ''LogEOSSessions''), (LC_RateLimiter, ''LogEOSRateLimiter''),
      (LC_PlayerDataStorage, ''LogEOSPlayerDataStorage''), (LC_Analytics, ''LogEOSAnalytics''),
      (LC_Messaging, ''LogEOSMessaging''), (LC_Connect, ''LogEOSConnect''), (LC_Overlay, ''LogEOSOverlay''),
      (LC_Achievements, ''LogEOSAchievements''), (LC_Stats, ''LogEOSStats''), (LC_UI, ''LogEOSUI''), (LC_Lobby, ''LogEOSLobby''),
      (LC_Leaderboards, ''LogEOSLeaderboards''), (LC_Keychain, ''LogEOSKeychain''),
      (LC_IntegratedPlatform, ''LogEOSIntegratedPlatform''), (LC_TitleStorage, ''LogEOSTitleStorage''), (LC_Mods, ''LogEOSMods''),
      (LC_AntiCheat, ''LogEOSAntiCheat''), (LC_Reports, ''LogEOSReports''), (LC_Sanctions, ''LogEOSSanctions''),
      (LC_ProgressionSnapshots, ''LogEOSProgressionSnapshots''), (LC_KWS, ''LogEOSKWS''), (LC_RTC, ''LogEOSRTC''),
      (LC_RTCAdmin, ''LogEOSRTCAdmin''), (LC_CustomInvites, ''LogEOSCustomInvites'')]"

definition CategoryName :: "log_sdk \<Rightarrow> int \<Rightarrow> string" where
  "CategoryName K = switch (map (\<lambda>(c, s). (lc K c, s)) category_names) ''LogEOS''"

definition kCategoryCount :: "log_sdk \<Rightarrow> int" where
  "kCategoryCount K = lc K LC_CustomInvites + 1"

section \<open>State and output\<close>

text \<open>\<open>lgFile\<close>: the file named by \<open>lgFilePath\<close> is open.\<close>

record logging =
  lgCallback :: "nat option"
  lgFile :: bool
  lgFilePath :: string
  lgConsole :: bool
  lgEmuLevel :: int
  lgLevels :: "int list"
  lgLevelsInit :: bool

definition logging_init :: "log_sdk \<Rightarrow> logging" where
  "logging_init K =
     \<lparr>lgCallback = None, lgFile = False, lgFilePath = [], lgConsole = False, lgEmuLevel = LOG_Off K,
      lgLevels = replicate (nat (kCategoryCount K)) 0, lgLevelsInit = False\<rparr>"

datatype log_output =
    ToFile string string
  | ToConsole string
  | ToGame nat string string int

definition EnsureLevels :: "log_sdk \<Rightarrow> logging \<Rightarrow> logging" where
  "EnsureLevels K s =
     (if lgLevelsInit s then s
      else s\<lparr>lgLevels := replicate (nat (kCategoryCount K)) (LOG_Warning K), lgLevelsInit := True\<rparr>)"

definition newline :: string where "newline = [CHR 0x0A]"

text \<open>\<open>%-11s\<close>.\<close>

definition pad_right :: "nat \<Rightarrow> string \<Rightarrow> string" where
  "pad_right n t = t @ replicate (n - length t) (CHR 0x20)"

definition WriteEmuSink :: "log_sdk \<Rightarrow> string \<Rightarrow> int \<Rightarrow> int \<Rightarrow> string \<Rightarrow> logging \<Rightarrow> log_output list" where
  "WriteEmuSink K ts cat lvl msg s =
     (if lgFile s
      then [ToFile (lgFilePath s)
              (ts @ '' ['' @ pad_right 11 (LevelName K lvl) @ ''] ['' @ CategoryName K cat @ ''] '' @ msg @ newline)]
      else []) @
     (if lgConsole s
      then [ToConsole (''[EOSEmu] '' @ ts @ '' ['' @ LevelName K lvl @ ''] ['' @ CategoryName K cat @ ''] '' @ msg @ newline)]
      else [])"

definition cat_ok :: "log_sdk \<Rightarrow> int \<Rightarrow> bool" where
  "cat_ok K cat \<longleftrightarrow> 0 \<le> cat \<and> cat < kCategoryCount K"

text \<open>\<open>Log\<close>; the expanded text is cut to what its buffer of 1024 bytes holds.\<close>

definition Log :: "log_sdk \<Rightarrow> string \<Rightarrow> int \<Rightarrow> int \<Rightarrow> string \<Rightarrow> logging \<Rightarrow> logging \<times> log_output list" where
  "Log K ts cat lvl text s =
     (let s1 = EnsureLevels K s;
          want_consumer = (lgCallback s1 \<noteq> None \<and> (\<not> cat_ok K cat \<or> lvl \<le> lgLevels s1 ! nat cat));
          want_emu = ((lgFile s1 \<or> lgConsole s1) \<and> lvl \<le> lgEmuLevel s1);
          buffer = take 1023 text
      in (s1, if \<not> want_consumer \<and> \<not> want_emu then []
              else (if want_emu then WriteEmuSink K ts cat lvl buffer s1 else []) @
                   (case lgCallback s1 of
                      Some f \<Rightarrow> if want_consumer then [ToGame f (CategoryName K cat) buffer lvl] else []
                    | None \<Rightarrow> [])))"

section \<open>The trace of calls\<close>

definition kMap :: "(string \<times> category) list" where
  "kMap =
     [(''EOS_LobbyRTC'', LC_Lobby), (''EOS_Lobby'', LC_Lobby), (''EOS_ActiveSession'', LC_Sessions),
      (''EOS_Session'', LC_Sessions), (''EOS_P2P'', LC_P2P), (''EOS_Auth'', LC_Auth), (''EOS_Connect'', LC_Connect),
      (''EOS_UserInfo'', LC_UserInfo), (''EOS_Friends'', LC_Friends), (''EOS_Presence'', LC_Presence),
      (''EOS_CustomInvites'', LC_CustomInvites), (''EOS_UI'', LC_UI), (''EOS_Ecom'', LC_Ecom),
      (''EOS_Achievements'', LC_Achievements), (''EOS_Stats'', LC_Stats), (''EOS_Leaderboards'', LC_Leaderboards),
      (''EOS_PlayerDataStorage'', LC_PlayerDataStorage), (''EOS_TitleStorage'', LC_TitleStorage), (''EOS_Mods'', LC_Mods),
      (''EOS_RTCAdmin'', LC_RTCAdmin), (''EOS_RTC'', LC_RTC), (''EOS_Sanctions'', LC_Sanctions),
      (''EOS_Reports'', LC_Reports), (''EOS_AntiCheat'', LC_AntiCheat), (''EOS_KWS'', LC_KWS),
      (''EOS_IntegratedPlatform'', LC_IntegratedPlatform), (''EOS_ProgressionSnapshot'', LC_ProgressionSnapshots),
      (''EOS_Metrics'', LC_Analytics)]"

text \<open>\<open>strncmp(f, p, strlen(p)) == 0\<close>.\<close>

fun starts_with :: "string \<Rightarrow> string \<Rightarrow> bool" where
  "starts_with f [] \<longleftrightarrow> True"
| "starts_with [] (c # cs) \<longleftrightarrow> False"
| "starts_with (a # as) (c # cs) \<longleftrightarrow> a = c \<and> starts_with as cs"

definition trace_category :: "string \<Rightarrow> category" where
  "trace_category f = (case find (\<lambda>(p, c). starts_with f p) kMap of Some (p, c) \<Rightarrow> c | None \<Rightarrow> LC_Core)"

definition TraceApiCall :: "log_sdk \<Rightarrow> string \<Rightarrow> string option \<Rightarrow> logging \<Rightarrow> logging \<times> log_output list" where
  "TraceApiCall K ts f s =
     (case f of None \<Rightarrow> (s, [])
      | Some name \<Rightarrow> Log K ts (lc K (trace_category name)) (LOG_VeryVerbose K) name s)"

section \<open>Configuration\<close>

text \<open>\<open>Path.find(Token)\<close>.\<close>

fun find_token :: "string \<Rightarrow> string \<Rightarrow> nat option" where
  "find_token tok s =
     (if starts_with s tok then Some 0
      else case s of [] \<Rightarrow> None | c # cs \<Rightarrow> map_option Suc (find_token tok cs))"

declare find_token.simps [simp del]

definition ExpandLogPath :: "nat \<Rightarrow> string \<Rightarrow> string" where
  "ExpandLogPath pid path =
     (let token = ''{pid}'' in
      case find_token token path of
        None \<Rightarrow> path
      | Some i \<Rightarrow> take i path @ dec_str pid @ drop (i + length token) path)"

definition ConfigureEmuLogSink ::
  "log_sdk \<Rightarrow> nat \<Rightarrow> (string \<Rightarrow> bool) \<Rightarrow> string \<Rightarrow> string \<Rightarrow> bool \<Rightarrow> string \<Rightarrow> logging \<Rightarrow> logging \<times> log_output list" where
  "ConfigureEmuLogSink K pid opens ts raw console level_name s =
     (let path = ExpandLogPath pid raw;
          lvl = ParseLevel K level_name (LOG_Info K);
          s1 = s\<lparr>lgConsole := console, lgEmuLevel := (if path \<noteq> [] \<or> console then lvl else LOG_Off K)\<rparr>
      in if path = lgFilePath s1 then (s1, [])
         else let s2 = s1\<lparr>lgFile := (path \<noteq> [] \<and> opens path), lgFilePath := path\<rparr>
              in (s2, if lgFile s2
                      then [ToFile path (ts @ '' [Info       ] [LogEOS] ---- EOSEmu log sink opened (level '' @
                              (if level_name = [] then ''Info'' else c_str level_name) @ '') ----'' @ newline)]
                      else []))"

definition ResetLogging :: "log_sdk \<Rightarrow> logging \<Rightarrow> logging" where
  "ResetLogging K s =
     s\<lparr>lgCallback := None, lgLevelsInit := False, lgFile := False, lgFilePath := [], lgConsole := False,
       lgEmuLevel := LOG_Off K\<rparr>"

definition SetCallback :: "nat option \<Rightarrow> logging \<Rightarrow> eresult \<times> logging" where
  "SetCallback cb s = (EOS_Success, s\<lparr>lgCallback := cb\<rparr>)"

definition SetLogLevel :: "log_sdk \<Rightarrow> int \<Rightarrow> int \<Rightarrow> logging \<Rightarrow> eresult \<times> logging" where
  "SetLogLevel K cat lvl s =
     (let s1 = EnsureLevels K s in
      if cat = LC_ALL_CATEGORIES K then (EOS_Success, s1\<lparr>lgLevels := replicate (nat (kCategoryCount K)) lvl\<rparr>)
      else if \<not> cat_ok K cat then (EOS_InvalidParameters, s1)
      else (EOS_Success, s1\<lparr>lgLevels := (lgLevels s1)[nat cat := lvl]\<rparr>))"

section \<open>Unimplemented entry points\<close>

text \<open>\<open>trace_all\<close>: the environment asks for every call.  The set of names seen is a list.\<close>

definition Emit :: "log_sdk \<Rightarrow> string \<Rightarrow> string \<Rightarrow> logging \<Rightarrow> logging \<times> log_output list" where
  "Emit K ts f s =
     (case Log K ts (lc K LC_Core) (LOG_Warning K) (''unimplemented entry point called: '' @ f) s of
        (s1, out) \<Rightarrow> (s1, ToConsole (''[EOSEmu] stub: '' @ f @ newline) # out))"

definition TraceStub ::
  "log_sdk \<Rightarrow> bool \<Rightarrow> string \<Rightarrow> string \<Rightarrow> string list \<times> logging \<Rightarrow> (string list \<times> logging) \<times> log_output list" where
  "TraceStub K trace_all ts f st =
     (case st of (seen, s) \<Rightarrow>
        if trace_all then (case Emit K ts f s of (s1, out) \<Rightarrow> ((seen, s1), out))
        else if f \<in> set seen then ((seen, s), [])
        else (case Emit K ts f s of (s1, out) \<Rightarrow> ((f # seen, s1), out)))"

section \<open>What a history of calls amounts to\<close>

datatype log_op =
    OpLog string int int string
  | OpTrace string "string option"
  | OpConfigure nat "string \<Rightarrow> bool" string string bool string
  | OpReset
  | OpSetCallback "nat option"
  | OpSetLevel int int

fun log_do :: "log_sdk \<Rightarrow> log_op \<Rightarrow> logging \<Rightarrow> logging" where
  "log_do K (OpLog ts cat lvl text) s = fst (Log K ts cat lvl text s)"
| "log_do K (OpTrace ts f) s = fst (TraceApiCall K ts f s)"
| "log_do K (OpConfigure pid opens ts raw console name) s = fst (ConfigureEmuLogSink K pid opens ts raw console name s)"
| "log_do K OpReset s = ResetLogging K s"
| "log_do K (OpSetCallback cb) s = snd (SetCallback cb s)"
| "log_do K (OpSetLevel cat lvl) s = snd (SetLogLevel K cat lvl s)"

text \<open>The state after a history, newest call first, and what the game asked for in it: the callback and the
  level of a category set last, since the last reset.\<close>

definition log_state :: "log_sdk \<Rightarrow> log_op list \<Rightarrow> logging" where
  "log_state K h = foldr (log_do K) h (logging_init K)"

fun callback_of :: "log_op list \<Rightarrow> nat option" where
  "callback_of [] = None"
| "callback_of (OpSetCallback cb # h) = cb"
| "callback_of (OpReset # h) = None"
| "callback_of (_ # h) = callback_of h"

fun level_of :: "log_sdk \<Rightarrow> int \<Rightarrow> log_op list \<Rightarrow> int" where
  "level_of K cat [] = LOG_Warning K"
| "level_of K cat (OpSetLevel c lvl # h) = (if c = LC_ALL_CATEGORIES K \<or> c = cat then lvl else level_of K cat h)"
| "level_of K cat (OpReset # h) = LOG_Warning K"
| "level_of K cat (_ # h) = level_of K cat h"

definition log_rel :: "log_sdk \<Rightarrow> log_op list \<Rightarrow> logging \<Rightarrow> bool" where
  "log_rel K h s \<longleftrightarrow>
     lgCallback s = callback_of h \<and> length (lgLevels s) = nat (kCategoryCount K) \<and>
     (\<forall>cat. cat_ok K cat \<longrightarrow> (if lgLevelsInit s then lgLevels s ! nat cat else LOG_Warning K) = level_of K cat h) \<and>
     (lgFile s \<longrightarrow> lgFilePath s \<noteq> []) \<and> (lgFilePath s = [] \<and> \<not> lgConsole s \<longrightarrow> lgEmuLevel s = LOG_Off K)"

lemma cat_ok_less: "cat_ok K cat \<Longrightarrow> nat cat < nat (kCategoryCount K)"
  by (simp add: cat_ok_def)

lemma level_at [simp]: "cat_ok K cat \<Longrightarrow> replicate (nat (kCategoryCount K)) l ! nat cat = l"
  by (rule nth_replicate) (rule cat_ok_less)

lemma cat_ok_inj: "cat_ok K a \<Longrightarrow> cat_ok K b \<Longrightarrow> nat a = nat b \<longleftrightarrow> a = b"
  by (auto simp: cat_ok_def)

lemma EnsureLevels_rel: "log_rel K h s \<Longrightarrow> log_rel K h (EnsureLevels K s) \<and> lgLevelsInit (EnsureLevels K s)"
  by (auto simp: log_rel_def EnsureLevels_def simp del: nth_replicate)

lemma log_do_rel:
  assumes "log_rel K h s"
  shows "log_rel K (a # h) (log_do K a s)"
proof -
  note e = EnsureLevels_rel [OF assms]
  show ?thesis
  proof (cases a)
    case (OpLog ts cat lvl msg)
    with e show ?thesis by (auto simp: Log_def Let_def log_rel_def)
  next
    case (OpTrace ts f)
    with e assms show ?thesis by (cases f) (auto simp: TraceApiCall_def Log_def Let_def log_rel_def)
  next
    case (OpConfigure pid opens ts raw console name)
    with assms show ?thesis by (auto simp: ConfigureEmuLogSink_def Let_def log_rel_def split: if_splits)
  next
    case OpReset
    with assms show ?thesis by (simp add: ResetLogging_def log_rel_def)
  next
    case (OpSetCallback cb)
    with assms show ?thesis by (auto simp: SetCallback_def log_rel_def)
  next
    case (OpSetLevel cat lvl)
    with e show ?thesis
      by (auto simp: SetLogLevel_def Let_def log_rel_def nth_list_update cat_ok_inj dest: cat_ok_less)
  qed
qed

lemma log_state_rel: "log_rel K h (log_state K h)"
proof (induction h)
  case Nil
  show ?case by (simp add: log_state_def log_rel_def logging_init_def)
next
  case (Cons a h)
  from log_do_rel [OF this, of a] show ?case by (simp add: log_state_def)
qed

definition to_game :: "log_output list \<Rightarrow> log_output list" where
  "to_game out = filter (\<lambda>x. case x of ToGame f c m l \<Rightarrow> True | _ \<Rightarrow> False) out"

lemma to_game_simps [simp]:
  "to_game [] = []" "to_game (ToFile p t # out) = to_game out" "to_game (ToConsole t # out) = to_game out"
  "to_game (ToGame f c m l # out) = ToGame f c m l # to_game out" "to_game (a @ b) = to_game a @ to_game b"
  by (simp_all add: to_game_def)

lemma to_game_sink [simp]: "to_game (WriteEmuSink K ts cat lvl msg s) = []"
  by (simp add: WriteEmuSink_def)

text \<open>What the game hears of a message, and what its own sink gets.\<close>

lemma Log_to_game:
  assumes "log_rel K h s"
  shows "to_game (snd (Log K ts cat lvl text s)) =
    (case callback_of h of
       None \<Rightarrow> []
     | Some f \<Rightarrow> if cat_ok K cat \<and> level_of K cat h < lvl then [] else [ToGame f (CategoryName K cat) (take 1023 text) lvl])"
  using EnsureLevels_rel [OF assms] by (auto simp: Log_def Let_def log_rel_def not_le split: option.splits)

lemma Log_after_reset: "snd (Log K ts cat lvl text (ResetLogging K s)) = []"
  by (simp add: Log_def Let_def EnsureLevels_def ResetLogging_def)

text \<open>Configuring again with the same values neither reopens the file nor writes to it.\<close>

lemma ConfigureEmuLogSink_again:
  assumes "ConfigureEmuLogSink K pid opens ts raw console name s = (s1, out)"
  shows "ConfigureEmuLogSink K pid opens' ts' raw console name s1 = (s1, [])"
proof -
  let ?path = "ExpandLogPath pid raw"
  have s1: "s1 = fst (ConfigureEmuLogSink K pid opens ts raw console name s)" by (simp add: assms)
  have "lgFilePath s1 = ?path" "lgConsole s1 = console"
    "lgEmuLevel s1 = (if ?path \<noteq> [] \<or> console then ParseLevel K name (LOG_Info K) else LOG_Off K)"
    unfolding s1 by (simp_all add: ConfigureEmuLogSink_def Let_def)
  then show ?thesis by (simp add: ConfigureEmuLogSink_def Let_def)
qed

lemma TraceStub_again:
  assumes "TraceStub K trace_all ts f st = (st1, out)" "\<not> trace_all"
  shows "TraceStub K False ts' f (fst st1, s') = ((fst st1, s'), [])"
  using assms by (auto simp: TraceStub_def split: prod.splits if_splits)

section \<open>The category of a traced call\<close>

lemma starts_with_prefix: "starts_with f p \<longleftrightarrow> prefix p f"
  by (induction f p rule: starts_with.induct) auto

fun no_shadow :: "string list \<Rightarrow> bool" where
  "no_shadow [] \<longleftrightarrow> True"
| "no_shadow (p # ps) \<longleftrightarrow> list_all (\<lambda>q. \<not> starts_with q p) ps \<and> no_shadow ps"

lemma kMap_order: "no_shadow (map fst kMap)"
  by (simp add: kMap_def)

lemma no_shadow_sorted: "no_shadow (map fst xs) \<Longrightarrow> sorted_wrt (\<lambda>a b. \<not> prefix (fst a) (fst b)) xs"
  by (induction xs) (auto simp: list_all_iff starts_with_prefix)

lemma find_first_longest:
  assumes "sorted_wrt (\<lambda>a b. \<not> prefix (fst a) (fst b)) xs" "(p, c) \<in> set xs" "prefix p f"
    "\<forall>(q, d) \<in> set xs. prefix q f \<longrightarrow> length q \<le> length p"
  shows "find (\<lambda>(p, c). prefix p f) xs = Some (p, c)"
  using assms
proof (induction xs)
  case (Cons x xs)
  obtain q d where x: "x = (q, d)" by (cases x)
  show ?case
  proof (cases "prefix q f")
    case True
    show ?thesis
    proof (cases "(p, c) = x")
      case False
      then have m: "(p, c) \<in> set xs" using Cons.prems(2) by simp
      then have "\<not> prefix q p" using Cons.prems(1) x by auto
      then have "strict_prefix p q" using prefix_same_cases [OF True Cons.prems(3)] by (auto simp: strict_prefix_def)
      then have "length p < length q" by (rule prefix_length_less)
      moreover have "length q \<le> length p" using Cons.prems(4) True x by auto
      ultimately show ?thesis by simp
    qed (use x Cons.prems(3) in simp)
  next
    case False
    then have "(p, c) \<in> set xs" using Cons.prems(2,3) x by auto
    then show ?thesis using Cons False x by auto
  qed
qed simp

text \<open>The entry found first is the most specific one.\<close>

lemma trace_category_longest:
  assumes "(p, c) \<in> set kMap" "prefix p f" "\<forall>(q, d) \<in> set kMap. prefix q f \<longrightarrow> length q \<le> length p"
  shows "trace_category f = c"
  using find_first_longest [OF no_shadow_sorted [OF kMap_order] assms]
  by (simp add: trace_category_def starts_with_prefix)

end
