(* ===== verification/Moderation.thy ===== *)
theory Moderation
  imports Platform Logging
begin

text \<open>
  The services that answer for a back end that is not there: \<open>src/interfaces/Leaderboards.cpp\<close> (empty
  tables), \<open>Sanctions.cpp\<close> (one sanction of the local user, when the configuration says so) and
  \<open>Reports.cpp\<close> (player reports, checked and appended to a file in the cache directory).

  The platform is an option: the calls do nothing, or answer empty, while none is live.  Handles are ignored
  by the code.  A copied structure is its fields; the limits of the SDK headers are arguments.
\<close>

datatype moderation_task =
    DefinitionsDone nat nat eresult
  | RanksDone nat nat eresult string
  | ScoresDone nat nat eresult
  | SanctionsDone nat nat eresult "puid option" "puid option"
  | AppealDone nat nat eresult string
  | ReportDone nat nat eresult

text \<open>Post on the dispatcher of the live platform.\<close>

definition post_live :: "'p option \<Rightarrow> nat option \<Rightarrow> (nat \<Rightarrow> 'a) \<Rightarrow> 'a event list" where
  "post_live p cb info = (if p = None then [] else complete cb info)"

section \<open>Leaderboards\<close>

definition QueryLeaderboardDefinitions :: "platform option \<Rightarrow> nat \<Rightarrow> nat option \<Rightarrow> moderation_task event list" where
  "QueryLeaderboardDefinitions p cd cb = post_live p cb (\<lambda>f. DefinitionsDone f cd EOS_Success)"

definition QueryLeaderboardRanks ::
  "platform option \<Rightarrow> string option option \<Rightarrow> nat \<Rightarrow> nat option \<Rightarrow> moderation_task event list" where
  "QueryLeaderboardRanks p options cd cb =
     (let board = (case options of Some (Some b) \<Rightarrow> b | _ \<Rightarrow> [])
      in post_live p cb (\<lambda>f. RanksDone f cd EOS_Success board))"

definition QueryLeaderboardUserScores :: "platform option \<Rightarrow> nat \<Rightarrow> nat option \<Rightarrow> moderation_task event list" where
  "QueryLeaderboardUserScores p cd cb = post_live p cb (\<lambda>f. ScoresDone f cd EOS_Success)"

text \<open>The three counts, and the six copies: the result with what is written through the out pointer.\<close>

definition leaderboard_count :: nat where "leaderboard_count = 0"

definition leaderboard_copy :: "bool \<Rightarrow> eresult \<times> 'a option option" where
  "leaderboard_copy has_out = (EOS_NotFound, if has_out then Some None else None)"

section \<open>Sanctions\<close>

record player_sanction =
  snTimePlaced :: int
  snAction :: string
  snTimeExpires :: int
  snReferenceId :: string

definition IsSanctionedTarget :: "platform option \<Rightarrow> puid option \<Rightarrow> bool" where
  "IsSanctionedTarget p target =
     (case (p, target) of
        (Some pl, Some t) \<Rightarrow>
          GetBool ''Sanctions'' ''Sanctioned'' False (plConfig pl) \<and> Some t = idProduct (plIdentity pl)
      | _ \<Rightarrow> False)"

definition MakeSanction :: "platform option \<Rightarrow> player_sanction" where
  "MakeSanction p =
     (case p of
        None \<Rightarrow> \<lparr>snTimePlaced = 1700000000, snAction = ''RESTRICT_GAME_ACCESS'', snTimeExpires = 0,
                 snReferenceId = ''eosemu-sanction-0001''\<rparr>
      | Some pl \<Rightarrow>
        \<lparr>snTimePlaced = GetInt ''Sanctions'' ''TimePlaced'' 1700000000 (plConfig pl),
         snAction = c_str (GetString ''Sanctions'' ''Action'' ''RESTRICT_GAME_ACCESS'' (plConfig pl)),
         snTimeExpires = GetInt ''Sanctions'' ''TimeExpires'' 0 (plConfig pl),
         snReferenceId = c_str (GetString ''Sanctions'' ''ReferenceId'' ''eosemu-sanction-0001'' (plConfig pl))\<rparr>)"

definition QueryActivePlayerSanctions ::
  "platform option \<Rightarrow> (puid option \<times> puid option) option \<Rightarrow> nat \<Rightarrow> nat option \<Rightarrow> moderation_task event list" where
  "QueryActivePlayerSanctions p options cd cb =
     (case options of
        None \<Rightarrow> post_live p cb (\<lambda>f. SanctionsDone f cd EOS_Success None None)
      | Some (target, user) \<Rightarrow> post_live p cb (\<lambda>f. SanctionsDone f cd EOS_Success target user))"

definition GetPlayerSanctionCount :: "platform option \<Rightarrow> puid option option \<Rightarrow> nat" where
  "GetPlayerSanctionCount p options =
     (case options of None \<Rightarrow> 0 | Some target \<Rightarrow> if IsSanctionedTarget p target then 1 else 0)"

definition CopyPlayerSanctionByIndex ::
  "platform option \<Rightarrow> (puid option \<times> nat) option \<Rightarrow> bool \<Rightarrow> eresult \<times> player_sanction option" where
  "CopyPlayerSanctionByIndex p options out =
     (case options of
        None \<Rightarrow> (EOS_InvalidParameters, None)
      | Some (target, i) \<Rightarrow>
        if \<not> out then (EOS_InvalidParameters, None)
        else if \<not> IsSanctionedTarget p target \<or> i \<noteq> 0 then (EOS_NotFound, None)
        else (EOS_Success, Some (MakeSanction p)))"

definition CreatePlayerSanctionAppeal ::
  "platform option \<Rightarrow> string option option \<Rightarrow> nat \<Rightarrow> nat option \<Rightarrow> moderation_task event list" where
  "CreatePlayerSanctionAppeal p options cd cb =
     (let ref = (case options of Some (Some r) \<Rightarrow> r | _ \<Rightarrow> [])
      in post_live p cb (\<lambda>f. AppealDone f cd EOS_Success ref))"

section \<open>Reports\<close>

datatype report_category =
    PRC_Invalid | PRC_Cheating | PRC_Exploiting | PRC_OffensiveProfile | PRC_VerbalAbuse | PRC_Scamming | PRC_Spamming
  | PRC_Other | PRC_Unknown

fun report_category_name :: "report_category \<Rightarrow> string" where
  "report_category_name PRC_Cheating = ''Cheating''"
| "report_category_name PRC_Exploiting = ''Exploiting''"
| "report_category_name PRC_OffensiveProfile = ''OffensiveProfile''"
| "report_category_name PRC_VerbalAbuse = ''VerbalAbuse''"
| "report_category_name PRC_Scamming = ''Scamming''"
| "report_category_name PRC_Spamming = ''Spamming''"
| "report_category_name PRC_Other = ''Other''"
| "report_category_name _ = ''Invalid''"

record report_options =
  rpApiVersion :: int
  rpReporter :: "puid option"
  rpReported :: "puid option"
  rpCategory :: report_category
  rpMessage :: "string option"
  rpContext :: "string option"

text \<open>\<open>AppendToReportLog\<close>: the file and the line to append, when there is a directory for it.\<close>

definition AppendToReportLog :: "platform \<Rightarrow> string \<Rightarrow> (string \<times> string) option" where
  "AppendToReportLog p line =
     (let dir = plCacheDirectory p in
      if dir = [] then None
      else Some ((if last dir \<noteq> CHR 0x5C \<and> last dir \<noteq> CHR ''/'' then dir @ ''/'' else dir) @ ''eosemu_reports.log'',
                 line @ newline))"

definition report_line :: "string \<Rightarrow> string \<Rightarrow> report_category \<Rightarrow> string \<Rightarrow> string option \<Rightarrow> string" where
  "report_line reporter reported cat msg context =
     ''reporter='' @ reporter @ '' reported='' @ reported @ '' category='' @ report_category_name cat @
     (if msg = [] then [] else '' message='' @ msg) @
     (case context of None \<Rightarrow> [] | Some c \<Rightarrow> '' context='' @ c)"

definition report_warning :: "string \<Rightarrow> string \<Rightarrow> report_category \<Rightarrow> string \<Rightarrow> string" where
  "report_warning reporter reported cat msg =
     ''player report: '' @ reporter @ '' reported '' @ reported @ '' for '' @ report_category_name cat @
     (if msg = [] then [] else '': '') @ msg @ '' (accepted locally; no backend)''"

text \<open>The checks in the order of the code.\<close>

definition report_result :: "int \<Rightarrow> nat \<Rightarrow> report_options option \<Rightarrow> eresult" where
  "report_result latest max_context options =
     (case options of
        None \<Rightarrow> EOS_InvalidParameters
      | Some opt \<Rightarrow>
        if rpReporter opt = None \<or> rpReported opt = None \<or> rpCategory opt = PRC_Invalid then EOS_InvalidParameters
        else if \<not> VersionInRange (rpApiVersion opt) latest then EOS_IncompatibleVersion
        else if (case rpContext opt of None \<Rightarrow> False | Some c \<Rightarrow> max_context < length c) then EOS_InvalidParameters
        else EOS_Success)"

text \<open>Everything one call does: the warning, the line for the report file, the completion.\<close>

definition SendPlayerBehaviorReport ::
  "int \<Rightarrow> nat \<Rightarrow> nat \<Rightarrow> platform option \<Rightarrow> report_options option \<Rightarrow> nat \<Rightarrow> nat option \<Rightarrow>
   string option \<times> (string \<times> string) option \<times> moderation_task event list" where
  "SendPlayerBehaviorReport latest max_context max_message platform options cd cb =
     (case (cb, platform) of
        (Some f, Some p) \<Rightarrow>
          (let r = report_result latest max_context options; done_ev = [EvPost (ReportDone f cd r)] in
           case options of
             None \<Rightarrow> (None, None, done_ev)
           | Some opt \<Rightarrow>
             if r \<noteq> EOS_Success then (None, None, done_ev)
             else let msg = take max_message (case rpMessage opt of None \<Rightarrow> [] | Some m \<Rightarrow> m);
                      reporter = id_text (rpReporter opt); reported = id_text (rpReported opt)
                  in (Some (report_warning reporter reported (rpCategory opt) msg),
                      AppendToReportLog p (report_line reporter reported (rpCategory opt) msg (rpContext opt)),
                      done_ev))
      | _ \<Rightarrow> (None, None, []))"

section \<open>Facts\<close>

text \<open>A sanction can be copied exactly at the indices below the count, and only the local user has one.\<close>

lemma sanctions_enumerated:
  "fst (CopyPlayerSanctionByIndex p (Some (target, i)) True) = EOS_Success \<longleftrightarrow> i < GetPlayerSanctionCount p (Some target)"
  by (simp add: CopyPlayerSanctionByIndex_def GetPlayerSanctionCount_def)

lemma sanctions_only_local:
  "GetPlayerSanctionCount (Some p) (Some (Some t)) \<noteq> 0 \<Longrightarrow> idProduct (plIdentity p) = Some t"
  by (simp add: GetPlayerSanctionCount_def IsSanctionedTarget_def split: if_splits)

text \<open>A report is written down exactly when it is accepted, and the game hears of every report once.\<close>

lemma report_recorded:
  assumes "SendPlayerBehaviorReport latest max_context max_message (Some p) options cd (Some f) = (warn, line, evs)"
    "plCacheDirectory p \<noteq> []"
  shows "evs = [EvPost (ReportDone f cd (report_result latest max_context options))]"
    "line \<noteq> None \<longleftrightarrow> report_result latest max_context options = EOS_Success"
    "warn \<noteq> None \<longleftrightarrow> line \<noteq> None"
proof -
  have "evs = [EvPost (ReportDone f cd (report_result latest max_context options))] \<and>
    (line \<noteq> None \<longleftrightarrow> report_result latest max_context options = EOS_Success) \<and> (warn \<noteq> None \<longleftrightarrow> line \<noteq> None)"
  proof (cases options)
    case None
    with assms show ?thesis by (auto simp: SendPlayerBehaviorReport_def report_result_def)
  next
    case (Some opt)
    with assms show ?thesis
      by (cases "report_result latest max_context options = EOS_Success")
        (auto simp: SendPlayerBehaviorReport_def Let_def AppendToReportLog_def)
  qed
  then show "evs = [EvPost (ReportDone f cd (report_result latest max_context options))]"
    "line \<noteq> None \<longleftrightarrow> report_result latest max_context options = EOS_Success" "warn \<noteq> None \<longleftrightarrow> line \<noteq> None" by blast+
qed

lemma report_refused:
  assumes "rpReporter opt = None \<or> rpReported opt = None \<or> rpCategory opt = PRC_Invalid"
  shows "SendPlayerBehaviorReport latest max_context max_message (Some p) (Some opt) cd (Some f) =
    (None, None, [EvPost (ReportDone f cd EOS_InvalidParameters)])"
  using assms by (simp add: SendPlayerBehaviorReport_def report_result_def)

end
