(* ===== verification/Startup.thy ===== *)
theory Startup
  imports Lifecycle Logging MemoryFacts
begin

text \<open>
  What starting and stopping the library does around the state machine of theory Lifecycle: the
  allocator functions of theory Memory, the log of theory Logging, and the answers of \<open>src/core/Platform.cpp\<close> that
  only depend on which platform is live, the interface getters and the status calls.

  The global state is a triple: the process, the allocator functions, the log.  Every exported call
  first traces its own name.
\<close>

type_synonym library = "process \<times> triple \<times> logging"

definition library_init :: "log_sdk \<Rightarrow> library" where
  "library_init K = (process_init, ClearAllocators, logging_init K)"

definition allocators_triple :: "allocators \<Rightarrow> triple" where
  "allocators_triple a = (case a of (x, y, z) \<Rightarrow> SetAllocators x y z)"

section \<open>Initialize and Shutdown\<close>

text \<open>\<open>name\<close>: the product name of the options.\<close>

definition Initialize_call ::
  "log_sdk \<Rightarrow> string \<Rightarrow> allocators option \<Rightarrow> string option \<Rightarrow> library \<Rightarrow> eresult \<times> library \<times> log_output list" where
  "Initialize_call K ts options name st =
     (case st of (s, T, g) \<Rightarrow>
        case TraceApiCall K ts (Some ''EOS_Initialize'') g of (g1, out1) \<Rightarrow>
        case EOS_Initialize options s of (r, s1) \<Rightarrow>
          if r \<noteq> EOS_Success then (r, (s1, T, g1), out1)
          else let T1 = (case options of
                           Some a \<Rightarrow> if all_alloc a then allocators_triple a else T
                         | None \<Rightarrow> T) in
               case Log K ts (lc K LC_Core) (LOG_Info K)
                      (''EOSEmu initialized (product '' @ [CHR 0x27] @ (case name of None \<Rightarrow> ''?'' | Some n \<Rightarrow> n) @ [CHR 0x27] @ '')'') g1
               of (g2, out2) \<Rightarrow> (r, (s1, T1, g2), out1 @ out2))"

definition Shutdown_call :: "log_sdk \<Rightarrow> string \<Rightarrow> library \<Rightarrow> eresult \<times> library \<times> log_output list" where
  "Shutdown_call K ts st =
     (case st of (s, T, g) \<Rightarrow>
        case TraceApiCall K ts (Some ''EOS_Shutdown'') g of (g1, out1) \<Rightarrow>
        case EOS_Shutdown s of (r, s1) \<Rightarrow>
          if r = EOS_Success then (r, (s1, ClearAllocators, ResetLogging K g1), out1)
          else (r, (s1, T, g1), out1))"

text \<open>The log sink of a configuration: applied by the constructor of a platform, and again by \<open>Configure\<close>
  when the configuration of the cache directory has been added.\<close>

definition apply_log_config ::
  "log_sdk \<Rightarrow> nat \<Rightarrow> (string \<Rightarrow> bool) \<Rightarrow> string \<Rightarrow> config \<Rightarrow> logging \<Rightarrow> logging \<times> log_output list" where
  "apply_log_config K pid opens ts c g =
     ConfigureEmuLogSink K pid opens ts (GetString ''Logging'' ''File'' [] c) (GetBool ''Logging'' ''Console'' False c)
       (GetString ''Logging'' ''Level'' [] c) g"

definition start_log ::
  "log_sdk \<Rightarrow> nat \<Rightarrow> (string \<Rightarrow> bool) \<Rightarrow> string \<Rightarrow> host \<Rightarrow> sdk \<Rightarrow> enum \<Rightarrow> platform_options \<Rightarrow> logging \<Rightarrow> logging \<times> log_output list" where
  "start_log L pid opens ts H K relays opt g =
     (let p = Platform_new H K relays in
      case apply_log_config L pid opens ts (plConfig p) g of (g1, out1) \<Rightarrow>
      case apply_log_config L pid opens ts (plConfig (load_cache_config H (apply_options opt p))) g1 of (g2, out2) \<Rightarrow>
        (g2, out1 @ out2))"

section \<open>Interface handles\<close>

datatype slot =
    Slot_Metrics | Slot_Ecom | Slot_UI | Slot_RTC | Slot_RTCAudio | Slot_RTCData | Slot_RTCAdmin | Slot_PlayerDataStorage
  | Slot_TitleStorage | Slot_Achievements | Slot_Stats | Slot_Leaderboards | Slot_Mods | Slot_AntiCheatClient
  | Slot_AntiCheatServer | Slot_Reports | Slot_Sanctions | Slot_KWS | Slot_ProgressionSnapshot | Slot_CustomInvites
  | Slot_IntegratedPlatform

datatype accessor =
    The_Auth | The_Connect | The_P2P | The_Lobby | The_Sessions | The_Friends | The_Presence | The_UserInfo | The_Ecom
  | The_UI | The_RTC | The_Mods | The_CustomInvites

text \<open>An interface handle is the address of a member object of a platform or of one of its sentinel bytes.\<close>

datatype interface_handle = MemberOf nat accessor | SentinelOf nat slot

datatype getter = RealGetter accessor | StubGetter slot

definition getters :: "(string \<times> getter) list" where
  "getters =
     [(''Auth'', RealGetter The_Auth), (''Connect'', RealGetter The_Connect), (''P2P'', RealGetter The_P2P),
      (''Lobby'', RealGetter The_Lobby), (''Sessions'', RealGetter The_Sessions), (''Friends'', RealGetter The_Friends),
      (''Presence'', RealGetter The_Presence), (''UserInfo'', RealGetter The_UserInfo), (''Metrics'', StubGetter Slot_Metrics),
      (''Ecom'', RealGetter The_Ecom), (''UI'', RealGetter The_UI), (''RTC'', RealGetter The_RTC),
      (''RTCAdmin'', StubGetter Slot_RTCAdmin), (''PlayerDataStorage'', StubGetter Slot_PlayerDataStorage),
      (''TitleStorage'', StubGetter Slot_TitleStorage), (''Achievements'', StubGetter Slot_Achievements),
      (''Stats'', StubGetter Slot_Stats), (''Leaderboards'', StubGetter Slot_Leaderboards), (''Mods'', RealGetter The_Mods),
      (''AntiCheatClient'', StubGetter Slot_AntiCheatClient), (''AntiCheatServer'', StubGetter Slot_AntiCheatServer),
      (''ProgressionSnapshot'', StubGetter Slot_ProgressionSnapshot), (''Reports'', StubGetter Slot_Reports),
      (''Sanctions'', StubGetter Slot_Sanctions), (''KWS'', StubGetter Slot_KWS),
      (''CustomInvites'', RealGetter The_CustomInvites), (''IntegratedPlatform'', StubGetter Slot_IntegratedPlatform)]"

definition real_getter :: "accessor \<Rightarrow> nat option \<Rightarrow> process \<Rightarrow> interface_handle option" where
  "real_getter a h s = (case AsPlatform h s of None \<Rightarrow> None | Some _ \<Rightarrow> Some (MemberOf (the h) a))"

definition stub_getter :: "slot \<Rightarrow> nat option \<Rightarrow> process \<Rightarrow> interface_handle option" where
  "stub_getter x h s = (case AsPlatform h s of None \<Rightarrow> None | Some _ \<Rightarrow> Some (SentinelOf (the h) x))"

definition get_interface :: "getter \<Rightarrow> nat option \<Rightarrow> process \<Rightarrow> interface_handle option" where
  "get_interface g = (case g of RealGetter a \<Rightarrow> real_getter a | StubGetter x \<Rightarrow> stub_getter x)"

section \<open>Status calls\<close>

datatype app_status = AS_BackgroundConstrained | AS_BackgroundUnconstrained | AS_BackgroundSuspended | AS_Foreground | AS_Other
datatype net_status = NS_Disabled | NS_Offline | NS_Online | NS_Other

definition GetApplicationStatus :: app_status where "GetApplicationStatus = AS_Foreground"

definition GetNetworkStatus :: net_status where "GetNetworkStatus = NS_Online"

fun ApplicationStatus_ToString :: "app_status \<Rightarrow> string" where
  "ApplicationStatus_ToString AS_BackgroundConstrained = ''EOS_AS_BackgroundConstrained''"
| "ApplicationStatus_ToString AS_BackgroundUnconstrained = ''EOS_AS_BackgroundUnconstrained''"
| "ApplicationStatus_ToString AS_BackgroundSuspended = ''EOS_AS_BackgroundSuspended''"
| "ApplicationStatus_ToString _ = ''EOS_AS_Foreground''"

fun NetworkStatus_ToString :: "net_status \<Rightarrow> string" where
  "NetworkStatus_ToString NS_Disabled = ''EOS_NS_Disabled''"
| "NetworkStatus_ToString NS_Offline = ''EOS_NS_Offline''"
| "NetworkStatus_ToString _ = ''EOS_NS_Online''"

text \<open>The status that is written through the out pointer: \<open>EOS_DCS_OK\<close> and no error.\<close>

definition GetDesktopCrossplayStatus :: "nat option \<Rightarrow> bool \<Rightarrow> process \<Rightarrow> eresult \<times> (bool \<times> int) option" where
  "GetDesktopCrossplayStatus h has_out s =
     (if AsPlatform h s = None \<or> \<not> has_out then (EOS_InvalidParameters, None) else (EOS_Success, Some (True, 0)))"

section \<open>Results and version\<close>

text \<open>The numbers that \<open>src/core/Result.cpp\<close> gives for the three codes after which a callback comes again.\<close>

definition IsOperationComplete :: "int \<Rightarrow> bool" where
  "IsOperationComplete r \<longleftrightarrow> r \<noteq> 19 \<and> r \<noteq> 1020 \<and> r \<noteq> 1060"

definition EOS_GetVersion :: string where "EOS_GetVersion = ''1.19.1.2-53289219''"

section \<open>Generated entry points\<close>

text \<open>An entry point that is not implemented traces its name, reports itself as a stub and returns a constant; an
  asynchronous one completes with \<open>EOS_NotImplemented\<close> while a platform is live.\<close>

definition stub_call ::
  "log_sdk \<Rightarrow> bool \<Rightarrow> string \<Rightarrow> string \<Rightarrow> string list \<times> logging \<Rightarrow> (string list \<times> logging) \<times> log_output list" where
  "stub_call K trace_all ts name st =
     (case st of (names, g) \<Rightarrow>
        case TraceApiCall K ts (Some name) g of (g1, out1) \<Rightarrow>
        case TraceStub K trace_all ts name (names, g1) of (st1, out2) \<Rightarrow> (st1, out1 @ out2))"

definition StubComplete :: "platform option \<Rightarrow> nat option \<Rightarrow> nat \<Rightarrow> (nat \<times> nat \<times> eresult) event list" where
  "StubComplete p fn cd = (if p = None then [] else complete fn (\<lambda>f. (f, cd, EOS_NotImplemented)))"

lemma stub_completes: "posts (StubComplete (Some p) (Some f) cd) = [(f, cd, EOS_NotImplemented)]"
  by (simp add: StubComplete_def)

text \<open>A stub is reported at its first call only.\<close>

lemma stub_call_again:
  assumes "stub_call K False ts name st = (st1, out)"
  shows "snd (stub_call K False ts' name st1) = snd (TraceApiCall K ts' (Some name) (snd st1))"
  using assms by (auto simp: stub_call_def TraceStub_def split: prod.splits if_splits)

section \<open>Facts\<close>

inductive library_reach :: "log_sdk \<Rightarrow> library \<Rightarrow> bool" for K where
  begin_library: "library_reach K (library_init K)"
| do_initialize: "library_reach K st \<Longrightarrow> Initialize_call K ts options name st = (r, st', out) \<Longrightarrow> library_reach K st'"
| do_shutdown: "library_reach K st \<Longrightarrow> Shutdown_call K ts st = (r, st', out) \<Longrightarrow> library_reach K st'"
| do_log: "library_reach K (s, T, g) \<Longrightarrow> log_do K a g = g' \<Longrightarrow> library_reach K (s, T, g')"
| do_platform: "library_reach K (s, T, g) \<Longrightarrow> process_step s e s' \<Longrightarrow>
    (\<forall>r. e \<noteq> Initialized r \<and> e \<noteq> ShutDown r) \<Longrightarrow> library_reach K (s', T, g)"

text \<open>Either all three functions are the game's or none is; and they are the game's only while the process is initialised.\<close>

definition triple_whole :: "triple \<Rightarrow> bool" where
  "triple_whole T \<longleftrightarrow> (tpAllocate T = None \<longleftrightarrow> tpReallocate T = None) \<and> (tpAllocate T = None \<longleftrightarrow> tpRelease T = None)"

definition library_inv :: "log_sdk \<Rightarrow> library \<Rightarrow> bool" where
  "library_inv K st \<longleftrightarrow> (case st of (s, T, g) \<Rightarrow>
     T = allocators_triple (psAllocators s) \<and> triple_whole T \<and> (\<not> psInitialized s \<longrightarrow> T = ClearAllocators) \<and>
     (\<exists>h. log_rel K h g))"

lemma Initialize_allocators:
  assumes "EOS_Initialize options s = (EOS_Success, s')"
  shows "\<exists>a. options = Some a \<and> psInitialized s' \<and> (any_alloc a \<longrightarrow> all_alloc a) \<and>
    psAllocators s' = (if all_alloc a then a else psAllocators s)"
proof (cases options)
  case (Some a)
  then show ?thesis using assms by (intro exI [of _ a]) (auto simp: EOS_Initialize_def split: if_splits)
qed (use assms in \<open>simp add: EOS_Initialize_def split: if_splits\<close>)

lemma whole_given: "any_alloc a \<longrightarrow> all_alloc a \<Longrightarrow> all_alloc a \<Longrightarrow> triple_whole (allocators_triple a)"
  by (auto simp: all_alloc_def triple_whole_def allocators_triple_def SetAllocators_def split: prod.splits)

lemma log_do_exists: "\<exists>h. log_rel K h g \<Longrightarrow> \<exists>h. log_rel K h (log_do K a g)"
  using log_do_rel by blast

lemma TraceApiCall_exists: "TraceApiCall K ts f g = (g', out) \<Longrightarrow> \<exists>h. log_rel K h g \<Longrightarrow> \<exists>h. log_rel K h g'"
  using log_do_exists [of K g "OpTrace ts f"] by simp

lemma Log_exists: "Log K ts cat lvl text g = (g', out) \<Longrightarrow> \<exists>h. log_rel K h g \<Longrightarrow> \<exists>h. log_rel K h g'"
  using log_do_exists [of K g "OpLog ts cat lvl text"] by simp

lemma ResetLogging_exists: "\<exists>h. log_rel K h g \<Longrightarrow> \<exists>h. log_rel K h (ResetLogging K g)"
  using log_do_exists [of K g OpReset] by simp

lemma platform_step_keeps:
  "process_step s e s' \<Longrightarrow> \<forall>r. e \<noteq> Initialized r \<and> e \<noteq> ShutDown r \<Longrightarrow>
   psAllocators s' = psAllocators s \<and> psInitialized s' = psInitialized s"
  by (cases rule: process_step.cases)
    (auto simp: EOS_Platform_Create_def EOS_Platform_Release_def EOS_Platform_Tick_def set_code_def
      split: option.splits if_splits prod.splits)

lemma library_inv_init: "library_inv K (library_init K)"
proof -
  have "log_rel K [] (logging_init K)" using log_state_rel [of K "[]"] by (simp add: log_state_def)
  then show ?thesis
    by (auto simp: library_inv_def library_init_def process_init_def allocators_triple_def SetAllocators_def ClearAllocators_def triple_whole_def)
qed

lemma library_inv_initialize:
  assumes "library_inv K (s, T, g)" "Initialize_call K ts options name (s, T, g) = (r, st', out)"
  shows "library_inv K st'"
proof -
  obtain g1 out1 where t: "TraceApiCall K ts (Some ''EOS_Initialize'') g = (g1, out1)" by (cases "TraceApiCall K ts (Some ''EOS_Initialize'') g")
  obtain r1 s1 where i: "EOS_Initialize options s = (r1, s1)" by (cases "EOS_Initialize options s")
  have g1: "\<exists>h. log_rel K h g1" using TraceApiCall_exists [OF t] assms(1) by (simp add: library_inv_def)
  show ?thesis
  proof (cases "r1 = EOS_Success")
    case False
    then have "s1 = s" using i by (auto simp: EOS_Initialize_def split: option.splits if_splits)
    then show ?thesis using False assms t i g1 by (auto simp: Initialize_call_def library_inv_def)
  next
    case True
    obtain a where a: "options = Some a" "psInitialized s1" "any_alloc a \<longrightarrow> all_alloc a" "psAllocators s1 = (if all_alloc a then a else psAllocators s)"
      using Initialize_allocators i True by blast
    let ?T = "if all_alloc a then allocators_triple a else T"
    obtain g2 where g2: "st' = (s1, ?T, g2)" "\<exists>h. log_rel K h g2"
      using assms(2) True t i a(1) Log_exists [OF _ g1] by (auto simp: Initialize_call_def Let_def split: prod.splits)
    have "?T = allocators_triple (psAllocators s1)" "triple_whole ?T"
      using a assms(1) whole_given [OF a(3)] by (auto simp: library_inv_def)
    then show ?thesis using g2 a(2) by (simp add: library_inv_def)
  qed
qed

lemma library_inv_shutdown:
  assumes "library_inv K (s, T, g)" "Shutdown_call K ts (s, T, g) = (r, st', out)"
  shows "library_inv K st'"
proof -
  obtain g1 out1 where t: "TraceApiCall K ts (Some ''EOS_Shutdown'') g = (g1, out1)" by (cases "TraceApiCall K ts (Some ''EOS_Shutdown'') g")
  have g1: "\<exists>h. log_rel K h g1" using TraceApiCall_exists [OF t] assms(1) by (simp add: library_inv_def)
  have clear: "allocators_triple (None, None, None) = ClearAllocators" "triple_whole ClearAllocators"
    by (simp_all add: allocators_triple_def SetAllocators_def ClearAllocators_def triple_whole_def)
  show ?thesis
    using assms t g1 clear ResetLogging_exists [OF g1]
    by (auto simp: Shutdown_call_def EOS_Shutdown_def library_inv_def split: if_splits)
qed

lemma library_reach_inv: "library_reach K st \<Longrightarrow> library_inv K st"
proof (induction rule: library_reach.induct)
  case begin_library
  show ?case by (rule library_inv_init)
next
  case (do_initialize st ts options name r st' out)
  then show ?case using library_inv_initialize by (cases st) blast
next
  case (do_shutdown st ts r st' out)
  then show ?case using library_inv_shutdown by (cases st) blast
next
  case (do_log s T g a g')
  then have "\<exists>h. log_rel K h g'" using log_do_exists [of K g a] by (simp add: library_inv_def)
  with do_log.IH show ?case by (auto simp: library_inv_def)
next
  case (do_platform s T g e s')
  then show ?case using platform_step_keeps by (auto simp: library_inv_def)
qed

text \<open>A block of the game's allocator that is released after the shutdown goes to the platform's \<open>free\<close>.\<close>

lemma released_after_shutdown:
  assumes "heap_wf h" "block_rep h b" "distinct (owned b)" "map_of (hpLive h) (abBase b) = Some (Some f, m)"
    "psInitialized s" "Shutdown_call K ts (s, T, g) = (r, (s', T', g'), out)"
  shows "\<exists>h'. FreeApiBlock T' (abBlock b) h = Some h' \<and> (abBase b, None) \<in> set (hpFreed h')"
proof -
  have T': "tpRelease T' = None"
    using assms(5,6) by (auto simp: Shutdown_call_def EOS_Shutdown_def ClearAllocators_def split: prod.splits)
  from FreeApiBlock_exact [OF assms(1-3), of T'] show ?thesis using T' by (auto simp: owned_def)
qed

text \<open>The sink after a start is the one the whole configuration asks for; when the cache directory adds nothing
  to the logging section, the second configuration is silent.\<close>

lemma apply_log_config_result:
  assumes "apply_log_config K pid opens ts c g = (g', out)"
  shows "lgFilePath g' = ExpandLogPath pid (GetString ''Logging'' ''File'' [] c)" "lgConsole g' = GetBool ''Logging'' ''Console'' False c"
proof -
  have "g' = fst (apply_log_config K pid opens ts c g)" by (simp add: assms)
  then show "lgFilePath g' = ExpandLogPath pid (GetString ''Logging'' ''File'' [] c)" "lgConsole g' = GetBool ''Logging'' ''Console'' False c"
    by (simp_all add: apply_log_config_def ConfigureEmuLogSink_def Let_def)
qed

lemma start_log_without_cache_dir:
  assumes "apply_log_config L pid opens ts (plConfig (Platform_new H K relays)) g = (g1, out1)"
    "plCacheDirectory (apply_options opt (Platform_new H K relays)) = []"
  shows "start_log L pid opens ts H K relays opt g = (g1, out1)"
proof -
  have c: "plConfig (load_cache_config H (apply_options opt (Platform_new H K relays))) = plConfig (Platform_new H K relays)"
    using assms(2) by (simp add: load_cache_config_def) (simp add: apply_options_def)
  have "apply_log_config L pid opens ts (plConfig (Platform_new H K relays)) g1 = (g1, [])"
    using ConfigureEmuLogSink_again assms(1) unfolding apply_log_config_def by blast
  then show ?thesis using assms(1) c by (simp add: start_log_def Let_def)
qed

text \<open>Different getters give different handles, and only those of the live platform.\<close>

lemma getters_distinct: "distinct (map snd getters)"
  by (simp add: getters_def)

lemma get_interface_inj:
  "get_interface g h s = Some i \<Longrightarrow> get_interface g' h' s = Some i \<Longrightarrow> g = g' \<and> h = h'"
  by (auto simp: get_interface_def real_getter_def stub_getter_def AsPlatform_def split: getter.splits option.splits if_splits)

end
