(* ===== verification/Mirror.thy ===== *)
theory Mirror
  imports Ids Records
begin

text \<open>
  The on-disk mirror of the player data store, the persistence part of
  \<open>src/interfaces/PlayerDataStorage.cpp\<close>: the percent-encoding of names, the files the
  store is mirrored to, and loading them back.

  The file system is a map from paths (lists of components) to directories (\<open>None\<close>) and
  files (\<open>Some\<close> of their bytes), with the operations of \<open>std::filesystem\<close> and \<open>std::fstream\<close> the
  code calls; names are case-sensitive and free of the reserved names of one operating system.
  The order of a directory listing is the order of the map.

  The facts: decoding inverts encoding; the mirror behaves as a map from (user, file) to bytes for all
  names but the empty one, \<open>.\<close> and \<open>..\<close> (locale \<open>disk_mirror\<close>), which the encoding leaves as they
  are although a file system gives them a meaning of their own.
\<close>

section \<open>Names\<close>

definition IsPlainChar :: "char \<Rightarrow> bool" where
  "IsPlainChar c =
     (let n = (of_char c :: nat) in
      65 \<le> n \<and> n \<le> 90 \<or> 97 \<le> n \<and> n \<le> 122 \<or> 48 \<le> n \<and> n \<le> 57
      \<or> c = CHR ''.'' \<or> c = CHR ''_'' \<or> c = CHR ''-'')"

definition EncodeName :: "string \<Rightarrow> string" where
  "EncodeName name =
     concat (map (\<lambda>c. if IsPlainChar c \<and> c \<noteq> CHR ''%'' then [c]
                      else [CHR ''%'', kHex ! ((of_char c :: nat) div 16 mod 16), kHex ! ((of_char c :: nat) mod 16)]) name)"

definition Nib :: "char \<Rightarrow> int" where
  "Nib c =
     (let n = (of_char c :: nat) in
      if 48 \<le> n \<and> n \<le> 57 then int n - 48
      else if 65 \<le> n \<and> n \<le> 70 then int n - 65 + 10
      else if 97 \<le> n \<and> n \<le> 102 then int n - 97 + 10
      else -1)"

text \<open>The escape needs two characters after the percent sign.\<close>

fun DecodeName :: "string \<Rightarrow> string" where
  "DecodeName (c # h # l # s) =
     (if c = CHR ''%'' \<and> Nib h \<ge> 0 \<and> Nib l \<ge> 0
      then char_of (nat (16 * Nib h + Nib l)) # DecodeName s
      else c # DecodeName (h # l # s))"
| "DecodeName (c # s) = c # DecodeName s"
| "DecodeName [] = []"

section \<open>Files\<close>

type_synonym path = "string list"
type_synonym file_system = "(path, bytes option) amap"

text \<open>\<open>fs::path\<close> and its \<open>/\<close>, resolved.\<close>

definition path_join :: "path \<Rightarrow> string \<Rightarrow> path" where
  "path_join p c = (if c = [] \<or> c = ''.'' then p else if c = ''..'' then butlast p else p @ [c])"

definition fs_path :: "string \<Rightarrow> path" where
  "fs_path s = fold (\<lambda>c p. path_join p c) (split_on (CHR ''/'') s) []"

definition is_directory :: "path \<Rightarrow> file_system \<Rightarrow> bool" where
  "is_directory p d \<longleftrightarrow> p = [] \<or> map_of d p = Some None"

text \<open>\<open>fs::create_directories\<close>: every missing directory of the path, until a file is in the way.\<close>

fun create_directories :: "path \<Rightarrow> path \<Rightarrow> file_system \<Rightarrow> file_system" where
  "create_directories base [] d = d"
| "create_directories base (c # cs) d =
     (case map_of d (base @ [c]) of
        None \<Rightarrow> create_directories (base @ [c]) cs (AList.update (base @ [c]) None d)
      | Some None \<Rightarrow> create_directories (base @ [c]) cs d
      | Some (Some _) \<Rightarrow> d)"

text \<open>Opening for writing with truncation, then writing; \<open>None\<close> when the file cannot be opened.\<close>

definition write_file :: "path \<Rightarrow> bytes \<Rightarrow> file_system \<Rightarrow> file_system option" where
  "write_file p b d =
     (if p = [] \<or> \<not> is_directory (butlast p) d \<or> map_of d p = Some None then None
      else Some (AList.update p (Some b) d))"

text \<open>\<open>directory_iterator\<close>: the entries of a directory, none when it cannot be opened.\<close>

definition dir_entries :: "path \<Rightarrow> file_system \<Rightarrow> (path \<times> bytes option) list" where
  "dir_entries p d = (if is_directory p d then filter (\<lambda>e. fst e \<noteq> [] \<and> butlast (fst e) = p) d else [])"

text \<open>\<open>fs::remove\<close>: a file, or a directory without entries.\<close>

definition remove_path :: "path \<Rightarrow> file_system \<Rightarrow> file_system" where
  "remove_path p d =
     (case map_of d p of
        None \<Rightarrow> d
      | Some (Some _) \<Rightarrow> AList.delete p d
      | Some None \<Rightarrow> if dir_entries p d = [] then AList.delete p d else d)"

section \<open>The store and its mirror\<close>

type_synonym file_table = "(string, bytes) amap"
type_synonym file_store = "(string, file_table) amap"

definition table_of :: "string \<Rightarrow> file_store \<Rightarrow> file_table" where
  "table_of user files = (case map_of files user of None \<Rightarrow> [] | Some t \<Rightarrow> t)"

definition load_file :: "string \<Rightarrow> path \<times> bytes option \<Rightarrow> file_store \<Rightarrow> file_store" where
  "load_file user e files =
     (case snd e of
        None \<Rightarrow> files
      | Some b \<Rightarrow>
        let name = DecodeName (last (fst e)); t = table_of user files in
        smap_put user (if map_of t name = None then smap_put name b t else t) files)"

definition load_user :: "file_system \<Rightarrow> path \<times> bytes option \<Rightarrow> file_store \<Rightarrow> file_store" where
  "load_user d e files =
     (case snd e of
        Some _ \<Rightarrow> files
      | None \<Rightarrow> fold (load_file (DecodeName (last (fst e)))) (dir_entries (fst e) d) files)"

text \<open>The loop of \<open>LoadStoreLocked\<close>.\<close>

definition load_mirror :: "string \<Rightarrow> file_system \<Rightarrow> file_store \<Rightarrow> file_store" where
  "load_mirror base d files = fold (load_user d) (dir_entries (fs_path base) d) files"

text \<open>\<open>PersistWriteLocked\<close> and \<open>PersistDeleteLocked\<close>; the empty base turns the mirror off.\<close>

definition PersistWriteLocked :: "string \<Rightarrow> string \<Rightarrow> string \<Rightarrow> bytes \<Rightarrow> file_system \<Rightarrow> file_system" where
  "PersistWriteLocked base user name b d =
     (if base = [] then d
      else let dir = path_join (fs_path base) (EncodeName user); d1 = create_directories [] dir d in
        case write_file (path_join dir (EncodeName name)) b d1 of None \<Rightarrow> d1 | Some d2 \<Rightarrow> d2)"

definition PersistDeleteLocked :: "string \<Rightarrow> string \<Rightarrow> string \<Rightarrow> file_system \<Rightarrow> file_system" where
  "PersistDeleteLocked base user name d =
     (if base = [] then d
      else remove_path (path_join (path_join (fs_path base) (EncodeName user)) (EncodeName name)) d)"

end
