(* ===== verification/MirrorFacts.thy ===== *)
theory MirrorFacts
  imports Mirror
begin

text \<open>
  What the mirror of theory Mirror keeps: names come back from their encoding, and between a write
  and a load the disk behaves as a map (locale \<open>disk_mirror\<close>).
\<close>

section \<open>Names\<close>

lemma hex_digits: "\<forall>n \<in> set [0..<16]. Nib (kHex ! n) = int n \<and> kHex ! n \<notin> {CHR ''/'', CHR 0x5C, CHR 0x00}"
  by code_simp

lemma Nib_kHex: "n < 16 \<Longrightarrow> Nib (kHex ! n) = int n"
  using hex_digits by simp

lemma kHex_chars: "n < 16 \<Longrightarrow> kHex ! n \<notin> {CHR ''/'', CHR 0x5C, CHR 0x00}"
  using hex_digits by simp

lemma nibbles_of: "nat (16 * int (m div 16) + int (m mod 16)) = m"
  using div_mult_mod_eq [of m 16] by linarith

lemma percent_char: "char_of (37::nat) = CHR ''%''"
  by (simp add: char_of_def bit_0 bit_Suc)

lemma EncodeName_simps [simp]:
  "EncodeName [] = []"
  "EncodeName (c # s) =
     (if IsPlainChar c \<and> c \<noteq> CHR ''%'' then [c]
      else [CHR ''%'', kHex ! ((of_char c :: nat) div 16 mod 16), kHex ! ((of_char c :: nat) mod 16)]) @ EncodeName s"
  by (simp_all add: EncodeName_def)

lemma DecodeName_plain: "c \<noteq> CHR ''%'' \<Longrightarrow> DecodeName (c # s) = c # DecodeName s"
  by (cases "(c # s)" rule: DecodeName.cases) auto

lemma DecodeName_EncodeName [simp]: "DecodeName (EncodeName s) = s"
proof (induction s)
  case Nil
  then show ?case by simp
next
  case (Cons c s)
  have "(of_char c :: nat) < 256" by simp
  then have "(of_char c :: nat) div 16 < 16" by (simp add: div_less_iff_less_mult)
  then have d: "(of_char c :: nat) div 16 mod 16 = of_char c div 16" by (rule mod_less)
  moreover have "Nib (kHex ! (of_char c div 16)) = int (of_char c div 16)"
    using \<open>(of_char c :: nat) div 16 < 16\<close> by (rule Nib_kHex)
  ultimately show ?case using Cons.IH by (auto simp: DecodeName_plain Nib_kHex percent_char nibbles_of)
qed

lemma EncodeName_inj: "EncodeName a = EncodeName b \<longleftrightarrow> a = b"
  using DecodeName_EncodeName by metis

text \<open>The encoding leaves a separator-free name, but it keeps the names a file system reads as
  directories.\<close>

definition name_ok :: "string \<Rightarrow> bool" where
  "name_ok s \<longleftrightarrow> s \<noteq> [] \<and> s \<noteq> ''.'' \<and> s \<noteq> ''..''"

lemma EncodeName_fixed: "EncodeName [] = []" "EncodeName ''.'' = ''.''" "EncodeName ''..'' = ''..''"
  by (simp_all add: IsPlainChar_def)

lemma path_join_ok: "name_ok s \<Longrightarrow> path_join p (EncodeName s) = p @ [EncodeName s]"
  using EncodeName_inj [of s "[]"] EncodeName_inj [of s "''.''"] EncodeName_inj [of s "''..''"]
  unfolding EncodeName_fixed path_join_def name_ok_def by auto

text \<open>No encoded name holds a separator, so one stored file is one directory entry.\<close>

lemma EncodeName_no_separator: "set (EncodeName s) \<inter> {CHR ''/'', CHR 0x5C, CHR 0x00} = {}"
proof (induction s)
  case (Cons c s)
  have "c = CHR ''/'' \<or> c = CHR 0x5C \<or> c = CHR 0x00 \<Longrightarrow> \<not> IsPlainChar c" by (auto simp: IsPlainChar_def)
  with Cons kHex_chars [of "(of_char c :: nat) div 16 mod 16"] kHex_chars [of "(of_char c :: nat) mod 16"]
  show ?case by auto
qed simp

section \<open>Loading\<close>

definition stored :: "file_store \<Rightarrow> string \<Rightarrow> string \<Rightarrow> bytes option" where
  "stored files user name = map_of (table_of user files) name"

lemma table_of_put [simp]: "table_of u (smap_put v t files) = (if u = v then t else table_of u files)"
  by (simp add: table_of_def map_of_smap_put_any)

lemma stored_put: "stored (smap_put v (smap_put n b (table_of v files)) files) u m =
    (if u = v \<and> m = n then Some b else stored files u m)"
  by (simp add: stored_def map_of_smap_put_any)

text \<open>What a list of directory entries holds under the decoded names.\<close>

definition decoded :: "(path \<times> bytes option) list \<Rightarrow> (string \<times> bytes) list" where
  "decoded es = concat (map (\<lambda>e. case snd e of None \<Rightarrow> [] | Some b \<Rightarrow> [(DecodeName (last (fst e)), b)]) es)"

lemma decoded_simps [simp]:
  "decoded [] = []"
  "decoded ((p, None) # es) = decoded es"
  "decoded ((p, Some b) # es) = (DecodeName (last p), b) # decoded es"
  by (simp_all add: decoded_def)

definition found_or :: "'a option \<Rightarrow> 'a option \<Rightarrow> 'a option" where
  "found_or x y = (case x of None \<Rightarrow> y | Some v \<Rightarrow> Some v)"

lemma stored_load_files:
  "stored (fold (load_file u) es files) v n =
     found_or (stored files v n) (if v = u then map_of (decoded es) n else None)"
proof (induction es arbitrary: files)
  case Nil
  then show ?case by (simp add: found_or_def split: option.splits)
next
  case (Cons e es)
  have "stored (load_file u e files) v n = found_or (stored files v n) (if v = u then map_of (decoded [e]) n else None)"
    by (cases e; cases "snd e")
      (auto simp: load_file_def stored_def found_or_def map_of_smap_put_any Let_def split: option.splits)
  with Cons.IH [of "load_file u e files"] show ?case
    by (cases e; cases "snd e") (auto simp: found_or_def split: option.splits)
qed

definition decoded_users :: "file_system \<Rightarrow> (path \<times> bytes option) list \<Rightarrow> ((string \<times> string) \<times> bytes) list" where
  "decoded_users d es =
     concat (map (\<lambda>e. case snd e of Some _ \<Rightarrow> []
       | None \<Rightarrow> map (\<lambda>(n, b). ((DecodeName (last (fst e)), n), b)) (decoded (dir_entries (fst e) d))) es)"

lemma map_of_tagged: "map_of (map (\<lambda>(n, b). ((u, n), b)) xs) (v, n) = (if v = u then map_of xs n else None)"
  by (induction xs) auto

lemma stored_load_users:
  "stored (fold (load_user d) es files) v n = found_or (stored files v n) (map_of (decoded_users d es) (v, n))"
proof (induction es arbitrary: files)
  case Nil
  then show ?case by (simp add: found_or_def decoded_users_def split: option.splits)
next
  case (Cons e es)
  have "stored (load_user d e files) v n = found_or (stored files v n) (map_of (decoded_users d [e]) (v, n))"
    by (cases "snd e") (auto simp: load_user_def stored_load_files decoded_users_def map_of_tagged found_or_def split: option.splits)
  moreover have "decoded_users d (e # es) = decoded_users d [e] @ decoded_users d es"
    by (simp add: decoded_users_def)
  ultimately show ?case using Cons.IH [of "load_user d e files"]
    by (auto simp: found_or_def map_add_def split: option.splits)
qed

section \<open>The mirror as a map\<close>

text \<open>A disk the store can work on: nothing stands where its directories go, and below them are only
  files with encoded names.\<close>

definition user_dir :: "string \<Rightarrow> string \<Rightarrow> path" where
  "user_dir base u = fs_path base @ [u]"

definition disk_ok :: "string \<Rightarrow> file_system \<Rightarrow> bool" where
  "disk_ok base d \<longleftrightarrow> base \<noteq> [] \<and> distinct (keys d) \<and>
     (\<forall>k b. map_of d (take k (fs_path base)) \<noteq> Some (Some b)) \<and>
     (\<forall>u b. map_of d (user_dir base u) \<noteq> Some (Some b)) \<and>
     (\<forall>u n x. map_of d (user_dir base u @ [n]) = Some x \<longrightarrow>
        (\<exists>U N b. name_ok U \<and> name_ok N \<and> u = EncodeName U \<and> n = EncodeName N \<and> x = Some b) \<and>
        map_of d (user_dir base u) = Some None \<and> is_directory (fs_path base) d)"

lemma disk_okD:
  assumes "disk_ok base d"
  shows "base \<noteq> []" "distinct (keys d)"
    "map_of d (take k (fs_path base)) \<noteq> Some (Some b)"
    "map_of d (user_dir base u) \<noteq> Some (Some b)"
    "map_of d (user_dir base u @ [n]) = Some x \<Longrightarrow>
       \<exists>U N b. name_ok U \<and> name_ok N \<and> u = EncodeName U \<and> n = EncodeName N \<and> x = Some b"
    "map_of d (user_dir base u @ [n]) = Some x \<Longrightarrow> map_of d (user_dir base u) = Some None"
    "map_of d (user_dir base u @ [n]) = Some x \<Longrightarrow> is_directory (fs_path base) d"
  using assms by (auto simp: disk_ok_def)

text \<open>What the next run finds of a file.\<close>

definition fetch :: "string \<Rightarrow> file_system \<Rightarrow> string \<times> string \<Rightarrow> bytes option" where
  "fetch base d k = stored (load_mirror base d []) (fst k) (snd k)"

lemma map_of_functional:
  "(\<And>v w. (k, v) \<in> set xs \<Longrightarrow> (k, w) \<in> set xs \<Longrightarrow> v = w) \<Longrightarrow> map_of xs k = Some v \<longleftrightarrow> (k, v) \<in> set xs"
  by (metis map_of_SomeD weak_map_of_SomeI)

lemma decoded_mem: "(n, b) \<in> set (decoded es) \<longleftrightarrow> (\<exists>p. (p, Some b) \<in> set es \<and> n = DecodeName (last p))"
  by (induction es) (auto simp: decoded_def split: option.splits)

lemma dir_entries_mem:
  "(p, x) \<in> set (dir_entries q d) \<longleftrightarrow> is_directory q d \<and> (p, x) \<in> set d \<and> (\<exists>c. p = q @ [c])"
proof -
  have "p \<noteq> [] \<and> butlast p = q \<longleftrightarrow> (\<exists>c. p = q @ [c])" by (cases p rule: rev_cases) auto
  then show ?thesis by (auto simp: dir_entries_def)
qed

lemma decoded_users_mem:
  "((u, n), b) \<in> set (decoded_users d es) \<longleftrightarrow>
     (\<exists>p. (p, None) \<in> set es \<and> u = DecodeName (last p) \<and> (n, b) \<in> set (decoded (dir_entries p d)))"
  by (force simp: decoded_users_def split: option.splits)

lemma loaded_mem:
  assumes "disk_ok base d"
  shows "((u, n), b) \<in> set (decoded_users d (dir_entries (fs_path base) d)) \<longleftrightarrow>
    map_of d (user_dir base (EncodeName u) @ [EncodeName n]) = Some (Some b)"
    (is "?l \<longleftrightarrow> ?r")
proof
  note ok = disk_okD [OF assms]
  assume ?l
  then obtain c e where "(user_dir base c @ [e], Some b) \<in> set d" and u: "u = DecodeName c" "n = DecodeName e"
    by (auto simp: decoded_users_mem decoded_mem dir_entries_mem user_dir_def)
  then have m: "map_of d (user_dir base c @ [e]) = Some (Some b)" using ok(2) by simp
  from ok(5) [OF m] u have "c = EncodeName u" "e = EncodeName n" by auto
  with m show ?r by simp
next
  note ok = disk_okD [OF assms]
  assume r: ?r
  let ?p = "user_dir base (EncodeName u)"
  have "(?p @ [EncodeName n], Some b) \<in> set d" "(?p, None) \<in> set d"
    using r ok(6) [OF r] by (auto dest: map_of_SomeD)
  moreover have "is_directory (fs_path base) d" "is_directory ?p d"
    using ok(6,7) [OF r] by (simp_all add: is_directory_def)
  ultimately have "(?p, None) \<in> set (dir_entries (fs_path base) d)"
      "(?p @ [EncodeName n], Some b) \<in> set (dir_entries ?p d)"
    by (simp_all add: dir_entries_mem) (simp add: user_dir_def)
  moreover have "u = DecodeName (last ?p)" by (simp add: user_dir_def)
  ultimately show ?l unfolding decoded_users_mem decoded_mem
    by (metis DecodeName_EncodeName last_snoc)
qed

lemma stored_empty [simp]: "stored [] u n = None"
  by (simp add: stored_def table_of_def)

lemma fetch_direct:
  assumes "disk_ok base d"
  shows "fetch base d (u, n) = Some b \<longleftrightarrow> map_of d (user_dir base (EncodeName u) @ [EncodeName n]) = Some (Some b)"
proof -
  have "map_of (decoded_users d (dir_entries (fs_path base) d)) (u, n) = Some b \<longleftrightarrow>
      ((u, n), b) \<in> set (decoded_users d (dir_entries (fs_path base) d))"
    by (rule map_of_functional) (simp add: loaded_mem [OF assms])
  then show ?thesis
    by (simp add: fetch_def load_mirror_def stored_load_users stored_empty loaded_mem [OF assms] found_or_def)
qed

lemma create_directories_map:
  assumes "\<And>k b. map_of d (base @ take (Suc k) cs) \<noteq> Some (Some b)"
  shows "map_of (create_directories base cs d) q =
    (if \<exists>k < length cs. q = base @ take (Suc k) cs then Some None else map_of d q)"
  using assms
proof (induction cs arbitrary: base d)
  case Nil
  then show ?case by simp
next
  case (Cons c cs)
  have split: "(\<exists>k < length (c # cs). q = base @ take (Suc k) (c # cs)) \<longleftrightarrow>
      q = base @ [c] \<or> (\<exists>k < length cs. q = (base @ [c]) @ take (Suc k) cs)"
    by (auto simp: Ex_less_Suc2)
  have sub: "map_of d ((base @ [c]) @ take (Suc k) cs) \<noteq> Some (Some b)" for k b
    using Cons.prems [of "Suc k" b] by simp
  have c: "map_of d (base @ [c]) \<noteq> Some (Some b)" for b using Cons.prems [of 0 b] by simp
  show ?case
  proof (cases "map_of d (base @ [c])")
    case None
    have "map_of (AList.update (base @ [c]) None d) ((base @ [c]) @ take (Suc k) cs) \<noteq> Some (Some b)" for k b
      using sub [of k b] by auto
    from Cons.IH [OF this] show ?thesis unfolding split using None by auto
  next
    case (Some x)
    with c have "x = None" by (cases x) auto
    with Cons.IH [OF sub] Some show ?thesis unfolding split by auto
  qed
qed

lemma distinct_create_directories: "distinct (keys d) \<Longrightarrow> distinct (keys (create_directories base cs d))"
  by (induction base cs d rule: create_directories.induct) (auto split: option.splits)


section \<open>Writing and deleting\<close>

lemma take_user_dir: "take (Suc k) (user_dir base u) = (if k < length (fs_path base) then take (Suc k) (fs_path base) else user_dir base u)"
  by (simp add: user_dir_def)

definition made :: "string \<Rightarrow> string \<Rightarrow> file_system \<Rightarrow> file_system" where
  "made base u d = create_directories [] (user_dir base (EncodeName u)) d"

lemma made_map:
  assumes "disk_ok base d"
  shows "map_of (made base u d) q =
    (if q = user_dir base (EncodeName u) \<or> (\<exists>k < length (fs_path base). q = take (Suc k) (fs_path base))
     then Some None else map_of d q)"
proof -
  note ok = disk_okD [OF assms]
  have "map_of d ([] @ take (Suc k) (user_dir base (EncodeName u))) \<noteq> Some (Some b)" for k b
    using ok(3) [of "Suc k" b] ok(4) [of "EncodeName u" b] by (simp add: take_user_dir)
  from create_directories_map [OF this, where q = q]
  have "map_of (made base u d) q =
      (if \<exists>k < Suc (length (fs_path base)). q = take (Suc k) (user_dir base (EncodeName u)) then Some None else map_of d q)"
    unfolding made_def by (simp add: user_dir_def del: take_append split del: if_split)
  moreover have "(\<exists>k < Suc (length (fs_path base)). q = take (Suc k) (user_dir base (EncodeName u))) \<longleftrightarrow>
      q = user_dir base (EncodeName u) \<or> (\<exists>k < length (fs_path base). q = take (Suc k) (fs_path base))"
    by (auto simp: take_user_dir less_Suc_eq)
  ultimately show ?thesis by simp
qed

lemma user_dir_longer: "user_dir base u @ [n] \<noteq> take k (fs_path base)" "user_dir base u \<noteq> take k (fs_path base)"
  by (auto simp: user_dir_def dest!: arg_cong [where f = length])

lemma user_dir_inj [simp]: "user_dir base u = user_dir base v \<longleftrightarrow> u = v" "user_dir base u @ [n] \<noteq> user_dir base v"
  "user_dir base v \<noteq> user_dir base u @ [n]"
  by (simp_all add: user_dir_def)

lemma made_file [simp]: "disk_ok base d \<Longrightarrow> map_of (made base u d) (user_dir base v @ [n]) = map_of d (user_dir base v @ [n])"
  by (simp add: made_map user_dir_longer)

lemma PersistWriteLocked_eq:
  assumes ok: "disk_ok base d" and "name_ok u" "name_ok n"
  shows "PersistWriteLocked base u n b d =
    AList.update (user_dir base (EncodeName u) @ [EncodeName n]) (Some b) (made base u d)"
proof -
  have "map_of d (user_dir base (EncodeName u) @ [EncodeName n]) \<noteq> Some None"
    using disk_okD(5) [OF ok, of "EncodeName u" "EncodeName n" None] by auto
  moreover have "is_directory (user_dir base (EncodeName u)) (made base u d)"
    using ok by (simp add: is_directory_def made_map)
  ultimately show ?thesis
    using ok assms(2,3) disk_okD(1) [OF ok]
    by (simp add: PersistWriteLocked_def write_file_def path_join_ok Let_def made_def [symmetric] user_dir_def [symmetric])
qed

lemma write_ok:
  assumes ok: "disk_ok base d" and u: "name_ok u" and n: "name_ok n"
  shows "disk_ok base (PersistWriteLocked base u n b d)"
proof -
  let ?p = "user_dir base (EncodeName u) @ [EncodeName n]" and ?d = "PersistWriteLocked base u n b d"
  note parts = disk_okD [OF ok]
  have m: "map_of ?d q = (if q = ?p then Some (Some b) else map_of (made base u d) q)" for q
    using assms by (simp add: PersistWriteLocked_eq)
  have at_root: "is_directory (fs_path base) (made base u d)"
  proof (cases "fs_path base = []")
    case False
    then have "\<exists>k < length (fs_path base). fs_path base = take (Suc k) (fs_path base)"
      by (intro exI [of _ "length (fs_path base) - 1"]) simp
    then show ?thesis using ok by (simp add: is_directory_def made_map)
  qed (simp add: is_directory_def)
  have "distinct (keys ?d)"
    using ok assms parts(2) distinct_create_directories by (simp add: PersistWriteLocked_eq made_def)
  moreover have "map_of ?d (take k (fs_path base)) \<noteq> Some (Some c)" for k c
    using ok parts(3) by (auto simp: m made_map dest: user_dir_longer(1) [THEN notE, OF sym])
  moreover have "map_of ?d (user_dir base v) \<noteq> Some (Some c)" for v c
    using ok parts(4) by (auto simp: m made_map)
  moreover have "(\<exists>U N c. name_ok U \<and> name_ok N \<and> v = EncodeName U \<and> e = EncodeName N \<and> x = Some c) \<and>
      map_of ?d (user_dir base v) = Some None \<and> is_directory (fs_path base) ?d"
    if x: "map_of ?d (user_dir base v @ [e]) = Some x" for v e x
  proof (cases "v = EncodeName u \<and> e = EncodeName n")
    case True
    then show ?thesis using x u n ok at_root by (auto simp: m made_map is_directory_def user_dir_def)
  next
    case False
    then have "map_of d (user_dir base v @ [e]) = Some x" using x ok by (auto simp: m)
    from parts(5,6) [OF this] at_root show ?thesis using ok by (auto simp: m made_map is_directory_def user_dir_def)
  qed
  ultimately show ?thesis using parts(1) by (simp add: disk_ok_def)
qed

lemma option_eqI: "(\<And>c. x = Some c \<longleftrightarrow> y = Some c) \<Longrightarrow> x = y"
  by (cases x; cases y) auto

lemma write_fetch:
  assumes ok: "disk_ok base d" and "name_ok u" and "name_ok n"
  shows "fetch base (PersistWriteLocked base u n b d) = (fetch base d)((u, n) \<mapsto> b)"
proof
  fix k :: "string \<times> string"
  obtain v m where k: "k = (v, m)" by (cases k)
  show "fetch base (PersistWriteLocked base u n b d) k = ((fetch base d)((u, n) \<mapsto> b)) k"
    unfolding k using assms
    by (intro option_eqI, subst fetch_direct [OF write_ok [OF assms]])
      (auto simp: PersistWriteLocked_eq fetch_direct EncodeName_inj)
qed

lemma PersistDeleteLocked_eq:
  assumes ok: "disk_ok base d" and "name_ok u" "name_ok n"
  shows "PersistDeleteLocked base u n d = AList.delete (user_dir base (EncodeName u) @ [EncodeName n]) d"
proof (cases "map_of d (user_dir base (EncodeName u) @ [EncodeName n])")
  case None
  then have "user_dir base (EncodeName u) @ [EncodeName n] \<notin> fst ` set d" by (simp add: map_of_eq_None_iff)
  then have "AList.delete (user_dir base (EncodeName u) @ [EncodeName n]) d = d" by (simp add: delete_idem)
  with None show ?thesis
    using assms by (simp add: PersistDeleteLocked_def remove_path_def path_join_ok user_dir_def)
next
  case (Some x)
  with disk_okD(5) [OF ok Some] obtain c where "x = Some c" by auto
  with Some show ?thesis
    using assms disk_okD(1) [OF ok] by (simp add: PersistDeleteLocked_def remove_path_def path_join_ok user_dir_def)
qed

lemma delete_ok:
  assumes ok: "disk_ok base d" and "name_ok u" and "name_ok n"
  shows "disk_ok base (PersistDeleteLocked base u n d)"
proof -
  note parts = disk_okD [OF ok]
  let ?p = "user_dir base (EncodeName u) @ [EncodeName n]"
  have keep: "is_directory (fs_path base) d \<Longrightarrow> is_directory (fs_path base) (AList.delete ?p d)"
    using user_dir_longer(1) [of base "EncodeName u" "EncodeName n" "length (fs_path base)"]
    by (auto simp: is_directory_def)
  show ?thesis
    unfolding PersistDeleteLocked_eq [OF assms] disk_ok_def
    using parts(1-4) parts(5,6,7) keep by (auto split: if_splits)
qed

lemma delete_fetch:
  assumes ok: "disk_ok base d" and "name_ok u" and "name_ok n"
  shows "fetch base (PersistDeleteLocked base u n d) = (fetch base d)((u, n) := None)"
proof
  fix k :: "string \<times> string"
  obtain v m where k: "k = (v, m)" by (cases k)
  show "fetch base (PersistDeleteLocked base u n d) k = ((fetch base d)((u, n) := None)) k"
    unfolding k using assms
    by (intro option_eqI, subst fetch_direct [OF delete_ok [OF assms]])
      (auto simp: PersistDeleteLocked_eq fetch_direct EncodeName_inj)
qed

section \<open>The contract\<close>

text \<open>What the store relies on: a mirror is a map that writes and deletions edit one key at a time,
  for the keys it can represent.\<close>

locale disk_mirror =
  fixes ok :: "'d \<Rightarrow> bool"
    and good :: "'k \<Rightarrow> bool"
    and look :: "'d \<Rightarrow> 'k \<Rightarrow> 'v option"
    and put :: "'k \<Rightarrow> 'v \<Rightarrow> 'd \<Rightarrow> 'd"
    and del :: "'k \<Rightarrow> 'd \<Rightarrow> 'd"
  assumes put_ok: "ok d \<Longrightarrow> good k \<Longrightarrow> ok (put k v d)"
    and del_ok: "ok d \<Longrightarrow> good k \<Longrightarrow> ok (del k d)"
    and look_put: "ok d \<Longrightarrow> good k \<Longrightarrow> look (put k v d) = (look d)(k \<mapsto> v)"
    and look_del: "ok d \<Longrightarrow> good k \<Longrightarrow> look (del k d) = (look d)(k := None)"
begin

definition edit :: "'k \<times> 'v option \<Rightarrow> 'd \<Rightarrow> 'd" where
  "edit e d = (case snd e of None \<Rightarrow> del (fst e) d | Some v \<Rightarrow> put (fst e) v d)"

lemma edits_ok: "ok d \<Longrightarrow> \<forall>e \<in> set es. good (fst e) \<Longrightarrow> ok (fold edit es d)"
  by (induction es arbitrary: d) (auto simp: edit_def put_ok del_ok split: option.splits)

text \<open>A history of edits leaves what the same history leaves in a map.\<close>

lemma edits_replay:
  "ok d \<Longrightarrow> \<forall>e \<in> set es. good (fst e) \<Longrightarrow>
   look (fold edit es d) = fold (\<lambda>e f. f(fst e := snd e)) es (look d)"
proof (induction es arbitrary: d)
  case Nil
  then show ?case by simp
next
  case (Cons e es)
  then have e: "ok (edit e d)" and l: "look (edit e d) = (look d)(fst e := snd e)"
    by (auto simp: edit_def put_ok del_ok look_put look_del split: option.splits)
  have "\<forall>e \<in> set es. good (fst e)" using Cons.prems(2) by simp
  from Cons.IH [OF e this] show ?case by (simp only: fold.simps comp_def l)
qed

end

interpretation mirror: disk_mirror "disk_ok base" "\<lambda>(u, n). name_ok u \<and> name_ok n" "fetch base"
    "\<lambda>(u, n). PersistWriteLocked base u n" "\<lambda>(u, n). PersistDeleteLocked base u n" for base
  by unfold_locales (auto simp: write_ok delete_ok write_fetch delete_fetch)

lemma disk_ok_empty: "base \<noteq> [] \<Longrightarrow> disk_ok base []"
  by (simp add: disk_ok_def)

text \<open>Every key the disk answers is one it can represent.\<close>

lemma fetch_good: "disk_ok base d \<Longrightarrow> fetch base d (u, n) = Some b \<Longrightarrow> name_ok u \<and> name_ok n"
  using disk_okD(5) [of base d "EncodeName u" "EncodeName n" "Some b"] by (auto simp: fetch_direct EncodeName_inj)

text \<open>A file named \<open>.\<close> or \<open>..\<close> is written in memory and lost on disk: the encoding leaves the name,
  and the path names a directory.\<close>

lemma dot_names_are_lost:
  "fetch ''c/eosemu_pds'' (PersistWriteLocked ''c/eosemu_pds'' ''u'' ''.'' [1] []) (''u'', ''.'') = None"
  "fetch ''c/eosemu_pds'' (PersistWriteLocked ''c/eosemu_pds'' ''u'' ''..'' [1] []) (''u'', ''..'') = None"
  by code_simp+

end
