(* ===== verification/PlayerDataStorage.thy ===== *)
theory PlayerDataStorage
  imports Mirror CustomInvites Config
begin

text \<open>
  The player data store, \<open>src/interfaces/PlayerDataStorage.cpp\<close>: files per user in memory,
  mirrored to disk when the configuration asks for it (theory Mirror), and the registry of transfer
  requests.

  The calls queue a task; \<open>run_storage_task\<close> is the closure the dispatcher runs later.  The data
  callbacks of the application are parameters over its own state (\<open>app\<close>): the write callback fills
  a buffer of the chunk size and says how much of it it used.  The transfer loop is
  \<open>upload_loop\<close>; \<open>None\<close> is a loop that never ends, \<open>Overrun\<close> a callback that reports more bytes
  than the buffer holds, which the code reads out of bounds.  A platform that is not live is
  \<open>None\<close>; a live one is its configuration and cache directory.  Handles of transfer requests are
  numbers, never reused.
\<close>

section \<open>State\<close>

definition kMaxFileBytes :: nat where "kMaxFileBytes = 200 * 1024 * 1024"

record storage_request =
  rqFilename :: string
  rqState :: eresult

record storage =
  psFiles :: file_store
  psRequests :: "(nat, storage_request) amap"
  psNextRequest :: nat
  psLoadedRoot :: string
  psDisk :: file_system

type_synonym live_platform = "(config \<times> string) option"

text \<open>A process starts with an empty store; the disk is what earlier runs left.\<close>

definition storage_start :: "file_system \<Rightarrow> storage" where
  "storage_start d =
     \<lparr>psFiles = [], psRequests = [], psNextRequest = 0, psLoadedRoot = [], psDisk = d\<rparr>"

definition NewRequest :: "string \<Rightarrow> storage \<Rightarrow> nat \<times> storage" where
  "NewRequest name s =
     (let h = psNextRequest s in
      (h, s\<lparr>psNextRequest := Suc h,
            psRequests := AList.update h \<lparr>rqFilename = name, rqState = EOS_Success\<rparr> (psRequests s)\<rparr>))"

definition FindRequest :: "nat \<Rightarrow> storage \<Rightarrow> storage_request option" where
  "FindRequest h s = map_of (psRequests s) h"

text \<open>The closure's last word on its request; the registry may have let go of it.\<close>

definition set_request_state :: "nat \<Rightarrow> eresult \<Rightarrow> storage \<Rightarrow> storage" where
  "set_request_state h res s =
     (case FindRequest h s of
        None \<Rightarrow> s
      | Some r \<Rightarrow> s\<lparr>psRequests := AList.update h (r\<lparr>rqState := res\<rparr>) (psRequests s)\<rparr>)"

section \<open>Persistence\<close>

definition PersistRoot :: "live_platform \<Rightarrow> string" where
  "PersistRoot plat =
     (case plat of
        None \<Rightarrow> []
      | Some (cfg, cache) \<Rightarrow>
          if \<not> GetBool ''Storage'' ''Persist'' False cfg \<or> cache = [] then []
          else (if last cache \<noteq> CHR 0x5C \<and> last cache \<noteq> CHR ''/'' then cache @ ''/'' else cache) @ ''eosemu_pds'')"

definition LoadStoreLocked :: "string \<Rightarrow> storage \<Rightarrow> storage" where
  "LoadStoreLocked base s =
     (if base = [] \<or> base = psLoadedRoot s then s
      else s\<lparr>psLoadedRoot := base, psFiles := load_mirror base (psDisk s) (psFiles s)\<rparr>)"

definition EnsureLoadedLocked :: "live_platform \<Rightarrow> storage \<Rightarrow> storage" where
  "EnsureLoadedLocked plat s = LoadStoreLocked (PersistRoot plat) s"

text \<open>Writing one file: the mirror first, then the store.\<close>

definition store_file :: "live_platform \<Rightarrow> string \<Rightarrow> string \<Rightarrow> bytes \<Rightarrow> storage \<Rightarrow> storage" where
  "store_file plat user name b s =
     s\<lparr>psDisk := PersistWriteLocked (PersistRoot plat) user name b (psDisk s),
       psFiles := smap_put user (smap_put name b (table_of user (psFiles s))) (psFiles s)\<rparr>"

definition CheckFilename :: "nat \<Rightarrow> string option \<Rightarrow> eresult" where
  "CheckFilename max_length name =
     (case name of
        None \<Rightarrow> EOS_PlayerDataStorage_FilenameInvalid
      | Some f \<Rightarrow>
          if f = [] then EOS_PlayerDataStorage_FilenameInvalid
          else if length f > max_length then EOS_PlayerDataStorage_FilenameLengthInvalid
          else EOS_Success)"

section \<open>Tasks and callbacks\<close>

datatype storage_task =
    QueryFileTask nat nat "puid option" string
  | QueryFileListTask nat nat "puid option"
  | DuplicateFileTask nat nat "puid option" eresult
  | DeleteFileTask nat nat "puid option" eresult
  | ReadFileTask nat "nat option" nat "puid option" "nat option" string
  | WriteFileTask nat "nat option" nat "puid option" "nat option" nat string eresult
  | DeleteCacheTask nat nat "puid option"

datatype storage_call =
    QueryFileCb nat nat eresult "puid option"
  | QueryFileListCb nat nat "puid option" nat
  | DuplicateFileCb nat nat eresult "puid option"
  | DeleteFileCb nat nat eresult "puid option"
  | ReadDataCb nat nat "puid option" string bytes
  | ReadFileCb nat nat eresult "puid option" string
  | WriteFileCb nat nat eresult "puid option" string
  | DeleteCacheCb nat nat "puid option"

datatype write_result = ContinueWriting | CompleteRequest | FailWrite | OtherWrite
datatype read_result = FailRead | CancelRead | OtherRead

record 's app =
  apWrite :: "nat \<Rightarrow> nat \<Rightarrow> 's \<Rightarrow> 's \<times> bytes \<times> write_result"
  apRead :: "nat \<Rightarrow> bytes \<Rightarrow> 's \<Rightarrow> 's \<times> read_result"

text \<open>The transfer loop: the bytes assembled so far, one call of the data callback per round.\<close>

datatype upload_end = Ended eresult bytes | Overrun

partial_function (option) upload_loop ::
  "(nat \<Rightarrow> 's \<Rightarrow> 's \<times> bytes \<times> write_result) \<Rightarrow> nat \<Rightarrow> bytes \<Rightarrow> 's \<Rightarrow> ('s \<times> upload_end) option" where
  "upload_loop cb chunk acc a =
     (case cb chunk a of (a', data, wr) \<Rightarrow>
        if length data > chunk then Some (a', Overrun)
        else if length (acc @ data) > kMaxFileBytes
        then Some (a', Ended EOS_PlayerDataStorage_FileSizeTooLarge (acc @ data))
        else (case wr of
                ContinueWriting \<Rightarrow> upload_loop cb chunk (acc @ data) a'
              | CompleteRequest \<Rightarrow> Some (a', Ended EOS_Success (acc @ data))
              | FailWrite \<Rightarrow> Some (a', Ended EOS_PlayerDataStorage_UserErrorFromDataCallback (acc @ data))
              | OtherWrite \<Rightarrow> Some (a', Ended EOS_Canceled (acc @ data))))"

definition upload ::
  "'s app \<Rightarrow> nat option \<Rightarrow> nat \<Rightarrow> eresult \<Rightarrow> 's \<Rightarrow> ('s \<times> upload_end) option" where
  "upload app data_cb chunk name_check a =
     (case data_cb of
        None \<Rightarrow> Some (a, Ended name_check [])
      | Some w \<Rightarrow> if name_check = EOS_Success then upload_loop (apWrite app w) chunk [] a
                  else Some (a, Ended name_check []))"

definition lookup_file :: "file_store \<Rightarrow> string \<Rightarrow> string \<Rightarrow> bytes option" where
  "lookup_file files user name = map_of (table_of user files) name"

definition opt_call :: "nat option \<Rightarrow> (nat \<Rightarrow> storage_call) \<Rightarrow> storage_call list" where
  "opt_call cb call = (case cb of None \<Rightarrow> [] | Some f \<Rightarrow> [call f])"

text \<open>The closures.  No result: the write loop did not end, or left its buffer.\<close>

fun run_storage_task ::
  "'s app \<Rightarrow> live_platform \<Rightarrow> storage_task \<Rightarrow> 's \<times> storage \<Rightarrow> ('s \<times> storage \<times> storage_call list) option" where
  "run_storage_task app plat (QueryFileTask f cd local name) (a, s) =
     (let s1 = EnsureLoadedLocked plat s;
          res = (if lookup_file (psFiles s1) (id_text local) name = None then EOS_NotFound else EOS_Success)
      in Some (a, s1, [QueryFileCb f cd res local]))"
| "run_storage_task app plat (QueryFileListTask f cd local) (a, s) =
     (let s1 = EnsureLoadedLocked plat s
      in Some (a, s1, [QueryFileListCb f cd local (length (table_of (id_text local) (psFiles s1)) mod 2 ^ 32)]))"
| "run_storage_task app plat (DuplicateFileTask f cd local res) (a, s) = Some (a, s, [DuplicateFileCb f cd res local])"
| "run_storage_task app plat (DeleteFileTask f cd local res) (a, s) = Some (a, s, [DeleteFileCb f cd res local])"
| "run_storage_task app plat (ReadFileTask h cb cd local data_cb name) (a, s) =
     (let s1 = EnsureLoadedLocked plat s in
      case (case lookup_file (psFiles s1) (id_text local) name of
              None \<Rightarrow> (a, EOS_NotFound, [])
            | Some b \<Rightarrow>
                (case data_cb of
                   None \<Rightarrow> (a, EOS_Success, [])
                 | Some r \<Rightarrow>
                     (case apRead app r b a of (a', answer) \<Rightarrow>
                        (a', (case answer of FailRead \<Rightarrow> EOS_PlayerDataStorage_UserErrorFromDataCallback
                                           | CancelRead \<Rightarrow> EOS_Canceled
                                           | OtherRead \<Rightarrow> EOS_Success),
                         [ReadDataCb r cd local name b]))))
      of (a', res, calls) \<Rightarrow>
        Some (a', set_request_state h res s1, calls @ opt_call cb (\<lambda>f. ReadFileCb f cd res local name)))"
| "run_storage_task app plat (WriteFileTask h cb cd local data_cb chunk name name_check) (a, s) =
     (case upload app data_cb chunk name_check a of
        Some (a', Ended res b) \<Rightarrow>
          (let s1 = (if res = EOS_Success then store_file plat (id_text local) name b (EnsureLoadedLocked plat s) else s)
           in Some (a', set_request_state h res s1, opt_call cb (\<lambda>f. WriteFileCb f cd res local name)))
      | _ \<Rightarrow> None)"
| "run_storage_task app plat (DeleteCacheTask f cd local) (a, s) = Some (a, s, [DeleteCacheCb f cd local])"

section \<open>Calls\<close>

definition if_live :: "live_platform \<Rightarrow> 'a list \<Rightarrow> 'a list" where
  "if_live plat evs = (if plat = None then [] else evs)"

definition opt_user :: "(puid option \<times> 'a) option \<Rightarrow> puid option" where
  "opt_user options = (case options of None \<Rightarrow> None | Some (user, _) \<Rightarrow> user)"

definition QueryFile ::
  "live_platform \<Rightarrow> (puid option \<times> string option) option \<Rightarrow> nat \<Rightarrow> nat option \<Rightarrow> storage_task event list" where
  "QueryFile plat options cd cb =
     (let name = (case options of Some (_, Some f) \<Rightarrow> f | _ \<Rightarrow> [])
      in if_live plat (complete cb (\<lambda>f. QueryFileTask f cd (opt_user options) name)))"

definition QueryFileList ::
  "live_platform \<Rightarrow> puid option option \<Rightarrow> nat \<Rightarrow> nat option \<Rightarrow> storage_task event list" where
  "QueryFileList plat options cd cb =
     (let local = (case options of None \<Rightarrow> None | Some u \<Rightarrow> u)
      in if_live plat (complete cb (\<lambda>f. QueryFileListTask f cd local)))"

text \<open>The metadata of a file: its name and its size.\<close>

definition StorageMeta :: "string \<Rightarrow> bytes \<Rightarrow> string \<times> u32" where
  "StorageMeta name b = (c_str name, word_of_nat (length b))"

definition CopyFileMetadataByFilename ::
  "live_platform \<Rightarrow> (puid option \<times> string option) option \<Rightarrow> bool \<Rightarrow> storage \<Rightarrow>
   eresult \<times> (string \<times> u32) option \<times> storage" where
  "CopyFileMetadataByFilename plat options out s =
     (case options of
        Some (user, Some name) \<Rightarrow>
          if \<not> out then (EOS_InvalidParameters, None, s)
          else let s1 = EnsureLoadedLocked plat s in
            (case lookup_file (psFiles s1) (id_text user) name of
               None \<Rightarrow> (EOS_NotFound, None, s1)
             | Some b \<Rightarrow> (EOS_Success, Some (StorageMeta name b), s1))
      | _ \<Rightarrow> (EOS_InvalidParameters, None, s))"

definition GetFileMetadataCount ::
  "live_platform \<Rightarrow> puid option option \<Rightarrow> bool \<Rightarrow> storage \<Rightarrow> eresult \<times> int option \<times> storage" where
  "GetFileMetadataCount plat options out s =
     (case options of
        None \<Rightarrow> (EOS_InvalidParameters, None, s)
      | Some user \<Rightarrow>
          if \<not> out then (EOS_InvalidParameters, None, s)
          else let s1 = EnsureLoadedLocked plat s in
            (EOS_Success, Some (sint (word_of_nat (length (table_of (id_text user) (psFiles s1))) :: u32)), s1))"

definition CopyFileMetadataAtIndex ::
  "live_platform \<Rightarrow> (puid option \<times> nat) option \<Rightarrow> bool \<Rightarrow> storage \<Rightarrow> eresult \<times> (string \<times> u32) option \<times> storage" where
  "CopyFileMetadataAtIndex plat options out s =
     (case options of
        None \<Rightarrow> (EOS_InvalidParameters, None, s)
      | Some (user, i) \<Rightarrow>
          if \<not> out then (EOS_InvalidParameters, None, s)
          else let s1 = EnsureLoadedLocked plat s; t = table_of (id_text user) (psFiles s1) in
            if i \<ge> length t mod 2 ^ 32 then (EOS_NotFound, None, s1)
            else (EOS_Success, Some (StorageMeta (fst (t ! i)) (snd (t ! i))), s1))"

text \<open>Copying and deleting act at once; only the answer is queued.  Looking a user up with
  \<open>operator[]\<close> leaves an empty table behind.\<close>

definition duplicate_file :: "live_platform \<Rightarrow> string \<Rightarrow> string \<Rightarrow> string \<Rightarrow> storage \<Rightarrow> eresult \<times> storage" where
  "duplicate_file plat user src dst s =
     (let s1 = EnsureLoadedLocked plat s;
          s2 = s1\<lparr>psFiles := smap_put user (table_of user (psFiles s1)) (psFiles s1)\<rparr>
      in case map_of (table_of user (psFiles s2)) src of
           None \<Rightarrow> (EOS_NotFound, s2)
         | Some b \<Rightarrow> (EOS_Success, store_file plat user dst b s2))"

definition DuplicateFile ::
  "live_platform \<Rightarrow> (puid option \<times> string option \<times> string option) option \<Rightarrow> nat \<Rightarrow> nat option \<Rightarrow> storage \<Rightarrow>
   storage \<times> storage_task event list" where
  "DuplicateFile plat options cd cb s =
     (if cb = None \<or> plat = None then (s, [])
      else case (case options of
                   Some (user, Some src, Some dst) \<Rightarrow> duplicate_file plat (id_text user) src dst s
                 | _ \<Rightarrow> (EOS_NotFound, s))
           of (res, s1) \<Rightarrow> (s1, complete cb (\<lambda>f. DuplicateFileTask f cd (opt_user options) res)))"

definition delete_file :: "live_platform \<Rightarrow> string \<Rightarrow> string \<Rightarrow> storage \<Rightarrow> eresult \<times> storage" where
  "delete_file plat user name s =
     (let s1 = EnsureLoadedLocked plat s in
      if lookup_file (psFiles s1) user name = None then (EOS_NotFound, s1)
      else (EOS_Success,
            s1\<lparr>psFiles := smap_put user (AList.delete name (table_of user (psFiles s1))) (psFiles s1),
               psDisk := PersistDeleteLocked (PersistRoot plat) user name (psDisk s1)\<rparr>))"

definition DeleteFile ::
  "live_platform \<Rightarrow> (puid option \<times> string option) option \<Rightarrow> nat \<Rightarrow> nat option \<Rightarrow> storage \<Rightarrow>
   storage \<times> storage_task event list" where
  "DeleteFile plat options cd cb s =
     (if cb = None \<or> plat = None then (s, [])
      else case (case options of
                   Some (user, Some name) \<Rightarrow> delete_file plat (id_text user) name s
                 | _ \<Rightarrow> (EOS_NotFound, s))
           of (res, s1) \<Rightarrow> (s1, complete cb (\<lambda>f. DeleteFileTask f cd (opt_user options) res)))"

text \<open>The transfers: a request is registered, and its closure queued.\<close>

record read_options =
  roLocalUserId :: "puid option"
  roFilename :: "string option"
  roDataCallback :: "nat option"

record write_options =
  woLocalUserId :: "puid option"
  woFilename :: "string option"
  woChunkLengthBytes :: nat
  woDataCallback :: "nat option"

definition ReadFile ::
  "live_platform \<Rightarrow> read_options option \<Rightarrow> nat \<Rightarrow> nat option \<Rightarrow> storage \<Rightarrow>
   nat option \<times> storage \<times> storage_task event list" where
  "ReadFile plat options cd cb s =
     (case options of
        None \<Rightarrow> (None, s, [])
      | Some opt \<Rightarrow>
        (case roFilename opt of
           None \<Rightarrow> (None, s, [])
         | Some name \<Rightarrow>
           (case NewRequest name s of
              (h, s1) \<Rightarrow> (Some h, s1,
                if_live plat [EvPost (ReadFileTask h cb cd (roLocalUserId opt) (roDataCallback opt) name)]))))"

definition WriteFile ::
  "live_platform \<Rightarrow> nat \<Rightarrow> write_options option \<Rightarrow> nat \<Rightarrow> nat option \<Rightarrow> storage \<Rightarrow>
   nat option \<times> storage \<times> storage_task event list" where
  "WriteFile plat max_name options cd cb s =
     (case options of
        None \<Rightarrow> (None, s, [])
      | Some opt \<Rightarrow>
        (case woFilename opt of
           None \<Rightarrow> (None, s, [])
         | Some name \<Rightarrow>
           (case NewRequest name s of
              (h, s1) \<Rightarrow> (Some h, s1,
                if_live plat [EvPost (WriteFileTask h cb cd (woLocalUserId opt) (woDataCallback opt)
                  (if woChunkLengthBytes opt = 0 then 4096 else woChunkLengthBytes opt) name
                  (CheckFilename max_name (Some name)))]))))"

definition DeleteCache :: "live_platform \<Rightarrow> puid option option \<Rightarrow> nat \<Rightarrow> nat option \<Rightarrow> eresult \<times> storage_task event list" where
  "DeleteCache plat options cd cb =
     (let local = (case options of None \<Rightarrow> None | Some u \<Rightarrow> u)
      in (EOS_Success, if_live plat (complete cb (\<lambda>f. DeleteCacheTask f cd local))))"

text \<open>The accessors of a transfer request; \<open>length\<close> says whether the length pointer was given.\<close>

definition GetFileRequestState :: "nat \<Rightarrow> storage \<Rightarrow> eresult" where
  "GetFileRequestState h s = (case FindRequest h s of None \<Rightarrow> EOS_InvalidParameters | Some r \<Rightarrow> rqState r)"

definition GetFilename :: "nat \<Rightarrow> nat \<Rightarrow> bool \<Rightarrow> bool \<Rightarrow> storage \<Rightarrow> eresult \<times> int option \<times> string option" where
  "GetFilename h cap has_buffer has_length s =
     (case FindRequest h s of
        None \<Rightarrow> (EOS_InvalidParameters, None, None)
      | Some r \<Rightarrow>
          if \<not> has_length then (EOS_InvalidParameters, None, None)
          else let n = int (length (rqFilename r)) in
            if \<not> has_buffer \<or> cap < length (rqFilename r) + 1 then (EOS_LimitExceeded, Some n, None)
            else (EOS_Success, Some n, Some (rqFilename r)))"

definition CancelRequest :: "nat \<Rightarrow> storage \<Rightarrow> eresult" where
  "CancelRequest h s = (if FindRequest h s = None then EOS_InvalidParameters else EOS_NoChange)"

definition ReleaseRequest :: "nat \<Rightarrow> storage \<Rightarrow> storage" where
  "ReleaseRequest h s = s\<lparr>psRequests := AList.delete h (psRequests s)\<rparr>"

end
