(* ===== verification/StorageFacts.thy ===== *)
theory StorageFacts
  imports PlayerDataStorage MirrorFacts
begin

text \<open>
  The player data store: the transfer loop ends and keeps the size limit; a file written is the file
  read; and, with the mirror on, memory and disk agree in every state the interface reaches
  (\<open>storage_inv\<close>), so the next run finds what this one stored.
\<close>

section \<open>The transfer loop\<close>

text \<open>What the first \<open>n\<close> calls of the callback hand over.\<close>

fun deliveries :: "(nat \<Rightarrow> 's \<Rightarrow> 's \<times> bytes \<times> write_result) \<Rightarrow> nat \<Rightarrow> nat \<Rightarrow> 's \<Rightarrow> bytes" where
  "deliveries cb chunk 0 a = []"
| "deliveries cb chunk (Suc n) a = (case cb chunk a of (a', data, _) \<Rightarrow> data @ deliveries cb chunk n a')"

text \<open>Every round that goes on delivers a byte, so there are at most as many rounds as bytes allowed, and one.\<close>

lemma upload_loop_total:
  assumes "\<And>a a' data wr. cb chunk a = (a', data, wr) \<Longrightarrow> length data \<le> chunk \<and> (wr = ContinueWriting \<longrightarrow> data \<noteq> [])"
    and "length acc \<le> kMaxFileBytes"
  shows "\<exists>a' res b n. upload_loop cb chunk acc a = Some (a', Ended res b) \<and>
    n \<le> Suc kMaxFileBytes - length acc \<and> b = acc @ deliveries cb chunk n a"
  using assms(2)
proof (induction "Suc kMaxFileBytes - length acc" arbitrary: acc a rule: less_induct)
  case less
  obtain a' data wr where c: "cb chunk a = (a', data, wr)" by (metis prod_cases3)
  note d = assms(1) [OF c]
  have one: "Suc 0 \<le> Suc kMaxFileBytes - length acc" "acc @ data = acc @ deliveries cb chunk (Suc 0) a"
    using less.prems c by auto
  show ?case
  proof (cases "length (acc @ data) \<le> kMaxFileBytes \<and> wr = ContinueWriting")
    case True
    with d have s: "Suc kMaxFileBytes - length (acc @ data) < Suc kMaxFileBytes - length acc" by (cases data) auto
    from less.hyps [OF s, of a'] True obtain a'' res b n where
      u: "upload_loop cb chunk (acc @ data) a' = Some (a'', Ended res b)"
        "n \<le> Suc kMaxFileBytes - length (acc @ data)" "b = (acc @ data) @ deliveries cb chunk n a'" by blast
    have "upload_loop cb chunk acc a = Some (a'', Ended res b)"
      using True c d u(1) by (simp add: upload_loop.simps [of cb chunk acc])
    moreover have "Suc n \<le> Suc kMaxFileBytes - length acc" using u(2) s by linarith
    moreover have "b = acc @ deliveries cb chunk (Suc n) a" using u(3) c by simp
    ultimately show ?thesis by blast
  next
    case False
    then have "\<exists>res. upload_loop cb chunk acc a = Some (a', Ended res (acc @ data))"
      using c d by (cases wr) (auto simp: upload_loop.simps [of cb chunk acc])
    with one show ?thesis by blast
  qed
qed

definition upload_sound :: "(nat \<Rightarrow> 's \<Rightarrow> 's \<times> bytes \<times> write_result) \<Rightarrow> nat \<Rightarrow> bytes \<Rightarrow> 's \<Rightarrow> upload_end \<Rightarrow> bool" where
  "upload_sound cb chunk acc a e \<longleftrightarrow>
     (\<forall>res b. e = Ended res b \<longrightarrow>
        (\<exists>n. b = acc @ deliveries cb chunk n a) \<and>
        (length b > kMaxFileBytes \<longleftrightarrow> res = EOS_PlayerDataStorage_FileSizeTooLarge))"

text \<open>The loop assembles exactly what was handed over, and refuses exactly what is too large.\<close>

lemma upload_loop_sound:
  assumes ret: "upload_loop cb chunk acc a = Some r"
  shows "upload_sound cb chunk acc a (snd r)"
proof (rule upload_loop.raw_induct [where P = "\<lambda>cb chunk acc a r. upload_sound cb chunk acc a (snd r)", OF _ ret])
  fix f and cb :: "nat \<Rightarrow> 'a \<Rightarrow> 'a \<times> bytes \<times> write_result" and chunk acc a r
  obtain a' data wr where c: "cb chunk a = (a', data, wr)" by (metis prod_cases3)
  have one: "\<exists>n. acc @ data = acc @ deliveries cb chunk n a" by (intro exI [of _ 1]) (simp add: c)
  assume IH: "\<And>cb chunk acc a r. f cb chunk acc a = Some r \<Longrightarrow> upload_sound cb chunk acc a (snd r)"
    and eq: "(case cb chunk a of (a', data, wr) \<Rightarrow>
        if chunk < length data then Some (a', Overrun)
        else if kMaxFileBytes < length (acc @ data) then Some (a', Ended EOS_PlayerDataStorage_FileSizeTooLarge (acc @ data))
        else (case wr of ContinueWriting \<Rightarrow> f cb chunk (acc @ data) a'
              | CompleteRequest \<Rightarrow> Some (a', Ended EOS_Success (acc @ data))
              | FailWrite \<Rightarrow> Some (a', Ended EOS_PlayerDataStorage_UserErrorFromDataCallback (acc @ data))
              | OtherWrite \<Rightarrow> Some (a', Ended EOS_Canceled (acc @ data)))) = Some r"
  show "upload_sound cb chunk acc a (snd r)"
  proof (cases "chunk \<ge> length data \<and> kMaxFileBytes \<ge> length (acc @ data) \<and> wr = ContinueWriting")
    case True
    then have "upload_sound cb chunk (acc @ data) a' (snd r)" using eq c by (intro IH) simp
    moreover have "deliveries cb chunk (Suc n) a = data @ deliveries cb chunk n a'" for n by (simp add: c)
    ultimately show ?thesis unfolding upload_sound_def by (metis append.assoc)
  next
    case False
    then show ?thesis using eq c one by (cases wr) (auto simp: upload_sound_def split: if_splits)
  qed
qed

text \<open>A callback that keeps asking for more without delivering anything keeps the tick for ever.\<close>

lemma upload_loop_hangs:
  assumes "\<And>a. \<exists>a'. cb chunk a = (a', [], ContinueWriting)" and "length acc \<le> kMaxFileBytes"
  shows "upload_loop cb chunk acc a = None"
proof (rule ccontr)
  assume "upload_loop cb chunk acc a \<noteq> None"
  then obtain r where ret: "upload_loop cb chunk acc a = Some r" by blast
  have "(\<forall>a. \<exists>a'. cb chunk a = (a', [], ContinueWriting)) \<longrightarrow> length acc \<le> kMaxFileBytes \<longrightarrow> False"
  proof (rule upload_loop.raw_induct [where P = "\<lambda>cb chunk acc a r.
      (\<forall>a. \<exists>a'. cb chunk a = (a', [], ContinueWriting)) \<longrightarrow> length acc \<le> kMaxFileBytes \<longrightarrow> False", OF _ ret])
    fix f and cb :: "nat \<Rightarrow> 'a \<Rightarrow> 'a \<times> bytes \<times> write_result" and chunk acc a r
    assume IH: "\<And>cb chunk acc a r. f cb chunk acc a = Some r \<Longrightarrow>
        (\<forall>a. \<exists>a'. cb chunk a = (a', [], ContinueWriting)) \<longrightarrow> length acc \<le> kMaxFileBytes \<longrightarrow> False"
      and eq: "(case cb chunk a of (a', data, wr) \<Rightarrow>
        if chunk < length data then Some (a', Overrun)
        else if kMaxFileBytes < length (acc @ data) then Some (a', Ended EOS_PlayerDataStorage_FileSizeTooLarge (acc @ data))
        else (case wr of ContinueWriting \<Rightarrow> f cb chunk (acc @ data) a'
              | CompleteRequest \<Rightarrow> Some (a', Ended EOS_Success (acc @ data))
              | FailWrite \<Rightarrow> Some (a', Ended EOS_PlayerDataStorage_UserErrorFromDataCallback (acc @ data))
              | OtherWrite \<Rightarrow> Some (a', Ended EOS_Canceled (acc @ data)))) = Some r"
    show "(\<forall>a. \<exists>a'. cb chunk a = (a', [], ContinueWriting)) \<longrightarrow> length acc \<le> kMaxFileBytes \<longrightarrow> False"
    proof (intro impI)
      assume asm: "\<forall>a. \<exists>a'. cb chunk a = (a', [], ContinueWriting)" "length acc \<le> kMaxFileBytes"
      then obtain a' where "cb chunk a = (a', [], ContinueWriting)" by blast
      with eq asm(2) have "f cb chunk acc a' = Some r" by simp
      from IH [OF this] asm show False by blast
    qed
  qed
  with assms show False by blast
qed

section \<open>Reading back\<close>

definition contents :: "storage \<Rightarrow> string \<times> string \<Rightarrow> bytes option" where
  "contents s k = stored (psFiles s) (fst k) (snd k)"

lemma lookup_contents: "lookup_file (psFiles s) u n = contents s (u, n)"
  by (simp add: lookup_file_def contents_def stored_def)

lemma contents_store_file: "contents (store_file plat u n b s) = (contents s)((u, n) \<mapsto> b)"
  by (rule ext) (auto simp: contents_def store_file_def stored_put)

lemma set_request_state_fields [simp]:
  "psFiles (set_request_state h res s) = psFiles s" "psDisk (set_request_state h res s) = psDisk s"
  "psLoadedRoot (set_request_state h res s) = psLoadedRoot s"
  "contents (set_request_state h res s) = contents s"
  by (simp_all add: set_request_state_def contents_def fun_eq_iff split: option.splits)

lemma EnsureLoaded_idem [simp]: "EnsureLoadedLocked plat (EnsureLoadedLocked plat s) = EnsureLoadedLocked plat s"
  by (simp add: EnsureLoadedLocked_def LoadStoreLocked_def)

lemma EnsureLoaded_loaded:
  "PersistRoot plat = [] \<or> psLoadedRoot s = PersistRoot plat \<Longrightarrow> EnsureLoadedLocked plat s = s"
  by (auto simp: EnsureLoadedLocked_def LoadStoreLocked_def)

lemma EnsureLoaded_root: "PersistRoot plat \<noteq> [] \<Longrightarrow> psLoadedRoot (EnsureLoadedLocked plat s) = PersistRoot plat"
  by (simp add: EnsureLoadedLocked_def LoadStoreLocked_def)

lemma EnsureLoaded_disk [simp]: "psDisk (EnsureLoadedLocked plat s) = psDisk s"
  by (simp add: EnsureLoadedLocked_def LoadStoreLocked_def)

text \<open>After a write task that succeeded, a read task of the same file delivers its bytes.\<close>

lemma write_then_read:
  assumes w: "run_storage_task app plat (WriteFileTask h cb cd local dcb chunk name chk) (a, s) = Some (a1, s1, calls)"
    and u: "upload app dcb chunk chk a = Some (a1, Ended EOS_Success b)"
  shows "run_storage_task app plat (ReadFileTask h2 cb2 cd2 local (Some r) name) (a2, s1) =
      (case apRead app r b a2 of (a3, answer) \<Rightarrow>
         (let res = (case answer of FailRead \<Rightarrow> EOS_PlayerDataStorage_UserErrorFromDataCallback
                                  | CancelRead \<Rightarrow> EOS_Canceled | OtherRead \<Rightarrow> EOS_Success)
          in Some (a3, set_request_state h2 res s1,
               ReadDataCb r cd2 local name b # opt_call cb2 (\<lambda>f. ReadFileCb f cd2 res local name))))"
proof -
  let ?s = "store_file plat (id_text local) name b (EnsureLoadedLocked plat s)"
  have s1: "s1 = set_request_state h EOS_Success ?s" using w u by simp
  have "EnsureLoadedLocked plat s1 = s1"
  proof (cases "PersistRoot plat = []")
    case False
    then show ?thesis using EnsureLoaded_root by (intro EnsureLoaded_loaded) (simp add: s1 store_file_def)
  qed (simp add: EnsureLoaded_loaded)
  moreover have "contents s1 (id_text local, name) = Some b" by (simp add: s1 contents_store_file)
  ultimately show ?thesis by (simp add: lookup_contents Let_def split: prod.split)
qed

section \<open>Memory and disk\<close>

definition storage_inv :: "live_platform \<Rightarrow> storage \<Rightarrow> bool" where
  "storage_inv plat s \<longleftrightarrow>
     disk_ok (PersistRoot plat) (psDisk s) \<and>
     (psLoadedRoot s = [] \<and> psFiles s = [] \<or>
      psLoadedRoot s = PersistRoot plat \<and> contents s = fetch (PersistRoot plat) (psDisk s))"

lemma storage_inv_root: "storage_inv plat s \<Longrightarrow> PersistRoot plat \<noteq> []"
  by (auto simp: storage_inv_def dest: disk_okD(1))

lemma storage_inv_loaded:
  assumes "storage_inv plat s"
  shows "contents (EnsureLoadedLocked plat s) = fetch (PersistRoot plat) (psDisk s)"
proof -
  have fresh: "contents (s\<lparr>psLoadedRoot := r, psFiles := load_mirror b d []\<rparr>) = fetch b d" for r b d
    by (rule ext) (simp add: contents_def fetch_def)
  have b: "PersistRoot plat \<noteq> []" by (rule storage_inv_root [OF assms])
  from assms consider "psLoadedRoot s = []" "psFiles s = []"
    | "psLoadedRoot s = PersistRoot plat" "contents s = fetch (PersistRoot plat) (psDisk s)"
    unfolding storage_inv_def by blast
  then show ?thesis
  proof cases
    case 1
    with b fresh show ?thesis by (simp add: EnsureLoadedLocked_def LoadStoreLocked_def)
  next
    case 2
    then show ?thesis by (simp add: EnsureLoaded_loaded)
  qed
qed

lemma storage_inv_ensure [inv_intros]: "storage_inv plat s \<Longrightarrow> storage_inv plat (EnsureLoadedLocked plat s)"
  using storage_inv_loaded [of plat s] EnsureLoaded_root [OF storage_inv_root [of plat s]]
  by (simp add: storage_inv_def)

lemma storage_inv_start [inv_intros]: "disk_ok (PersistRoot plat) d \<Longrightarrow> storage_inv plat (storage_start d)"
  by (simp add: storage_inv_def storage_start_def)

lemma storage_inv_same:
  "storage_inv plat s \<Longrightarrow> psFiles s' = psFiles s \<Longrightarrow> psDisk s' = psDisk s \<Longrightarrow> psLoadedRoot s' = psLoadedRoot s \<Longrightarrow>
   storage_inv plat s'"
  by (simp add: storage_inv_def contents_def fun_eq_iff)

lemma storage_inv_request [inv_intros]: "storage_inv plat s \<Longrightarrow> storage_inv plat (set_request_state h res s)"
  by (rule storage_inv_same) simp_all

text \<open>A loaded state, and what the edits do to it.\<close>

lemma storage_inv_edit:
  assumes "storage_inv plat s" "psLoadedRoot s = PersistRoot plat"
    and "disk_ok (PersistRoot plat) (psDisk s')" "psLoadedRoot s' = psLoadedRoot s"
    and "contents s' = (contents s)(k := x)"
    and "fetch (PersistRoot plat) (psDisk s') = (fetch (PersistRoot plat) (psDisk s))(k := x)"
  shows "storage_inv plat s'"
  using assms storage_inv_root [OF assms(1)] by (auto simp: storage_inv_def)

lemma storage_inv_store [inv_intros]:
  assumes "storage_inv plat s" "psLoadedRoot s = PersistRoot plat" "name_ok u" "name_ok n"
  shows "storage_inv plat (store_file plat u n b s)"
proof (rule storage_inv_edit [OF assms(1,2), where k = "(u, n)" and x = "Some b"])
  have d: "disk_ok (PersistRoot plat) (psDisk s)" using assms(1) by (simp add: storage_inv_def)
  show "disk_ok (PersistRoot plat) (psDisk (store_file plat u n b s))"
    using mirror.put_ok [OF d, of "(u, n)"] assms(3,4) by (simp add: store_file_def)
  show "fetch (PersistRoot plat) (psDisk (store_file plat u n b s)) =
      (fetch (PersistRoot plat) (psDisk s))((u, n) \<mapsto> b)"
    using mirror.look_put [OF d, of "(u, n)"] assms(3,4) by (simp add: store_file_def)
qed (simp_all add: contents_store_file, simp add: store_file_def)

lemma contents_touch [simp]:
  "contents (s\<lparr>psFiles := smap_put u (table_of u (psFiles s)) (psFiles s)\<rparr>) = contents s"
  by (rule ext) (simp add: contents_def stored_def)

lemma storage_inv_duplicate [inv_intros]:
  assumes "storage_inv plat s" "name_ok dst"
  shows "storage_inv plat (snd (duplicate_file plat u src dst s))"
proof -
  let ?s1 = "EnsureLoadedLocked plat s"
  let ?s2 = "?s1\<lparr>psFiles := smap_put u (table_of u (psFiles ?s1)) (psFiles ?s1)\<rparr>"
  have i1: "storage_inv plat ?s1" using assms(1) by (rule storage_inv_ensure)
  have r: "psLoadedRoot ?s1 = PersistRoot plat" by (rule EnsureLoaded_root [OF storage_inv_root [OF assms(1)]])
  have i2: "storage_inv plat ?s2"
    using i1 r storage_inv_root [OF i1] unfolding storage_inv_def by simp
  show ?thesis
  proof (cases "map_of (table_of u (psFiles ?s2)) src")
    case None
    then show ?thesis using i2 by (simp add: duplicate_file_def Let_def)
  next
    case (Some b)
    then have "fetch (PersistRoot plat) (psDisk s) (u, src) = Some b"
      using storage_inv_loaded [OF assms(1)] by (auto simp: contents_def stored_def fun_eq_iff)
    with assms(1) have "name_ok u" by (auto simp: storage_inv_def dest: fetch_good)
    then have "storage_inv plat (store_file plat u dst b ?s2)"
      by (intro storage_inv_store i2 assms(2)) (simp_all add: r)
    with Some show ?thesis by (simp add: duplicate_file_def Let_def)
  qed
qed

lemma storage_inv_delete [inv_intros]:
  assumes "storage_inv plat s"
  shows "storage_inv plat (snd (delete_file plat u n s))"
proof -
  let ?s1 = "EnsureLoadedLocked plat s"
  have i1: "storage_inv plat ?s1" using assms by (rule storage_inv_ensure)
  have d: "disk_ok (PersistRoot plat) (psDisk s)" using assms by (simp add: storage_inv_def)
  have r: "psLoadedRoot ?s1 = PersistRoot plat" by (rule EnsureLoaded_root [OF storage_inv_root [OF assms]])
  show ?thesis
  proof (cases "lookup_file (psFiles ?s1) u n")
    case None
    then show ?thesis using i1 by (simp add: delete_file_def Let_def)
  next
    case (Some b)
    then have "fetch (PersistRoot plat) (psDisk s) (u, n) = Some b"
      using storage_inv_loaded [OF assms] by (simp add: lookup_contents)
    with d have ok: "name_ok u" "name_ok n" by (auto dest: fetch_good)
    let ?s2 = "?s1\<lparr>psFiles := smap_put u (AList.delete n (table_of u (psFiles ?s1))) (psFiles ?s1),
        psDisk := PersistDeleteLocked (PersistRoot plat) u n (psDisk ?s1)\<rparr>"
    have "storage_inv plat ?s2"
    proof (rule storage_inv_edit [OF i1 r, where k = "(u, n)" and x = None])
      show "disk_ok (PersistRoot plat) (psDisk ?s2)" using mirror.del_ok [OF d, of "(u, n)"] ok by simp
      show "fetch (PersistRoot plat) (psDisk ?s2) = (fetch (PersistRoot plat) (psDisk ?s1))((u, n) := None)"
        using mirror.look_del [OF d, of "(u, n)"] ok by simp
      show "contents ?s2 = (contents ?s1)((u, n) := None)"
        by (rule ext) (auto simp: contents_def stored_def)
    qed simp
    with Some show ?thesis by (simp add: delete_file_def Let_def)
  qed
qed

text \<open>The tasks that write to the store name their file.\<close>

fun task_names_ok :: "storage_task \<Rightarrow> bool" where
  "task_names_ok (WriteFileTask h cb cd local dcb chunk name chk) \<longleftrightarrow> name_ok (id_text local) \<and> name_ok name"
| "task_names_ok _ \<longleftrightarrow> True"

lemma storage_inv_task [inv_intros]:
  assumes "storage_inv plat s" "task_names_ok t" "run_storage_task app plat t (a, s) = Some (a', s', calls)"
  shows "storage_inv plat s'"
proof (cases t)
  case (WriteFileTask h cb cd local dcb chunk name chk)
  have "psLoadedRoot (EnsureLoadedLocked plat s) = PersistRoot plat"
    by (rule EnsureLoaded_root [OF storage_inv_root [OF assms(1)]])
  then have "storage_inv plat (store_file plat (id_text local) name b (EnsureLoadedLocked plat s))" for b
    using assms(1,2) by (intro storage_inv_store storage_inv_ensure) (simp_all add: WriteFileTask)
  with assms(1,3) show ?thesis
    by (auto simp: WriteFileTask Let_def split: option.splits upload_end.splits prod.splits intro!: storage_inv_request)
next
  case (ReadFileTask h cb cd local dcb name)
  with assms storage_inv_ensure [OF assms(1)] show ?thesis
    by (auto simp: Let_def split: option.splits prod.splits intro!: storage_inv_request)
qed (use assms storage_inv_ensure [OF assms(1)] in \<open>auto simp: Let_def\<close>)

section \<open>Reachable states\<close>

text \<open>Everything that happens to the store, in any order: calls, the tasks they queue, and the end of
  the process.  The steps that name a new file give it a name the disk can hold.\<close>

inductive storage_step :: "'s app \<Rightarrow> live_platform \<Rightarrow> storage \<Rightarrow> storage \<Rightarrow> bool" for app plat where
  run_task: "run_storage_task app plat t (a, s) = Some (a', s', calls) \<Longrightarrow> task_names_ok t \<Longrightarrow> storage_step app plat s s'"
| duplicate: "name_ok dst \<Longrightarrow>
    storage_step app plat s (fst (DuplicateFile plat (Some (user, src, Some dst)) cd cb s))"
| delete: "storage_step app plat s (fst (DeleteFile plat options cd cb s))"
| read_call: "ReadFile plat ropt cd cb s = (h, s', evs) \<Longrightarrow> storage_step app plat s s'"
| write_call: "WriteFile plat m wopt cd cb s = (h, s', evs) \<Longrightarrow> storage_step app plat s s'"
| metadata_name: "storage_step app plat s (snd (snd (CopyFileMetadataByFilename plat nopt out s)))"
| metadata_index: "storage_step app plat s (snd (snd (CopyFileMetadataAtIndex plat iopt out s)))"
| metadata_count: "storage_step app plat s (snd (snd (GetFileMetadataCount plat uopt out s)))"
| release: "storage_step app plat s (ReleaseRequest h s)"
| restart: "storage_step app plat s (storage_start (psDisk s))"

lemma NewRequest_fields: "NewRequest name s = (h, s') \<Longrightarrow> psFiles s' = psFiles s \<and> psDisk s' = psDisk s \<and> psLoadedRoot s' = psLoadedRoot s"
  by (auto simp: NewRequest_def Let_def)

lemma storage_inv_step:
  assumes "storage_step app plat s s'" "storage_inv plat s"
  shows "storage_inv plat s'"
  using assms
proof cases
  case (run_task t a a' calls)
  with assms(2) show ?thesis by (blast intro: storage_inv_task)
next
  case (duplicate dst user src cd cb)
  with assms(2) storage_inv_duplicate [OF assms(2), of dst "id_text user"] show ?thesis
    by (auto simp: DuplicateFile_def split: option.splits prod.splits) (metis snd_conv)+
next
  case (delete options cd cb)
  with assms(2) storage_inv_delete [OF assms(2)] show ?thesis
    by (auto simp: DeleteFile_def split: option.splits prod.splits) (metis snd_conv)+
next
  case (read_call ropt cd cb h evs)
  then show ?thesis using storage_inv_same [OF assms(2)]
    by (auto simp: ReadFile_def split: option.splits prod.splits dest!: NewRequest_fields)
next
  case (write_call m wopt cd cb h evs)
  then show ?thesis using storage_inv_same [OF assms(2)]
    by (auto simp: WriteFile_def split: option.splits prod.splits dest!: NewRequest_fields)
next
  case (release h)
  then show ?thesis using storage_inv_same [OF assms(2)] by (simp add: ReleaseRequest_def)
next
  case restart
  then show ?thesis using assms(2) by (auto simp: storage_inv_def storage_start_def)
qed (use assms storage_inv_ensure [OF assms(2)] in
    \<open>auto simp: CopyFileMetadataByFilename_def CopyFileMetadataAtIndex_def GetFileMetadataCount_def Let_def
      split: option.splits prod.splits\<close>)

inductive storage_reach :: "'s app \<Rightarrow> live_platform \<Rightarrow> storage \<Rightarrow> bool" for app plat where
  first_run: "disk_ok (PersistRoot plat) d \<Longrightarrow> storage_reach app plat (storage_start d)"
| step: "storage_reach app plat s \<Longrightarrow> storage_step app plat s s' \<Longrightarrow> storage_reach app plat s'"

lemma storage_reach_inv: "storage_reach app plat s \<Longrightarrow> storage_inv plat s"
  by (induction rule: storage_reach.induct) (auto intro: storage_inv_start storage_inv_step)

lemma restart_keeps_files:
  assumes "storage_reach app plat s"
  shows "contents (EnsureLoadedLocked plat (storage_start (psDisk s))) = contents (EnsureLoadedLocked plat s)"
proof -
  have i: "storage_inv plat s" by (rule storage_reach_inv [OF assms])
  then have "storage_inv plat (storage_start (psDisk s))" by (auto simp: storage_inv_def storage_start_def)
  from storage_inv_loaded [OF this] storage_inv_loaded [OF i] show ?thesis by (simp add: storage_start_def)
qed

end
