(* ===== verification/TitleStorage.thy ===== *)
theory TitleStorage
  imports PlayerDataStorage MirrorFacts Identity
begin

text \<open>
  Title files, \<open>src/interfaces/TitleStorage.cpp\<close>: read-only files served from a directory.  What
  opening a path yields is a parameter (\<open>served\<close>): its bytes, or nothing.  The closures run later
  (\<open>run_title_task\<close>).  A transfer request is a heap object that \<open>ReleaseTitleRequest\<close> frees; the
  map of live objects makes a closure that writes to a freed one a run without a result
  (\<open>None\<close>).  The data callback is that of theory PlayerDataStorage.

  The facts: a served name denotes an entry of the directory; the list of known files has no
  repetitions and holds only names that were served; releasing a request before the tick leaves the
  pending closure with a dangling pointer.
\<close>

record title_request =
  trFilename :: string
  trState :: eresult

record title_storage =
  tsKnown :: "string list"
  tsRequests :: "(nat, title_request) amap"
  tsNext :: nat

definition title_init :: title_storage where
  "title_init = \<lparr>tsKnown = [], tsRequests = [], tsNext = 0\<rparr>"

definition RememberLocked :: "string \<Rightarrow> title_storage \<Rightarrow> title_storage" where
  "RememberLocked name s = (if name \<in> set (tsKnown s) then s else s\<lparr>tsKnown := tsKnown s @ [name]\<rparr>)"

definition TitleStorageDir :: "live_platform \<Rightarrow> string" where
  "TitleStorageDir plat =
     (let d1 = (case plat of
                  None \<Rightarrow> []
                | Some (cfg, cache) \<Rightarrow>
                    let d = GetString ''TitleStorage'' ''Dir'' [] cfg in
                    if d = [] \<and> cache \<noteq> [] then cache @ ''/eosemu_titlestorage'' else d);
          d2 = (if d1 = [] then ''eosemu_titlestorage'' else d1)
      in if last d2 \<noteq> CHR 0x5C \<and> last d2 \<noteq> CHR ''/'' then d2 @ ''/'' else d2)"

fun has_dots :: "string \<Rightarrow> bool" where
  "has_dots (a # b # s) = (a = CHR ''.'' \<and> b = CHR ''.'' \<or> has_dots (b # s))"
| "has_dots s = False"

definition SafeName :: "string \<Rightarrow> bool" where
  "SafeName name \<longleftrightarrow> name \<noteq> [] \<and> set name \<inter> {CHR 0x5C, CHR ''/'', CHR '':''} = {} \<and> \<not> has_dots name"

definition ReadServedFile :: "(string \<Rightarrow> bytes option) \<Rightarrow> live_platform \<Rightarrow> string \<Rightarrow> bytes option" where
  "ReadServedFile served plat name = (if SafeName name then served (TitleStorageDir plat @ name) else None)"

definition ServedFileExists :: "(string \<Rightarrow> bytes option) \<Rightarrow> live_platform \<Rightarrow> string \<Rightarrow> bool" where
  "ServedFileExists served plat name \<longleftrightarrow> SafeName name \<and> served (TitleStorageDir plat @ name) \<noteq> None"

definition tag_step :: "u64 \<Rightarrow> byte \<Rightarrow> u64" where
  "tag_step h b = (h XOR ucast b) * 1099511628211"

definition ContentTag :: "bytes \<Rightarrow> string" where
  "ContentTag data = hex16 (foldl tag_step 14695981039346656037 data) @ hex16 (foldl tag_step 1469598103934665603 data)"

record title_metadata =
  tmFilename :: string
  tmSize :: u32
  tmMD5Hash :: string

definition MakeMetadata :: "(string \<Rightarrow> bytes option) \<Rightarrow> live_platform \<Rightarrow> string \<Rightarrow> title_metadata option" where
  "MakeMetadata served plat name =
     map_option (\<lambda>b. \<lparr>tmFilename = c_str name, tmSize = word_of_nat (length b), tmMD5Hash = ContentTag b\<rparr>)
       (ReadServedFile served plat name)"

section \<open>Tasks\<close>

datatype title_task =
    TitleQueryTask nat nat "puid option" string
  | TitleListTask nat nat "puid option"
  | TitleReadTask nat "nat option" nat "puid option" string "nat option" "nat option"
  | TitleCacheTask nat nat "puid option"

datatype title_call =
    TitleQueryCb nat nat eresult "puid option"
  | TitleListCb nat nat "puid option" nat
  | TitleProgressCb nat nat "puid option" string nat
  | TitleDataCb nat nat "puid option" string bytes
  | TitleReadCb nat nat eresult "puid option" string
  | TitleCacheCb nat nat "puid option"

definition title_opt_call :: "nat option \<Rightarrow> (nat \<Rightarrow> title_call) \<Rightarrow> title_call list" where
  "title_opt_call cb call = (case cb of None \<Rightarrow> [] | Some f \<Rightarrow> [call f])"

text \<open>\<open>Req->State = Result\<close>: defined while the object is alive.\<close>

definition write_state :: "nat \<Rightarrow> eresult \<Rightarrow> title_storage \<Rightarrow> title_storage option" where
  "write_state h res s =
     (case map_of (tsRequests s) h of
        None \<Rightarrow> None
      | Some r \<Rightarrow> Some (s\<lparr>tsRequests := AList.update h (r\<lparr>trState := res\<rparr>) (tsRequests s)\<rparr>))"

fun run_title_task ::
  "(string \<Rightarrow> bytes option) \<Rightarrow> 's app \<Rightarrow> live_platform \<Rightarrow> title_task \<Rightarrow> 's \<times> title_storage \<Rightarrow>
   ('s \<times> title_storage \<times> title_call list) option" where
  "run_title_task served app plat (TitleQueryTask f cd local name) (a, s) =
     (if ServedFileExists served plat name
      then Some (a, RememberLocked name s, [TitleQueryCb f cd EOS_Success local])
      else Some (a, s, [TitleQueryCb f cd EOS_NotFound local]))"
| "run_title_task served app plat (TitleListTask f cd local) (a, s) =
     Some (a, s, [TitleListCb f cd local (length (tsKnown s) mod 2 ^ 32)])"
| "run_title_task served app plat (TitleReadTask h cb cd local name data_cb progress_cb) (a, s) =
     (case (case ReadServedFile served plat name of
              None \<Rightarrow> (a, s, EOS_NotFound, [])
            | Some b \<Rightarrow>
                let progress = title_opt_call progress_cb (\<lambda>p. TitleProgressCb p cd local name (length b mod 2 ^ 32)) in
                (case data_cb of
                   None \<Rightarrow> (a, RememberLocked name s, EOS_Success, progress)
                 | Some r \<Rightarrow>
                     (case apRead app r b a of (a', answer) \<Rightarrow>
                        (a', RememberLocked name s,
                         (case answer of FailRead \<Rightarrow> EOS_UnexpectedError | CancelRead \<Rightarrow> EOS_Canceled
                                       | OtherRead \<Rightarrow> EOS_Success),
                         progress @ [TitleDataCb r cd local name b]))))
      of (a', s1, res, calls) \<Rightarrow>
        map_option (\<lambda>s2. (a', s2, calls @ title_opt_call cb (\<lambda>f. TitleReadCb f cd res local name)))
          (write_state h res s1))"
| "run_title_task served app plat (TitleCacheTask f cd local) (a, s) = Some (a, s, [TitleCacheCb f cd local])"

section \<open>Calls\<close>

definition TitleQueryFile ::
  "live_platform \<Rightarrow> (puid option \<times> string option) option \<Rightarrow> nat \<Rightarrow> nat option \<Rightarrow> title_task event list" where
  "TitleQueryFile plat options cd cb =
     (let name = (case options of Some (_, Some f) \<Rightarrow> f | _ \<Rightarrow> [])
      in if_live plat (complete cb (\<lambda>f. TitleQueryTask f cd (opt_user options) name)))"

definition TitleQueryFileList ::
  "live_platform \<Rightarrow> puid option option \<Rightarrow> nat \<Rightarrow> nat option \<Rightarrow> title_task event list" where
  "TitleQueryFileList plat options cd cb =
     (let local = (case options of None \<Rightarrow> None | Some u \<Rightarrow> u)
      in if_live plat (complete cb (\<lambda>f. TitleListTask f cd local)))"

definition TitleCopyMetadataByFilename ::
  "(string \<Rightarrow> bytes option) \<Rightarrow> live_platform \<Rightarrow> string option option \<Rightarrow> bool \<Rightarrow> eresult \<times> title_metadata option" where
  "TitleCopyMetadataByFilename served plat options out =
     (case options of
        Some (Some name) \<Rightarrow>
          if \<not> out then (EOS_InvalidParameters, None)
          else (case MakeMetadata served plat name of None \<Rightarrow> (EOS_NotFound, None) | Some m \<Rightarrow> (EOS_Success, Some m))
      | _ \<Rightarrow> (EOS_InvalidParameters, None))"

definition TitleGetFileMetadataCount :: "title_storage \<Rightarrow> nat" where
  "TitleGetFileMetadataCount s = length (tsKnown s) mod 2 ^ 32"

definition TitleCopyMetadataAtIndex ::
  "(string \<Rightarrow> bytes option) \<Rightarrow> live_platform \<Rightarrow> nat option \<Rightarrow> bool \<Rightarrow> title_storage \<Rightarrow> eresult \<times> title_metadata option" where
  "TitleCopyMetadataAtIndex served plat options out s =
     (case options of
        None \<Rightarrow> (EOS_InvalidParameters, None)
      | Some i \<Rightarrow>
          if \<not> out then (EOS_InvalidParameters, None)
          else if i \<ge> length (tsKnown s) then (EOS_NotFound, None)
          else (case MakeMetadata served plat (tsKnown s ! i) of
                  None \<Rightarrow> (EOS_NotFound, None) | Some m \<Rightarrow> (EOS_Success, Some m)))"

definition TitleReadFile ::
  "live_platform \<Rightarrow> (read_options \<times> nat option) option \<Rightarrow> nat \<Rightarrow> nat option \<Rightarrow> title_storage \<Rightarrow>
   nat option \<times> title_storage \<times> title_task event list" where
  "TitleReadFile plat options cd cb s =
     (case options of
        None \<Rightarrow> (None, s, [])
      | Some (opt, progress_cb) \<Rightarrow>
        (case roFilename opt of
           None \<Rightarrow> (None, s, [])
         | Some name \<Rightarrow>
             let h = tsNext s in
             (Some h,
              s\<lparr>tsNext := Suc h, tsRequests := AList.update h \<lparr>trFilename = name, trState = EOS_NotFound\<rparr> (tsRequests s)\<rparr>,
              if_live plat
                [EvPost (TitleReadTask h cb cd (roLocalUserId opt) name (roDataCallback opt) progress_cb)])))"

definition TitleDeleteCache ::
  "live_platform \<Rightarrow> puid option option \<Rightarrow> nat \<Rightarrow> nat option \<Rightarrow> eresult \<times> title_task event list" where
  "TitleDeleteCache plat options cd cb =
     (let local = (case options of None \<Rightarrow> None | Some u \<Rightarrow> u)
      in (EOS_Success, if_live plat (complete cb (\<lambda>f. TitleCacheTask f cd local))))"

text \<open>The accessors take a handle, null or a live object.\<close>

definition title_request_of :: "nat option \<Rightarrow> title_storage \<Rightarrow> title_request option" where
  "title_request_of h s = (case h of None \<Rightarrow> None | Some i \<Rightarrow> map_of (tsRequests s) i)"

definition TitleGetFileRequestState :: "nat option \<Rightarrow> title_storage \<Rightarrow> eresult" where
  "TitleGetFileRequestState h s =
     (case title_request_of h s of None \<Rightarrow> EOS_InvalidParameters | Some r \<Rightarrow> trState r)"

definition TitleGetFilename :: "nat option \<Rightarrow> nat \<Rightarrow> bool \<Rightarrow> bool \<Rightarrow> title_storage \<Rightarrow> eresult \<times> int option \<times> string option" where
  "TitleGetFilename h cap has_buffer has_length s =
     (case title_request_of h s of
        None \<Rightarrow> (EOS_InvalidParameters, None, None)
      | Some r \<Rightarrow>
          if \<not> has_length then (EOS_InvalidParameters, None, None)
          else let n = int (length (trFilename r)) in
            if \<not> has_buffer \<or> cap < length (trFilename r) + 1 then (EOS_LimitExceeded, Some n, None)
            else (EOS_Success, Some n, Some (trFilename r)))"

definition TitleCancelRequest :: "nat option \<Rightarrow> title_storage \<Rightarrow> eresult" where
  "TitleCancelRequest h s = (if title_request_of h s = None then EOS_InvalidParameters else EOS_NoChange)"

definition ReleaseTitleRequest :: "nat option \<Rightarrow> title_storage \<Rightarrow> title_storage" where
  "ReleaseTitleRequest h s =
     (case h of None \<Rightarrow> s | Some i \<Rightarrow> s\<lparr>tsRequests := AList.delete i (tsRequests s)\<rparr>)"

section \<open>Facts\<close>

lemma path_of_entry:
  "CHR ''/'' \<notin> set name \<Longrightarrow> fs_path ((dir @ ''/'') @ name) = path_join (fs_path dir) name"
proof -
  assume n: "CHR ''/'' \<notin> set name"
  have "split_on (CHR ''/'') (dir @ CHR ''/'' # name) = split_on (CHR ''/'') dir @ [name]"
  proof (induction dir)
    case Nil
    then show ?case using n by (simp add: split_on_plain)
  next
    case (Cons c dir)
    then show ?case by (cases "split_on (CHR ''/'') dir") auto
  qed
  then show ?thesis by (simp add: fs_path_def)
qed

text \<open>A served name is one entry of the directory, or the directory itself when it is a single dot.\<close>

lemma served_inside:
  assumes "SafeName name"
  shows "fs_path ((dir @ ''/'') @ name) = (if name = ''.'' then fs_path dir else fs_path dir @ [name])"
proof -
  have "name \<noteq> ''..''" using assms by (auto simp: SafeName_def)
  then show ?thesis using assms by (subst path_of_entry) (auto simp: SafeName_def path_join_def)
qed

definition title_inv :: "title_storage \<Rightarrow> bool" where
  "title_inv s \<longleftrightarrow> distinct (tsKnown s) \<and> list_all SafeName (tsKnown s)"

lemma title_inv_init [inv_intros]: "title_inv title_init"
  by (simp add: title_inv_def title_init_def)

lemma title_inv_Remember [inv_intros]: "title_inv s \<Longrightarrow> SafeName name \<Longrightarrow> title_inv (RememberLocked name s)"
  by (simp add: title_inv_def RememberLocked_def)

lemma ReadServedFile_safe: "ReadServedFile served plat name = Some b \<Longrightarrow> SafeName name"
  by (simp add: ReadServedFile_def split: if_splits)

lemma title_inv_write [inv_intros]: "title_inv s \<Longrightarrow> write_state h res s = Some s' \<Longrightarrow> title_inv s'"
  by (auto simp: title_inv_def write_state_def split: option.splits)

lemma title_inv_task [inv_intros]:
  assumes "title_inv s" "run_title_task served app plat t (a, s) = Some (a', s', calls)"
  shows "title_inv s'"
proof (cases t)
  case (TitleReadTask h cb cd local name data_cb progress_cb)
  show ?thesis
  proof (cases "ReadServedFile served plat name")
    case None
    then show ?thesis using assms by (auto simp: TitleReadTask intro: title_inv_write)
  next
    case (Some b)
    then have "title_inv (RememberLocked name s)"
      using title_inv_Remember [OF assms(1) ReadServedFile_safe [OF Some]] by simp
    moreover obtain res where "write_state h res (RememberLocked name s) = Some s'"
      using assms(2) Some by (auto simp: TitleReadTask Let_def split: option.splits prod.splits)
    ultimately show ?thesis by (rule title_inv_write)
  qed
next
  case (TitleQueryTask f cd local name)
  then show ?thesis using assms by (auto simp: ServedFileExists_def split: if_splits intro: title_inv_Remember)
qed (use assms in auto)

text \<open>Releasing the request before the closure runs: the closure writes to freed memory.  The player
  data store guards against this with a shared reference; this one does not.\<close>

lemma release_before_tick:
  assumes "TitleReadFile plat options cd cb s = (Some h, s1, [EvPost t])"
  shows "run_title_task served app plat t (a, ReleaseTitleRequest (Some h) s1) = None"
proof -
  obtain opt pcb name where o: "options = Some (opt, pcb)" "roFilename opt = Some name"
    using assms by (auto simp: TitleReadFile_def Let_def split: option.splits)
  have h: "h = tsNext s" and t: "t = TitleReadTask h cb cd (roLocalUserId opt) name (roDataCallback opt) pcb"
    using assms o by (auto simp: TitleReadFile_def Let_def if_live_def split: if_splits)
  have gone: "map_of (tsRequests (RememberLocked n (ReleaseTitleRequest (Some h) s1))) h = None"
      "map_of (tsRequests (ReleaseTitleRequest (Some h) s1)) h = None" for n
    by (simp_all add: RememberLocked_def ReleaseTitleRequest_def)
  show ?thesis unfolding t by (auto simp: write_state_def gone Let_def split: option.splits prod.splits)
qed

end
