(* ===== verification/Ecom.thy ===== *)
theory Ecom
  imports Config Effects Records
begin

text \<open>
  Entitlements and ownership, \<open>src/interfaces/Ecom.h\<close> and \<open>src/interfaces/Ecom.cpp\<close>: a list of
  entitlements and of owned items read once from the configuration, and the redemption of
  entitlements.  Handles are always those of a live interface here; the entry points return early on a
  null one.

  The facts: the two ways of asking for ownership agree; a redemption marks exactly the entitlements it
  names and reports each of them; the accessors by name enumerate the entitlements of that name.
\<close>

section \<open>State\<close>

record entitlement =
  enName :: string
  enCatalogItemId :: string
  enEntitlementId :: string
  enRedeemed :: bool

record ecom =
  ecLoaded :: bool
  ecEntitlements :: "entitlement list"
  ecOwnedItems :: "string list"
  ecLastRedeemed :: "string list"

definition ecom_init :: ecom where
  "ecom_init = \<lparr>ecLoaded = False, ecEntitlements = [], ecOwnedItems = [], ecLastRedeemed = []\<rparr>"

definition SplitColon :: "string \<Rightarrow> string list" where
  "SplitColon s = split_on (CHR '':'') s"

text \<open>\<open>(Parts.size() > i && !Parts[i].empty()) ? Parts[i] : dflt\<close>\<close>

definition part_or :: "string list \<Rightarrow> nat \<Rightarrow> string \<Rightarrow> string" where
  "part_or parts i dflt = (if length parts > i \<and> parts ! i \<noteq> [] then parts ! i else dflt)"

definition parse_entitlement :: "string \<Rightarrow> entitlement option" where
  "parse_entitlement raw =
     (let parts = SplitColon raw in
      if parts = [] \<or> parts ! 0 = [] then None
      else Some \<lparr>enName = parts ! 0, enCatalogItemId = part_or parts 1 (parts ! 0),
                 enEntitlementId = part_or parts 2 (parts ! 0), enRedeemed = False\<rparr>)"

definition Ecom_EnsureLoaded :: "config \<Rightarrow> ecom \<Rightarrow> ecom" where
  "Ecom_EnsureLoaded cfg s =
     (if ecLoaded s then s
      else s\<lparr>ecLoaded := True,
             ecEntitlements := ecEntitlements s @ List.map_filter parse_entitlement (GetList ''Ecom'' ''Entitlement'' cfg),
             ecOwnedItems := ecOwnedItems s @ filter (\<lambda>i. i \<noteq> []) (GetList ''Ecom'' ''OwnedItem'' cfg)\<rparr>)"

definition IsOwned :: "config \<Rightarrow> string \<Rightarrow> ecom \<Rightarrow> bool \<times> ecom" where
  "IsOwned cfg item s =
     (let s1 = Ecom_EnsureLoaded cfg s in
      (list_ex (\<lambda>i. i = item) (ecOwnedItems s1) \<or> list_ex (\<lambda>e. enCatalogItemId e = item) (ecEntitlements s1), s1))"

definition Entitlements :: "config \<Rightarrow> ecom \<Rightarrow> entitlement list \<times> ecom" where
  "Entitlements cfg s = (let s1 = Ecom_EnsureLoaded cfg s in (ecEntitlements s1, s1))"

definition add_item :: "entitlement \<Rightarrow> string list \<Rightarrow> string list" where
  "add_item e out = (if enCatalogItemId e \<in> set out then out else out @ [enCatalogItemId e])"

definition OwnedItems :: "config \<Rightarrow> ecom \<Rightarrow> string list \<times> ecom" where
  "OwnedItems cfg s =
     (let s1 = Ecom_EnsureLoaded cfg s in (fold add_item (ecEntitlements s1) (ecOwnedItems s1), s1))"

text \<open>One id of the redemption loop.\<close>

definition redeem_one :: "string \<Rightarrow> entitlement list \<times> string list \<times> nat \<Rightarrow> entitlement list \<times> string list \<times> nat" where
  "redeem_one i st =
     (case st of (es, reds, count) \<Rightarrow>
        let hits = filter (\<lambda>e. enEntitlementId e = i) es in
        (map (\<lambda>e. if enEntitlementId e = i then e\<lparr>enRedeemed := True\<rparr> else e) es,
         reds @ map enEntitlementId hits, count + length hits))"

definition Redeem :: "config \<Rightarrow> string list \<Rightarrow> ecom \<Rightarrow> nat \<times> ecom" where
  "Redeem cfg ids s =
     (let s1 = Ecom_EnsureLoaded cfg s in
      case fold redeem_one ids (ecEntitlements s1, [], 0) of
        (es, reds, count) \<Rightarrow> (count mod 2 ^ 32, s1\<lparr>ecEntitlements := es, ecLastRedeemed := reds\<rparr>))"

section \<open>Entry points\<close>

datatype ecom_task =
    OwnershipDone nat nat "epic option" "(string \<times> bool) list"
  | OwnershipBySandboxDone nat nat "epic option" "(string \<times> string list) list"
  | OwnershipTokenDone nat nat "epic option" string
  | EntitlementsDone nat nat "epic option"
  | EntitlementTokenDone nat nat "epic option" string
  | RedeemDone nat nat "epic option" nat

text \<open>The ids of an options array: null entries are skipped, a null array is empty.\<close>

definition given_strings :: "string option list option \<Rightarrow> nat \<Rightarrow> string list" where
  "given_strings arr n = (case arr of None \<Rightarrow> [] | Some xs \<Rightarrow> List.map_filter (\<lambda>x. x) (take n xs))"

record ids_options =
  ioLocalUserId :: "epic option"
  ioIds :: "string option list option"
  ioCount :: nat

definition options_ids :: "ids_options option \<Rightarrow> string list" where
  "options_ids options = (case options of None \<Rightarrow> [] | Some opt \<Rightarrow> given_strings (ioIds opt) (ioCount opt))"

definition options_user :: "ids_options option \<Rightarrow> epic option" where
  "options_user options = (case options of None \<Rightarrow> None | Some opt \<Rightarrow> ioLocalUserId opt)"

fun ask_each :: "config \<Rightarrow> string list \<Rightarrow> ecom \<Rightarrow> (string \<times> bool) list \<times> ecom" where
  "ask_each cfg [] s = ([], s)"
| "ask_each cfg (i # is) s =
     (case IsOwned cfg i s of (b, s1) \<Rightarrow> case ask_each cfg is s1 of (rest, s2) \<Rightarrow> ((i, b) # rest, s2))"

definition QueryOwnership ::
  "config \<Rightarrow> ids_options option \<Rightarrow> nat \<Rightarrow> nat option \<Rightarrow> ecom \<Rightarrow> ecom \<times> ecom_task event list" where
  "QueryOwnership cfg options cd cb s =
     (if cb = None then (s, [])
      else case ask_each cfg (options_ids options) s of (answers, s1) \<Rightarrow>
        (s1, complete cb (\<lambda>f. OwnershipDone f cd (options_user options) (map (\<lambda>(i, b). (c_str i, b)) answers))))"

definition QueryOwnershipBySandboxIds ::
  "config \<Rightarrow> ids_options option \<Rightarrow> nat \<Rightarrow> nat option \<Rightarrow> ecom \<Rightarrow> ecom \<times> ecom_task event list" where
  "QueryOwnershipBySandboxIds cfg options cd cb s =
     (if cb = None then (s, [])
      else case OwnedItems cfg s of (owned, s1) \<Rightarrow>
        (s1, complete cb (\<lambda>f. OwnershipBySandboxDone f cd (options_user options)
               (map (\<lambda>b. (c_str b, map c_str owned)) (options_ids options)))))"

definition QueryOwnershipToken :: "epic option option \<Rightarrow> nat \<Rightarrow> nat option \<Rightarrow> ecom_task event list" where
  "QueryOwnershipToken options cd cb =
     (let local = (case options of None \<Rightarrow> None | Some u \<Rightarrow> u)
      in complete cb (\<lambda>f. OwnershipTokenDone f cd local ''eosemu-ownership-token''))"

definition QueryEntitlements :: "epic option option \<Rightarrow> nat \<Rightarrow> nat option \<Rightarrow> ecom_task event list" where
  "QueryEntitlements options cd cb =
     (let local = (case options of None \<Rightarrow> None | Some u \<Rightarrow> u) in complete cb (\<lambda>f. EntitlementsDone f cd local))"

definition QueryEntitlementToken :: "epic option option \<Rightarrow> nat \<Rightarrow> nat option \<Rightarrow> ecom_task event list" where
  "QueryEntitlementToken options cd cb =
     (let local = (case options of None \<Rightarrow> None | Some u \<Rightarrow> u)
      in complete cb (\<lambda>f. EntitlementTokenDone f cd local ''eosemu-entitlement-token''))"

definition GetEntitlementsCount :: "config \<Rightarrow> ecom \<Rightarrow> nat \<times> ecom" where
  "GetEntitlementsCount cfg s = (case Entitlements cfg s of (es, s1) \<Rightarrow> (length es mod 2 ^ 32, s1))"

definition GetEntitlementsByNameCount :: "config \<Rightarrow> string option option \<Rightarrow> ecom \<Rightarrow> nat \<times> ecom" where
  "GetEntitlementsByNameCount cfg options s =
     (case options of
        Some (Some name) \<Rightarrow>
          (case Entitlements cfg s of (es, s1) \<Rightarrow> (length (filter (\<lambda>e. enName e = name) es) mod 2 ^ 32, s1))
      | _ \<Rightarrow> (0, s))"

text \<open>The copy given to the application.\<close>

definition MakeEntitlement :: "entitlement \<Rightarrow> entitlement" where
  "MakeEntitlement e =
     e\<lparr>enName := c_str (enName e), enCatalogItemId := c_str (enCatalogItemId e),
       enEntitlementId := c_str (enEntitlementId e)\<rparr>"

definition CopyEntitlementByIndex ::
  "config \<Rightarrow> nat option \<Rightarrow> bool \<Rightarrow> ecom \<Rightarrow> eresult \<times> entitlement option \<times> ecom" where
  "CopyEntitlementByIndex cfg options out s =
     (case options of
        None \<Rightarrow> (EOS_InvalidParameters, None, s)
      | Some i \<Rightarrow>
          if \<not> out then (EOS_InvalidParameters, None, s)
          else (case Entitlements cfg s of (es, s1) \<Rightarrow>
                  if i \<ge> length es then (EOS_NotFound, None, s1)
                  else (EOS_Success, Some (MakeEntitlement (es ! i)), s1)))"

fun nth_named :: "string \<Rightarrow> nat \<Rightarrow> nat \<Rightarrow> entitlement list \<Rightarrow> entitlement option" where
  "nth_named name i seen [] = None"
| "nth_named name i seen (e # es) =
     (if enName e \<noteq> name then nth_named name i seen es
      else if seen = i then Some e
      else nth_named name i (Suc seen) es)"

definition CopyEntitlementByNameAndIndex ::
  "config \<Rightarrow> (string option \<times> nat) option \<Rightarrow> bool \<Rightarrow> ecom \<Rightarrow> eresult \<times> entitlement option \<times> ecom" where
  "CopyEntitlementByNameAndIndex cfg options out s =
     (case options of
        Some (Some name, i) \<Rightarrow>
          if \<not> out then (EOS_InvalidParameters, None, s)
          else (case Entitlements cfg s of (es, s1) \<Rightarrow>
                  (case nth_named name i 0 es of
                     None \<Rightarrow> (EOS_NotFound, None, s1)
                   | Some e \<Rightarrow> (EOS_Success, Some (MakeEntitlement e), s1)))
      | _ \<Rightarrow> (EOS_InvalidParameters, None, s))"

definition CopyEntitlementById ::
  "config \<Rightarrow> string option option \<Rightarrow> bool \<Rightarrow> ecom \<Rightarrow> eresult \<times> entitlement option \<times> ecom" where
  "CopyEntitlementById cfg options out s =
     (case options of
        Some (Some i) \<Rightarrow>
          if \<not> out then (EOS_InvalidParameters, None, s)
          else (case Entitlements cfg s of (es, s1) \<Rightarrow>
                  (case find (\<lambda>e. enEntitlementId e = i) es of
                     None \<Rightarrow> (EOS_NotFound, None, s1)
                   | Some e \<Rightarrow> (EOS_Success, Some (MakeEntitlement e), s1)))
      | _ \<Rightarrow> (EOS_InvalidParameters, None, s))"

definition RedeemEntitlements ::
  "config \<Rightarrow> ids_options option \<Rightarrow> nat \<Rightarrow> nat option \<Rightarrow> ecom \<Rightarrow> ecom \<times> ecom_task event list" where
  "RedeemEntitlements cfg options cd cb s =
     (if cb = None then (s, [])
      else case Redeem cfg (options_ids options) s of (n, s1) \<Rightarrow>
        (s1, complete cb (\<lambda>f. RedeemDone f cd (options_user options) n)))"

definition GetLastRedeemedEntitlementsCount :: "ecom \<Rightarrow> nat" where
  "GetLastRedeemedEntitlementsCount s = length (ecLastRedeemed s) mod 2 ^ 32"

definition CopyLastRedeemedEntitlementByIndex ::
  "nat option \<Rightarrow> bool \<Rightarrow> int option \<Rightarrow> ecom \<Rightarrow> eresult \<times> int option \<times> string option" where
  "CopyLastRedeemedEntitlementByIndex options out len s =
     (case (options, len) of
        (Some i, Some n) \<Rightarrow>
          if \<not> out then (EOS_InvalidParameters, None, None)
          else if i \<ge> length (ecLastRedeemed s) then (EOS_NotFound, None, None)
          else (case sized_copy (ecLastRedeemed s ! i) True n of (r, n', t) \<Rightarrow> (r, Some n', t))
      | _ \<Rightarrow> (EOS_InvalidParameters, None, None))"

section \<open>Facts\<close>

lemma Ecom_loaded [simp]: "ecLoaded (Ecom_EnsureLoaded cfg s)"
  "Ecom_EnsureLoaded cfg (Ecom_EnsureLoaded cfg s) = Ecom_EnsureLoaded cfg s"
  "ecLastRedeemed (Ecom_EnsureLoaded cfg s) = ecLastRedeemed s"
  by (simp_all add: Ecom_EnsureLoaded_def)

lemma set_add_items: "set (fold add_item es out) = set out \<union> enCatalogItemId ` set es"
  by (induction es arbitrary: out) (auto simp: add_item_def)

lemma distinct_add_items: "distinct out \<Longrightarrow> distinct (fold add_item es out)"
  by (induction es arbitrary: out) (auto simp: add_item_def)

lemma IsOwned_iff: "fst (IsOwned cfg item s) \<longleftrightarrow> item \<in> set (fst (OwnedItems cfg s))"
  by (auto simp: IsOwned_def OwnedItems_def Let_def set_add_items list_ex_iff)

lemma ask_each_eq: "fst (ask_each cfg is s) = map (\<lambda>i. (i, i \<in> set (fst (OwnedItems cfg s)))) is"
proof (induction "is" arbitrary: s)
  case Nil
  then show ?case by simp
next
  case (Cons i "is")
  have "fst (OwnedItems cfg (snd (IsOwned cfg i s))) = fst (OwnedItems cfg s)"
    by (simp add: IsOwned_def OwnedItems_def Let_def)
  with Cons.IH [of "snd (IsOwned cfg i s)"] IsOwned_iff [of cfg i s] show ?case by (simp split: prod.split) (metis fst_conv snd_conv)
qed

definition mark :: "string set \<Rightarrow> entitlement \<Rightarrow> entitlement" where
  "mark ids e = (if enEntitlementId e \<in> ids then e\<lparr>enRedeemed := True\<rparr> else e)"

lemma mark_id [simp]: "enEntitlementId (mark ids e) = enEntitlementId e"
  by (simp add: mark_def)

lemma mark_twice: "mark ids (mark ids' e) = mark (ids \<union> ids') e"
  by (simp add: mark_def)

definition matching :: "string \<Rightarrow> entitlement list \<Rightarrow> string list" where
  "matching i es = map enEntitlementId (filter (\<lambda>e. enEntitlementId e = i) es)"

lemma matching_mark [simp]: "matching j (map (mark ids) es) = matching j es"
  by (induction es) (simp_all add: matching_def)

lemma set_matching: "set (matching i es) = {i} \<inter> enEntitlementId ` set es"
  by (auto simp: matching_def)

lemma redeem_one_eq:
  "redeem_one i (es, reds, n) = (map (mark {i}) es, reds @ matching i es, n + length (matching i es))"
  by (simp add: redeem_one_def matching_def mark_def Let_def)

lemma redeem_loop:
  "fold redeem_one ids (es, reds, n) =
     (map (mark (set ids)) es, reds @ concat (map (\<lambda>i. matching i es) ids),
      n + length (concat (map (\<lambda>i. matching i es) ids)))"
proof (induction ids arbitrary: es reds n)
  case Nil
  have "mark {} = (\<lambda>e. e)" by (rule ext) (simp add: mark_def)
  then show ?case by simp
next
  case (Cons i ids)
  have "mark (set ids) \<circ> mark {i} = mark (set (i # ids))" by (rule ext) (simp add: mark_twice)
  then have "map (mark (set ids)) (map (mark {i}) es) = map (mark (set (i # ids))) es" by simp
  with Cons.IH [of "map (mark {i}) es"] show ?case by (simp only: fold.simps comp_def redeem_one_eq) simp
qed

text \<open>A redemption: exactly the named entitlements are marked, everything reported was asked for and
  known, and nothing becomes unredeemed.\<close>

lemma Redeem_exact:
  assumes "Redeem cfg ids s = (n, s')"
  shows "ecEntitlements s' = map (mark (set ids)) (ecEntitlements (Ecom_EnsureLoaded cfg s))"
    and "set (ecLastRedeemed s') = set ids \<inter> enEntitlementId ` set (ecEntitlements (Ecom_EnsureLoaded cfg s))"
    and "n = length (ecLastRedeemed s') mod 2 ^ 32"
  using assms by (auto simp: Redeem_def Let_def redeem_loop set_matching)

lemma nth_named_eq:
  "seen \<le> i \<Longrightarrow> nth_named name i seen es =
     (let named = filter (\<lambda>e. enName e = name) es in if i - seen < length named then Some (named ! (i - seen)) else None)"
proof (induction name i seen es rule: nth_named.induct)
  case (2 name i seen e es)
  then show ?case by (auto simp: Let_def nth_Cons' Suc_diff_le)
qed simp

lemma ByNameAndIndex_enumerates:
  "CopyEntitlementByNameAndIndex cfg (Some (Some name, i)) True s =
     (let named = filter (\<lambda>e. enName e = name) (fst (Entitlements cfg s)); s1 = snd (Entitlements cfg s) in
      if i < length named then (EOS_Success, Some (MakeEntitlement (named ! i)), s1) else (EOS_NotFound, None, s1))"
  by (simp add: CopyEntitlementByNameAndIndex_def nth_named_eq Let_def split: prod.split)

end
