(* ===== verification/Mods.thy ===== *)
theory Mods
  imports Ecom Common
begin

text \<open>
  Installed mods, \<open>src/interfaces/Mods.h\<close> and \<open>src/interfaces/Mods.cpp\<close>: a list read once from the
  configuration, an installed flag per mod, and one flag per kind of enumeration.  The latest
  versions of the option structures are a parameter (\<open>latest\<close>).

  The facts: what \<open>CopyModInfo\<close> lists after an installation, an uninstallation and an enumeration; a
  refused call changes nothing.
\<close>

record mod_item =
  moNamespaceId :: string
  moItemId :: string
  moArtifactId :: string
  moTitle :: string
  moVersion :: string
  moInstalled :: bool

record mods =
  mdLoaded :: bool
  mdEnumeratedInstalled :: bool
  mdEnumeratedAll :: bool
  mdMods :: "mod_item list"

definition mods_init :: mods where
  "mods_init = \<lparr>mdLoaded = False, mdEnumeratedInstalled = False, mdEnumeratedAll = False, mdMods = []\<rparr>"

text \<open>\<open>EOS_EModEnumerationType\<close>: the code only asks whether it is \<open>EOS_MET_INSTALLED\<close>.\<close>

datatype enumeration_type = EOS_MET_INSTALLED | EOS_MET_OTHER

definition parse_mod :: "string \<Rightarrow> string \<Rightarrow> mod_item option" where
  "parse_mod ns raw =
     (let parts = SplitColon raw in
      if parts = [] \<or> parts ! 0 = [] then None
      else Some \<lparr>moNamespaceId = ns, moItemId = parts ! 0, moArtifactId = part_or parts 3 (parts ! 0),
                 moTitle = part_or parts 1 (parts ! 0), moVersion = part_or parts 2 ''1.0.0'', moInstalled = True\<rparr>)"

definition Mods_EnsureLoaded :: "config \<Rightarrow> mods \<Rightarrow> mods" where
  "Mods_EnsureLoaded cfg s =
     (if mdLoaded s then s
      else s\<lparr>mdLoaded := True,
             mdMods := mdMods s @ List.map_filter (parse_mod (GetString ''Mods'' ''Namespace'' ''eosemu'' cfg))
                                    (GetList ''Mods'' ''Mod'' cfg)\<rparr>)"

definition Mods_Snapshot :: "config \<Rightarrow> enumeration_type \<Rightarrow> mods \<Rightarrow> mod_item list \<times> mods" where
  "Mods_Snapshot cfg ty s =
     (let s1 = Mods_EnsureLoaded cfg s in
      (filter (\<lambda>m. \<not> (ty = EOS_MET_INSTALLED \<and> \<not> moInstalled m)) (mdMods s1), s1))"

definition MarkEnumerated :: "enumeration_type \<Rightarrow> mods \<Rightarrow> mods" where
  "MarkEnumerated ty s =
     (if ty = EOS_MET_INSTALLED then s\<lparr>mdEnumeratedInstalled := True\<rparr> else s\<lparr>mdEnumeratedAll := True\<rparr>)"

definition WasEnumerated :: "enumeration_type \<Rightarrow> mods \<Rightarrow> bool" where
  "WasEnumerated ty s = (if ty = EOS_MET_INSTALLED then mdEnumeratedInstalled s else mdEnumeratedAll s)"

text \<open>The two scans stop at the first hit.\<close>

fun install_in :: "mod_item \<Rightarrow> mod_item list \<Rightarrow> mod_item list" where
  "install_in m [] = [m\<lparr>moInstalled := True\<rparr>]"
| "install_in m (e # es) =
     (if moItemId e = moItemId m then e\<lparr>moInstalled := True\<rparr> # es else e # install_in m es)"

fun uninstall_in :: "string \<Rightarrow> mod_item list \<Rightarrow> mod_item list option" where
  "uninstall_in i [] = None"
| "uninstall_in i (e # es) =
     (if moItemId e = i \<and> moInstalled e then Some (e\<lparr>moInstalled := False\<rparr> # es)
      else map_option (Cons e) (uninstall_in i es))"

definition Install :: "config \<Rightarrow> mod_item \<Rightarrow> mods \<Rightarrow> mods" where
  "Install cfg m s = (let s1 = Mods_EnsureLoaded cfg s in s1\<lparr>mdMods := install_in m (mdMods s1)\<rparr>)"

definition Uninstall :: "config \<Rightarrow> string \<Rightarrow> mods \<Rightarrow> bool \<times> mods" where
  "Uninstall cfg i s =
     (let s1 = Mods_EnsureLoaded cfg s in
      case uninstall_in i (mdMods s1) of None \<Rightarrow> (False, s1) | Some xs \<Rightarrow> (True, s1\<lparr>mdMods := xs\<rparr>))"

definition Exists :: "config \<Rightarrow> string \<Rightarrow> mods \<Rightarrow> bool \<times> mods" where
  "Exists cfg i s = (let s1 = Mods_EnsureLoaded cfg s in (list_ex (\<lambda>m. moItemId m = i) (mdMods s1), s1))"

section \<open>Entry points\<close>

record mod_identifier =
  miNamespaceId :: "string option"
  miItemId :: "string option"
  miArtifactId :: "string option"
  miTitle :: "string option"
  miVersion :: "string option"

definition or_blank :: "string option \<Rightarrow> string" where
  "or_blank x = (case x of None \<Rightarrow> [] | Some v \<Rightarrow> v)"

definition CopyIdentifier :: "mod_identifier option \<Rightarrow> mod_item" where
  "CopyIdentifier i =
     (case i of
        None \<Rightarrow> \<lparr>moNamespaceId = [], moItemId = [], moArtifactId = [], moTitle = [], moVersion = [], moInstalled = True\<rparr>
      | Some x \<Rightarrow> \<lparr>moNamespaceId = or_blank (miNamespaceId x), moItemId = or_blank (miItemId x),
                  moArtifactId = or_blank (miArtifactId x), moTitle = or_blank (miTitle x),
                  moVersion = or_blank (miVersion x), moInstalled = True\<rparr>)"

record mod_options =
  mpApiVersion :: int
  mpLocalUserId :: "epic option"
  mpMod :: "mod_identifier option"

datatype mods_task =
    ModDone nat nat eresult "epic option" "mod_item option"
  | EnumerateDone nat nat eresult "epic option" enumeration_type

definition given_mod :: "mod_options option \<Rightarrow> mod_item" where
  "given_mod options = CopyIdentifier (case options of None \<Rightarrow> None | Some opt \<Rightarrow> mpMod opt)"

definition have_mod :: "mod_options option \<Rightarrow> bool" where
  "have_mod options \<longleftrightarrow>
     (case options of None \<Rightarrow> False | Some opt \<Rightarrow> mpMod opt \<noteq> None) \<and> moItemId (given_mod options) \<noteq> []"

definition mods_user :: "mod_options option \<Rightarrow> epic option" where
  "mods_user options = (case options of None \<Rightarrow> None | Some opt \<Rightarrow> mpLocalUserId opt)"

text \<open>What the three calls share: the guards, then the call's own action, then the completion.\<close>

definition mod_call ::
  "int \<Rightarrow> (mod_item \<Rightarrow> mods \<Rightarrow> eresult \<times> mods) \<Rightarrow> mod_options option \<Rightarrow> nat \<Rightarrow> nat option \<Rightarrow> mods \<Rightarrow>
   mods \<times> mods_task event list" where
  "mod_call latest act options cd cb s =
     (if cb = None then (s, [])
      else let m = given_mod options; have = have_mod options in
        case (case options of
                None \<Rightarrow> (EOS_InvalidParameters, s)
              | Some opt \<Rightarrow>
                  if \<not> have then (EOS_InvalidParameters, s)
                  else if \<not> VersionInRange (mpApiVersion opt) latest then (EOS_IncompatibleVersion, s)
                  else act m s)
        of (res, s1) \<Rightarrow>
          (s1, complete cb (\<lambda>f. ModDone f cd res (mods_user options) (if have then Some m else None))))"

definition InstallMod :: "int \<Rightarrow> config \<Rightarrow> mod_options option \<Rightarrow> nat \<Rightarrow> nat option \<Rightarrow> mods \<Rightarrow> mods \<times> mods_task event list" where
  "InstallMod latest cfg = mod_call latest (\<lambda>m s. (EOS_Success, Install cfg m s))"

definition UninstallMod :: "int \<Rightarrow> config \<Rightarrow> mod_options option \<Rightarrow> nat \<Rightarrow> nat option \<Rightarrow> mods \<Rightarrow> mods \<times> mods_task event list" where
  "UninstallMod latest cfg = mod_call latest
     (\<lambda>m s. case Uninstall cfg (moItemId m) s of (found, s1) \<Rightarrow> (if found then EOS_Success else EOS_NotFound, s1))"

definition UpdateMod :: "int \<Rightarrow> config \<Rightarrow> mod_options option \<Rightarrow> nat \<Rightarrow> nat option \<Rightarrow> mods \<Rightarrow> mods \<times> mods_task event list" where
  "UpdateMod latest cfg = mod_call latest
     (\<lambda>m s. case Exists cfg (moItemId m) s of (found, s1) \<Rightarrow> (if found then EOS_Success else EOS_NotFound, s1))"

definition EnumerateMods ::
  "int \<Rightarrow> (int \<times> epic option \<times> enumeration_type) option \<Rightarrow> nat \<Rightarrow> nat option \<Rightarrow> mods \<Rightarrow> mods \<times> mods_task event list" where
  "EnumerateMods latest options cd cb s =
     (if cb = None then (s, [])
      else case options of
             None \<Rightarrow> (s, complete cb (\<lambda>f. EnumerateDone f cd EOS_InvalidParameters None EOS_MET_INSTALLED))
           | Some (v, user, ty) \<Rightarrow>
               if \<not> VersionInRange v latest
               then (s, complete cb (\<lambda>f. EnumerateDone f cd EOS_IncompatibleVersion user ty))
               else (MarkEnumerated ty s, complete cb (\<lambda>f. EnumerateDone f cd EOS_Success user ty)))"

definition mod_copy :: "mod_item \<Rightarrow> mod_item" where
  "mod_copy m =
     m\<lparr>moNamespaceId := c_str (moNamespaceId m), moItemId := c_str (moItemId m), moArtifactId := c_str (moArtifactId m),
       moTitle := c_str (moTitle m), moVersion := c_str (moVersion m)\<rparr>"

definition CopyModInfo ::
  "int \<Rightarrow> config \<Rightarrow> (int \<times> enumeration_type) option \<Rightarrow> bool \<Rightarrow> mods \<Rightarrow>
   eresult \<times> (enumeration_type \<times> mod_item list) option \<times> mods" where
  "CopyModInfo latest cfg options out s =
     (case options of
        None \<Rightarrow> (EOS_InvalidParameters, None, s)
      | Some (v, ty) \<Rightarrow>
          if \<not> out then (EOS_InvalidParameters, None, s)
          else if \<not> VersionInRange v latest then (EOS_IncompatibleVersion, None, s)
          else if \<not> WasEnumerated ty s then (EOS_NotFound, None, s)
          else (case Mods_Snapshot cfg ty s of (xs, s1) \<Rightarrow> (EOS_Success, Some (ty, map mod_copy xs), s1)))"

section \<open>Facts\<close>

definition mod_ids :: "mods \<Rightarrow> string list" where
  "mod_ids s = map moItemId (mdMods s)"

definition installed_ids :: "config \<Rightarrow> mods \<Rightarrow> string set" where
  "installed_ids cfg s = moItemId ` set (fst (Mods_Snapshot cfg EOS_MET_INSTALLED s))"

lemma Mods_EnsureLoaded_idem [simp]: "mdLoaded (Mods_EnsureLoaded cfg s)"
  "Mods_EnsureLoaded cfg (Mods_EnsureLoaded cfg s) = Mods_EnsureLoaded cfg s"
  by (simp_all add: Mods_EnsureLoaded_def)

lemma loaded_stays [simp]: "mdLoaded s \<Longrightarrow> Mods_EnsureLoaded cfg s = s"
  by (simp add: Mods_EnsureLoaded_def)

definition installed_of :: "mod_item list \<Rightarrow> string set" where
  "installed_of es = moItemId ` {m \<in> set es. moInstalled m}"

lemma installed_of_simps [simp]:
  "installed_of [] = {}"
  "installed_of (e # es) = (if moInstalled e then insert (moItemId e) (installed_of es) else installed_of es)"
  by (auto simp: installed_of_def)

lemma installed_of_subset: "installed_of es \<subseteq> set (map moItemId es)"
  by (auto simp: installed_of_def)

lemma installed_ids_eq: "installed_ids cfg s = installed_of (mdMods (Mods_EnsureLoaded cfg s))"
  by (auto simp: installed_ids_def Mods_Snapshot_def installed_of_def Let_def)

lemma installed_install_in: "installed_of (install_in m es) = insert (moItemId m) (installed_of es)"
  by (induction es) auto

lemma Install_installs: "installed_ids cfg (Install cfg m s) = insert (moItemId m) (installed_ids cfg s)"
  by (simp add: installed_ids_eq Install_def Let_def installed_install_in)

lemma uninstall_in_None: "uninstall_in i es = None \<longleftrightarrow> i \<notin> installed_of es"
  by (induction es) auto

lemma uninstall_in_Some:
  "uninstall_in i es = Some fs \<Longrightarrow> distinct (map moItemId es) \<Longrightarrow> installed_of fs = installed_of es - {i}"
proof (induction es arbitrary: fs)
  case Nil
  then show ?case by simp
next
  case (Cons e es)
  then show ?case using installed_of_subset [of es]
    by (cases "moItemId e = i \<and> moInstalled e") (auto split: if_splits)
qed

text \<open>With distinct item ids an uninstalled mod leaves the installed list and no other does.\<close>

lemma Uninstall_answer: "fst (Uninstall cfg i s) \<longleftrightarrow> i \<in> installed_ids cfg s"
  using uninstall_in_None [of i "mdMods (Mods_EnsureLoaded cfg s)"]
  by (auto simp: Uninstall_def Let_def installed_ids_eq split: option.split)

lemma Uninstall_uninstalls:
  assumes "distinct (mod_ids (Mods_EnsureLoaded cfg s))"
  shows "installed_ids cfg (snd (Uninstall cfg i s)) = installed_ids cfg s - {i}"
proof (cases "uninstall_in i (mdMods (Mods_EnsureLoaded cfg s))")
  case None
  then have "i \<notin> installed_of (mdMods (Mods_EnsureLoaded cfg s))" by (simp add: uninstall_in_None)
  with None show ?thesis by (simp add: Uninstall_def Let_def installed_ids_eq)
next
  case (Some fs)
  with uninstall_in_Some [OF Some] assms show ?thesis
    by (simp add: Uninstall_def Let_def installed_ids_eq mod_ids_def)
qed

lemma Uninstall_refused: "\<not> fst (Uninstall cfg i s) \<Longrightarrow> snd (Uninstall cfg i s) = Mods_EnsureLoaded cfg s"
  by (simp add: Uninstall_def Let_def split: option.splits)

text \<open>The enumeration gate: a list is handed out only for a kind enumerated before.\<close>

lemma CopyModInfo_gate:
  "fst (CopyModInfo latest cfg (Some (v, ty)) True s) = EOS_Success \<longleftrightarrow> VersionInRange v latest \<and> WasEnumerated ty s"
  by (simp add: CopyModInfo_def split: prod.split)

end
