(* ===== verification/Accounts.thy ===== *)
theory Accounts
  imports Platform
begin

text \<open>
  The two login interfaces: \<open>src/interfaces/Auth.h\<close>, \<open>Auth.cpp\<close> (the Epic account) and
  \<open>src/interfaces/Connect.h\<close>, \<open>Connect.cpp\<close> (the product user).  Each keeps one flag for the one
  local user and a registry of observers; a login may carry a Steam session ticket, which the platform
  notes (theory Platform).  The closures read the registry when they run
  (\<open>run_account_task\<close>).

  The answer of the loaded Steam module is a parameter (\<open>query\<close>), as is \<open>std::hash\<close>.

  The facts: the announcements of a history of calls that pass a completion form a chain of status
  changes ending in the current status; a login without a completion is never announced;
  \<open>EOS_Connect_Logout\<close> answers with success and changes nothing; a made-up Steam id is an individual
  account.
\<close>

datatype login_status = EOS_LS_NotLoggedIn | EOS_LS_LoggedIn

datatype credential_type =
    EOS_ECT_STEAM_APP_TICKET | EOS_ECT_STEAM_SESSION_TICKET | EOS_ECT_PSN_ID_TOKEN | EOS_ECT_XBL_XSTS_TOKEN
  | EOS_ECT_DISCORD_ACCESS_TOKEN | EOS_ECT_GOG_SESSION_TICKET | EOS_ECT_NINTENDO_ID_TOKEN
  | EOS_ECT_NINTENDO_NSA_ID_TOKEN | EOS_ECT_UPLAY_ACCESS_TOKEN | EOS_ECT_OPENID_ACCESS_TOKEN
  | EOS_ECT_APPLE_ID_TOKEN | EOS_ECT_GOOGLE_ID_TOKEN | EOS_ECT_OCULUS_USERID_NONCE | EOS_ECT_ITCHIO_JWT
  | EOS_ECT_ITCHIO_KEY | EOS_ECT_AMAZON_ACCESS_TOKEN | EOS_ECT_VIVEPORT_USER_TOKEN | EOS_ECT_OTHER

datatype account_type =
    EOS_EAT_EPIC | EOS_EAT_STEAM | EOS_EAT_PSN | EOS_EAT_XBL | EOS_EAT_DISCORD | EOS_EAT_GOG | EOS_EAT_NINTENDO
  | EOS_EAT_UPLAY | EOS_EAT_OPENID | EOS_EAT_APPLE | EOS_EAT_GOOGLE | EOS_EAT_OCULUS | EOS_EAT_ITCHIO
  | EOS_EAT_AMAZON | EOS_EAT_VIVEPORT

fun AccountTypeFromCredential :: "credential_type \<Rightarrow> account_type" where
  "AccountTypeFromCredential EOS_ECT_STEAM_APP_TICKET = EOS_EAT_STEAM"
| "AccountTypeFromCredential EOS_ECT_STEAM_SESSION_TICKET = EOS_EAT_STEAM"
| "AccountTypeFromCredential EOS_ECT_PSN_ID_TOKEN = EOS_EAT_PSN"
| "AccountTypeFromCredential EOS_ECT_XBL_XSTS_TOKEN = EOS_EAT_XBL"
| "AccountTypeFromCredential EOS_ECT_DISCORD_ACCESS_TOKEN = EOS_EAT_DISCORD"
| "AccountTypeFromCredential EOS_ECT_GOG_SESSION_TICKET = EOS_EAT_GOG"
| "AccountTypeFromCredential EOS_ECT_NINTENDO_ID_TOKEN = EOS_EAT_NINTENDO"
| "AccountTypeFromCredential EOS_ECT_NINTENDO_NSA_ID_TOKEN = EOS_EAT_NINTENDO"
| "AccountTypeFromCredential EOS_ECT_UPLAY_ACCESS_TOKEN = EOS_EAT_UPLAY"
| "AccountTypeFromCredential EOS_ECT_OPENID_ACCESS_TOKEN = EOS_EAT_OPENID"
| "AccountTypeFromCredential EOS_ECT_APPLE_ID_TOKEN = EOS_EAT_APPLE"
| "AccountTypeFromCredential EOS_ECT_GOOGLE_ID_TOKEN = EOS_EAT_GOOGLE"
| "AccountTypeFromCredential EOS_ECT_OCULUS_USERID_NONCE = EOS_EAT_OCULUS"
| "AccountTypeFromCredential EOS_ECT_ITCHIO_JWT = EOS_EAT_ITCHIO"
| "AccountTypeFromCredential EOS_ECT_ITCHIO_KEY = EOS_EAT_ITCHIO"
| "AccountTypeFromCredential EOS_ECT_AMAZON_ACCESS_TOKEN = EOS_EAT_AMAZON"
| "AccountTypeFromCredential EOS_ECT_VIVEPORT_USER_TOKEN = EOS_EAT_VIVEPORT"
| "AccountTypeFromCredential EOS_ECT_OTHER = EOS_EAT_EPIC"

record auth =
  auLoggedIn :: bool
  auStatusChanged :: "nentry list"

record connect =
  coLoggedIn :: bool
  coExternalType :: account_type
  coExternalDisplayName :: string
  coStatusChanged :: "nentry list"
  coAuthExpiration :: "nentry list"

definition auth_init :: auth where
  "auth_init = \<lparr>auLoggedIn = False, auStatusChanged = []\<rparr>"

definition connect_init :: connect where
  "connect_init = \<lparr>coLoggedIn = False, coExternalType = EOS_EAT_EPIC, coExternalDisplayName = [],
     coStatusChanged = [], coAuthExpiration = []\<rparr>"

definition epic_user :: "platform \<Rightarrow> epic option" where
  "epic_user p = idEpic (plIdentity p)"

definition product_user :: "platform \<Rightarrow> puid option" where
  "product_user p = idProduct (plIdentity p)"

section \<open>Auth\<close>

text \<open>A login's closure: its completion and whether it changed the status; a logout's completion may be
  missing.\<close>

datatype auth_task =
    AuthLoginTask nat nat "epic option" bool
  | AuthLogoutTask "nat option" nat "epic option" bool
  | AuthLinkDone nat nat "epic option"
  | AuthPlainDone nat nat
  | AuthQueryIdTokenDone nat nat "epic option" "epic option"

datatype auth_call =
    AuthLoginCb nat nat "epic option"
  | AuthLogoutCb nat nat "epic option"
  | AuthStatusCb nat nat "epic option" login_status login_status
  | AuthOtherCb nat nat

definition FireStatusChanged :: "platform \<Rightarrow> login_status \<Rightarrow> login_status \<Rightarrow> auth \<Rightarrow> auth_call list" where
  "FireStatusChanged p prev now s =
     map (\<lambda>e. AuthStatusCb (neFn e) (neCd e) (epic_user p) prev now) (auStatusChanged s)"

fun run_auth_task :: "platform \<Rightarrow> auth_task \<Rightarrow> auth \<Rightarrow> auth_call list" where
  "run_auth_task p (AuthLoginTask f cd user was) s =
     AuthLoginCb f cd user # (if was then [] else FireStatusChanged p EOS_LS_NotLoggedIn EOS_LS_LoggedIn s)"
| "run_auth_task p (AuthLogoutTask cb cd user was) s =
     (case cb of None \<Rightarrow> [] | Some f \<Rightarrow> [AuthLogoutCb f cd user]) @
     (if was then FireStatusChanged p EOS_LS_LoggedIn EOS_LS_NotLoggedIn s else [])"
| "run_auth_task p (AuthLinkDone f cd user) s = [AuthOtherCb f cd]"
| "run_auth_task p (AuthPlainDone f cd) s = [AuthOtherCb f cd]"
| "run_auth_task p (AuthQueryIdTokenDone f cd a b) s = [AuthOtherCb f cd]"

datatype login_credential_type = EOS_LCT_ExternalAuth | EOS_LCT_OTHER

record auth_credentials =
  acrApiVersion :: int
  acrType :: login_credential_type
  acrExternalType :: credential_type
  acrToken :: "string option"

definition Auth_Login ::
  "u64 \<Rightarrow> (int \<times> auth_credentials option) option \<Rightarrow> nat \<Rightarrow> nat option \<Rightarrow> platform \<Rightarrow> auth \<Rightarrow>
   platform \<times> auth \<times> auth_task event list" where
  "Auth_Login query options cd cb p s =
     (let p1 = (case options of
                  Some (v, Some c) \<Rightarrow>
                    if v \<ge> 1 \<and> acrType c = EOS_LCT_ExternalAuth \<and> HasField (acrApiVersion c) 3 \<and>
                       acrExternalType c = EOS_ECT_STEAM_SESSION_TICKET \<and> acrToken c \<noteq> None
                    then NoteSteamSessionTicket query (acrToken c) p else p
                | _ \<Rightarrow> p)
      in (p1, s\<lparr>auLoggedIn := True\<rparr>, complete cb (\<lambda>f. AuthLoginTask f cd (epic_user p) (auLoggedIn s))))"

definition Auth_Logout ::
  "epic option option \<Rightarrow> nat \<Rightarrow> nat option \<Rightarrow> platform \<Rightarrow> auth \<Rightarrow> auth \<times> auth_task event list" where
  "Auth_Logout options cd cb p s =
     (let user = (case options of None \<Rightarrow> epic_user p | Some u \<Rightarrow> u)
      in (s\<lparr>auLoggedIn := False\<rparr>, [EvPost (AuthLogoutTask cb cd user (auLoggedIn s))]))"

definition Auth_LoggedInCount :: "auth \<Rightarrow> int" where
  "Auth_LoggedInCount s = (if auLoggedIn s then 1 else 0)"

definition Auth_LoggedInByIndex :: "platform \<Rightarrow> int \<Rightarrow> auth \<Rightarrow> epic option" where
  "Auth_LoggedInByIndex p i s = (if auLoggedIn s \<and> i = 0 then epic_user p else None)"

definition Auth_LoginStatus :: "platform \<Rightarrow> epic option \<Rightarrow> auth \<Rightarrow> login_status" where
  "Auth_LoginStatus p user s = (if auLoggedIn s \<and> user = epic_user p then EOS_LS_LoggedIn else EOS_LS_NotLoggedIn)"

definition Auth_GetSelectedAccountId :: "platform \<Rightarrow> bool \<Rightarrow> auth \<Rightarrow> eresult \<times> epic option" where
  "Auth_GetSelectedAccountId p out s =
     (if \<not> out then (EOS_InvalidParameters, None)
      else if \<not> auLoggedIn s then (EOS_InvalidAuth, None)
      else (EOS_Success, epic_user p))"

text \<open>The tokens: the account they are for; the texts are fixed.\<close>

definition Auth_CopyToken :: "platform \<Rightarrow> epic option \<Rightarrow> bool \<Rightarrow> auth \<Rightarrow> eresult \<times> epic option" where
  "Auth_CopyToken p account out s =
     (if \<not> out then (EOS_InvalidParameters, None)
      else if \<not> auLoggedIn s then (EOS_NotFound, None)
      else (EOS_Success, if account \<noteq> None then account else epic_user p))"

definition Auth_LinkAccount :: "nat \<Rightarrow> nat option \<Rightarrow> platform \<Rightarrow> auth_task event list" where
  "Auth_LinkAccount cd cb p = complete cb (\<lambda>f. AuthLinkDone f cd (epic_user p))"

text \<open>\<open>DeletePersistentAuth\<close>, \<open>VerifyUserAuth\<close>, \<open>VerifyIdToken\<close>.\<close>

definition Auth_PlainCall :: "nat \<Rightarrow> nat option \<Rightarrow> auth_task event list" where
  "Auth_PlainCall cd cb = complete cb (\<lambda>f. AuthPlainDone f cd)"

definition Auth_QueryIdToken ::
  "(epic option \<times> epic option) option \<Rightarrow> nat \<Rightarrow> nat option \<Rightarrow> platform \<Rightarrow> auth_task event list" where
  "Auth_QueryIdToken options cd cb p =
     (case options of
        None \<Rightarrow> complete cb (\<lambda>f. AuthQueryIdTokenDone f cd (epic_user p) (epic_user p))
      | Some (local, target) \<Rightarrow> complete cb (\<lambda>f. AuthQueryIdTokenDone f cd local target))"

definition Auth_AddNotify :: "nat option \<Rightarrow> nat \<Rightarrow> nat \<Rightarrow> auth \<Rightarrow> nat \<times> nat \<times> auth" where
  "Auth_AddNotify fn cd c s =
     (case Notify_Add fn cd c (auStatusChanged s) of (i, c', es) \<Rightarrow> (i, c', s\<lparr>auStatusChanged := es\<rparr>))"

definition Auth_RemoveNotify :: "nat \<Rightarrow> auth \<Rightarrow> auth" where
  "Auth_RemoveNotify i s = s\<lparr>auStatusChanged := Notify_Remove i (auStatusChanged s)\<rparr>"

section \<open>Connect\<close>

datatype connect_task =
    ConnectLoginTask nat nat "puid option" bool
  | ConnectSimpleDone nat nat "puid option"
  | ConnectPlainDone nat nat
  | VerifyIdTokenDone nat nat "puid option"

datatype connect_call =
    ConnectLoginCb nat nat "puid option"
  | ConnectStatusCb nat nat "puid option" login_status login_status
  | ConnectOtherCb nat nat "puid option"

fun run_connect_task :: "connect_task \<Rightarrow> connect \<Rightarrow> connect_call list" where
  "run_connect_task (ConnectLoginTask f cd user was) s =
     ConnectLoginCb f cd user #
     (if was then []
      else map (\<lambda>e. ConnectStatusCb (neFn e) (neCd e) user EOS_LS_NotLoggedIn EOS_LS_LoggedIn) (coStatusChanged s))"
| "run_connect_task (ConnectSimpleDone f cd user) s = [ConnectOtherCb f cd user]"
| "run_connect_task (ConnectPlainDone f cd) s = [ConnectOtherCb f cd None]"
| "run_connect_task (VerifyIdTokenDone f cd user) s = [ConnectOtherCb f cd user]"

record connect_login_options =
  cnApiVersion :: int
  cnCredentials :: "(credential_type \<times> string option) option"
  cnUserLoginInfo :: "string option option"

definition note_credentials :: "u64 \<Rightarrow> connect_login_options \<Rightarrow> platform \<Rightarrow> connect \<Rightarrow> platform \<times> connect" where
  "note_credentials query opt p s =
     (case cnCredentials opt of
        None \<Rightarrow> (p, s)
      | Some (ty, token) \<Rightarrow>
          (if ty = EOS_ECT_STEAM_SESSION_TICKET \<and> token \<noteq> None then NoteSteamSessionTicket query token p else p,
           s\<lparr>coExternalType := AccountTypeFromCredential ty\<rparr>))"

definition note_display_name :: "connect_login_options \<Rightarrow> connect \<Rightarrow> connect" where
  "note_display_name opt s =
     (case cnUserLoginInfo opt of
        Some (Some name) \<Rightarrow> if HasField (cnApiVersion opt) 2 then s\<lparr>coExternalDisplayName := name\<rparr> else s
      | _ \<Rightarrow> s)"

definition Connect_Login ::
  "u64 \<Rightarrow> connect_login_options option \<Rightarrow> nat \<Rightarrow> nat option \<Rightarrow> platform \<Rightarrow> connect \<Rightarrow>
   platform \<times> connect \<times> connect_task event list" where
  "Connect_Login query options cd cb p s =
     (case (case options of
              None \<Rightarrow> (p, s)
            | Some opt \<Rightarrow> (case note_credentials query opt p s of (p1, s1) \<Rightarrow> (p1, note_display_name opt s1)))
      of (p1, s1) \<Rightarrow>
        (p1, s1\<lparr>coLoggedIn := True\<rparr>,
         complete cb (\<lambda>f. ConnectLoginTask f cd (product_user p) (coLoggedIn s))))"

definition Connect_CreateUser :: "nat \<Rightarrow> nat option \<Rightarrow> platform \<Rightarrow> connect \<Rightarrow> connect \<times> connect_task event list" where
  "Connect_CreateUser cd cb p s =
     (s\<lparr>coLoggedIn := True\<rparr>, complete cb (\<lambda>f. ConnectSimpleDone f cd (product_user p)))"

text \<open>\<open>PostSimple\<close> for the calls that only report success: \<open>Logout\<close> (with the user of its options),
  \<open>LinkAccount\<close>, \<open>UnlinkAccount\<close> and the two mapping queries (falling back to the local user).\<close>

definition Connect_Logout :: "puid option option \<Rightarrow> nat \<Rightarrow> nat option \<Rightarrow> connect \<Rightarrow> connect \<times> connect_task event list" where
  "Connect_Logout options cd cb s =
     (let user = (case options of None \<Rightarrow> None | Some u \<Rightarrow> u) in (s, complete cb (\<lambda>f. ConnectSimpleDone f cd user)))"

definition Connect_PostSimple :: "puid option option \<Rightarrow> nat \<Rightarrow> nat option \<Rightarrow> platform \<Rightarrow> connect_task event list" where
  "Connect_PostSimple options cd cb p =
     (let user = (case options of None \<Rightarrow> product_user p | Some u \<Rightarrow> u) in complete cb (\<lambda>f. ConnectSimpleDone f cd user))"

definition Connect_TransferDeviceIdAccount :: "nat \<Rightarrow> nat option \<Rightarrow> platform \<Rightarrow> connect_task event list" where
  "Connect_TransferDeviceIdAccount cd cb p = complete cb (\<lambda>f. ConnectSimpleDone f cd (product_user p))"

text \<open>\<open>CreateDeviceId\<close> and \<open>DeleteDeviceId\<close>.\<close>

definition Connect_DeviceId :: "nat \<Rightarrow> nat option \<Rightarrow> connect_task event list" where
  "Connect_DeviceId cd cb = complete cb (\<lambda>f. ConnectPlainDone f cd)"

definition Connect_VerifyIdToken :: "puid option option option \<Rightarrow> nat \<Rightarrow> nat option \<Rightarrow> connect_task event list" where
  "Connect_VerifyIdToken options cd cb =
     (let user = (case options of Some (Some u) \<Rightarrow> u | _ \<Rightarrow> None) in complete cb (\<lambda>f. VerifyIdTokenDone f cd user))"

definition Connect_LoggedInUsersCount :: "connect \<Rightarrow> int" where
  "Connect_LoggedInUsersCount s = (if coLoggedIn s then 1 else 0)"

definition Connect_LoggedInUserByIndex :: "platform \<Rightarrow> int \<Rightarrow> connect \<Rightarrow> puid option" where
  "Connect_LoggedInUserByIndex p i s = (if coLoggedIn s \<and> i = 0 then product_user p else None)"

definition Connect_LoginStatus :: "platform \<Rightarrow> puid option \<Rightarrow> connect \<Rightarrow> login_status" where
  "Connect_LoginStatus p user s =
     (if coLoggedIn s \<and> user = product_user p then EOS_LS_LoggedIn else EOS_LS_NotLoggedIn)"

definition Connect_CopyIdToken :: "platform \<Rightarrow> puid option option \<Rightarrow> bool \<Rightarrow> connect \<Rightarrow> eresult \<times> puid option" where
  "Connect_CopyIdToken p options out s =
     (if \<not> out then (EOS_InvalidParameters, None)
      else if \<not> coLoggedIn s then (EOS_NotFound, None)
      else (EOS_Success, case options of Some (Some u) \<Rightarrow> Some u | _ \<Rightarrow> product_user p))"

definition Connect_AddNotifyLoginStatusChanged :: "nat option \<Rightarrow> nat \<Rightarrow> nat \<Rightarrow> connect \<Rightarrow> nat \<times> nat \<times> connect" where
  "Connect_AddNotifyLoginStatusChanged fn cd c s =
     (case Notify_Add fn cd c (coStatusChanged s) of (i, c', es) \<Rightarrow> (i, c', s\<lparr>coStatusChanged := es\<rparr>))"

definition Connect_RemoveNotifyLoginStatusChanged :: "nat \<Rightarrow> connect \<Rightarrow> connect" where
  "Connect_RemoveNotifyLoginStatusChanged i s = s\<lparr>coStatusChanged := Notify_Remove i (coStatusChanged s)\<rparr>"

definition Connect_AddNotifyAuthExpiration :: "nat option \<Rightarrow> nat \<Rightarrow> nat \<Rightarrow> connect \<Rightarrow> nat \<times> nat \<times> connect" where
  "Connect_AddNotifyAuthExpiration fn cd c s =
     (case Notify_Add fn cd c (coAuthExpiration s) of (i, c', es) \<Rightarrow> (i, c', s\<lparr>coAuthExpiration := es\<rparr>))"

definition Connect_RemoveNotifyAuthExpiration :: "nat \<Rightarrow> connect \<Rightarrow> connect" where
  "Connect_RemoveNotifyAuthExpiration i s = s\<lparr>coAuthExpiration := Notify_Remove i (coAuthExpiration s)\<rparr>"

section \<open>Account mappings\<close>

definition GetExternalAccountMapping :: "string option option \<Rightarrow> puid option" where
  "GetExternalAccountMapping options = (case options of Some (Some external) \<Rightarrow> intern external | _ \<Rightarrow> None)"

definition GetProductUserIdMapping ::
  "puid option option \<Rightarrow> bool \<Rightarrow> int option \<Rightarrow> eresult \<times> int option \<times> string option" where
  "GetProductUserIdMapping options has_buffer len =
     (case (options, len) of
        (Some target, Some n) \<Rightarrow>
          if id_text target = [] then (EOS_NotFound, Some n, None)
          else (case sized_copy (id_text target) has_buffer n of (r, m, t) \<Rightarrow> (r, Some m, t))
      | _ \<Rightarrow> (EOS_InvalidParameters, len, None))"

definition GetProductUserExternalAccountCount :: "puid option option \<Rightarrow> nat" where
  "GetProductUserExternalAccountCount options = (case options of Some (Some _) \<Rightarrow> 1 | _ \<Rightarrow> 0)"

text \<open>The made-up Steam id of an account without a real one.\<close>

definition synthesised_steam_id :: "(string \<Rightarrow> u64) \<Rightarrow> string \<Rightarrow> u64" where
  "synthesised_steam_id hash product = 76561197960265728 + hash product mod 2000000000"

definition ExternalAccountId ::
  "u64 \<Rightarrow> (string \<Rightarrow> u64) \<Rightarrow> platform \<Rightarrow> puid option \<Rightarrow> account_type \<Rightarrow> string \<times> platform" where
  "ExternalAccountId query hash p target ty =
     (let product = id_text target in
      if ty \<noteq> EOS_EAT_STEAM then (product, p)
      else case (if target = product_user p then LocalSteamId query p else (0, p)) of
             (known, p1) \<Rightarrow>
               (dec_str (unat (if known \<noteq> 0 then known else synthesised_steam_id hash product)), p1))"

record external_account_info =
  eaProductUserId :: "puid option"
  eaDisplayName :: string
  eaAccountId :: string
  eaAccountIdType :: account_type

definition ReportedDisplayName :: "platform \<Rightarrow> connect \<Rightarrow> string" where
  "ReportedDisplayName p s =
     (if coExternalDisplayName s = [] then idDisplayName (plIdentity p) else coExternalDisplayName s)"

definition MakeExternalAccountInfo ::
  "u64 \<Rightarrow> (string \<Rightarrow> u64) \<Rightarrow> platform \<Rightarrow> connect \<Rightarrow> puid option \<Rightarrow> external_account_info \<times> platform" where
  "MakeExternalAccountInfo query hash p s target =
     (case ExternalAccountId query hash p target (coExternalType s) of
        (i, p1) \<Rightarrow>
          (\<lparr>eaProductUserId = target, eaDisplayName = c_str (ReportedDisplayName p s), eaAccountId = c_str i,
            eaAccountIdType = coExternalType s\<rparr>, p1))"

text \<open>The four copies differ in the test on their options: the index is 0, the type is the reported one, or
  none (by account id, and \<open>CopyProductUserInfo\<close>).\<close>

definition copy_account ::
  "u64 \<Rightarrow> (string \<Rightarrow> u64) \<Rightarrow> ('o \<Rightarrow> bool) \<Rightarrow> (puid option \<times> 'o) option \<Rightarrow> bool \<Rightarrow> platform \<Rightarrow> connect \<Rightarrow>
   eresult \<times> external_account_info option \<times> platform" where
  "copy_account query hash test options out p s =
     (case options of
        None \<Rightarrow> (EOS_InvalidParameters, None, p)
      | Some (target, x) \<Rightarrow>
          if \<not> out then (EOS_InvalidParameters, None, p)
          else if target = None \<or> \<not> test x then (EOS_NotFound, None, p)
          else (case MakeExternalAccountInfo query hash p s target of (info, p1) \<Rightarrow> (EOS_Success, Some info, p1)))"

definition CopyProductUserExternalAccountByIndex ::
  "u64 \<Rightarrow> (string \<Rightarrow> u64) \<Rightarrow> (puid option \<times> nat) option \<Rightarrow> bool \<Rightarrow> platform \<Rightarrow> connect \<Rightarrow>
   eresult \<times> external_account_info option \<times> platform" where
  "CopyProductUserExternalAccountByIndex query hash = copy_account query hash (\<lambda>i. i = 0)"

definition CopyProductUserExternalAccountByAccountType ::
  "u64 \<Rightarrow> (string \<Rightarrow> u64) \<Rightarrow> (puid option \<times> account_type) option \<Rightarrow> bool \<Rightarrow> platform \<Rightarrow> connect \<Rightarrow>
   eresult \<times> external_account_info option \<times> platform" where
  "CopyProductUserExternalAccountByAccountType query hash options out p s =
     copy_account query hash (\<lambda>t. t = coExternalType s) options out p s"

definition CopyProductUserInfo ::
  "u64 \<Rightarrow> (string \<Rightarrow> u64) \<Rightarrow> (puid option \<times> unit) option \<Rightarrow> bool \<Rightarrow> platform \<Rightarrow> connect \<Rightarrow>
   eresult \<times> external_account_info option \<times> platform" where
  "CopyProductUserInfo query hash = copy_account query hash (\<lambda>_. True)"

section \<open>Facts\<close>

text \<open>The status changes the closures of a history announce to one observer.\<close>

datatype auth_event =
    LoginCall "(int \<times> auth_credentials option) option" nat "nat option"
  | LogoutCall "epic option option" nat "nat option"

fun auth_event_run :: "u64 \<Rightarrow> platform \<Rightarrow> auth_event \<Rightarrow> auth \<Rightarrow> auth \<times> auth_task list" where
  "auth_event_run query p (LoginCall options cd cb) s =
     (case Auth_Login query options cd cb p s of (_, s1, evs) \<Rightarrow> (s1, posts evs))"
| "auth_event_run query p (LogoutCall options cd cb) s =
     (case Auth_Logout options cd cb p s of (s1, evs) \<Rightarrow> (s1, posts evs))"

fun auth_history :: "u64 \<Rightarrow> platform \<Rightarrow> auth_event list \<Rightarrow> auth \<Rightarrow> auth \<times> auth_task list" where
  "auth_history query p [] s = (s, [])"
| "auth_history query p (e # es) s =
     (case auth_event_run query p e s of (s1, ts) \<Rightarrow>
        case auth_history query p es s1 of (s2, ts') \<Rightarrow> (s2, ts @ ts'))"

fun announced :: "auth_task \<Rightarrow> (login_status \<times> login_status) list" where
  "announced (AuthLoginTask f cd user was) = (if was then [] else [(EOS_LS_NotLoggedIn, EOS_LS_LoggedIn)])"
| "announced (AuthLogoutTask cb cd user was) = (if was then [(EOS_LS_LoggedIn, EOS_LS_NotLoggedIn)] else [])"
| "announced _ = []"

text \<open>\<open>announced\<close> is what every observer hears of a closure.\<close>

lemma announced_heard:
  assumes "auStatusChanged s = [e]"
  shows "List.map_filter (\<lambda>c. case c of AuthStatusCb f cd u a b \<Rightarrow> Some (a, b) | _ \<Rightarrow> None) (run_auth_task p t s) = announced t"
  using assms by (cases t) (auto simp: FireStatusChanged_def map_filter_simps split: option.splits)

fun chain_from :: "login_status \<Rightarrow> (login_status \<times> login_status) list \<Rightarrow> login_status \<Rightarrow> bool" where
  "chain_from a [] z \<longleftrightarrow> a = z"
| "chain_from a ((b, c) # xs) z \<longleftrightarrow> a = b \<and> b \<noteq> c \<and> chain_from c xs z"

definition status_of :: "auth \<Rightarrow> login_status" where
  "status_of s = (if auLoggedIn s then EOS_LS_LoggedIn else EOS_LS_NotLoggedIn)"

definition completed :: "auth_event \<Rightarrow> bool" where
  "completed e = (case e of LoginCall _ _ cb \<Rightarrow> cb \<noteq> None | LogoutCall _ _ _ \<Rightarrow> True)"

lemma announcements_chain:
  "\<forall>e \<in> set es. completed e \<Longrightarrow> auth_history query p es s = (s', ts) \<Longrightarrow>
   chain_from (status_of s) (concat (map announced ts)) (status_of s')"
proof (induction es arbitrary: s ts)
  case Nil
  then show ?case by simp
next
  case (Cons e es)
  obtain s1 ts1 where e: "auth_event_run query p e s = (s1, ts1)" by force
  obtain ts2 where h: "auth_history query p es s1 = (s', ts2)" "ts = ts1 @ ts2"
    using Cons.prems(2) e by (auto split: prod.splits)
  have tail: "chain_from (status_of s1) (concat (map announced ts2)) (status_of s')"
    using Cons.IH [OF _ h(1)] Cons.prems(1) by simp
  show ?case
  proof (cases e)
    case (LoginCall options cd cb)
    then obtain f where "cb = Some f" using Cons.prems(1) by (auto simp: completed_def)
    then show ?thesis using e LoginCall h(2) tail
      by (auto simp: Auth_Login_def Let_def status_of_def complete_def)
  next
    case (LogoutCall options cd cb)
    then show ?thesis using e h(2) tail by (auto simp: Auth_Logout_def Let_def status_of_def)
  qed
qed

text \<open>A login that passes no completion changes the status and tells nobody.\<close>

lemma silent_login:
  "Auth_Login query options cd None p s = (p', s', evs) \<Longrightarrow> auLoggedIn s' \<and> posts evs = []"
  by (auto simp: Auth_Login_def Let_def)

text \<open>A connect logout reports success and leaves the user logged in.\<close>

lemma connect_logout_keeps_login:
  "Connect_Logout options cd (Some f) s = (s', evs) \<Longrightarrow>
   s' = s \<and> posts evs = [ConnectSimpleDone f cd (case options of None \<Rightarrow> None | Some u \<Rightarrow> u)]"
  by (auto simp: Connect_Logout_def Let_def)

text \<open>A made-up Steam id lies in the range of individual accounts (unless its account number is zero).\<close>

lemma synthesised_individual:
  assumes "hash product mod 2000000000 \<noteq> 0"
  shows "IsIndividualId (synthesised_steam_id hash product)"
proof -
  let ?m = "hash product mod 2000000000" and ?i = "synthesised_steam_id hash product"
  have m: "unat ?m < 2000000000" by (simp add: unat_mod)
  then have "76561197960265728 + unat ?m < 2 ^ LENGTH(64)" by simp
  then have u: "unat ?i = 76561197960265728 + unat ?m"
    by (simp add: synthesised_steam_id_def unat_word_ariths unat_mod)
  have q: "(76561197960265728 + unat ?m) div 4503599627370496 = 17"
    using m by (intro div_nat_eqI) simp_all
  have r: "(76561197960265728 + unat ?m) mod 4294967296 = unat ?m"
    using m mod_mult_self2 [of "unat ?m" 4294967296 17825793] by (simp add: add.commute)
  have "unat (drop_bit 56 ?i) = 1" "unat (drop_bit 52 ?i) mod 16 = 1" "unat ?i mod 2 ^ 32 = unat ?m"
    using m q r unfolding unat_drop_bit_eq u by (simp_all add: drop_bit_eq_div)
  moreover have "unat ?m \<noteq> 0" using assms by (simp add: unat_eq_zero)
  moreover have "w AND 15 = take_bit 4 w" "w AND 0xFFFFFFFF = take_bit 32 w" for w :: u64
    by (simp_all add: take_bit_eq_mask mask_eq_exp_minus_1)
  moreover have "unat (take_bit n w) = unat w mod 2 ^ n" for n and w :: u64
    by (simp only: unsigned_take_bit_eq) (simp add: take_bit_eq_mod)
  ultimately show ?thesis by (auto simp: IsIndividualId_def word_unat_eq_iff)
qed

end
