(* ===== verification/Spec2Isabelle.thy ===== *)
theory Spec2Isabelle
  imports Prelude Serialize Wire Lan Common Ids Dispatch Peers Sdk Attributes
    P2PStream P2PSend P2PRecv P2P P2POps P2PInv P2PLink P2PProgress P2PFacts P2PReach
    Effects Records LobbyData Lobby LobbyNet LobbyFacts LobbyExports
    SessionData Sessions SessionFacts SessionExports
    Config SteamId Identity Presence CustomInvites Stats Achievements Discovery RTC RTCFacts Overlay Platform UI UIFacts Lifecycle PlatformFacts
    Memory MemoryFacts Logging Moderation Startup Mirror MirrorFacts PlayerDataStorage StorageFacts TitleStorage Ecom Mods Friends Accounts
begin

text \<open>
  EOSEmu: a library with the interface of the Epic Online Services SDK that needs no back end: the nodes of a
  local network find one another by broadcast and run lobbies, sessions, peer-to-peer connections,
  presence and invitations over UDP datagrams; the remaining services answer from local state and
  configuration.  This development models the library under \<open>src/src\<close> function by function and proves what
  its parts promise.

  \<^bold>\<open>The program.\<close>  A game creates one platform and ticks it.  A received datagram is framed
  (\<open>net/Wire.h\<close>, \<open>net/Lan.cpp\<close>), routed by its type (\<open>core/Platform.cpp\<close>) and handled by one interface, whose
  payloads are written and read by \<open>net/Serialize.h\<close>.  Calls and handlers change the state of their
  interface, send datagrams and post closures to the dispatcher (\<open>core/Dispatch.h\<close>); a tick pumps every
  interface, announces the node, drops stale peers and drains the dispatcher, which is where the game's
  callbacks run.  Accordingly an operation is a function from the state of its interface (a
  \<open>record\<close>) and its arguments to a result, the new state and a list of events (theory Effects): the datagrams it
  sends and the closures it posts, in order.  A call through a null handle or with null options is an
  argument \<open>None\<close>.

  \<^bold>\<open>Which theory models what.\<close>
  \<^item> Prelude: integers, results, association lists for the maps of the code, ordered maps; Sdk: the constants of
    the SDK headers as a parameter; Records: what lobbies and sessions share.
  \<^item> \<open>net/\<close>: Serialize (\<open>ByteWriter\<close>, \<open>ByteReader\<close>), Wire (header, message types), Lan (endpoints,
    framing, send and receive paths).
  \<^item> \<open>core/\<close>: Ids (interned account ids with their heap), Dispatch, Peers (the peer directory), Config, Identity,
    SteamId, Discovery (Hello and Goodbye), Platform (routing, announcing, the tick), Lifecycle (construction,
    Initialize, Create, Release, Shutdown), Memory (allocators and API blocks at the level of bytes and addresses), Logging
    (log and stub trace), Startup (lifecycle, allocators and log together, interface getters, status calls).
  \<^item> \<open>interfaces/P2P\<close>: P2PStream, P2PSend, P2PRecv (sequence numbers and the two halves of a stream),
    P2P (connections, calls, datagrams), P2POps (pump, close, configuration).
  \<^item> \<open>interfaces/Lobby\<close>: LobbyData (records and their wire form), Lobby (calls), LobbyNet
    (\<open>OnDatagram\<close>), LobbyExports (handles).  \<open>interfaces/Sessions\<close>: SessionData, Sessions, SessionExports.
  \<^item> The other interfaces: Attributes and Common (shared helpers), Presence, CustomInvites, Stats, Achievements, Mirror
    and PlayerDataStorage, TitleStorage, Ecom, Mods, Friends (with UserInfo), Accounts (Auth and Connect),
    RTC (with its audio and data calls), Overlay and UI, Moderation (Leaderboards, Sanctions, Reports).

  The theories whose names end in Facts, and P2PInv, P2PReach, P2PLink and P2PProgress, hold the lemmas about a
  component that has grown; smaller components have theirs in a section of their own theory.

  \<^bold>\<open>What is shown.\<close>
  \<^item> Transport and encoding: every reader undoes its writer and stays inside its input (locales over the readers in
    Serialize); frames and payloads survive the way to any other node; whatever bytes arrive, a decoded
    record is well typed.
  \<^item> Reliable streams: a link of two nodes over a network that loses, duplicates and reorders datagrams is a
    step relation (P2PLink), whose pump puts on the network what \<open>pump_pending\<close> returns and nothing else.  Ordered delivery
    is a prefix, nothing is delivered twice, nothing acknowledged is lost, and from every reachable link, even with
    every datagram on the network lost, retransmission can deliver everything (P2PProgress), given an unlimited
    inbox, fewer than \<open>2 ^ 31\<close> packets and a stream that is not closed.
  \<^item> State invariants of the peer-to-peer, lobby, sessions, overlay, storage and platform states, by rule
    induction over everything that can happen to them, datagrams from any sender included.
  \<^item> Replication: an announced lobby or session, a join, a leave, a handover, a withdrawal and a
    presence edit reach the other nodes as the specification of the receiver says.
  \<^item> Services: files survive a restart (disk and memory agree in every reachable state), transfers end,
    rosters kept from voice events are exact, login status changes form a chain, settings changes of the
    overlay are announced exactly when they are news, a configuration file reads back, log messages are filtered by
    the history of levels set.
  \<^item> Memory: for any use of API blocks, releasing one hands each of its allocations to the release
    function exactly once and leaves everything else alone.

  \<^bold>\<open>Interfaces as locales.\<close>  A client that relies on another component is proved in a locale of the laws it
  uses and instantiated where the provider is defined: the readers (Serialize), the codecs and typed readers built on them, the
  disk mirror (MirrorFacts), canonical handles (Ids), the notification registries and the size query of copied strings (both Common,
  used by Ids and the interfaces); every one has an interpretation on the model's own definitions.

  \<^bold>\<open>Parameters and bounds.\<close>  Times are nanoseconds of the clock, passed in; one call
  gets one reading, also where the code reads the clock again a moment later (a tick reads it in \<open>Platform::Tick\<close>,
  \<open>MarkStale\<close> and the peer-to-peer pump).  Socket calls, the file system, the
  environment, the hash of strings, the answer of a loaded Steam module, the memory sources and the game's own
  callbacks are arguments, with what is relied on of them as named hypotheses (\<open>sdk_ok\<close>,
  \<open>source_ok\<close>).  Sequence numbers travel as 32 bits, so the stream theorems hold for fewer than
  \<open>2 ^ 31\<close> packets in flight; a datagram has at most 16 KiB, a stored file 200 MiB, a log line 1023
  characters.  The transfer loop runs on fuel; \<open>transfer_ends\<close> shows that one round more than the size
  limit is enough, for callbacks that make progress, and StorageFacts that the code does hang on one that does not.  All other
  loops are recursions with a proved measure.  Addresses have 64 bits and the largest alignment is 16, as on the
  supported targets.  Mutexes are not modelled: every method locks its own state, so calls are atomic steps,
  and the step relations take them in any order.

  \<^bold>\<open>Not modelled.\<close>
  \<^item> The overlay's window thread, its drawing (\<open>overlay/Overlay.cpp\<close>) and the swap chain hooks
    (\<open>overlay/SwapchainHook.cpp\<close>): calls of Direct3D and ImGui.  What a node sees of the overlay is in theory
    Overlay.
  \<^item> \<open>src/generated\<close>: generated entry points that trace their name, answer \<open>EOS_NotImplemented\<close>, zero or null, and
    complete asynchronous calls with \<open>EOS_NotImplemented\<close>; what they have in common is in theories Logging (the trace) and
    Startup (\<open>stub_call\<close>, \<open>StubComplete\<close>), the list of names is left out.
  \<^item> Exported entry points that only check the handle and forward to the method of the same name; the release calls,
    which are \<open>FreeApiBlock\<close> of theory Memory; the texts of trace and diagnostic messages inside the
    interfaces.
  \<^item> The text of result codes, generated from an SDK header that is not in the repository; the lookups of machine, user and
    environment names and of the Steam module, which are parameters; the sample programs and tools.
\<close>

section \<open>Reliable delivery\<close>

text \<open>C1: on an ordered stream the receiving application sees, at every moment and whatever the
  network loses, repeats or reorders, exactly the first \<open>NextToDeliver - 1\<close> packets the sending
  application handed over, in order.\<close>

theorem ordered_delivery_is_a_prefix:
  assumes "id_ok I" "link_reach I ib x" "siOrdered I"
  shows "lkDelivered x = take (rsNextToDeliver (lkRecv x) - 1) (lkSent x)"
  by (rule link_ordered_prefix [OF assms])

theorem ordered_delivery_is_a_prefix_witness:
  "\<exists>x. link_reach demo_id demo_inbox x \<and> lkSent x = [[7]] \<and>
     lkDelivered x = take (rsNextToDeliver (lkRecv x) - 1) [[7]]"
  using demo_finished ordered_delivery_is_a_prefix [OF demo_id_ok(1) _ demo_id_ok(2)] by metis

text \<open>C2: on any reliable stream, ordered or not, every packet the receiving application sees was
  sent, and none is seen twice: what it has seen is the sent packets at some distinct positions.\<close>

theorem reliable_delivery_at_most_once:
  assumes "id_ok I" "link_reach I ib x"
  shows "\<exists>qs. distinct qs \<and> (\<forall>q \<in> set qs. 1 \<le> q \<and> q \<le> length (lkSent x)) \<and>
    lkDelivered x = map (\<lambda>q. lkSent x ! (q - 1)) qs"
  using link_exactly_once [OF assms] by (simp add: in_log_def)

theorem reliable_delivery_at_most_once_witness:
  "\<exists>x. link_reach demo_id demo_inbox x \<and> lkSent x = [[7]] \<and>
     (\<exists>qs. distinct qs \<and> (\<forall>q \<in> set qs. 1 \<le> q \<and> q \<le> length (lkSent x)) \<and>
        lkDelivered x = map (\<lambda>q. lkSent x ! (q - 1)) qs)"
  using demo_finished reliable_delivery_at_most_once [OF demo_id_ok(1)] by metis

text \<open>C3: on any reliable stream a packet the sender has forgotten has been accepted by the receiver, so
  once nothing is pending at the sender and nothing is buffered at the receiver, what has been delivered
  is everything sent, each packet once, and on an ordered stream in the order sent.\<close>

theorem no_packet_is_lost:
  assumes "id_ok I" "link_reach I ib x"
  shows "(\<forall>q. 1 \<le> q \<and> q \<le> length (lkSent x) \<longrightarrow>
      q \<in> set (keys (ssPending (lkSend x))) \<or> q \<in> seen (lkRecv x)) \<and>
    (ssPending (lkSend x) = [] \<and> rsBuffer (lkRecv x) = [] \<longrightarrow>
      mset (lkDelivered x) = mset (lkSent x) \<and> (siOrdered I \<longrightarrow> lkDelivered x = lkSent x))"
  using link_no_loss [OF assms] link_all_delivered [OF link_reach_inv [OF assms]]
  by (auto simp: in_log_def simp del: set_map)

theorem no_packet_is_lost_witness:
  "\<exists>x. link_reach demo_id demo_inbox x \<and> lkSent x = [[7]] \<and> mset (lkDelivered x) = {#[7]#} \<and> lkDelivered x = [[7]]"
proof -
  obtain x where x: "link_reach demo_id demo_inbox x" "lkSent x = [[7]]" "ssPending (lkSend x) = []" "rsBuffer (lkRecv x) = []"
    using demo_finished by blast
  from no_packet_is_lost [OF demo_id_ok(1) x(1)] x demo_id_ok(2) show ?thesis by (intro exI [of _ x]) simp
qed

text \<open>C4: no reachable state of a stream is stuck, even when the network then loses every datagram it
  carries, in both directions: with an unlimited inbox, fewer than \<open>2 ^ 31\<close> packets, and the stream not
  closed, some run of the code's own steps delivers everything sent, once, in order on an ordered stream,
  and leaves nothing pending and nothing buffered.  The run has to retransmit what was lost.\<close>

theorem every_stream_can_finish:
  assumes "id_ok I" "link_reach I ib x" "length (lkSent x) < 2 ^ 31" "ibMax (lkInbox x) = 0"
  shows "\<exists>y. (link_step I)\<^sup>*\<^sup>* (x\<lparr>lkData := [], lkAcks := []\<rparr>) y \<and> lkSent y = lkSent x \<and>
    ssPending (lkSend y) = [] \<and> rsBuffer (lkRecv y) = [] \<and>
    mset (lkDelivered y) = mset (lkSent x) \<and> (siOrdered I \<longrightarrow> lkDelivered y = lkSent x)"
proof -
  note inv = link_reach_inv [OF assms(1,2)]
  from link_can_finish [OF assms(1) inv assms(3,4)] obtain y where
    y: "(link_step I)\<^sup>*\<^sup>* (x\<lparr>lkData := [], lkAcks := []\<rparr>) y" "lkSent y = lkSent x" "ssPending (lkSend y) = []" "rsBuffer (lkRecv y) = []"
    by blast
  have "link_inv I y" by (rule link_inv_steps [OF y(1) assms(1) link_inv_lose [OF inv]]) simp_all
  from link_all_delivered [OF this y(3,4)] y show ?thesis by auto
qed

theorem every_stream_can_finish_witness:
  "\<exists>x y. link_reach demo_id demo_inbox x \<and> lkSent x = [[7]] \<and> lkDelivered x = [] \<and>
     (link_step demo_id)\<^sup>*\<^sup>* (x\<lparr>lkData := [], lkAcks := []\<rparr>) y \<and>
     ssPending (lkSend y) = [] \<and> lkDelivered y = [[7]]"
proof -
  obtain x where x: "link_reach demo_id demo_inbox x" "lkSent x = [[7]]" "lkInbox x = demo_inbox" "lkDelivered x = []"
    using demo_sent by blast
  then have "length (lkSent x) < 2 ^ 31" "ibMax (lkInbox x) = 0" by (simp_all add: demo_inbox_def)
  from every_stream_can_finish [OF demo_id_ok(1) x(1) this] x demo_id_ok(2) show ?thesis by auto
qed

section \<open>The peer-to-peer interface\<close>

definition demo_env :: p2p_env where
  "demo_env = \<lparr>peNode = node_init, peLocal = ''A'', pePeers =
     [(''B'', \<lparr>piProduct = ''B'', piEpic = None, piDisplayName = [], piEndpoint = \<lparr>epIp = 1, epPort = 7\<rparr>,
        piPresence = presence_default, piLastSeen = 0, piOnline = True\<rparr>)]\<rparr>"

text \<open>A reachable interface whose queue is limited to two bytes, and unreliable datagrams to it.\<close>

definition demo_capped :: p2p where
  "demo_capped = snd (SetPacketQueueSize (Some 2) (P2PInterface None 0))"

definition demo_arrives :: "bytes \<Rightarrow> p2p \<Rightarrow> p2p" where
  "demo_arrives d s = fst (OnDatagram demo_env sdk_1_19 0 no_endpoint P2PData (data_payload ''B'' ''S'' 0 0 0 d) s)"

lemma demo_arrives_inbox:
  assumes "short d"
  shows "p2Inbox (demo_arrives d s) = snd (EnqueueInbox ''B'' ''S'' 0 d (p2Inbox s))"
proof -
  have "demo_arrives d s = fst (on_data demo_env sdk_1_19 no_endpoint ''B'' ''S'' (0, 0, 0, d) s)"
    unfolding demo_arrives_def by (subst OnDatagram_data) (use assms in \<open>simp_all add: short_def\<close>)
  moreover have "enum_byte (EOS_PR_UnreliableUnordered sdk_1_19) = 0" by (simp add: sdk_1_19_def enum_byte_def)
  ultimately show ?thesis by (simp add: on_data_def Let_def put_conn_def case_prod_beta)
qed

lemma demo_arrives_reach: "p2p_reach K (c, s) \<Longrightarrow> K = sdk_1_19 \<Longrightarrow> p2p_reach K (c, demo_arrives d s)"
  unfolding p2p_reach_def demo_arrives_def by (meson p2p_step.datagram rtranclp.rtrancl_into_rtrancl)

lemma demo_capped_reach: "p2p_reach sdk_1_19 (1, demo_capped)"
  using p2p_step.queue_size [of sdk_1_19 1 "P2PInterface None 0" "Some 2"]
  by (auto simp: p2p_reach_def demo_capped_def)

text \<open>C5: whatever the game calls and whatever arrives, in any order, the interface keeps its tables
  consistent: the inbox's byte count is the sum of its packets, the connection and stream tables are
  keyed by what they hold, every buffered packet has been seen, and every pending number of a send
  stream is below its next one.\<close>

theorem p2p_state_consistent:
  assumes "p2p_reach K (c, s)"
  shows "ibBytes (p2Inbox s) = (\<Sum>p\<leftarrow>ibPackets (p2Inbox s). length (ipData p)) \<and>
    (\<forall>k x. map_of (p2Connections s) k = Some x \<longrightarrow> k = ConnKey (cnPeer x) (cnSocketName x)) \<and>
    (\<forall>k S. map_of (p2SendStreams s) k = Some S \<longrightarrow> (\<forall>q \<in> set (keys (ssPending S)). q < ssNextSeq S)) \<and>
    (\<forall>k R. map_of (p2RecvStreams s) k = Some R \<longrightarrow>
       k = StreamKey (rsPeer R) (rsSocket R) (rsChannel R) (rsOrdered R) \<and> set (keys (rsBuffer R)) \<subseteq> seen R)"
proof -
  have inv: "inbox_inv (p2Inbox s)" "map_ok conn_ok (p2Connections s)" "map_ok send_ok (p2SendStreams s)"
    "map_ok recv_ok (p2RecvStreams s)"
    using p2p_inv_reach [OF assms] by (simp_all add: p2p_inv_def)
  have "conn_ok k x" if "map_of (p2Connections s) k = Some x" for k x by (rule map_ok_get [OF inv(2) that])
  moreover have "send_ok k S" if "map_of (p2SendStreams s) k = Some S" for k S by (rule map_ok_get [OF inv(3) that])
  moreover have "recv_ok k R" if "map_of (p2RecvStreams s) k = Some R" for k R by (rule map_ok_get [OF inv(4) that])
  ultimately show ?thesis
    using inv(1) by (simp add: inbox_inv_def conn_ok_def send_ok_def recv_ok_def ss_inv_def rs_inv_def del: set_map)
qed

theorem p2p_state_consistent_witness:
  "p2p_reach sdk_1_19 (1, demo_arrives [7] demo_capped) \<and> ibPackets (p2Inbox (demo_arrives [7] demo_capped)) \<noteq> [] \<and>
     ibBytes (p2Inbox (demo_arrives [7] demo_capped)) = (\<Sum>p\<leftarrow>ibPackets (p2Inbox (demo_arrives [7] demo_capped)). length (ipData p))"
proof -
  have r: "p2p_reach sdk_1_19 (1, demo_arrives [7] demo_capped)" by (rule demo_arrives_reach [OF demo_capped_reach refl])
  have "short ([7] :: bytes)" by (simp add: short_def)
  then have "ibPackets (p2Inbox (demo_arrives [7] demo_capped)) \<noteq> []"
    by (simp add: demo_arrives_inbox EnqueueInbox_def InboxHasRoom_def demo_capped_def SetPacketQueueSize_def P2PInterface_def)
  with r p2p_state_consistent [OF r] show ?thesis by blast
qed

text \<open>C6: the acknowledgement a receiver sends names exactly the sequence numbers it has seen, as
  far as the 32-bit selective field reaches.\<close>

theorem acknowledgement_is_exact:
  assumes "rs_inv S"
  shows "acked_by (ack_seq S) (sack_bits S) = {q \<in> seen S. q \<le> rsNextExpected S + 32}"
  by (rule acked_by_seen [OF assms])

definition demo_gap :: RecvStream where
  "demo_gap = stream_receive (RecvStream_default\<lparr>rsPeer := ''A'', rsSocket := ''S'', rsChannel := 0, rsOrdered := True\<rparr>) 3 [7]"

theorem acknowledgement_is_exact_witness:
  "rs_inv demo_gap \<and> acked_by (ack_seq demo_gap) (sack_bits demo_gap) = {3}"
proof -
  have inv: "rs_inv demo_gap" unfolding demo_gap_def by (intro rs_inv_stream_receive rs_inv_default)
  have "advance [3] 1 = 1" by (subst advance.simps) simp
  then have "rsReceived demo_gap = [3]" "rsNextExpected demo_gap = 1"
    by (simp_all add: demo_gap_def stream_receive_def is_duplicate_def RecvStream_default_def insort_insert_key_def)
  then have "{q \<in> seen demo_gap. q \<le> rsNextExpected demo_gap + 32} = {3}" by (auto simp: seen_def)
  with acknowledgement_is_exact [OF inv] inv show ?thesis by simp
qed

text \<open>C7: a 64-bit sequence number sent as its low 32 bits is recovered whenever it is within
  \<open>2 ^ 31\<close> of the receiver's reference, across any number of 32-bit wrap-arounds.\<close>

theorem sequence_number_recovered:
  assumes "ref \<le> q + 2 ^ 31" "q < ref + 2 ^ 31" "ref < 2 ^ 63"
  shows "unat (Extend32 (word_of_nat ref) (seq_low q)) = q"
  using ext_seq_near [OF assms] by (simp add: ext_seq_def)

theorem sequence_number_recovered_witness:
  "unat (Extend32 (word_of_nat (2 ^ 32 - 1)) (seq_low (2 ^ 32 + 5))) = 2 ^ 32 + 5"
  by (rule sequence_number_recovered) simp_all

text \<open>C8: no datagram can push the receiving inbox past its configured limit: packets are only
  appended, and if any was, the bytes queued are within the limit (unless it is 0, unlimited).\<close>

theorem inbox_limit_enforced:
  assumes "p2p_reach K' (c, s)"
  shows "ibMax (p2Inbox (fst (OnDatagram E K now from ty pl s))) = ibMax (p2Inbox s) \<and>
    (\<exists>new. ibPackets (p2Inbox (fst (OnDatagram E K now from ty pl s))) = ibPackets (p2Inbox s) @ new \<and>
       (new \<noteq> [] \<and> ibMax (p2Inbox s) \<noteq> 0 \<longrightarrow>
          ibBytes (p2Inbox (fst (OnDatagram E K now from ty pl s))) \<le> ibMax (p2Inbox s)))"
  using OnDatagram_capped [OF p2p_inv_reach [OF assms], of E K now "from" ty pl] by (simp add: capped_def)

text \<open>A packet that fits is queued within the limit; with one byte left a packet of two is refused and
  a packet of one is queued.\<close>

theorem inbox_limit_enforced_witness:
  "(let s1 = demo_arrives [7] demo_capped; s2 = demo_arrives [8] s1; s3 = demo_arrives [8, 9] s1
    in ibMax (p2Inbox demo_capped) = 2 \<and> map ipData (ibPackets (p2Inbox s1)) = [[7]] \<and>
       map ipData (ibPackets (p2Inbox s2)) = [[7], [8]] \<and> ibBytes (p2Inbox s2) \<le> 2 \<and>
       map ipData (ibPackets (p2Inbox s3)) = [[7]])"
proof -
  have sh: "short [7]" "short [8]" "short [8, 9]" by (simp_all add: short_def)
  let ?s1 = "demo_arrives [7] demo_capped"
  have m: "ibMax (p2Inbox demo_capped) = 2" "p2Inbox demo_capped = \<lparr>ibPackets = [], ibMax = 2, ibBytes = 0\<rparr>"
    by (simp_all add: demo_capped_def SetPacketQueueSize_def P2PInterface_def)
  have i1: "p2Inbox ?s1 = \<lparr>ibPackets = [\<lparr>ipPeer = ''B'', ipSocket = ''S'', ipChannel = 0, ipData = [7]\<rparr>], ibMax = 2, ibBytes = 1\<rparr>"
    by (simp add: demo_arrives_inbox [OF sh(1)] m(2) EnqueueInbox_def InboxHasRoom_def)
  then have p: "map ipData (ibPackets (p2Inbox (demo_arrives [8] ?s1))) = [[7], [8]]"
    "map ipData (ibPackets (p2Inbox (demo_arrives [8, 9] ?s1))) = [[7]]"
    by (simp_all add: demo_arrives_inbox [OF sh(2)] demo_arrives_inbox [OF sh(3)] EnqueueInbox_def InboxHasRoom_def)
  have r: "p2p_reach sdk_1_19 (1, ?s1)" by (rule demo_arrives_reach [OF demo_capped_reach refl])
  from inbox_limit_enforced [OF r, of demo_env sdk_1_19 0 no_endpoint P2PData "data_payload ''B'' ''S'' 0 0 0 [8]"]
  have "ibBytes (p2Inbox (demo_arrives [8] ?s1)) \<le> 2" using p(1) i1 by (auto simp: demo_arrives_def)
  with m(1) p i1 show ?thesis by (simp add: Let_def)
qed

text \<open>C9: under the pump a connection is closed exactly when it has been interrupted for the whole
  grace period; otherwise it stays, unchanged or newly interrupted at this moment.\<close>

theorem pump_connection_state_machine:
  assumes "p2p_reach K' (i, s)" "map_of (p2Connections s) k = Some c"
  shows "if cnInterrupted c \<and> now - cnInterruptedAt c \<ge> ms kInterruptedGrace
    then map_of (p2Connections (fst (Pump E K now s))) k = None
    else map_of (p2Connections (fst (Pump E K now s))) k \<in>
      {Some c} \<union> (if cnInterrupted c then {} else {Some (c\<lparr>cnInterrupted := True, cnInterruptedAt := now\<rparr>)})"
  using Pump_connection [OF p2p_inv_reach [OF assms(1)] assms(2), of E K now]
  by (auto simp: grace_over_def conn_evolves_def split: if_splits)

theorem pump_connection_state_machine_witness:
  "\<exists>s c. p2p_reach sdk_1_19 (1, s) \<and> map_of (p2Connections s) (ConnKey ''B'' ''S'') = Some c \<and>
     map_of (p2Connections (fst (Pump demo_env sdk_1_19 0 s))) (ConnKey ''B'' ''S'') \<in>
       {Some c, Some (c\<lparr>cnInterrupted := True, cnInterruptedAt := 0\<rparr>)}"
proof -
  let ?E = "demo_env\<lparr>pePeers := []\<rparr>"
  define s where "s = fst (snd (AcceptConnection ?E sdk_1_19 (Some \<lparr>coRemoteUserId = Some ''B'', coSocketId = Some ''S''\<rparr>) (P2PInterface None 0)))"
  have "p2p_step sdk_1_19 (1, P2PInterface None 0) (1, s)" unfolding s_def by (rule p2p_step.accept)
  then have r: "p2p_reach sdk_1_19 (1, s)" by (auto simp: p2p_reach_def)
  have sock: "SocketName sdk_1_19 (Some ''S'') = ''S''" by (simp add: SocketName_def sdk_1_19_def NUL_def)
  obtain c where c: "map_of (p2Connections s) (ConnKey ''B'' ''S'') = Some c" "\<not> cnInterrupted c"
    by (simp add: s_def AcceptConnection_def sock Let_def put_conn_def P2PInterface_def conn_at_def Connection_default_def)
  from pump_connection_state_machine [OF r c(1), of 0 demo_env sdk_1_19] c(2) r c(1) show ?thesis by auto
qed

definition demo_queue :: p2p where
  "demo_queue = (P2PInterface None 0)\<lparr>p2Inbox := \<lparr>ibPackets =
     [\<lparr>ipPeer = ''B'', ipSocket = ''S'', ipChannel = 1, ipData = [1, 2]\<rparr>, \<lparr>ipPeer = ''B'', ipSocket = ''S'', ipChannel = 4, ipData = [3]\<rparr>],
     ibMax = 0, ibBytes = 3\<rparr>\<rparr>"

definition demo_send :: "puid \<Rightarrow> SendPacketOptions" where
  "demo_send to = \<lparr>spApiVersion = 3, spRemoteUserId = Some to, spSocketId = Some ''S'', spChannel = 0,
     spDataLengthBytes = 1, spData = Some [7], spReliability = 2, spDisableAutoAccept = 0\<rparr>"

lemma demo_socket: "SocketName sdk_1_19 (Some ''S'') = ''S''"
  by (simp add: SocketName_def sdk_1_19_def NUL_def)

lemma demo_send_success: "fst (SendPacket E sdk_1_19 0 (Some (demo_send to)) (P2PInterface None 0)) = EOS_Success"
  by (simp add: SendPacket_def demo_send_def demo_socket VersionInRange_def HasField_def send_connect_def Let_def
      EOS_FALSE_def case_prod_beta FindConn_def P2PInterface_def)
    (simp add: sdk_1_19_def)

text \<open>C10: when the sender's stream has been cleared (a time-out, or a close notice that was lost) and
  numbering restarts at 1 while the receiver still holds the old stream, the first new packet is
  acknowledged as a duplicate: the receiver delivers nothing and the sender forgets the packet.\<close>

theorem restarted_stream_loses_its_first_packet:
  assumes "rs_inv R" "2 \<le> rsNextExpected R" "rsNextExpected R \<le> 2 ^ 31" "rsBuffer R = []"
    and "stream_send now p q k ch m to d SendStream_default = (pl, S)"
    and "stream_deliver R ib (seq_low 1) d = (b, R', ib')"
  shows "ib' = ib \<and> R' = R \<and> ssPending (stream_ack now' (seq_low (ack_seq R')) (sack_bits R') S) = []"
  by (rule restarted_stream_loses [OF assms])

definition demo_old :: RecvStream where
  "demo_old = RecvStream_default\<lparr>rsPeer := ''A'', rsSocket := ''S'', rsOrdered := True, rsNextExpected := 2, rsNextToDeliver := 2\<rparr>"

theorem restarted_stream_loses_its_first_packet_witness:
  "\<exists>b. stream_deliver demo_old demo_inbox (seq_low 1) [9] = (b, demo_old, demo_inbox)"
proof -
  have R: "rs_inv demo_old" "2 \<le> rsNextExpected demo_old" "rsNextExpected demo_old \<le> 2 ^ 31" "rsBuffer demo_old = []"
    by (auto simp: demo_old_def rs_inv_def RecvStream_default_def)
  obtain pl S where send: "stream_send 0 ''A'' ''B'' ''S'' 0 2 no_endpoint [9] SendStream_default = (pl, S)"
    by (cases "stream_send 0 ''A'' ''B'' ''S'' 0 2 no_endpoint [9] SendStream_default")
  obtain b R' ib where del: "stream_deliver demo_old demo_inbox (seq_low 1) [9] = (b, R', ib)"
    by (metis prod_cases3)
  from restarted_stream_loses_its_first_packet [OF R send del] del show ?thesis by auto
qed

section \<open>Transport, ids, dispatch, peers\<close>

text \<open>C11: a frame a node builds is delivered by every other node's receive path with its type, its
  payload and the sender's advertised port, and is ignored by the node that sent it.\<close>

theorem frame_roundtrip:
  assumes "unat len \<le> length payload" "unat len \<le> kMaxDatagram - kHeaderSize"
  shows "receive_datagram nd ip (Frame sd ty payload len) =
    (if ndSenderTag sd = ndSenderTag nd then None
     else Some (\<lparr>epIp = ip, epPort = ndUnicastPort sd\<rparr>,
       \<lparr>whMagic = kMagic, whVersion = kProtocolVersion, whType = mt_code ty,
        whSenderTag = ndSenderTag sd, whUnicastPort = ndUnicastPort sd, whPayloadLen = len\<rparr>,
       take (unat len) payload))"
  by (rule receive_Frame [OF assms])

theorem frame_roundtrip_witness:
  "\<exists>h. receive_datagram node_init 9 (Frame (node_init\<lparr>ndSenderTag := ndSenderTag node_init + 1\<rparr>) P2PData [5, 6] 2) =
     Some (\<lparr>epIp = 9, epPort = ndUnicastPort node_init\<rparr>, h, [5, 6])"
  using frame_roundtrip [of 2 "[5, 6]" node_init 9 "node_init\<lparr>ndSenderTag := ndSenderTag node_init + 1\<rparr>" P2PData]
  by (simp add: wire_consts)

text \<open>C12: one drain runs exactly the tasks that were pending or due when it started, in order, and
  keeps for the next drain exactly what was not due and what the tasks themselves posted.\<close>

theorem drain_runs_one_round:
  "Drain now run s d =
     (case exec_tasks run (dPending d @ map snd (filter (\<lambda>p. fst p \<le> now) (dDelayed d))) s of
        (s', ps, ds) \<Rightarrow>
          (s', \<lparr>dPending = ps, dDelayed = filter (\<lambda>p. \<not> fst p \<le> now) (dDelayed d) @ ds\<rparr>))"
  by (rule Drain_exact)

section \<open>Lobbies\<close>

text \<open>C13: in every reachable state of a node's lobbies, every cached lobby stands under its own id,
  the lobbies it belongs to and the ones it owns are cached, a lobby it owns names it as the owner,
  and invitation ids are distinct.\<close>

theorem lobby_state_consistent:
  assumes "lobby_reach K me s"
  shows "(\<forall>i r. map_of (lbKnown s) i = Some r \<longrightarrow> lrLobbyId r = i \<and> (i \<in> set (lbOwned s) \<longrightarrow> lrOwnerProductId r = me)) \<and>
    set (lbMemberOf s) \<union> set (lbOwned s) \<subseteq> dom (map_of (lbKnown s)) \<and>
    distinct (map ivInviteId (lbInvites s))"
  using lobby_inv_reach [OF assms] lobby_inv_known [OF lobby_inv_reach [OF assms]]
  by (auto simp: lobby_inv_def invites_inv_def)

definition demo_lobby_env :: "string \<Rightarrow> lobby_env" where
  "demo_lobby_env me = \<lparr>leLocal = me, lePeers = [], leTick = 5\<rparr>"

definition demo_create :: "string \<Rightarrow> CreateLobbyOptions" where
  "demo_create me = \<lparr>clApiVersion = 5, clLocalUserId = Some me, clMaxLobbyMembers = 4, clPermissionLevel = 0,
     clPresenceEnabled = 1, clAllowInvites = 1, clBucketId = Some ''b'', clDisableHostMigration = 0, clEnableRTCRoom = 0\<rparr>"

definition demo_owner :: lobbies where
  "demo_owner = fst (CreateLobby (demo_lobby_env ''A'') sdk_1_19 (Some (demo_create ''A'')) 0 None lobbies_init)"

theorem lobby_state_consistent_witness:
  "lobby_reach sdk_1_19 ''A'' demo_owner \<and> set (lbOwned demo_owner) \<subseteq> dom (map_of (lbKnown demo_owner))"
proof -
  have "lobby_step sdk_1_19 ''A'' lobbies_init demo_owner" unfolding demo_owner_def
    by (rule lobby_step.create) (auto simp: demo_lobby_env_def demo_create_def)
  then have r: "lobby_reach sdk_1_19 ''A'' demo_owner" by (auto simp: lobby_reach_def)
  from lobby_state_consistent [OF r] r show ?thesis by blast
qed

text \<open>C14: the record a node broadcasts is, up to the fields the wire does not carry, the record
  every node that does not own the lobby caches when it arrives, whatever it cached before.\<close>

theorem announcement_replicates:
  assumes "record_ok K (wire_rec r)" "lrLobbyId r \<noteq> []" "lrLobbyId r \<notin> set (lbOwned s)"
  shows "map_of (lbKnown (fst (Lobby_OnDatagram E K src LobbyAnnounce (SerializeRecord K r) s))) =
    (map_of (lbKnown s))(lrLobbyId r \<mapsto> r\<lparr>lrHostEndpoint := src, lrLastSeenTick := leTick E\<rparr>)"
  using OnDatagram_announce [OF assms(1,2)] on_announce_adopts(1) [of "stamp E src r" s E K] assms(3)
  by (simp add: stamp_def)

definition demo_rec :: LobbyRecord where
  "demo_rec = (created_record sdk_1_19 (demo_create ''A'') ''A'')\<lparr>lrLobbyId := ''L''\<rparr>"

lemma demo_rec_ok: "record_ok sdk_1_19 (wire_rec demo_rec)"
  by (simp add: demo_rec_def created_record_def demo_create_def wire_rec_def record_ok_def LobbyRecord_default_def
      Member_new_def HasField_def Let_def short_def bool_ok_def EOS_TRUE_def EOS_FALSE_def list_wf_def member_ok_def)

theorem announcement_replicates_witness:
  "map_of (lbKnown (fst (Lobby_OnDatagram (demo_lobby_env ''B'') sdk_1_19 no_endpoint LobbyAnnounce (SerializeRecord sdk_1_19 demo_rec) lobbies_init))) ''L'' \<noteq> None"
  using announcement_replicates [OF demo_rec_ok, of lobbies_init "demo_lobby_env ''B''" no_endpoint]
  by (simp add: demo_rec_def lobbies_init_def created_record_def Let_def)

text \<open>C15: a join converges: when a node's join request reaches an owner that has room, the owner
  admits it as the last member, and once the owner's announcement arrives both nodes list the same
  members, the joiner exactly once.\<close>

theorem join_converges:
  assumes owner: "map_of (lbKnown so) i = Some r" "i \<in> set (lbOwned so)" "lrLobbyId r = i" "i \<noteq> []"
    and room: "p \<notin> set (member_ids r)" "distinct (member_ids r)" "AvailableSlots r > 0"
    and wire: "short i" "short p" "r' = bump (r\<lparr>lrMembers := lrMembers r @ [Member_new K p]\<rparr>)" "record_ok K (wire_rec r')"
    and joiner: "i \<notin> set (lbOwned sj)"
  shows "let (so', ev) = Lobby_OnDatagram Eo K src LobbyJoinRequest (enc_str i @ enc_str p) so;
             sj' = fst (Lobby_OnDatagram Ej K dst LobbyAnnounce (SerializeRecord K r') sj)
         in net_calls ev = net_calls [BroadcastAnnounce K r'] \<and>
            map_option member_ids (map_of (lbKnown so') i) = Some (member_ids r @ [p]) \<and>
            map_option member_ids (map_of (lbKnown sj') i) = Some (member_ids r @ [p]) \<and>
            distinct (member_ids r @ [p])"
proof -
  have adm: "Lobby_OnDatagram Eo K src LobbyJoinRequest (enc_str i @ enc_str p) so =
      (put_known i r' so, BroadcastAnnounce K r' # fire_status so i (EOS_LMS_JOINED K) p)"
    using OnDatagram_join_request [OF wire(1,2)] on_join_request_admits [OF owner(1,2) room(1,3)] wire(3) by simp
  have id: "lrLobbyId r' = i" using owner(3) wire(3) by simp
  have "Lobby_OnDatagram Ej K dst LobbyAnnounce (SerializeRecord K r') sj = on_announce Ej K (stamp Ej dst r') sj"
    using OnDatagram_announce [OF wire(4)] id owner(4) by simp
  with on_announce_adopts(1) [of "stamp Ej dst r'" sj Ej K] joiner id wire(3) adm room show ?thesis
    by (simp add: BroadcastAnnounce_def)
qed

definition demo_holds :: "LobbyRecord \<Rightarrow> bool \<Rightarrow> lobbies" where
  "demo_holds r own = lobbies_init\<lparr>lbKnown := [(''L'', r)], lbMemberOf := [''L''], lbOwned := (if own then [''L''] else [])\<rparr>"

definition demo_rec2 :: LobbyRecord where
  "demo_rec2 = demo_rec\<lparr>lrMembers := lrMembers demo_rec @ [Member_new sdk_1_19 ''B'']\<rparr>"

lemmas demo_rec_defs = demo_rec2_def demo_rec_def created_record_def demo_create_def LobbyRecord_default_def
  Member_new_def HasField_def Let_def EOS_TRUE_def EOS_FALSE_def

lemma demo_member_ids: "member_ids demo_rec = [''A'']" "member_ids demo_rec2 = [''A'', ''B'']"
  by (simp_all add: member_ids_def demo_rec_defs)

lemma demo_rec2_ok: "record_ok sdk_1_19 (wire_rec (bump demo_rec2))"
  by (simp add: demo_rec_defs wire_rec_def bump_def record_ok_def short_def bool_ok_def list_wf_def member_ok_def)

theorem join_converges_witness:
  "map_option member_ids (map_of (lbKnown (fst (Lobby_OnDatagram (demo_lobby_env ''B'') sdk_1_19 no_endpoint LobbyAnnounce
     (SerializeRecord sdk_1_19 (bump demo_rec2)) (demo_holds demo_rec2 False)))) ''L'') = Some [''A'', ''B'']"
proof -
  have o1: "map_of (lbKnown (demo_holds demo_rec True)) ''L'' = Some demo_rec" "''L'' \<in> set (lbOwned (demo_holds demo_rec True))"
    "lrLobbyId demo_rec = ''L''" "''L'' \<notin> set (lbOwned (demo_holds demo_rec2 False))" "AvailableSlots demo_rec > 0"
    by (simp_all add: demo_holds_def demo_rec_defs AvailableSlots_def)
  have s1: "short ''L''" "short ''B''" by (simp_all add: short_def)
  have r: "bump demo_rec2 = bump (demo_rec\<lparr>lrMembers := lrMembers demo_rec @ [Member_new sdk_1_19 ''B'']\<rparr>)"
    by (simp add: demo_rec2_def)
  from join_converges [OF o1(1-3) _ _ _ o1(5) s1 r demo_rec2_ok o1(4), of "demo_lobby_env ''A''" no_endpoint "demo_lobby_env ''B''" no_endpoint]
  show ?thesis by (simp add: demo_member_ids case_prod_beta Let_def)
qed

text \<open>C16: host migration hands the lobby over: when an owner that is not alone leaves a lobby that
  allows it, it gives up ownership and membership and sends exactly two datagrams, the notice that it
  left and then the announcement of the record it keeps; the member next in line, which knows the lobby, on
  receiving these two owns it with itself named in the record.  The record is one the wire can carry.\<close>

theorem host_migration_hands_over:
  assumes leaver: "map_of (lbKnown so) i = Some r" "i \<in> set (lbOwned so)" "i \<in> set (lbMemberOf so)"
      "lrLobbyId r = i" "i \<noteq> []" "lrAllowHostMigration r \<noteq> EOS_FALSE" "distinct (member_ids r)"
    and line: "removeAll me (member_ids r) = heir # rest"
    and left: "LeaveLobby K (Some (Some i, Some me)) cd cb so = (so', ev)"
    and ann: "map_of (lbKnown so') i = Some r'" "record_ok K (wire_rec r')"
    and heir_node: "leLocal E = heir" "i \<in> set (lbMemberOf sh)" "i \<notin> set (lbOwned sh)" "heir \<noteq> me"
      "map_of (lbKnown sh) i \<noteq> None" "lbNextInvite sh = n"
    and wire: "short i" "short me" "sdk_ok K"
  shows "let sh1 = fst (Lobby_OnDatagram E K src LobbyLeave (leave_payload i me (EOS_LMS_LEFT K)) sh);
             sh2 = fst (Lobby_OnDatagram E K src LobbyAnnounce (SerializeRecord K r') sh1)
         in net_calls ev = net_calls [bcast_msg LobbyLeave (leave_payload i me (EOS_LMS_LEFT K)), bcast_msg LobbyAnnounce (SerializeRecord K r') :: lobby_task event] \<and>
            i \<notin> set (lbOwned so') \<and> i \<notin> set (lbMemberOf so') \<and> i \<in> set (lbOwned sh2) \<and> i \<in> set (lbMemberOf sh2) \<and>
            map_option lrOwnerProductId (map_of (lbKnown sh2) i) = Some heir \<and>
            map_option member_ids (map_of (lbKnown sh2) i) = Some (heir # rest)"
proof -
  from LeaveLobby_migrates [OF leaver(1-3,6,7) line, of K cd cb] left ann(1)
  have r': "lrOwnerProductId r' = heir" "member_ids r' = heir # rest" "lrLobbyId r' = i"
    and gone: "i \<notin> set (lbOwned so')" "i \<notin> set (lbMemberOf so')"
    and sent: "net_calls ev = net_calls [bcast_msg LobbyLeave (leave_payload i me (EOS_LMS_LEFT K)), bcast_msg LobbyAnnounce (SerializeRecord K r') :: lobby_task event]"
    using leaver(4) by (auto simp: BroadcastAnnounce_def)
  let ?sh1 = "fst (Lobby_OnDatagram E K src LobbyLeave (leave_payload i me (EOS_LMS_LEFT K)) sh)"
  have left_code: "0 \<le> EOS_LMS_LEFT K" "EOS_LMS_LEFT K < 256" "EOS_LMS_LEFT K \<noteq> EOS_LMS_CLOSED K"
    using sdk_lms [OF wire(3), of "EOS_LMS_LEFT K"] sdk_lms_closed [OF wire(3)] by simp_all
  have s1: "set (lbOwned ?sh1) = set (lbOwned sh)" "set (lbMemberOf ?sh1) = set (lbMemberOf sh)"
    unfolding OnDatagram_leave [OF wire(1,2) left_code(1,2)]
    using heir_node left_code(3) by (auto simp: on_leave_def Let_def)
  have "Lobby_OnDatagram E K src LobbyAnnounce (SerializeRecord K r') ?sh1 = on_announce E K (stamp E src r') ?sh1"
    using OnDatagram_announce [OF ann(2)] r'(3) leaver(5) by simp
  with on_announce_adopts [of "stamp E src r'" ?sh1 E K] s1 r' gone heir_node sent show ?thesis
    by (simp add: Let_def)
qed

theorem host_migration_hands_over_witness:
  "\<exists>so' ev r' (sh2 :: lobbies). LeaveLobby sdk_1_19 (Some (Some ''L'', Some ''A'')) 0 None (demo_holds demo_rec2 True) = (so', ev) \<and>
     net_calls ev = net_calls [bcast_msg LobbyLeave (leave_payload ''L'' ''A'' (EOS_LMS_LEFT sdk_1_19)), bcast_msg LobbyAnnounce (SerializeRecord sdk_1_19 r') :: lobby_task event] \<and>
     map_of (lbKnown so') ''L'' = Some r' \<and> ''L'' \<notin> set (lbOwned so') \<and> ''L'' \<in> set (lbOwned sh2) \<and>
     map_option lrOwnerProductId (map_of (lbKnown sh2) ''L'') = Some ''B''"
proof -
  have a: "map_of (lbKnown (demo_holds demo_rec2 True)) ''L'' = Some demo_rec2" "''L'' \<in> set (lbOwned (demo_holds demo_rec2 True))"
    "''L'' \<in> set (lbMemberOf (demo_holds demo_rec2 True))" "lrLobbyId demo_rec2 = ''L''" "(''L'' :: string) \<noteq> []"
    "lrAllowHostMigration demo_rec2 \<noteq> EOS_FALSE" "distinct (member_ids demo_rec2)"
    by (simp_all add: demo_holds_def demo_member_ids) (simp_all add: demo_rec_defs)
  have line: "removeAll ''A'' (member_ids demo_rec2) = ''B'' # []" by (simp add: demo_member_ids)
  let ?r1 = "demo_rec2\<lparr>lrMembers := erase_member ''A'' (lrMembers demo_rec2)\<rparr>"
  define r' where "r' = bump (?r1\<lparr>lrOwnerProductId := ''B''\<rparr>)"
  obtain so' ev where left: "LeaveLobby sdk_1_19 (Some (Some ''L'', Some ''A'')) 0 None (demo_holds demo_rec2 True) = (so', ev)"
    by (cases "LeaveLobby sdk_1_19 (Some (Some ''L'', Some ''A'')) 0 None (demo_holds demo_rec2 True)")
  then have ann: "map_of (lbKnown so') ''L'' = Some r'"
    by (auto simp: LeaveLobby_def demo_holds_def r'_def erase_member_def demo_rec_defs bump_def)
  have ok: "record_ok sdk_1_19 (wire_rec r')"
    by (simp add: r'_def demo_rec_defs erase_member_def wire_rec_def bump_def record_ok_def short_def bool_ok_def list_wf_def member_ok_def)
  have h: "leLocal (demo_lobby_env ''B'') = ''B''" "''L'' \<in> set (lbMemberOf (demo_holds demo_rec2 False))"
    "''L'' \<notin> set (lbOwned (demo_holds demo_rec2 False))" "''B'' \<noteq> ''A''" "map_of (lbKnown (demo_holds demo_rec2 False)) ''L'' \<noteq> None"
    by (simp_all add: demo_lobby_env_def demo_holds_def)
  have w: "short ''L''" "short ''A''" by (simp_all add: short_def)
  let ?sh1 = "fst (Lobby_OnDatagram (demo_lobby_env ''B'') sdk_1_19 no_endpoint LobbyLeave
      (leave_payload ''L'' ''A'' (EOS_LMS_LEFT sdk_1_19)) (demo_holds demo_rec2 False))"
  define sh2 where "sh2 = fst (Lobby_OnDatagram (demo_lobby_env ''B'') sdk_1_19 no_endpoint LobbyAnnounce (SerializeRecord sdk_1_19 r') ?sh1)"
  note m = host_migration_hands_over [OF a line left ann ok h refl w sdk_1_19_ok, of no_endpoint, unfolded Let_def, folded sh2_def]
  have "net_calls ev = net_calls [bcast_msg LobbyLeave (leave_payload ''L'' ''A'' (EOS_LMS_LEFT sdk_1_19)), bcast_msg LobbyAnnounce (SerializeRecord sdk_1_19 r') :: lobby_task event]"
    using m by (elim conjE)
  moreover have "''L'' \<notin> set (lbOwned so')" using m by (elim conjE)
  moreover have "''L'' \<in> set (lbOwned sh2)" using m by (elim conjE)
  moreover have "map_option lrOwnerProductId (map_of (lbKnown sh2) ''L'') = Some ''B''" using m by (elim conjE)
  ultimately show ?thesis using left ann by blast
qed

text \<open>C17: an owner serving join requests never lists a member twice and never exceeds the lobby's
  capacity.\<close>

theorem admission_respects_capacity:
  assumes "map_of (lbKnown s) i = Some r" "distinct (member_ids r)" "length (lrMembers r) \<le> unat (lrMaxMembers r)"
  shows "\<exists>r'. map_of (lbKnown (fst (on_join_request K i p s))) i = Some r' \<and> distinct (member_ids r') \<and>
    length (lrMembers r') \<le> unat (lrMaxMembers r')"
  using on_join_request_room [OF assms(1), of K p] assms(2,3) by (simp add: room_ok_def)

theorem admission_respects_capacity_witness:
  "\<exists>r'. map_of (lbKnown (fst (on_join_request sdk_1_19 ''L'' ''B'' (demo_holds demo_rec True)))) ''L'' = Some r' \<and>
     length (lrMembers r') \<le> unat (lrMaxMembers r')"
proof -
  have "map_of (lbKnown (demo_holds demo_rec True)) ''L'' = Some demo_rec" "distinct (member_ids demo_rec)"
    "length (lrMembers demo_rec) \<le> unat (lrMaxMembers demo_rec)"
    by (simp_all add: demo_holds_def demo_member_ids) (simp add: demo_rec_defs)
  from admission_respects_capacity [OF this, of sdk_1_19 "''B''"] show ?thesis by blast
qed

text \<open>C18: only the owner changes lobby settings: any other node's attempt is refused with
  \<open>EOS_Lobby_NotOwner\<close> and changes nothing.\<close>

theorem settings_are_owner_only:
  assumes "map_of (lbKnown s) (moLobbyId mo) = Some r" "moLobbyId mo \<notin> set (lbOwned s)" "HasLobbyScope mo"
  shows "UpdateLobby K (Some mo) cd cb s = (s, complete cb (\<lambda>f. LobbyDone f cd EOS_Lobby_NotOwner None))"
  by (rule UpdateLobby_not_owner [OF assms])

definition demo_mod :: LobbyModificationObj where
  "demo_mod = \<lparr>moLobbyId = ''L'', moLocalUser = ''B'', moBucket = Some ''x'', moPerm = None, moMax = None, moInvites = None,
     moPlatforms = None, moAddAttrs = [], moRemoveAttrs = [], moAddMemberAttrs = [], moRemoveMemberAttrs = []\<rparr>"

theorem settings_are_owner_only_witness:
  "UpdateLobby sdk_1_19 (Some demo_mod) 0 (Some 9) (demo_holds demo_rec2 False) =
     (demo_holds demo_rec2 False, [EvPost (LobbyDone 9 0 EOS_Lobby_NotOwner None)])"
  using settings_are_owner_only [of "demo_holds demo_rec2 False" demo_mod demo_rec2 sdk_1_19 0 "Some 9"]
  by (simp add: demo_holds_def demo_mod_def HasLobbyScope_def complete_def)

text \<open>C19: a member's own update, merged by the owner, bumps the version by one, keeps the member
  list, the owner and the lobby attributes, changes that member's attributes as the edit says (added
  keys win, removed keys are gone) and no other member's, and is announced.\<close>

theorem member_update_touches_one_member:
  assumes "map_of (lbKnown s) i = Some r" "i \<in> set (lbOwned s)" "FindMember r p = Some m" "distinct (keys (lmAttributes m))"
  shows "\<exists>r' m'. map_of (lbKnown (fst (on_member_update K i p adds rems s))) i = Some r' \<and>
    lrVersion r' = lrVersion r + 1 \<and> member_ids r' = member_ids r \<and> lrAttributes r' = lrAttributes r \<and>
    lrOwnerProductId r' = lrOwnerProductId r \<and> (\<forall>q. q \<noteq> p \<longrightarrow> FindMember r' q = FindMember r q) \<and>
    FindMember r' p = Some m' \<and>
    map_of (lmAttributes m') = (\<lambda>k. if k \<in> set rems then None else (map_of (lmAttributes m) ++ map_of (rev adds)) k) \<and>
    net_calls (snd (on_member_update K i p adds rems s)) = net_calls [BroadcastAnnounce K r']"
proof -
  have "p \<in> set (member_ids r)" using FindMember_SomeD [OF assms(3)] by (auto simp: member_ids_def)
  from on_member_update_merges [OF assms(1,2) this, of K adds rems] assms(3) ApplyMemberAttrs_map [OF assms(4)]
  show ?thesis by auto
qed

theorem member_update_touches_one_member_witness:
  "\<exists>r'. map_of (lbKnown (fst (on_member_update sdk_1_19 ''L'' ''B'' [] [''k''] (demo_holds demo_rec2 True)))) ''L'' = Some r' \<and>
     member_ids r' = [''A'', ''B'']"
proof -
  have "map_of (lbKnown (demo_holds demo_rec2 True)) ''L'' = Some demo_rec2" "''L'' \<in> set (lbOwned (demo_holds demo_rec2 True))"
    "FindMember demo_rec2 ''B'' = Some (Member_new sdk_1_19 ''B'')" "distinct (keys (lmAttributes (Member_new sdk_1_19 ''B'')))"
    by (simp_all add: demo_holds_def FindMember_def demo_rec_defs)
  from member_update_touches_one_member [OF this, of sdk_1_19 "[]" "[''k'']"] show ?thesis by (auto simp: demo_member_ids)
qed

text \<open>C20: destroying a lobby removes it here, and everywhere its notice arrives: the receiver
  forgets the lobby, its membership and any ownership, and tells its game once per handler.\<close>

theorem destroy_closes_everywhere:
  assumes "i \<in> set (lbOwned s)" "DestroyLobby E K (Some (Some i)) cd cb s = (s', ev)"
    and "map_of (lbKnown sr) i = Some r" "short i" "short (leLocal E)" "sdk_ok K"
  shows "let (sr', evr) = Lobby_OnDatagram E' K src LobbyLeave (leave_payload i (leLocal E) (EOS_LMS_CLOSED K)) sr
    in s' = drop_lobby i s \<and>
       net_calls ev = net_calls [bcast_msg LobbyLeave (leave_payload i (leLocal E) (EOS_LMS_CLOSED K)) :: lobby_task event] \<and>
       sr' = drop_lobby i sr \<and>
       posts evr = (if i \<in> set (lbMemberOf sr)
         then map (\<lambda>e. MemberStatusCb (neFn e) (neCd e) i (intern (leLocal E)) (EOS_LMS_CLOSED K)) (lbMemberStatusReceived sr)
         else [])"
  using assms DestroyLobby_owned [OF assms(1), of E K cd cb] on_leave_closed [OF assms(3)]
    OnDatagram_leave [OF assms(4,5)] sdk_lms [OF assms(6), of "EOS_LMS_CLOSED K"]
  by (auto simp: Let_def)

theorem destroy_closes_everywhere_witness:
  "fst (Lobby_OnDatagram (demo_lobby_env ''B'') sdk_1_19 no_endpoint LobbyLeave
      (leave_payload ''L'' ''A'' (EOS_LMS_CLOSED sdk_1_19)) (demo_holds demo_rec2 False)) = drop_lobby ''L'' (demo_holds demo_rec2 False)"
proof -
  obtain s' ev where d: "DestroyLobby (demo_lobby_env ''A'') sdk_1_19 (Some (Some ''L'')) 0 None (demo_holds demo_rec2 True) = (s', ev)"
    by (cases "DestroyLobby (demo_lobby_env ''A'') sdk_1_19 (Some (Some ''L'')) 0 None (demo_holds demo_rec2 True)")
  have "''L'' \<in> set (lbOwned (demo_holds demo_rec2 True))" "map_of (lbKnown (demo_holds demo_rec2 False)) ''L'' = Some demo_rec2"
    "short ''L''" "short (leLocal (demo_lobby_env ''A''))"
    by (simp_all add: demo_holds_def short_def demo_lobby_env_def)
  from destroy_closes_everywhere [OF this(1) d this(2-4) sdk_1_19_ok, of "demo_lobby_env ''B''" no_endpoint] show ?thesis
    by (simp add: case_prod_beta Let_def demo_lobby_env_def)
qed

section \<open>Sessions\<close>

text \<open>C21: in every state the sessions interface can reach, both maps are ordered and keyed by the name
  or id of the records they hold, every hosted name has a local session, and invitation ids are
  distinct.\<close>

theorem session_state_consistent: "session_reach K s \<Longrightarrow> session_inv s"
  by (rule session_inv_reach)

definition demo_session_env :: "string \<Rightarrow> session_env" where
  "demo_session_env me = \<lparr>veLocal = me, vePeers = [], veTick = 7, vePort = 4242\<rparr>"

definition demo_smod :: SessionModificationObj where
  "demo_smod = (SessionMod_new ''game'')\<lparr>zmIsCreate := True, zmLocalUser := ''A'', zmSessionIdOverride := ''S'', zmMax := Some 4\<rparr>"

definition demo_srec :: SessionRecord where
  "demo_srec = (SessionRecord_default sdk_1_19)
     \<lparr>srSessionName := ''game'', srSessionId := ''S'', srOwnerProductId := ''A'', srHostAddress := ''0.0.0.0:4242'',
      srMaxPlayers := 4, srState := EOS_OSS_Pending sdk_1_19, srRegisteredPlayers := [''A''], srVersion := 1\<rparr>"

definition demo_hosting :: sessions where
  "demo_hosting = sessions_init\<lparr>ssLocal := [(''game'', demo_srec)], ssOwned := [''game'']\<rparr>"

lemma demo_update:
  "UpdateSession (demo_session_env ''A'') sdk_1_19 (Some demo_smod) 0 None sessions_init =
     (demo_hosting, [Session_BroadcastAnnounce sdk_1_19 demo_srec])"
proof -
  have d: "dec_str 4242 = ''4242''" by (simp add: dec_str.simps digit_char_def char_of_def bit_0 bit_Suc)
  have "fresh_session (demo_session_env ''A'') sdk_1_19 demo_smod sessions_init =
      ((SessionRecord_default sdk_1_19)\<lparr>srSessionName := ''game'', srSessionId := ''S'', srOwnerProductId := ''A'',
         srState := EOS_OSS_Pending sdk_1_19, srRegisteredPlayers := [''A'']\<rparr>, sessions_init)"
    by (simp add: fresh_session_def Let_def demo_smod_def SessionMod_new_def SessionRecord_default_def EOS_FALSE_def)
  then show ?thesis
    by (simp add: UpdateSession_def demo_smod_def SessionMod_new_def Let_def default_host_def apply_session_mod_def
        SessionRecord_default_def advertised_def sbump_def put_local_def sessions_init_def demo_hosting_def
        demo_srec_def set_opt_def demo_session_env_def d complete_def sset_insert_def insort_insert_key_def remove_attrs_def add_attrs_def)
qed

lemma demo_srec_ok: "srecord_ok sdk_1_19 demo_srec" "srSessionId demo_srec = ''S''" "srRegisteredPlayers demo_srec = [''A'']"
  by (simp_all add: demo_srec_def srecord_ok_def SessionRecord_default_def short_def bool_ok_def list_wf_def sdk_1_19_def)

lemma demo_hosting_reach: "session_reach sdk_1_19 demo_hosting"
  using s_update [of sdk_1_19 sessions_init "demo_session_env ''A''" "Some demo_smod" 0 None]
  by (simp add: session_reach_def demo_update r_into_rtranclp)

theorem session_state_consistent_witness: "session_inv demo_hosting"
  by (rule session_state_consistent [OF demo_hosting_reach])

text \<open>C22: hosting makes a session discoverable: committing the creation of an advertised session
  whose record the wire can carry, under an id of the caller or a fresh one, sends one announcement; a node that receives it and searches
  for that id finds the session as the host has it, at the address the host gave or, where it gave none,
  at the source of the datagram, and besides it only what that node itself hosts under the same id, up to
  the search's result limit.\<close>

theorem hosted_session_is_discovered:
  assumes mod: "zmIsCreate m" "zmPerm m = None \<or> zmPerm m = Some (EOS_OSPF_PublicAdvertised K)"
    and host: "session_inv s" "UpdateSession E K (Some m) cd cb s = (s', ev)"
    and wire: "map_of (ssLocal s') (zmSessionName m) = Some r" "srecord_ok K r"
    and peer: "session_inv sp"
    and query: "zsBySessionId q = srSessionId r"
    and delivered: "sp' = fst (Sessions_OnDatagram E' K from SessionAnnounce (Session_SerializeRecord K r) sp)"
  shows "srSessionId r \<noteq> [] \<and> (zmSessionIdOverride m \<noteq> [] \<longrightarrow> srSessionId r = zmSessionIdOverride m) \<and>
    net_calls ev = net_calls [bcast_msg SessionAnnounce (Session_SerializeRecord K r) :: session_task event] \<and>
    zsResults (Session_CollectSearchResults K q sp') =
      take (zsMaxResults q) (stamp_session E' from (wire_srec r) # filter (\<lambda>h. srSessionId h = srSessionId r) (hosted sp)) \<and>
    (zmHost m = None \<longrightarrow> srHostAddress (stamp_session E' from (wire_srec r)) = ep_ToString from)"
proof -
  obtain r0 s1 where f: "fresh_session E K m s = (r0, s1)" by (cases "fresh_session E K m s")
  let ?a = "apply_session_mod m r0"
  let ?r = "sbump (default_host E ?a)"
  have loc: "ssLocal s1 = ssLocal s" by (simp add: fresh_session_props [OF f])
  have "srSessionId ?r = srSessionId r0" by (simp add: apply_session_mod_def)
  then have id: "srSessionId ?r \<noteq> []" "zmSessionIdOverride m \<noteq> [] \<longrightarrow> srSessionId ?r = zmSessionIdOverride m"
    by (simp_all add: fresh_session_props(10) [OF f])
  have adv: "advertised K ?r"
    using mod by (auto simp: fresh_session_props [OF f] advertised_def apply_session_mod_def set_opt_def split: option.splits)
  have u: "s' = put_local (zmSessionName m) ?r (s1\<lparr>ssOwned := sset_insert (zmSessionName m) (ssOwned s1)\<rparr>)"
    "net_calls ev = net_calls [bcast_msg SessionAnnounce (Session_SerializeRecord K ?r) :: session_task event]"
    using host(2) mod(1) f adv by (auto simp: UpdateSession_def Let_def Session_BroadcastAnnounce_def)
  with wire(1) host(1) loc have r: "r = ?r" by (simp add: put_local_def map_of_smap_put session_inv_parts(1))
  have sp': "sp' = on_session_announce E' from (wire_srec r) sp"
    using delivered OnDatagram_session_announce [OF wire(2)] id(1) r by simp
  have inv': "session_inv sp'" using session_inv_OnDatagram [OF peer] delivered by simp
  have "map_of (ssKnown sp') (srSessionId r) = Some (stamp_session E' from (wire_srec r))"
    using on_session_announce_known [OF peer] sp' id(1) r by simp
  moreover have "hosted sp' = hosted sp" by (simp add: sp' hosted_def on_session_announce_def put_known_session_def)
  ultimately have "zsResults (Session_CollectSearchResults K q sp') =
      take (zsMaxResults q) (stamp_session E' from (wire_srec r) # filter (\<lambda>h. srSessionId h = srSessionId r) (hosted sp))"
    using search_by_id [OF inv' query, of K] id(1) r by simp
  moreover have "srHostAddress (stamp_session E' from (wire_srec r)) = ep_ToString from" if "zmHost m = None"
    unfolding r by (rule stamp_default_host) (use that in \<open>simp add: apply_session_mod_def set_opt_def fresh_session_props [OF f]\<close>)
  ultimately show ?thesis using u(2) id r by blast
qed

definition demo_by_id :: SessionSearchObj where
  "demo_by_id = \<lparr>zsMaxResults = 200, zsBySessionId = ''S'', zsByTargetUser = [], zsParams = [], zsResults = []\<rparr>"

theorem hosted_session_is_discovered_witness:
  "zsResults (Session_CollectSearchResults sdk_1_19 demo_by_id (fst (Sessions_OnDatagram (demo_session_env ''B'') sdk_1_19
      \<lparr>epIp = 9, epPort = 4242\<rparr> SessionAnnounce (Session_SerializeRecord sdk_1_19 demo_srec) sessions_init))) =
    [stamp_session (demo_session_env ''B'') \<lparr>epIp = 9, epPort = 4242\<rparr> (wire_srec demo_srec)]"
proof -
  have m: "zmIsCreate demo_smod" "zmPerm demo_smod = None \<or> zmPerm demo_smod = Some (EOS_OSPF_PublicAdvertised sdk_1_19)"
    by (simp_all add: demo_smod_def SessionMod_new_def)
  have l: "map_of (ssLocal demo_hosting) (zmSessionName demo_smod) = Some demo_srec"
    by (simp add: demo_hosting_def demo_smod_def SessionMod_new_def)
  have q: "zsBySessionId demo_by_id = srSessionId demo_srec" by (simp add: demo_by_id_def demo_srec_ok)
  have "hosted sessions_init = []" "0 < zsMaxResults demo_by_id" by (simp_all add: hosted_def sessions_init_def demo_by_id_def)
  with hosted_session_is_discovered [OF m session_inv_init demo_update l demo_srec_ok(1) session_inv_init q refl, of "demo_session_env ''B''"
      "\<lparr>epIp = 9, epPort = 4242\<rparr>"]
  show ?thesis by (simp add: take_Cons')
qed

text \<open>C23: a host that destroys a session withdraws it: it forgets the session and its authority over
  it, keeps every other session, its ownership and all other state, and sends one withdrawal; a node that
  receives the withdrawal no longer finds the session by its id (only what that node itself hosts under
  the same id) and loses no other known session and no other state.\<close>

theorem destroyed_session_is_withdrawn:
  assumes host: "session_inv s" "name \<in> set (ssOwned s)" "map_of (ssLocal s) name = Some r" "srSessionId r \<noteq> []"
      "DestroySession (Some (Some name)) cd cb s = (s', ev)"
    and peer: "session_inv sp" "short (srSessionId r)"
    and query: "zsBySessionId q = srSessionId r"
    and delivered: "sp' = fst (Sessions_OnDatagram E' K from SessionWithdraw (enc_str (srSessionId r)) sp)"
  shows "map_of (ssLocal s') name = None \<and> name \<notin> set (ssOwned s') \<and>
    (\<forall>n. n \<noteq> name \<longrightarrow> map_of (ssLocal s') n = map_of (ssLocal s) n \<and> (n \<in> set (ssOwned s') \<longleftrightarrow> n \<in> set (ssOwned s))) \<and>
    s' = s\<lparr>ssLocal := ssLocal s', ssOwned := ssOwned s'\<rparr> \<and>
    net_calls ev = net_calls [bcast_msg SessionWithdraw (enc_str (srSessionId r)) :: session_task event] \<and>
    zsResults (Session_CollectSearchResults K q sp') =
      take (zsMaxResults q) (filter (\<lambda>h. srSessionId h = srSessionId r) (hosted sp)) \<and>
    (\<forall>i. i \<noteq> srSessionId r \<longrightarrow> map_of (ssKnown sp') i = map_of (ssKnown sp) i) \<and>
    sp' = sp\<lparr>ssKnown := ssKnown sp'\<rparr>"
proof -
  have sp': "sp' = on_session_withdraw (srSessionId r) sp"
    using delivered OnDatagram_session_withdraw [OF peer(2)] by simp
  have inv': "session_inv sp'" using session_inv_OnDatagram [OF peer(1)] delivered by simp
  have "hosted sp' = hosted sp" by (simp add: sp' hosted_def on_session_withdraw_def)
  moreover have "map_of (ssKnown sp') (srSessionId r) = None" by (simp add: sp' on_session_withdraw_def)
  ultimately have found: "zsResults (Session_CollectSearchResults K q sp') =
      take (zsMaxResults q) (filter (\<lambda>h. srSessionId h = srSessionId r) (hosted sp))"
    using search_by_id [OF inv' query, of K] host(4) by simp
  have sent: "net_calls ev = net_calls [bcast_msg SessionWithdraw (enc_str (srSessionId r)) :: session_task event]"
    using host by (auto simp: DestroySession_def)
  have kept: "s' = s\<lparr>ssLocal := ssLocal s', ssOwned := ssOwned s'\<rparr>"
    "\<And>n. map_of (ssLocal s') n = (if n = name then None else map_of (ssLocal s) n)"
    "\<And>n. n \<in> set (ssOwned s') \<longleftrightarrow> n \<noteq> name \<and> n \<in> set (ssOwned s)"
    using DestroySession_others [OF host(1,3,5)] by blast+
  have "sp' = sp\<lparr>ssKnown := ssKnown sp'\<rparr>" "\<And>i. i \<noteq> srSessionId r \<Longrightarrow> map_of (ssKnown sp') i = map_of (ssKnown sp) i"
    by (simp_all add: sp' on_session_withdraw_def)
  with found sent kept(1) show ?thesis by (simp add: kept(2,3))
qed

theorem destroyed_session_is_withdrawn_witness:
  "(let two = demo_hosting\<lparr>ssLocal := [(''game'', demo_srec), (''play'', demo_srec\<lparr>srSessionName := ''play'', srSessionId := ''T''\<rparr>)],
              ssOwned := [''game'', ''play'']\<rparr>;
        s' = fst (DestroySession (Some (Some ''game'')) 0 None two)
    in ''play'' \<in> set (ssOwned s') \<and> map_of (ssLocal s') ''play'' = Some (demo_srec\<lparr>srSessionName := ''play'', srSessionId := ''T''\<rparr>) \<and>
       map_of (ssLocal s') ''game'' = None) \<and>
   zsResults (Session_CollectSearchResults sdk_1_19 demo_by_id (fst (Sessions_OnDatagram (demo_session_env ''B'') sdk_1_19
      no_endpoint SessionWithdraw (enc_str ''S'') (sessions_init\<lparr>ssKnown := [(''S'', wire_srec demo_srec)]\<rparr>)))) = []"
proof -
  let ?play = "demo_srec\<lparr>srSessionName := ''play'', srSessionId := ''T''\<rparr>"
  define two where "two = demo_hosting\<lparr>ssLocal := [(''game'', demo_srec), (''play'', ?play)], ssOwned := [''game'', ''play'']\<rparr>"
  obtain s' ev where d: "DestroySession (Some (Some ''game'')) 0 None two = (s', ev)"
    by (cases "DestroySession (Some (Some ''game'')) 0 None two")
  have h: "session_inv two" "''game'' \<in> set (ssOwned two)" "map_of (ssLocal two) ''game'' = Some demo_srec" "srSessionId demo_srec \<noteq> []"
    by (simp_all add: demo_srec_ok)
      (auto simp: two_def session_inv_def demo_hosting_def sessions_init_def smap_ok_def sset_ok_def sinvites_inv_def demo_srec_def)
  let ?sp = "sessions_init\<lparr>ssKnown := [(''S'', wire_srec demo_srec)]\<rparr>"
  have p: "session_inv ?sp" "short (srSessionId demo_srec)"
    by (simp_all add: demo_srec_ok session_inv_def sessions_init_def smap_ok_def sinvites_inv_def short_def)
  have q: "zsBySessionId demo_by_id = srSessionId demo_srec" by (simp add: demo_by_id_def demo_srec_ok)
  have e: "hosted ?sp = []" "map_of (ssLocal two) ''play'' = Some ?play" "''play'' \<in> set (ssOwned two)"
    by (simp_all add: hosted_def sessions_init_def two_def)
  from destroyed_session_is_withdrawn [OF h d p q refl, of sdk_1_19 "demo_session_env ''B''" no_endpoint] show ?thesis
    unfolding Let_def two_def [symmetric] by (simp add: demo_srec_ok d e)
qed

section \<open>Configuration and identity\<close>

text \<open>C24: a configuration file reads back as it was written: for every file, with or without a
  byte-order mark and with either line ending, loading it once appends to each key exactly the
  values the file gives it, in the order of the file, whatever was loaded before and however the
  reader spells the names' case; and loading it again, under any path with the same canonical form,
  changes nothing.\<close>

theorem config_file_reads_back:
  assumes "doc_ok doc" "path \<noteq> []" "files path = Some (ini_text bom crlf doc)" "canon path \<notin> set (cfLoadedPaths c)"
    and c': "LoadFile files canon path src c = (ok, c')"
  shows "ok \<and> GetList sec key c' = GetList sec key c @ entries_at (Lower sec) (Lower key) (doc_entries doc) \<and>
    (canon other = canon path \<longrightarrow> LoadFile files canon other src' c' = (False, c'))"
proof -
  have ok: "ok" using assms by (simp add: LoadFile_def)
  have "values_of (Lower sec) (Lower key) (cfData c') = values_of (Lower sec) (Lower key) (cfData c) @
      map (\<lambda>v. \<lparr>cvText = v, cvPriority = source_priority src\<rparr>) (entries_at (Lower sec) (Lower key) (doc_entries doc))"
    using LoadFile_values [of path files "ini_text bom crlf doc" canon c "Lower sec" "Lower key" src] assms
    by (simp add: ini_text_entries)
  then have "GetList sec key c' = GetList sec key c @ entries_at (Lower sec) (Lower key) (doc_entries doc)"
    by (simp add: GetList_values comp_def)
  moreover have "LoadFile files canon other src' c' = (False, c')" if "canon other = canon path"
    using LoadFile_again [of canon path other files src c src'] that ok c' by simp
  ultimately show ?thesis using ok by blast
qed

definition demo_doc :: ini_doc where
  "demo_doc = [(''ecom'', [(''ownedcatalogid'', ''a b''), (''ownedcatalogid'', ''c'')])]"

theorem config_file_reads_back_witness:
  "GetList ''Ecom'' ''OwnedCatalogId'' (snd (LoadFile (\<lambda>_. Some (ini_text True True demo_doc)) id ''f'' Env config_init)) = [''a b'', ''c'']"
proof -
  have ok: "doc_ok demo_doc" by code_simp
  have e: "entries_at (Lower ''Ecom'') (Lower ''OwnedCatalogId'') (doc_entries demo_doc) = [''a b'', ''c'']" by code_simp
  have i: "GetList ''Ecom'' ''OwnedCatalogId'' config_init = []" by code_simp
  let ?r = "LoadFile (\<lambda>_. Some (ini_text True True demo_doc)) id ''f'' Env config_init"
  have "?r = (fst ?r, snd ?r)" by simp
  from config_file_reads_back [OF ok _ _ _ this, where sec = "''Ecom''" and key = "''OwnedCatalogId''" and other = "''f''" and bom = True and crlf = True]
  show ?thesis by (simp add: e i [unfolded config_init_def] config_init_def)
qed

section \<open>The platform\<close>

text \<open>C25: a node's state stays consistent: from its creation on, whatever bytes arrive from the network
  and at every tick whose consumer callbacks respect the same invariant, the peer directory, the
  peer-to-peer tables, the lobbies, the sessions and the voice rooms all satisfy their invariants.\<close>

theorem node_state_consistent:
  assumes "platform_inv c p"
    and run: "\<And>t st. platform_inv c (snd (snd st)) \<Longrightarrow> platform_inv c (snd (snd (teState (run t st))))"
  shows "platform_inv c (snd (platform_receive G K w src d p)) \<and>
    platform_inv c (snd (snd (snd (Tick run G K w (uo, k, p))))) \<and>
    platform_inv 1 (fst (Configure H now options (Platform_new H K relays) st ac))"
  by (intro conjI platform_inv_receive platform_inv_Tick platform_inv_Configure platform_inv_new assms)

definition demo_host :: host where
  "demo_host = \<lparr>hoFiles = (\<lambda>_. None), hoCanon = id, hoEnvConfig = [], hoDllConfig = [], hoMachine = ''box'',
     hoUser = ''joe'', hoSalt = [], hoLoss = None, hoSockets = \<lparr>osWinsock = True, osDiscSocket = True,
     osDiscBind = True, osUniSocket = True, osUniBind = True, osBoundPort = 4242\<rparr>\<rparr>"

definition demo_world :: "time_ns \<Rightarrow> world" where
  "demo_world t = \<lparr>wdNow = t, wdAdapters = []\<rparr>"

definition no_names :: init_names where
  "no_names = \<lparr>inName = [], inVersion = []\<rparr>"

definition no_callbacks :: "platform_task \<Rightarrow> tick_state \<Rightarrow> (platform_task, tick_state) task_effect" where
  "no_callbacks t q = \<lparr>teState = q, tePosts = [], teDelayed = []\<rparr>"

definition demo_keys :: key_codes where
  "demo_keys = \<lparr>kEosShift = 65536, kEosCtrl = 131072, kEosAlt = 262144, kEosMeta = 524288, kEosKeyMask = 65535,
     kEosF1 = 12, kEosF3 = 14, kEosF12 = 23, kEosSpace = 1, kEosBackspace = 2, kEosEscape = 3, kEosTab = 4\<rparr>"

theorem node_state_consistent_witness:
  "platform_inv 1 (snd (snd (snd (Tick no_callbacks no_names sdk_1_19 (demo_world 5)
     (ui_new demo_keys 0 0 None None (overlay_init True), 1, Platform_new demo_host sdk_1_19 0)))))"
proof -
  have run: "platform_inv 1 (snd (snd st)) \<Longrightarrow> platform_inv 1 (snd (snd (teState (no_callbacks t st))))" for t st
    by (simp add: no_callbacks_def)
  show ?thesis using node_state_consistent [of 1 _ no_callbacks, OF platform_inv_new run] by blast
qed

text \<open>C26: a datagram can only change the component its type names: peer-to-peer messages the connections
  and streams, lobby messages the lobbies, session messages the sessions, invitations the custom invites,
  discovery messages the peer directory; identity, configuration, presence and announcement timing are
  out of reach of the network.\<close>

theorem datagrams_are_routed:
  assumes "snd (platform_receive G K w src d p) = q"
  shows "(plP2P q \<noteq> plP2P p \<longrightarrow> plLobby q = plLobby p \<and> plSessions q = plSessions p \<and> plPeers q = plPeers p \<and> plCustom q = plCustom p) \<and>
    (plLobby q \<noteq> plLobby p \<longrightarrow> plSessions q = plSessions p \<and> plPeers q = plPeers p \<and> plCustom q = plCustom p) \<and>
    (plSessions q \<noteq> plSessions p \<longrightarrow> plPeers q = plPeers p \<and> plCustom q = plCustom p) \<and>
    (plPeers q \<noteq> plPeers p \<longrightarrow> plCustom q = plCustom p) \<and>
    (\<forall>from h payload. receive_datagram (plNode p) src d = Some (from, h, payload) \<longrightarrow>
      (plP2P q \<noteq> plP2P p \<longrightarrow> (\<exists>ty. mt_of_code (whType h) = Some ty \<and> concerns_p2p ty)) \<and>
      (plLobby q \<noteq> plLobby p \<longrightarrow> (\<exists>ty. mt_of_code (whType h) = Some ty \<and> concerns_lobby ty)) \<and>
      (plSessions q \<noteq> plSessions p \<longrightarrow> (\<exists>ty. mt_of_code (whType h) = Some ty \<and> concerns_session ty)) \<and>
      (plPeers q \<noteq> plPeers p \<longrightarrow> mt_of_code (whType h) \<in> {Some Hello, Some Goodbye}) \<and>
      (plCustom q \<noteq> plCustom p \<longrightarrow> mt_of_code (whType h) = Some CustomInvite)) \<and>
    plIdentity q = plIdentity p \<and> plConfig q = plConfig p \<and> plPresence q = plPresence p \<and>
    plLocalPresence q = plLocalPresence p \<and> plHelloDirty q = plHelloDirty p \<and> plLastHello q = plLastHello p"
proof (cases "receive_datagram (plNode p) src d")
  case None
  with assms show ?thesis by (simp add: platform_receive_def)
next
  case (Some m)
  obtain from1 h payload where m: "m = (from1, h, payload)" by (cases m)
  from assms Some m have "snd (Platform_OnDatagram G K w from1 h payload p) = q" by (simp add: platform_receive_def)
  note cases = Platform_OnDatagram_cases [OF this]
  have X: "plP2P q = plP2P X \<and> plLobby q = plLobby X \<and> plSessions q = plSessions X \<and> plPeers q = plPeers X \<and> plCustom q = plCustom X \<and>
      plIdentity q = plIdentity X \<and> plConfig q = plConfig X \<and> plPresence q = plPresence X \<and>
      plLocalPresence q = plLocalPresence X \<and> plHelloDirty q = plHelloDirty X \<and> plLastHello q = plLastHello X"
    if "outputs_only X q" for X using outputs_only_fields [OF that] by blast
  from cases show ?thesis
    by (elim disjE conjE) (((drule X)?, simp add: Some m)+)
qed

theorem datagrams_are_routed_witness:
  "plIdentity (snd (platform_receive no_names sdk_1_19 (demo_world 5) 7 [1, 2, 3] (Platform_new demo_host sdk_1_19 0))) =
   plIdentity (Platform_new demo_host sdk_1_19 0)"
  using datagrams_are_routed [OF refl, of no_names sdk_1_19 "demo_world 5" 7 "[1, 2, 3]" "Platform_new demo_host sdk_1_19 0"] by blast

text \<open>C27: presence reaches every peer: after a game commits a presence edit, its next tick announces it
  to the network, and a node that receives that announcement, from any address, reads of this user
  exactly what the game reads of itself: status, rich text, data records and product.\<close>

theorem presence_reaches_peers:
  assumes p1: "Platform_SetPresence G w user (Some m) cd cb p = p1"
    and local: "hello_ok (hello_of G p1)" "fits (enc_hello (hello_of G p1))" "ndRunning (plNode p)" "plProductId p \<noteq> []"
      "idProductStr (plIdentity p) \<noteq> []" "idEpicStr (plIdentity p) = e \<and> e \<noteq> [] \<and> idEpic (plIdentity p) = Some e"
      "0 \<le> prStatus (plPresence p1) \<and> prStatus (plPresence p1) < 256"
    and peer: "ndSenderTag (plNode p) \<noteq> ndSenderTag (plNode q)" "idEpic (plIdentity q) \<noteq> Some e" "peers_inv (plPeers q)"
      "\<forall>(k, i) \<in> set (plPeers q). k \<noteq> idProductStr (plIdentity p) \<longrightarrow> piEpic i \<noteq> Some e"
    and tick: "tick_announce G K w1 p1 = (ds, p2)"
  shows "\<exists>ip port frame. (ip, port, frame) \<in> set ds \<and>
    (\<forall>src w2 out q'. platform_receive G K w2 src frame q = (out, q') \<longrightarrow>
      CopyPresence (presence_env_of G q') K (Some e) True (plPresence q') =
        CopyPresence (presence_env_of G p1) K (Some e) True (plPresence p1) \<and>
      fst (CopyPresence (presence_env_of G q') K (Some e) True (plPresence q')) = EOS_Success)"
proof -
  from SetPresence_pushes [OF p1] have f: "plHelloDirty p1" "plLocalPresence p1 = pushed_presence (plPresence p1)"
    "plIdentity p1 = plIdentity p" "plProductId p1 = plProductId p" "plNode p1 = plNode p" by blast+
  have "carries p1 Hello (enc_hello (hello_of G p1)) ds"
    using tick_announce_carries [of p1 w1 G K] f(1,5) local(2,3) tick by simp
  then obtain ip port where d: "(ip, port, Frame (plNode p1) Hello (enc_hello (hello_of G p1)) (W_Size (enc_hello (hello_of G p1)))) \<in> set ds"
    by (auto simp: carries_def)
  have seen: "CopyPresence (presence_env_of G q') K (Some e) True (plPresence q') =
        CopyPresence (presence_env_of G p1) K (Some e) True (plPresence p1) \<and>
      fst (CopyPresence (presence_env_of G p1) K (Some e) True (plPresence p1)) = EOS_Success"
    if "platform_receive G K w2 src (Frame (plNode p1) Hello (enc_hello (hello_of G p1)) (W_Size (enc_hello (hello_of G p1)))) q = (out, q')"
    for src w2 out q'
    by (rule presence_seen_by_peer [OF _ _ _ _ _ _ _ _ _ _ _ _ _ that]) (use local peer f in simp_all)
  show ?thesis
  proof (intro exI, rule conjI, rule d, intro allI impI)
    fix src w2 out q'
    assume "platform_receive G K w2 src (Frame (plNode p1) Hello (enc_hello (hello_of G p1)) (W_Size (enc_hello (hello_of G p1)))) q = (out, q')"
    from seen [OF this]
    show "CopyPresence (presence_env_of G q') K (Some e) True (plPresence q') =
        CopyPresence (presence_env_of G p1) K (Some e) True (plPresence p1) \<and>
      fst (CopyPresence (presence_env_of G q') K (Some e) True (plPresence q')) = EOS_Success" by simp
  qed
qed

definition demo_platform :: "string \<Rightarrow> string \<Rightarrow> u32 \<Rightarrow> platform" where
  "demo_platform pid e tag = (Platform_new demo_host sdk_1_19 0)
     \<lparr>plIdentity := \<lparr>idEpicStr = e, idProductStr = pid, idDisplayName = ''n'', idEpic = Some e, idProduct = Some pid\<rparr>,
      plNode := node_init\<lparr>ndRunning := True, ndSenderTag := tag, ndUnicastPort := 4242\<rparr>, plProductId := ''game''\<rparr>"

definition demo_pmod :: PresenceModificationObj where
  "demo_pmod = PresenceMod_new\<lparr>pmRichText := Some ''Racing'', pmSetData := [(''map'', ''oval'')]\<rparr>"

lemma demo_platform_fields [simp]:
  "plIdentity (demo_platform pid e tag) = \<lparr>idEpicStr = e, idProductStr = pid, idDisplayName = ''n'', idEpic = Some e, idProduct = Some pid\<rparr>"
  "plNode (demo_platform pid e tag) = node_init\<lparr>ndRunning := True, ndSenderTag := tag, ndUnicastPort := 4242\<rparr>"
  "plProductId (demo_platform pid e tag) = ''game''" "plPeers (demo_platform pid e tag) = []"
  "plPresence (demo_platform pid e tag) = presence_init sdk_1_19"
  by (simp_all add: demo_platform_def Platform_new_def Let_def)

theorem presence_reaches_peers_witness:
  "\<exists>ds p2 ip port frame. tick_announce no_names sdk_1_19 (demo_world 9)
       (Platform_SetPresence no_names (demo_world 5) None (Some demo_pmod) 0 None (demo_platform ''A'' ''E'' 1)) = (ds, p2) \<and>
     (ip, port, frame) \<in> set ds"
proof -
  let ?p = "demo_platform ''A'' ''E'' 1" and ?q = "demo_platform ''B'' ''F'' 2"
  let ?p1 = "Platform_SetPresence no_names (demo_world 5) None (Some demo_pmod) 0 None ?p"
  obtain ds p2 where t: "tick_announce no_names sdk_1_19 (demo_world 9) ?p1 = (ds, p2)"
    by (cases "tick_announce no_names sdk_1_19 (demo_world 9) ?p1")
  have pr: "apply_presence_mod demo_pmod (presence_init sdk_1_19) =
      (presence_init sdk_1_19)\<lparr>prRichText := ''Racing'', prData := [(''map'', ''oval'')]\<rparr>"
    by (simp add: apply_presence_mod_def demo_pmod_def PresenceMod_new_def presence_init_def set_opt_def)
  note f = SetPresence_pushes [OF refl, of no_names "demo_world 5" None demo_pmod 0 None ?p, simplified, unfolded pr]
  have h: "hello_of no_names ?p1 = \<lparr>heProductId = ''A'', heEpicId = ''E'', heDisplayName = ''n'', hePresence =
      \<lparr>ppStatus = 1, ppRichText = ''Racing'', ppJoinInfo = [], ppProductId = ''game'', ppProductVersion = [],
       ppProductName = [], ppData = [(''map'', ''oval'')]\<rparr>\<rparr>"
    using f by (simp add: hello_of_def pushed_presence_def presence_init_def no_names_def sdk_1_19_def enum_byte_def)
  have ok: "hello_ok (hello_of no_names ?p1)" by (simp add: h hello_ok_def presence_ok_def short_def list_wf_def)
  have fit: "fits (enc_hello (hello_of no_names ?p1))"
    by (simp add: h fits_def enc_hello_def enc_hello_head_def enc_ext_def enc_list_def enc_kv_def wire_consts)
  have st: "0 \<le> prStatus (plPresence ?p1) \<and> prStatus (plPresence ?p1) < 256"
    using f by (simp add: presence_init_def sdk_1_19_def)
  show ?thesis
    using presence_reaches_peers [OF refl ok fit _ _ _ _ st _ _ _ _ t, of "''E''" ?q] t by fastforce
qed

text \<open>C28: a departure is announced once: when a peer says goodbye, each presence observer is told once
  and the peer from then on reads as offline with its last presence; hearing the goodbye again, or the
  liveness sweep finding the same peer later, tells nobody.\<close>

theorem departure_announced_once:
  assumes pid: "short pid" "pid \<noteq> []"
    and peer: "map_of (plPeers p) pid = Some i" "piOnline i" "piEpic i = Some e" "FindByEpic (plPeers p) (Some e) = Some i"
      "idEpic (plIdentity p) \<noteq> Some e" "peers_inv (plPeers p)"
    and q: "on_goodbye G w (enc_goodbye pid) p = q"
  shows "dPending (plDispatch q) = dPending (plDispatch p) @ presence_tasks p (idEpic (plIdentity p)) (Some e) \<and>
    online_set (plPeers q) = online_set (plPeers p) - {pid} \<and>
    on_goodbye G w' (enc_goodbye pid) q = q \<and>
    pid \<notin> set (map piProduct (fst (MarkStale now timeout (plPeers q))))"
proof -
  let ?d = "AList.update pid (i\<lparr>piOnline := False\<rparr>) (plPeers p)"
  have eq: "q = queue_tasks (offline_tasks p i) (p\<lparr>plPeers := ?d\<rparr>)"
    using q on_goodbye_eq [OF pid, of G w p] peer by simp
  then have d: "plPeers q = ?d" by (simp add: queue_tasks_def)
  have on: "online_set ?d = online_set (plPeers p) - {pid}"
    using peer(1) by (auto simp: online_set_def)
  have inv: "peers_inv ?d" using peer(1,6) peers_inv_map_of peers_inv_update by (metis PeerInfo.select_convs(1) PeerInfo.surjective PeerInfo.update_convs(7))
  have "pid \<notin> set (map piProduct (fst (MarkStale now timeout (plPeers q))))"
    using MarkStale_announced_set [OF inv, of now timeout] on by (simp add: d)
  moreover have "on_goodbye G w' (enc_goodbye pid) q = q" using on_goodbye_eq [OF pid, of G w' q] d by simp
  ultimately show ?thesis
    using eq d on peer(3) by (simp add: queue_tasks_def offline_tasks_def)
qed

definition demo_peer :: PeerInfo where
  "demo_peer = \<lparr>piProduct = ''B'', piEpic = Some ''F'', piDisplayName = ''b'', piEndpoint = \<lparr>epIp = 1, epPort = 2\<rparr>,
     piPresence = presence_default, piLastSeen = 3, piOnline = True\<rparr>"

theorem departure_announced_once_witness:
  "online_set (plPeers (on_goodbye no_names (demo_world 5) (enc_goodbye ''B'')
     ((demo_platform ''A'' ''E'' 1)\<lparr>plPeers := [(''B'', demo_peer)]\<rparr>))) = {}"
proof -
  let ?p = "(demo_platform ''A'' ''E'' 1)\<lparr>plPeers := [(''B'', demo_peer)]\<rparr>"
  have "map_of (plPeers ?p) ''B'' = Some demo_peer" "piOnline demo_peer" "piEpic demo_peer = Some ''F''"
    "FindByEpic (plPeers ?p) (Some ''F'') = Some demo_peer" "idEpic (plIdentity ?p) \<noteq> Some ''F''" "peers_inv (plPeers ?p)"
    by (simp_all add: demo_peer_def FindByEpic_def peers_inv_def)
  from departure_announced_once [OF _ _ this refl, of no_names "demo_world 5"]
  have "online_set (plPeers (on_goodbye no_names (demo_world 5) (enc_goodbye ''B'') ?p)) = online_set [(''B'', demo_peer)] - {''B''}"
    by (simp add: short_def)
  then show ?thesis by (auto simp: online_set_def split: if_splits)
qed

text \<open>C29: the process is initialised and shut down at most once each, in that order, whatever is called
  in between; a platform is created only while the process is initialised and none is alive; and the
  product name and version that presence falls back to are never set.\<close>

theorem process_initialised_once:
  assumes "process_run es s"
  shows "inits es \<le> 1 \<and> shutdowns es \<le> inits es \<and>
    psInitialized s = (inits es = 1 \<and> shutdowns es = 0) \<and>
    (process_step s (Created (Some a)) s' \<longrightarrow> inits es = 1 \<and> shutdowns es = 0 \<and> psPlatform s = None) \<and>
    (fst (EOS_Initialize (Some allocs) s) = EOS_Success \<longrightarrow> inits es = 0) \<and>
    psNames s = \<lparr>inName = [], inVersion = []\<rparr>"
proof -
  note h = process_history [OF assms]
  have "inits es = 1 \<and> shutdowns es = 0 \<and> psPlatform s = None" if "process_step s (Created (Some a)) s'"
    using process_step_flags [OF that] h by auto
  moreover have "inits es = 0" if "fst (EOS_Initialize (Some allocs) s) = EOS_Success"
    using that h by (auto simp: EOS_Initialize_def split: if_splits)
  ultimately show ?thesis using h by blast
qed

theorem process_initialised_once_witness:
  "\<exists>s. process_run [Initialized EOS_Success, ShutDown EOS_Success, Initialized EOS_AlreadyConfigured] s \<and> \<not> psInitialized s"
proof -
  let ?i = "snd (EOS_Initialize (Some (None, None, None)) process_init)"
  have i: "process_run ([] @ [Initialized EOS_Success]) ?i"
    by (rule run_step [OF run_start], rule p_init [of "Some (None, None, None)"])
      (simp add: EOS_Initialize_def process_init_def any_alloc_def)
  let ?s = "snd (EOS_Shutdown ?i)"
  have s: "process_run (([] @ [Initialized EOS_Success]) @ [ShutDown EOS_Success]) ?s"
    by (rule run_step [OF i], rule p_shutdown)
      (simp add: EOS_Shutdown_def EOS_Initialize_def process_init_def any_alloc_def)
  have t: "process_run ((([] @ [Initialized EOS_Success]) @ [ShutDown EOS_Success]) @ [Initialized EOS_AlreadyConfigured]) ?s"
    by (rule run_step [OF s], rule p_init [of "Some (None, None, None)"])
      (simp add: EOS_Shutdown_def EOS_Initialize_def process_init_def any_alloc_def)
  from process_initialised_once [OF t] have "\<not> psInitialized ?s" by (simp add: inits_def shutdowns_def)
  with t show ?thesis by auto
qed

section \<open>Local stores\<close>

text \<open>C30: unlocking achievements appends to the user's list exactly the ids that were not in it, each
  once and in the order given, and queues for each of them one call to every observer of the second
  kind (\<open>AddNotifyAchievementsUnlockedV2\<close>); the list never holds an id twice.  Observers of the first,
  deprecated kind (\<open>AddNotifyAchievementsUnlocked\<close>) are never called: whichever are registered, the
  state and the queued calls are the same.  The comment at \<open>Achievements.cpp:209\<close> says both are fired.\<close>

theorem achievements_unlock_once:
  assumes "achievements_inv s" "uaUserId opt = Some pid" "UnlockAchievements True (Some opt) cd cb s = (s', ev)"
  shows "achievements_inv s' \<and>
    unlocked_of q s' = unlocked_of q s @ (if q = pid then fresh_ids (given_ids opt) (unlocked_of pid s) else []) \<and>
    ev = unlocked_events s (Some pid) (fresh_ids (given_ids opt) (unlocked_of pid s)) @
         complete cb (\<lambda>f. UnlockDone f cd EOS_Success (Some pid) (uaCount opt)) \<and>
    UnlockAchievements True (Some opt) cd cb (s\<lparr>acNotifyV1 := old\<rparr>) = (s'\<lparr>acNotifyV1 := old\<rparr>, ev)"
  using UnlockAchievements_exact [OF assms(2,3)] achievements_inv_Unlock [OF assms(1), of True "Some opt" cd cb] assms(3)
    UnlockAchievements_ignores_V1 [OF assms(3), of old]
  by simp

theorem achievements_unlock_once_witness:
  "(let opt = \<lparr>uaUserId = Some ''A'', uaIds = Some [Some ''x'', None, Some ''y'', Some ''x''], uaCount = 4\<rparr>;
        s = achievements_init\<lparr>acNotifyV2 := [\<lparr>neId = 1, neFn = 8, neCd = 9\<rparr>]\<rparr>
    in unlocked_of ''A'' (fst (UnlockAchievements True (Some opt) 0 None s)) = [''x'', ''y''] \<and>
       snd (UnlockAchievements True (Some opt) 0 None (s\<lparr>acNotifyV1 := [\<lparr>neId = 2, neFn = 6, neCd = 7\<rparr>]\<rparr>)) =
         [EvPost (UnlockedV2Cb 8 9 (Some ''A'') ''x'' kUnlockTime), EvPost (UnlockedV2Cb 8 9 (Some ''A'') ''y'' kUnlockTime)])"
proof -
  let ?opt = "\<lparr>uaUserId = Some ''A'', uaIds = Some [Some ''x'', None, Some ''y'', Some ''x''], uaCount = 4\<rparr>"
  let ?s = "achievements_init\<lparr>acNotifyV2 := [\<lparr>neId = 1, neFn = 8, neCd = 9\<rparr>]\<rparr>"
  have i: "achievements_inv ?s" by (simp add: achievements_inv_def achievements_init_def unlocked_of_def)
  obtain s' ev where u: "UnlockAchievements True (Some ?opt) 0 None ?s = (s', ev)"
    by (cases "UnlockAchievements True (Some ?opt) 0 None ?s")
  have c: "c_str ''x'' = ''x''" "c_str ''y'' = ''y''" by (simp_all add: c_str_def NUL_def)
  from achievements_unlock_once [where opt = ?opt and pid = "''A''" and q = "''A''" and old = "[\<lparr>neId = 2, neFn = 6, neCd = 7\<rparr>]", OF i _ u]
  have "unlocked_of ''A'' s' = [''x'', ''y'']"
    and "snd (UnlockAchievements True (Some ?opt) 0 None (?s\<lparr>acNotifyV1 := [\<lparr>neId = 2, neFn = 6, neCd = 7\<rparr>]\<rparr>)) =
      [EvPost (UnlockedV2Cb 8 9 (Some ''A'') ''x'' kUnlockTime), EvPost (UnlockedV2Cb 8 9 (Some ''A'') ''y'' kUnlockTime)]"
    by (simp_all add: given_ids_def unlocked_of_def achievements_init_def unlocked_events_def complete_def c)
  then show ?thesis by (simp only: Let_def u fst_conv simp_thms)
qed

section \<open>What arrives is typed\<close>

text \<open>C31: whatever bytes a lobby or session announcement carries, the record read from them is well typed:
  every flag is a boolean, every enumeration fits its byte, every attribute holds a value of the type it
  names and nothing else, and lists and strings are no longer than their counters can say.  Such a record
  can be announced again, as a node does that takes a lobby over, and is then read unchanged.\<close>

theorem received_records_are_typed:
  assumes "short payload"
    and "rec = fst (DeserializeRecord K (reader_init payload))"
    and "srec = fst (Session_DeserializeRecord K (reader_init payload))"
  shows "record_ok K rec \<and> srecord_ok K srec \<and>
    DeserializeRecord K (reader_init (SerializeRecord K rec)) = (rec, rdx (SerializeRecord K rec) []) \<and>
    fst (Session_DeserializeRecord K (reader_init (Session_SerializeRecord K srec))) = wire_srec srec"
proof -
  have ok: "record_ok K rec" "srecord_ok K srec"
    using assms Deserialize_typed [of "reader_init payload" K] Session_Deserialize_typed [of "reader_init payload" K] by simp_all
  from ok lobby_record.run [OF ok(1), of "[]" "[]"] Session_Deserialize_Serialize [OF ok(2), of "[]" "[]"]
  show ?thesis by (simp add: reader_init_rdx)
qed

theorem received_records_are_typed_witness:
  "record_ok sdk_1_19 (fst (DeserializeRecord sdk_1_19 (reader_init [1, 0, 0, 0, 65, 255])))"
  using received_records_are_typed [OF _ refl refl, of "[1, 0, 0, 0, 65, 255]" sdk_1_19] by (simp add: short_def)

section \<open>The player data store\<close>

text \<open>C32: a transfer ends.  If the application's write callback stays within its buffer and delivers at
  least one byte whenever it asks to go on, the queued write returns after at most 200 MiB + 1 rounds; the
  result is exactly what the rounds handed over, refused as too large exactly beyond 200 MiB, and the
  store changes, at the one file written, exactly on success.\<close>

theorem transfer_ends:
  assumes "\<forall>a a' data wr. apWrite app w chunk a = (a', data, wr) \<longrightarrow>
      length data \<le> chunk \<and> (wr = ContinueWriting \<longrightarrow> data \<noteq> [])"
  shows "\<exists>a' s' calls res n.
    run_storage_task app plat (WriteFileTask h cb cd local (Some w) chunk name EOS_Success) (a, s) = Some (a', s', calls) \<and>
    n \<le> Suc kMaxFileBytes \<and>
    (let b = deliveries (apWrite app w) chunk n a in
      (length b > kMaxFileBytes \<longleftrightarrow> res = EOS_PlayerDataStorage_FileSizeTooLarge) \<and>
      calls = opt_call cb (\<lambda>f. WriteFileCb f cd res local name) \<and>
      contents s' = (if res = EOS_Success then (contents (EnsureLoadedLocked plat s))((id_text local, name) \<mapsto> b) else contents s))"
proof -
  have "\<exists>a' res b n. upload_loop (apWrite app w) chunk [] a = Some (a', Ended res b) \<and>
      n \<le> Suc kMaxFileBytes - length ([] :: bytes) \<and> b = [] @ deliveries (apWrite app w) chunk n a"
    by (rule upload_loop_total) (use assms in blast, simp)
  then obtain a' res b n where u: "upload_loop (apWrite app w) chunk [] a = Some (a', Ended res b)"
      and n: "n \<le> Suc kMaxFileBytes" "b = deliveries (apWrite app w) chunk n a" by force
  have "length b > kMaxFileBytes \<longleftrightarrow> res = EOS_PlayerDataStorage_FileSizeTooLarge"
    using upload_loop_sound [OF u] by (simp add: upload_sound_def)
  then have "let b = deliveries (apWrite app w) chunk n a; s1 = (if res = EOS_Success
        then store_file plat (id_text local) name b (EnsureLoadedLocked plat s) else s) in
      run_storage_task app plat (WriteFileTask h cb cd local (Some w) chunk name EOS_Success) (a, s) =
        Some (a', set_request_state h res s1, opt_call cb (\<lambda>f. WriteFileCb f cd res local name)) \<and>
      n \<le> Suc kMaxFileBytes \<and> (length b > kMaxFileBytes \<longleftrightarrow> res = EOS_PlayerDataStorage_FileSizeTooLarge) \<and>
      contents (set_request_state h res s1) =
        (if res = EOS_Success then (contents (EnsureLoadedLocked plat s))((id_text local, name) \<mapsto> b) else contents s)"
    using u n by (simp add: upload_def contents_store_file Let_def)
  then show ?thesis unfolding Let_def by blast
qed

definition demo_app :: "nat app" where
  "demo_app = \<lparr>apWrite = (\<lambda>w chunk a. if a = 0 then (0, [], CompleteRequest)
        else if chunk = 0 then (a, [], FailWrite) else (a - 1, [7], ContinueWriting)),
     apRead = (\<lambda>r b a. (a, OtherRead))\<rparr>"

theorem transfer_ends_witness:
  "\<exists>r. run_storage_task demo_app None (WriteFileTask 0 None 0 (Some ''A'') (Some 1) 16 ''f'' EOS_Success)
      (3, storage_start []) = Some r"
proof -
  have "\<forall>a a' data wr. apWrite demo_app 1 16 a = (a', data, wr) \<longrightarrow> length data \<le> 16 \<and> (wr = ContinueWriting \<longrightarrow> data \<noteq> [])"
    by (auto simp: demo_app_def split: if_splits)
  from transfer_ends [where app = demo_app and w = 1 and chunk = 16, OF this, where plat = None and h = 0 and cb = None and
      cd = 0 and local = "Some ''A''" and name = "''f''" and a = 3 and s = "storage_start []"]
  show ?thesis by (elim exE conjE) (rule exI)
qed

text \<open>C33: with the mirror on, a file that was written is found by the next process: in every state the
  store reaches, when a write completed with some bytes and the process ends, a read in the next run
  delivers those bytes, and every other file is as it was.\<close>

theorem saved_files_survive_restart:
  assumes reach: "storage_reach app plat s"
    and ok: "name_ok (id_text local)" "name_ok name"
    and w: "run_storage_task app plat (WriteFileTask h cb cd local dcb chunk name chk) (a, s) = Some (a1, s1, calls)"
    and u: "upload app dcb chunk chk a = Some (a1, Ended EOS_Success b)"
  shows "(\<exists>a3 s3 more. run_storage_task app plat (ReadFileTask h2 cb2 cd2 local (Some r) name) (a2, storage_start (psDisk s1)) =
      Some (a3, s3, ReadDataCb r cd2 local name b # more)) \<and>
    (\<forall>k. k \<noteq> (id_text local, name) \<longrightarrow>
      contents (EnsureLoadedLocked plat (storage_start (psDisk s1))) k = contents (EnsureLoadedLocked plat s) k)"
proof -
  let ?s = "store_file plat (id_text local) name b (EnsureLoadedLocked plat s)"
  have s1: "s1 = set_request_state h EOS_Success ?s" using w u by simp
  have "storage_step app plat s s1" by (rule storage_step.run_task [OF w]) (simp add: ok)
  with reach have r1: "storage_reach app plat s1" by (rule storage_reach.step)
  have root: "PersistRoot plat \<noteq> []" using storage_inv_root [OF storage_reach_inv [OF reach]] .
  then have "EnsureLoadedLocked plat s1 = s1"
    using EnsureLoaded_root by (intro EnsureLoaded_loaded) (simp add: s1 store_file_def)
  with restart_keeps_files [OF r1] have "contents (EnsureLoadedLocked plat (storage_start (psDisk s1))) = contents ?s"
    by (simp add: s1)
  then have c: "contents (EnsureLoadedLocked plat (storage_start (psDisk s1))) =
      (contents (EnsureLoadedLocked plat s))((id_text local, name) \<mapsto> b)" by (simp add: contents_store_file)
  show ?thesis by (cases "apRead app r b a2") (simp add: c lookup_contents Let_def)
qed

definition demo_plat :: live_platform where
  "demo_plat = Some (config_init\<lparr>cfData := [(''storage'', [(''persist'', [\<lparr>cvText = ''1'', cvPriority = 1\<rparr>])])]\<rparr>, ''/c'')"

theorem saved_files_survive_restart_witness:
  "\<exists>a1 s1 calls a3 s3 more.
     run_storage_task demo_app demo_plat (WriteFileTask 0 None 0 (Some ''A'') (Some 1) 16 ''f'' EOS_Success) (1, storage_start []) =
       Some (a1, s1, calls) \<and>
     run_storage_task demo_app demo_plat (ReadFileTask 0 None 0 (Some ''A'') (Some 2) ''f'') (0, storage_start (psDisk s1)) =
       Some (a3, s3, ReadDataCb 2 0 (Some ''A'') ''f'' [7] # more)"
proof -
  have "Lower ''storage'' = ''storage''" "Lower ''Storage'' = ''storage''" "Lower ''Persist'' = ''persist''" "Lower ''1'' = ''1''"
    by code_simp+
  then have "PersistRoot demo_plat = ''/c/eosemu_pds''"
    by (simp add: PersistRoot_def demo_plat_def GetBool_def GetString_def Config_Find_def config_init_def Let_def)
  then have reach: "storage_reach demo_app demo_plat (storage_start [])"
    by (intro storage_reach.first_run disk_ok_empty) simp
  have up: "upload demo_app (Some 1) 16 EOS_Success 1 = Some (0, Ended EOS_Success [7])"
    by (simp add: upload_def upload_loop.simps demo_app_def kMaxFileBytes_def)
  obtain s1 calls where
    w: "run_storage_task demo_app demo_plat (WriteFileTask 0 None 0 (Some ''A'') (Some 1) 16 ''f'' EOS_Success) (1, storage_start []) =
       Some (0, s1, calls)" using up by (simp add: Let_def)
  from saved_files_survive_restart [OF reach _ _ w up, of 0 None 0 2 0] w show ?thesis
    by (auto simp: name_ok_def id_text_def)
qed

section \<open>Voice\<close>

text \<open>C34: a game that keeps, for each voice room, a roster from the events it is sent knows the
  participants of every room exactly: after any sequence of ticks, joins, leaves and other room calls
  the roster of a room is the set of its participants, and empty for a room that does not exist.\<close>

theorem voice_rosters_are_exact:
  assumes "rtc_reach me s R"
  shows "R room = (case map_of (rtRooms s) room of None \<Rightarrow> {} | Some r \<Rightarrow> set (rmParticipants r))"
  using roster_is_exact [OF assms] by (simp add: roster_def)

definition demo_room :: "unit rtc_options" where
  "demo_room = \<lparr>rxApiVersion = 1, rxLocalUserId = Some ''A'', rxRoomName = Some ''r'', rxParticipantId = None, rxValue = ()\<rparr>"

theorem voice_rosters_are_exact_witness:
  "heard (snd (JoinRoom ''A'' 1 (Some demo_room) 0 (Some 7) rtc_start)) (\<lambda>_. {}) ''r'' = {''A''}"
proof -
  let ?t = "fst (JoinRoom ''A'' 1 (Some demo_room) 0 (Some 7) rtc_start)"
  have "rtc_reach ''A'' ?t (heard (snd (JoinRoom ''A'' 1 (Some demo_room) 0 (Some 7) rtc_start)) (\<lambda>_. {}))"
    by (rule rtc_reach.step [OF rtc_reach.start rtc_step.joins])
  from voice_rosters_are_exact [OF this, of "''r''"] show ?thesis
    by (simp add: JoinRoom_def complete_call_def room_call_def JoinCustomRoom_def rtc_start_def demo_room_def
        room_of_def VersionInRange_def IsLobbyManagedRoom_def)
qed

text \<open>C35: voice follows the lobbies: after a tick, what a game has heard of the room of every lobby it
  is a member of that asks for voice is exactly that lobby's members, the lobby system manages no other
  rooms, and a second tick over the same lobbies says nothing more.\<close>

theorem voice_rooms_follow_lobbies:
  assumes l: "lobby_reach K me l" and r: "rtc_reach me s R"
    and tick: "RTC_PumpTick me (SnapshotRTCRooms l) s = (s', evs)"
  shows "(\<forall>i \<in> set (lbMemberOf l). \<forall>rec. map_of (lbKnown l) i = Some rec \<and> lrRTCRoomEnabled rec \<noteq> EOS_FALSE \<longrightarrow>
      heard evs R (''rtc_'' @ i) = lmProductId ` set (lrMembers rec)) \<and>
    (\<forall>n. IsLobbyManagedRoom n s' \<longrightarrow> (\<exists>i \<in> set (lbMemberOf l). n = ''rtc_'' @ i)) \<and>
    RTC_PumpTick me (SnapshotRTCRooms l) s' = (s', [])"
proof -
  have inv: "lobby_inv me l" by (rule lobby_inv_reach [OF l])
  then have d: "distinct (map rvRoomName (SnapshotRTCRooms l))"
    by (intro distinct_views) (auto simp: lobby_inv_def sset_ok_def strict_sorted_iff)
  note rs = roster_is_exact [OF r]
  have h: "heard evs R = roster (rtRooms s')" using pump_heard [of s "SnapshotRTCRooms l" me] rs tick views_ok_lobbies by simp
  have q: "RTC_PumpTick me (SnapshotRTCRooms l) s' = (s', [])"
    using pump_quiet [of s "SnapshotRTCRooms l" me] rs tick views_ok_lobbies d by simp
  from voice_follows_lobbies [OF inv, of s] rs tick h q show ?thesis by simp
qed

definition demo_voice :: lobbies where
  "demo_voice = fst (CreateLobby (demo_lobby_env ''A'') sdk_1_19 (Some ((demo_create ''A'')\<lparr>clEnableRTCRoom := 1\<rparr>)) 0 None lobbies_init)"

theorem voice_rooms_follow_lobbies_witness:
  "\<exists>i \<in> set (lbMemberOf demo_voice).
     heard (snd (RTC_PumpTick ''A'' (SnapshotRTCRooms demo_voice) rtc_start)) (\<lambda>_. {}) (''rtc_'' @ i) = {''A''}"
proof -
  have "lobby_step sdk_1_19 ''A'' lobbies_init demo_voice" unfolding demo_voice_def
    by (rule lobby_step.create) (auto simp: demo_lobby_env_def demo_create_def)
  then have r: "lobby_reach sdk_1_19 ''A'' demo_voice" by (auto simp: lobby_reach_def)
  note V = voice_rooms_follow_lobbies [OF r rtc_reach.start prod.collapse [symmetric]]
  obtain i s1 where i: "NewLobbyId (demo_lobby_env ''A'') ''A'' lobbies_init = (i, s1)" by force
  have "\<exists>rec. i \<in> set (lbMemberOf demo_voice) \<and> map_of (lbKnown demo_voice) i = Some rec \<and>
      lrRTCRoomEnabled rec \<noteq> EOS_FALSE \<and> lmProductId ` set (lrMembers rec) = {''A''}"
    by (simp add: demo_voice_def CreateLobby_def demo_create_def VersionInRange_def sdk_1_19_def i Let_def put_known_def
        created_record_def HasField_def Member_new_def EOS_FALSE_def EOS_TRUE_def)
  with V show ?thesis by fastforce
qed

section \<open>Logging in\<close>

text \<open>C36: what an observer hears of the login status is a history: over any sequence of logins and
  logouts, whose logins pass a completion, the status changes it is told of link up, each changes the
  status, the first starts from the initial status and the last ends in the current one.\<close>

theorem login_status_history:
  assumes "\<forall>e \<in> set es. completed e" "auth_history query p es s = (s', ts)" "auStatusChanged q = [e]"
  shows "chain_from (status_of s)
    (concat (map (\<lambda>t. List.map_filter (\<lambda>c. case c of AuthStatusCb f cd u a b \<Rightarrow> Some (a, b) | _ \<Rightarrow> None) (run_auth_task p t q)) ts))
    (status_of s')"
  using announcements_chain [OF assms(1,2)] announced_heard [OF assms(3), of p] by simp

theorem login_status_history_witness:
  "chain_from EOS_LS_NotLoggedIn [(EOS_LS_NotLoggedIn, EOS_LS_LoggedIn), (EOS_LS_LoggedIn, EOS_LS_NotLoggedIn)] EOS_LS_NotLoggedIn"
proof -
  let ?p = "demo_platform ''A'' ''E'' 1"
  let ?es = "[LoginCall None 0 (Some 1), LoginCall None 0 (Some 1), LogoutCall None 0 None]"
  let ?q = "auth_init\<lparr>auStatusChanged := [\<lparr>neId = 1, neFn = 2, neCd = 3\<rparr>]\<rparr>"
  from login_status_history [of ?es 0 ?p auth_init _ _ ?q, OF _ prod.collapse [symmetric]]
  show ?thesis
    by (simp add: completed_def Auth_Login_def Auth_Logout_def Let_def complete_def auth_init_def status_of_def
        FireStatusChanged_def map_filter_simps)
qed

section \<open>The overlay\<close>

text \<open>C37: the overlay and the game agree: while the game has paused it, the overlay is hidden, and a tick
  shows nothing and says nothing; otherwise a tick leaves nothing to announce, telling every observer the
  visibility and the input mode once if they are news.\<close>

theorem overlay_settings_are_announced:
  assumes "ui_reach C uo" "PumpTick w uo cp = (uo', cp', evs)"
  shows "(uiPaused (fst uo) \<longrightarrow> \<not> uiVisible (fst uo) \<and> \<not> uiVisible (fst uo') \<and> evs = []) \<and>
    (\<not> uiPaused (fst uo) \<longrightarrow> \<not> settings_changed uo' \<and>
      evs = (if uiPendingInitialNotify (fst uo) \<or> uiVisible (fst uo') \<noteq> uiLastVisible (fst uo) \<or>
                IsExclusiveInput (snd uo') \<noteq> uiLastExclusive (fst uo)
             then map (\<lambda>e. EvPost (DisplaySettingsCb (neFn e) (neCd e) (uiVisible (fst uo')) (IsExclusiveInput (snd uo'))))
                    (uiDisplayNotifies (fst uo))
             else []))"
proof (intro conjI impI)
  assume p: "uiPaused (fst uo)"
  from ui_reach_inv [OF assms(1)] p show "\<not> uiVisible (fst uo)" by (simp add: ui_inv_def)
  with paused_tick [OF p, of w cp] assms(2) show "\<not> uiVisible (fst uo')" "evs = []" by simp_all
next
  assume p: "\<not> uiPaused (fst uo)"
  from unpaused_tick [OF p, of w cp] assms(2) show "\<not> settings_changed uo'"
    "evs = (if uiPendingInitialNotify (fst uo) \<or> uiVisible (fst uo') \<noteq> uiLastVisible (fst uo) \<or>
                IsExclusiveInput (snd uo') \<noteq> uiLastExclusive (fst uo)
             then map (\<lambda>e. EvPost (DisplaySettingsCb (neFn e) (neCd e) (uiVisible (fst uo')) (IsExclusiveInput (snd uo'))))
                    (uiDisplayNotifies (fst uo))
             else [])" by simp_all
qed

theorem overlay_settings_are_announced_witness:
  "\<exists>uo' cp'. PumpTick (demo_world 5) (snd (PauseSocialOverlay True (ui_new demo_keys 0 0 None None (overlay_init True))))
     (1, demo_platform ''A'' ''E'' 1) = (uo', cp', []) \<and> \<not> uiVisible (fst uo')"
proof -
  let ?u = "snd (PauseSocialOverlay True (ui_new demo_keys 0 0 None None (overlay_init True)))"
  obtain uo' cp' evs where t: "PumpTick (demo_world 5) ?u (1, demo_platform ''A'' ''E'' 1) = (uo', cp', evs)" by (metis prod_cases3)
  have "ui_reach demo_keys ?u" by (rule ui_reach.step [OF ui_reach.fresh ui_step.pause])
  moreover have "uiPaused (fst ?u)" by (simp add: PauseSocialOverlay_def Let_def split: prod.split)
  ultimately show ?thesis using overlay_settings_are_announced [OF _ t, of demo_keys] t by auto
qed

text \<open>C38: However a game uses API blocks - allocating them, attaching to them, writing anywhere inside what it
  was given, releasing them, in any order and under any change of the allocator functions - releasing a block hands
  each of its allocations, the attachments from the newest to the oldest and then the block itself, to the
  release function exactly once, takes exactly them off the live allocations, and leaves every other byte
  and every other block in place.\<close>

theorem api_blocks_are_released_once:
  assumes "source_ok A" and "mem_reach A (h, B)" and "b \<in> set B"
  shows "\<exists>h'. FreeApiBlock T (abBlock b) h = Some h' \<and>
    hpFreed h' = hpFreed h @ map (\<lambda>p. (p, tpRelease T)) (owned b) \<and> distinct (owned b) \<and>
    set (owned b) \<subseteq> fst ` set (hpLive h) \<and> hpLive h' = filter (\<lambda>e. fst e \<notin> set (owned b)) (hpLive h) \<and>
    hpBytes h' = hpBytes h \<and> (\<forall>c \<in> set (remove1 b B). block_rep h' c)"
proof -
  have inv: "mem_inv (h, B)" by (rule mem_reach_inv [OF assms(2,1)])
  then have wf: "heap_wf h" and rep: "block_rep h b" and d: "distinct (owned b)"
    using assms(3) distinct_owned by (auto simp: mem_inv_def)
  obtain h' where h': "FreeApiBlock T (abBlock b) h = Some h'" "hpBytes h' = hpBytes h"
      "hpLive h' = filter (\<lambda>e. fst e \<notin> set (owned b)) (hpLive h)"
      "hpFreed h' = hpFreed h @ map (\<lambda>p. (p, tpRelease T)) (owned b)"
    using FreeApiBlock_exact [OF wf rep d, of T] by blast
  have "mem_inv (h', remove1 b B)"
    by (rule mem_inv_step [OF assms(1) mem_step.give_back [OF assms(3) h'(1)] inv])
  then have "\<forall>c \<in> set (remove1 b B). block_rep h' c" by (simp add: mem_inv_def)
  moreover have "set (owned b) \<subseteq> fst ` set (hpLive h)" using owned_live [OF rep] live_mem [OF wf] by force
  ultimately show ?thesis using h' d by blast
qed

definition demo_heap :: heap where
  "demo_heap = \<lparr>hpBytes = (\<lambda>_. 205), hpLive = [], hpFreed = []\<rparr>"

lemma demo_request: "request_ok 40 8" "request_ok 4 1"
  by (auto simp: request_ok_def RoundUpPow2_def intro!: exI [of _ "4 :: nat"])

lemma demo_space:
  "fst (Alloc bump_source ClearAllocators (kHeaderBytes + RoundUpPow2 8 + 40) 16 demo_heap) = 4096"
  "hpLive (snd (Alloc bump_source ClearAllocators (kHeaderBytes + RoundUpPow2 8 + 40) 16 demo_heap)) = [(4096, None, 72)]"
  "hpLive h = [(4096, None, 72)] \<Longrightarrow> fst (Alloc bump_source ClearAllocators (kNodeBytes + RoundUpPow2 1 + 4) 16 h) = 4176"
  "hpLive h = [(4096, None, 72)] \<Longrightarrow>
     hpLive (snd (Alloc bump_source ClearAllocators (kNodeBytes + RoundUpPow2 1 + 4) 16 h)) = [(4176, None, 28), (4096, None, 72)]"
  by (simp_all add: Alloc_def ClearAllocators_def PlatformAlloc_def take_from_def bump_source_def RoundUpPow2_def
      kHeaderBytes_def kNodeBytes_def demo_heap_def)

lemma demo_align:
  "align_up (4096 + kHeaderBytes) (RoundUpPow2 8) = 4112"
  "align_up (4176 + kNodeBytes) (RoundUpPow2 1) = 4192"
  by (simp_all add: align_up_def kHeaderBytes_def kNodeBytes_def RoundUpPow2_def)

lemma demo_alloc:
  assumes "AllocApiBlock bump_source ClearAllocators 40 8 demo_heap = Some (block, h)"
  shows "block = 4112 \<and> hpLive h = [(4096, None, 72)]"
  using demo_space(1,2) demo_align(1) assms
  by (auto simp: AllocApiBlock_def Let_def store64_def clear_bytes_def dest!: write_bytes_fields split: prod.splits Option.bind_splits if_splits)

lemma demo_attach:
  assumes "hpLive h = [(4096, None, 72)]" "AttachBytes bump_source ClearAllocators 4112 4 1 h = Some (p, h')"
  shows "p = 4192 \<and> hpLive h' = [(4176, None, 28), (4096, None, 72)]"
  using demo_space(3,4) [OF assms(1)] demo_align(2) assms(2)
  by (auto simp: AttachBytes_def Let_def store64_def clear_bytes_def dest!: write_bytes_fields split: prod.splits Option.bind_splits)

text \<open>A block of forty bytes and four bytes attached to it.\<close>

lemma demo_blocks:
  obtains h b where "mem_reach bump_source (h, [b])" "owned b = [4176, 4096]" "hpFreed h = []"
    "hpLive h = [(4176, None, 28), (4096, None, 72)]"
proof -
  have r: "RoundUpPow2 8 = 2 ^ 4" "RoundUpPow2 1 = 2 ^ 4" by (simp_all add: RoundUpPow2_def)
  have wf: "heap_wf demo_heap" by (simp add: heap_wf_def demo_heap_def)
  obtain h base where h: "AllocApiBlock bump_source ClearAllocators 40 8 demo_heap = Some (4112, h)" "heap_wf h"
      "block_rep h \<lparr>abBlock = 4112, abBase = base, abSize = 40, abNodes = []\<rparr>"
      "hpLive h = [(base, None, 72)]" "hpLive h = [(4096, None, 72)]" "hpFreed h = []"
    by (rule AllocApiBlock_cases [OF wf bump_source_ok _ r(1), of 40 ClearAllocators])
      (auto simp: demo_heap_def ClearAllocators_def dest: demo_alloc [unfolded demo_heap_def ClearAllocators_def])
  let ?b = "\<lparr>abBlock = 4112, abBase = 4096, abSize = 40, abNodes = []\<rparr> :: api_block"
  have b: "block_rep h ?b" using h(3,4,5) by simp
  have d: "distinct (owned ?b)" by (simp add: owned_def)
  have k: "(4 :: nat) < 64" "8 + 2 ^ 4 + unat (4 :: u64) < 2 ^ 64" by simp_all
  obtain p h1 where h1: "AttachBytes bump_source ClearAllocators 4112 4 1 h = Some (p, h1)" "p \<noteq> 0"
      "hpLive h1 = [(4176, None, 28), (4096, None, 72)]" "hpFreed h1 = []"
    by (rule AttachBytes_cases [OF h(2) bump_source_ok k(1) r(2) k(2) b d, of ClearAllocators])
      (auto simp: h(6) dest: demo_attach [OF h(5)])
  have "mem_reach bump_source (demo_heap, [])" using wf by (rule mem_reach.start)
  then have "mem_reach bump_source (h, [?b])"
    using mem_step.allocate [OF demo_request(1) h(1), of "[]"] h(5) by (auto intro: mem_reach.step)
  then have "mem_reach bump_source (h1, [?b\<lparr>abNodes := [(4176, p, 4)]\<rparr>])"
    using mem_step.attach [OF demo_request(2) _ _ h1(2), of ?b "[?b]" bump_source ClearAllocators h h1] h1
    by (auto intro: mem_reach.step)
  then show thesis using that h1(3,4) by (auto simp: owned_def)
qed

theorem api_blocks_are_released_once_witness:
  "\<exists>h b h'. mem_reach bump_source (h, [b]) \<and> FreeApiBlock ClearAllocators (abBlock b) h = Some h' \<and>
    hpFreed h' = [(4176, None), (4096, None)] \<and> hpLive h' = filter (\<lambda>e. fst e \<notin> {4176, 4096}) (hpLive h)"
proof -
  obtain h b where r: "mem_reach bump_source (h, [b])" "owned b = [4176, 4096]" "hpFreed h = []" by (rule demo_blocks)
  have "b \<in> set [b]" by simp
  from api_blocks_are_released_once [OF bump_source_ok r(1) this, of ClearAllocators] r show ?thesis
    by (auto simp: ClearAllocators_def)
qed

text \<open>C39: Whatever has been allocated before, \<open>AllocApiBlock\<close> never touches memory it does not own: it hands
  out null and changes nothing, or an aligned block of zeroes that shares no byte with anything the game
  may write to, keeps every byte of it, and keeps every earlier block releasable.\<close>

theorem api_block_layout:
  assumes "source_ok A" and "mem_reach A (h, B)" and "request_ok len align"
  shows "\<exists>block h'. AllocApiBlock A T len align h = Some (block, h') \<and>
    (if block = 0 then h' = h
     else unat (RoundUpPow2 align) dvd unat block \<and> 16 dvd unat block \<and>
       bytes_at block (unat len) h' = replicate (unat len) 0 \<and>
       (\<forall>b \<in> set B. block_rep h' b \<and>
          (\<forall>a n. writable b a n \<longrightarrow> apart a n block (unat len) \<and> bytes_at a n h' = bytes_at a n h)))"
proof -
  have inv: "mem_inv (h, B)" by (rule mem_reach_inv [OF assms(2,1)])
  then have wf: "heap_wf h" by (simp add: mem_inv_def)
  from assms(3) obtain k where k: "k < 64" "RoundUpPow2 align = 2 ^ k" "16 + 2 ^ k + unat len < 2 ^ 64" by (rule request_okE)
  from wf assms(1) k show ?thesis
  proof (cases rule: AllocApiBlock_cases [where T = T])
    case refused
    then show ?thesis by simp
  next
    case (given block base h')
    have a16: "16 dvd (2 :: nat) ^ k" by (rule RoundUpPow2_least [OF k(2,1)])
    have "mem_inv (h', \<lparr>abBlock = block, abBase = fst (hd (hpLive h')), abSize = unat len, abNodes = []\<rparr> # B)"
      by (rule mem_inv_step [OF assms(1) mem_step.allocate [OF assms(3) given(1,2)] inv])
    then have reps: "\<forall>b \<in> set B. block_rep h' b" by (simp add: mem_inv_def)
    have "apart a n block (unat len) \<and> bytes_at a n h' = bytes_at a n h" if b: "b \<in> set B" and w: "writable b a n" for b a n
    proof -
      have "block_rep h b" using inv b by (simp add: mem_inv_def)
      then obtain p m where p: "p \<in> set (owned b)" "live h p = Some m" "inside a n p m" using w by (rule writable_owned)
      have pb: "p \<noteq> base" using p(2) given(4) by auto
      have same: "same_on h h' p" by (rule given(6) [OF pb])
      obtain l where l: "live h' base = Some l" "unat base + 16 \<le> unat block" "unat block + unat len \<le> unat base + l"
        using given(7) by (auto simp: block_rep_def)
      have "inside block (unat len) base l" using l(2,3) unfolding inside_def by linarith
      moreover have "apart p m base l"
        using heap_wf_apart [OF given(5) _ l(1) pb] same_on_live [OF same] p(2) by simp
      ultimately show ?thesis using apart_inside p(3) same_on_bytes [OF wf same p(2,3)] by blast
    qed
    then show ?thesis using given reps k a16 unat_exp64 [OF k(1)] by (auto intro: dvd_trans)
  qed
qed

lemma demo_next:
  assumes "hpLive h = [(4176, None, 28), (4096, None, 72)]" "AllocApiBlock bump_source ClearAllocators 4 1 h = Some (block, h')"
  shows "block = 4224"
proof -
  have "fst (Alloc bump_source ClearAllocators (kHeaderBytes + RoundUpPow2 1 + 4) 16 h) = 4208"
    using assms(1) by (simp add: Alloc_def ClearAllocators_def PlatformAlloc_def take_from_def bump_source_def RoundUpPow2_def kHeaderBytes_def)
  moreover have "align_up (4208 + kHeaderBytes) (RoundUpPow2 1) = 4224"
    by (simp add: align_up_def kHeaderBytes_def RoundUpPow2_def)
  ultimately show ?thesis
    using assms(2) by (auto simp: AllocApiBlock_def Let_def split: prod.splits Option.bind_splits)
qed

theorem api_block_layout_witness:
  "\<exists>h b h'. mem_reach bump_source (h, [b]) \<and> AllocApiBlock bump_source ClearAllocators 4 1 h = Some (4224, h') \<and>
    bytes_at 4224 4 h' = replicate 4 0 \<and> block_rep h' b \<and> owned b = [4176, 4096]"
proof -
  obtain h b where r: "mem_reach bump_source (h, [b])" "owned b = [4176, 4096]"
      "hpLive h = [(4176, None, 28), (4096, None, 72)]" by (rule demo_blocks)
  obtain block h' where a: "AllocApiBlock bump_source ClearAllocators 4 1 h = Some (block, h')"
      "block \<noteq> 0 \<Longrightarrow> bytes_at block (unat (4 :: u64)) h' = replicate (unat (4 :: u64)) 0 \<and> block_rep h' b"
    using api_block_layout [OF bump_source_ok r(1) demo_request(2), of ClearAllocators] by (auto split: if_splits)
  moreover have "block = 4224" by (rule demo_next [OF r(3) a(1)])
  ultimately show ?thesis using r by auto
qed

text \<open>C40: After any history of logging calls a message reaches the game exactly when a callback is set and
  the message is at least as severe as the level the game set last for its category - or for all categories, or
  the warning level when it set none since the last reset - and it arrives with the name of its category, its
  level, and its text cut to 1023 characters; a category outside the table is never filtered.\<close>

theorem messages_reach_the_game:
  "to_game (snd (Log K ts cat lvl text (log_state K h))) =
    (case callback_of h of
       None \<Rightarrow> []
     | Some f \<Rightarrow> if cat_ok K cat \<and> level_of K cat h < lvl then []
                 else [ToGame f (CategoryName K cat) (take 1023 text) lvl])"
  by (rule Log_to_game [OF log_state_rel])

end
